(* ===== verification/Ntb_Prelude.thy ===== *)
theory Ntb_Prelude
  imports Main "HOL-Library.Word"
begin

text \<open>
  Shared vocabulary of the development: machine integers of the C sources, the outcome of a C call
  that may fault, loads through a pointer, bounded C strings, and the generic lemmas that the
  component theories use.

  A C function that reads or writes the agent's global state is a HOL function into
  \<open>outcome\<close>: \<open>Inl\<close> of a \<open>fault\<close> when the call runs into a
  failed \<^verbatim>\<open>RTE_ASSERT\<close> or into undefined behaviour, and \<open>Inr\<close> of its return value
  (with the new state) otherwise. Error codes are ordinary return values.
\<close>

unbundle bit_operations_syntax

type_synonym u8 = "8 word"
type_synonym u16 = "16 word"
type_synonym u32 = "32 word"
type_synonym u64 = "64 word"
type_synonym addr = nat

text \<open>
  Why a C call can fail to return: the address 0 is \<^verbatim>\<open>NULL\<close>, \<open>ProcessExit\<close> is a call of
  \<^verbatim>\<open>rte_exit\<close> or \<^verbatim>\<open>exit\<close>, 
  \<open>InvalidArgument\<close> and \<open>LogicError\<close> are exceptions of the C++ parts, and \<open>Deadlock\<close> is a lock of a
  mutex that the caller already holds.
\<close>

datatype fault =
    NullDeref
  | UseAfterFree
  | OutOfBounds
  | UninitPointer
  | AssertFailed
  | ProcessExit
  | InvalidArgument
  | LogicError
  | Deadlock

type_synonym 'a outcome = "fault + 'a"

definition bindR :: "'a outcome \<Rightarrow> ('a \<Rightarrow> 'b outcome) \<Rightarrow> 'b outcome" where
  "bindR m f = (case m of Inl e \<Rightarrow> Inl e | Inr x \<Rightarrow> f x)"

definition load :: "(addr \<rightharpoonup> 'a) \<Rightarrow> addr \<Rightarrow> 'a outcome" where
  "load h p = (if p = 0 then Inl NullDeref
     else case h p of None \<Rightarrow> Inl UseAfterFree | Some x \<Rightarrow> Inr x)"

definition read_at :: "'a list \<Rightarrow> nat \<Rightarrow> 'a outcome" where
  "read_at xs i = (if i < length xs then Inr (xs ! i) else Inl OutOfBounds)"

definition write_at :: "'a list \<Rightarrow> nat \<Rightarrow> 'a \<Rightarrow> 'a list outcome" where
  "write_at xs i x = (if i < length xs then Inr (xs[i := x]) else Inl OutOfBounds)"

definition put_bytes :: "nat \<Rightarrow> 'a list \<Rightarrow> 'a list \<Rightarrow> 'a list" where
  "put_bytes off bs buf = take off buf @ bs @ drop (off + length bs) buf"

text \<open>
  \<^verbatim>\<open>strcmp(buf, s) == 0\<close> for a fixed-size buffer and a terminated argument \<open>s\<close> (given
  without its terminator): the comparison walks both until the first difference or the
  terminator, and reads past the buffer when the buffer holds no terminator.
\<close>

fun strcmp_eq :: "char list \<Rightarrow> char list \<Rightarrow> bool outcome" where
  "strcmp_eq [] s = Inl OutOfBounds"
| "strcmp_eq (c # buf) [] = Inr (c = CHR 0x00)"
| "strcmp_eq (c # buf) (d # s) = (if c \<noteq> d then Inr False else strcmp_eq buf s)"

text \<open>\<^verbatim>\<open>strncpy(dst, s, n)\<close>: at most \<open>n\<close> characters, zero padded, not always terminated.\<close>

definition strncpy :: "nat \<Rightarrow> char list \<Rightarrow> char list" where
  "strncpy n s = take n (s @ replicate n (CHR 0x00))"

text \<open>Byte order conversion on a little-endian host.\<close>

definition bswap32 :: "u32 \<Rightarrow> u32" where
  "bswap32 x = push_bit 24 (take_bit 8 x) OR push_bit 16 (take_bit 8 (drop_bit 8 x))
     OR push_bit 8 (take_bit 8 (drop_bit 16 x)) OR drop_bit 24 x"

named_theorems outcome_simps \<open>rewriting of calls that return\<close>

lemma bindR_Inl [simp, outcome_simps]: "bindR (Inl e) f = Inl e"
  by (simp add: bindR_def)

lemma bindR_Inr [simp, outcome_simps]: "bindR (Inr x) f = f x"
  by (simp add: bindR_def)

lemma bindR_eq_Inr: "bindR m f = Inr y \<longleftrightarrow> (\<exists>x. m = Inr x \<and> f x = Inr y)"
  by (cases m) auto

lemma bindR_cong: "(\<And>x. m = Inr x \<Longrightarrow> f x = g x) \<Longrightarrow> bindR m f = bindR m g"
  by (cases m) simp_all

text \<open>A property of all results with which a computation can end.\<close>

definition ends_in :: "('a \<Rightarrow> bool) \<Rightarrow> 'a outcome \<Rightarrow> bool" where
  "ends_in P m \<longleftrightarrow> (\<forall>x. m = Inr x \<longrightarrow> P x)"

lemma ends_in_simps [simp]:
  "ends_in P (Inl f)" "ends_in P (Inr x) \<longleftrightarrow> P x" "ends_in P (bindR m g) \<longleftrightarrow> ends_in (\<lambda>x. ends_in P (g x)) m"
  by (auto simp: ends_in_def bindR_eq_Inr)

lemma ends_inI: "(\<And>x. m = Inr x \<Longrightarrow> P x) \<Longrightarrow> ends_in P m"
  by (simp add: ends_in_def)

lemma ends_inD: "ends_in P m \<Longrightarrow> m = Inr x \<Longrightarrow> P x"
  by (simp add: ends_in_def)

lemma ends_in_mono: "ends_in P m \<Longrightarrow> (\<And>x. P x \<Longrightarrow> Q x) \<Longrightarrow> ends_in Q m"
  by (simp add: ends_in_def)

lemma bindR_InrE [elim]:
  assumes "bindR m f = Inr y"
  obtains x where "m = Inr x" and "f x = Inr y"
  using assms by (auto simp: bindR_eq_Inr)

lemma bindR_assoc: "bindR (bindR m f) g = bindR m (\<lambda>x. bindR (f x) g)"
  by (cases m) auto

lemma load_Some [simp]: "h p = Some x \<Longrightarrow> p \<noteq> 0 \<Longrightarrow> load h p = Inr x"
  by (simp add: load_def)

lemma load_Null [simp]: "load h 0 = Inl NullDeref"
  by (simp add: load_def)

lemma load_None [simp]: "h p = None \<Longrightarrow> p \<noteq> 0 \<Longrightarrow> load h p = Inl UseAfterFree"
  by (simp add: load_def)

lemma load_eq_Inr: "load h p = Inr x \<longleftrightarrow> p \<noteq> 0 \<and> h p = Some x"
  by (auto simp: load_def split: option.splits)

lemma read_at_in [simp]: "i < length xs \<Longrightarrow> read_at xs i = Inr (xs ! i)"
  by (simp add: read_at_def)

lemma read_at_out [simp]: "length xs \<le> i \<Longrightarrow> read_at xs i = Inl OutOfBounds"
  by (simp add: read_at_def)

lemma write_at_in [simp]: "i < length xs \<Longrightarrow> write_at xs i x = Inr (xs[i := x])"
  by (simp add: write_at_def)

lemma write_at_out [simp]: "length xs \<le> i \<Longrightarrow> write_at xs i x = Inl OutOfBounds"
  by (simp add: write_at_def)

lemma length_put_bytes [simp]:
  "off + length bs \<le> length buf \<Longrightarrow> length (put_bytes off bs buf) = length buf"
  by (simp add: put_bytes_def)

lemma length_strncpy [simp]: "length (strncpy n s) = n"
  by (simp add: strncpy_def)

lemma strcmp_eq_terminated:
  assumes "CHR 0x00 \<notin> set s" and "CHR 0x00 \<notin> set t"
  shows "strcmp_eq (t @ CHR 0x00 # pad) s = Inr (t = s)"
  using assms
proof (induction t arbitrary: s)
  case Nil
  then show ?case by (cases s) auto
next
  case (Cons c t)
  then show ?case by (cases s) auto
qed

lemma strncpy_short:
  assumes "length s < n"
  shows "strncpy n s = s @ CHR 0x00 # replicate (n - Suc (length s)) (CHR 0x00)"
proof -
  have "n - length s = Suc (n - Suc (length s))" using assms by arith
  then show ?thesis using assms by (simp add: strncpy_def)
qed

lemma strncpy_long: "n \<le> length s \<Longrightarrow> strncpy n s = take n s"
  by (simp add: strncpy_def)

lemma strcmp_eq_overread: "strcmp_eq s (s @ t) = Inl OutOfBounds"
  by (induction s) auto

lemma bit_bswap32:
  "bit (bswap32 x) n \<longleftrightarrow> n < 32 \<and>
    (if n < 8 then bit x (24 + n) else if n < 16 then bit x (8 + n)
     else if n < 24 then bit x (n - 8) else bit x (n - 24))"
proof -
  consider "n < 8" | "8 \<le> n" "n < 16" | "16 \<le> n" "n < 24" | "24 \<le> n" "n < 32" | "32 \<le> n"
    by linarith
  then show ?thesis
    by cases (auto simp: bswap32_def bit_simps dest: bit_imp_le_length)
qed

lemma bswap32_bswap32 [simp]: "bswap32 (bswap32 x) = x"
  by (rule bit_word_eqI) (auto simp: bit_bswap32)

lemma bswap32_eq_iff [simp]: "bswap32 x = bswap32 y \<longleftrightarrow> x = y"
  by (metis bswap32_bswap32)

text \<open>Counters kept in a C \<^verbatim>\<open>uint32_t\<close>.\<close>

lemma unat_u32_less [simp]: "unat (x :: u32) < 4294967296"
  using unsigned_less [of x] by simp

lemma unat_u32_Suc: "Suc (unat x) < 2 ^ 32 \<Longrightarrow> unat (x + 1 :: u32) = Suc (unat x)"
  by (simp add: unat_word_ariths)

lemma unat_u32_pred: "x \<noteq> (0 :: u32) \<Longrightarrow> unat (x - 1) = unat x - 1"
  by (simp add: unat_minus_one)

lemma card_insert_dom_upd:
  "finite (dom m) \<Longrightarrow> m k = None \<Longrightarrow> card (dom (m(k \<mapsto> v))) = Suc (card (dom m))"
  by (simp add: domIff)

lemma card_dom_delete:
  "finite (dom m) \<Longrightarrow> m k = Some v \<Longrightarrow> card (dom (m(k := None))) = card (dom m) - 1"
  by (simp add: domI)

subsection \<open>A table of heap objects\<close>

text \<open>
  The agent keeps each kind of object in two places: an allocation, and a hash table entry that
  holds the pointer. \<open>linked m h nx\<close>: every entry of the table \<open>m\<close> points to a live object of the
  heap \<open>h\<close> below the allocation bound \<open>nx\<close>, no two entries share one, and no live object is
  missing from the table.
\<close>

definition linked :: "('k \<rightharpoonup> addr) \<Rightarrow> (addr \<rightharpoonup> 'a) \<Rightarrow> addr \<Rightarrow> bool" where
  "linked m h nx \<longleftrightarrow> 0 < nx
    \<and> (\<forall>k p. m k = Some p \<longrightarrow> p \<noteq> 0 \<and> p < nx \<and> p \<in> dom h)
    \<and> (\<forall>k k' p. m k = Some p \<longrightarrow> m k' = Some p \<longrightarrow> k = k')
    \<and> dom h \<subseteq> ran m"

lemma linked_load: "linked m h nx \<Longrightarrow> m k = Some p \<Longrightarrow> \<exists>x. h p = Some x \<and> p \<noteq> 0 \<and> p < nx"
  by (auto simp: linked_def dom_def)

lemma linked_inj: "linked m h nx \<Longrightarrow> m k = Some p \<Longrightarrow> m k' = Some p \<Longrightarrow> k = k'"
  by (auto simp: linked_def)

lemma linked_key: "linked m h nx \<Longrightarrow> h p = Some x \<Longrightarrow> \<exists>k. m k = Some p"
  by (auto simp: linked_def ran_def)

lemma linked_fresh: "linked m h nx \<Longrightarrow> nx \<le> p \<Longrightarrow> h p = None"
  by (auto simp: linked_def ran_def dom_def subset_iff)
    (metis linorder_not_less not_None_eq)

lemma linked_mono: "linked m h nx \<Longrightarrow> nx \<le> nx' \<Longrightarrow> linked m h nx'"
  by (auto simp: linked_def) (meson order.strict_trans2)

lemma linked_put: "linked m h nx \<Longrightarrow> h p = Some y \<Longrightarrow> linked m (h(p \<mapsto> x)) nx"
  by (auto simp: linked_def insert_absorb domI)

lemma linked_new:
  assumes "linked m h nx" and "m k = None" and "nx < nx'"
  shows "linked (m(k \<mapsto> nx)) (h(nx \<mapsto> x)) nx'"
proof -
  have "m k' \<noteq> Some nx" for k' using assms(1) by (auto simp: linked_def)
  then show ?thesis
    using assms by (auto simp: linked_def) (meson order.strict_trans)
qed

lemma linked_drop:
  assumes l: "linked m h nx" and k: "m k = Some p"
  shows "linked (m(k := None)) (h(p := None)) nx"
proof -
  have inj: "k' = k" if "m k' = Some p" for k' using linked_inj [OF l] k that by blast
  have "dom h - {p} \<subseteq> ran (m(k := None))"
  proof
    fix q assume q: "q \<in> dom h - {p}"
    then obtain k' where "m k' = Some q" using l by (auto simp: linked_def ran_def)
    with q k have "(m(k := None)) k' = Some q" by auto
    then show "q \<in> ran (m(k := None))" by (rule ranI)
  qed
  with l inj show ?thesis by (auto simp: linked_def split: if_splits)
qed

lemma card_dom_drop:
  "finite (dom m) \<Longrightarrow> m k = Some v \<Longrightarrow> card (dom m) = Suc (card (dom (m(k := None))))"
  by (simp add: domI card_Suc_Diff1 del: card_Diff_insert)

end
