(* ===== verification/Ntb_Errno.thy ===== *)
theory Ntb_Errno
  imports Ntb_Prelude
begin

text \<open>
  The error codes of \<^verbatim>\<open>agent/ntb_errno.h\<close> and the event counters of \<^verbatim>\<open>agent/stat.h\<close>. Both headers
  list their names once in a macro (\<^verbatim>\<open>foreach_ntb_err_code\<close>, \<^verbatim>\<open>foreach_swf_evt_type\<close>) and generate
  an enumeration from it: the list is kept here as data and the code of a name is computed from
  its position, the way the C enumerations do.
\<close>

definition foreach_ntb_err_code :: "(string \<times> string) list" where
  "foreach_ntb_err_code =
    [(''NTB_COMM_SUCCESS'', ''success''),
     (''NTB_COMM_FAILURE'', ''failure''),
     (''NTB_COMM_NOMEM'', ''out of memory''),
     (''NTB_COMM_NOENT'', ''allocate memory failed''),
     (''NTB_COMM_INVAL_PARAM'', ''invalid parameter''),
     (''NTB_REGIST_REPORT_CHANNEL_FAIL'', ''ntb regist report channel fail''),
     (''NTB_VRF_NAME_INVALID'', ''VRF name is invalid''),
     (''NTB_VRF_NOENT'', ''VRF was used up''),
     (''NTB_VRF_EXIST'', ''VRF exists already''),
     (''NTB_VRF_INVAL_VRFID'', ''VRF id is invalid''),
     (''NTB_VRF_IP_TYPE_NOT_SUPPORTED'', ''VRF ip type not supported''),
     (''NTB_TUNNEL_NO_FOUND'', ''Tunnel is not found''),
     (''NTB_TUNNEL_INUSED'', ''Tunnel is in used''),
     (''NTB_TUNNEL_MAP_NOSPACE'', ''Tunnel mapping has no space''),
     (''NTB_TUNNEL_BUNDLE_NOSPACE'', ''Tunnel bundle has no space''),
     (''NTB_TUNNEL_BUNDLE_EXIST'', ''Tunnel bundle alreay exist''),
     (''NTB_TUNNEL_BUNDLE_NO_EXIST'', ''Tunnel bundle not exist''),
     (''NTB_TUNNEL_CLEAR_STAT_ERR'', ''Tunnel clear stat err''),
     (''NTB_TUNNEL_GET_STAT_ERR'', ''Tunnel get stat err''),
     (''NTB_EG_TUNNEL_MAP_NOSPACE'', ''Egress Tunnel mapping has no space''),
     (''NTB_ND_PROXY_NOSPACE'', ''ND proxy has no space''),
     (''NTB_ND_PROXY_NOEXIST'', ''ND proxy is not found''),
     (''NTB_NEIGH_ENTRY_NO_FOUND'', ''neighbour entry not found''),
     (''NTB_IPV4_PREFIXLEN_OUT_RANGE'', ''ipv4 prefix length out of range''),
     (''NTB_IPV4_ROUTETYPE_NO_SAME'', ''ipv4 route type not same''),
     (''NTB_VXLAN_VNI_INVALID'', ''vni is invalid''),
     (''NTB_VXLAN_REMOTEIP_NOSET'', ''vxlan tunnel remote is not set''),
     (''NTB_VXLAN_DSCP_OUT_RANGE'', ''vxlan tunnel DSCP is out of range''),
     (''NTB_TGRE_VPCID_INVALID'', ''vpcid is invalid''),
     (''NTB_ROUTE_NH_ALLOC_OID_FAIL'', ''route nexthop alloc oid faild''),
     (''NTB_ROUTE_TYPE_CONFLICT'', ''route type conflict''),
     (''NTB_ROUTE_ECMP_OUT_RANGE'', ''route ecmp is out of range''),
     (''NTB_VRF_NOT_EXIST'', ''VRF does not exist''),
     (''NTB_ROUTE_PREFIX_NOSPACE'', ''route prefix has no space''),
     (''NTB_ROUTE_PREFIX_PER_VRF_NOSPACE'', ''route prefix perf vrf no space''),
     (''NTB_ROUTE_RESULT_NOSPACE'', ''route result has no space''),
     (''NTB_ROUTE_NEXTHOP_NOT_FOUND'', ''route nexthop is not found''),
     (''NTB_ROUTE_NEXTHOP_ECMP_NOSPACE'', ''route nexhop ecmp has not space''),
     (''NTB_GRPC_PARAMS_INVALID'', ''grpc msg params invalid ''),
     (''NTB_ROUTE_PREFIX_NOT_FOUND'', ''route prefix is not found''),
     (''NTB_LOAD_TO_P4_FAIL'', ''load to p4 fail''),
     (''NTB_TUNNEL_OBJ_EXCEED_SPEC'', ''tunnel obj exceed spec''),
     (''NTB_VXLAN_BD_OBJ_EXCEED_SPEC'', ''vxlan bundle obj exceed spec''),
     (''NTB_FIB_HOST_OBJ_EXCEED_SPEC'', ''vxlan fib host obj exceed spec''),
     (''NTB_FIB_LPM_OBJ_EXCEED_SPEC'', ''vxlan fib lpm obj exceed spec''),
     (''NTB_NHOP_OBJ_EXCEED_SPEC'', ''vxlan nhop obj exceed spec''),
     (''NTB_EGRESS_TUNNEL_OBJ_EXCEED_SPEC'', ''egress tunnel obj exceed spec''),
     (''NTB_INNER_NEIGH_OBJ_EXCEED_SPEC'', ''inner neigh obj exceed spec''),
     (''NTB_ECMP_OBJ_EXCEED_SPEC'', ''ecmp obj exceed spec''),
     (''NTB_MROUTE_OBJ_EXCEED_SPEC'', ''mroute obj exceed spec''),
     (''NTB_IPV6_NOT_SUPPORT'', ''ntb not support ipv6''),
     (''NTB_HOSTIF_NO_SPACE'', ''ntb hostif no space''),
     (''NTB_HOSTIF_NO_FOUND'', ''ntb hostif no found''),
     (''NTB_HOSTIF_IP_SET_KERNEL_FAIL'', ''ntb set hostif ip to kernel faild''),
     (''NTB_HOSTIF_IP_UNSET_KERNEL_FAIL'', ''ntb unset hostif ip to kernel faild''),
     (''NTB_HOSTIF_IP_ALREADY_SET'', ''ntb hostif ip already set''),
     (''NTB_TERMVIP_NO_SPACE'', ''ntb terminate vip no space''),
     (''NTB_FORWARD_VIP_ALREADY_SET'', ''ntb forward vip already set''),
     (''NTB_FORWARD_VIP_NO_SET'', ''ntb forward vip not set''),
     (''NTB_LO_DEV_NO_SET'', ''ntb loopback device not set''),
     (''NTB_CAPUTRE_DEV_ALREADY_SET'', ''ntb capture device already set''),
     (''NTB_CAPUTRE_DEV_NOT_SUPPORTED'', ''ntb capture device not supported''),
     (''NTB_CNTL_IP_ALREADY_SET'', ''ntb cntl ip already set''),
     (''NTB_ONLINE_ALREADY'', ''ntb already online''),
     (''NTB_GRESIP_NO_SPACE'', ''ntb gre sip no space''),
     (''NTB_KERNEL_INTERFACE_NO_EXIST'', ''ntb kernel inteface not exist''),
     (''NTB_CAPTURE_SUCCESS'', ''ntb start/stop capture success''),
     (''NTB_CAPTURE_INVAL_PARAM'', ''ntb capture params invalid!''),
     (''NTB_CAPTURE_NO_VRF'', ''ntb vrf is no exist!''),
     (''NTB_CAPTURE_ENTRY_EXIST'', ''ntb capture already exist!''),
     (''NTB_CAPTURE_UPDATE_TABLE_FAIL'', ''ntb acl table update fail!''),
     (''NTB_CAPTURE_SET_PACKET_NUM_FAIL'', ''ntb capture set pcaket nums fail!''),
     (''NTB_CAPTURE_START_TCPDUMP_FAIL'', ''ntb capture start tcpdump fail!''),
     (''NTB_CAPTURE_STOP_TCPDUMP_FAIL'', ''ntb capture stop tcpdump fail!''),
     (''NTB_CAPTURE_ALREADY_STOP'', ''ntb capture already stop!''),
     (''NTB_CAPTURE_NO_FOUND_IN_ACL'', ''ntb capture entry no found in acl table!''),
     (''NTB_CAPTURE_DEL_TABLE_FAIL'', ''ntb capture delete acl table fail!''),
     (''NTB_ADD_ACL_ENTRY_FAIL'', ''ntb add a new acl table entry fail!''),
     (''NTB_DEL_ACL_ENTRY_FAIL'', ''ntb del an acl table entry fail!''),
     (''NTB_GET_ACL_STATIS_FAIL'', ''ntb acl malloc fail!''),
     (''NTB_MALLOC_ACL_FAIL'', ''ntb acl malloc fail!''),
     (''NTB_ERRNO_END'', ''terminator of error define'')]"

fun name_idx :: "string \<Rightarrow> (string \<times> 'a) list \<Rightarrow> nat" where
  "name_idx n [] = 0"
| "name_idx n ((m, d) # xs) = (if n = m then 0 else Suc (name_idx n xs))"

definition NTB_ERRNO_START :: int where
  "NTB_ERRNO_START = 0"

definition ntb_err_code :: "string \<Rightarrow> int" where
  "ntb_err_code n = - (int (name_idx n foreach_ntb_err_code) + NTB_ERRNO_START)"

definition NTB_COMM_SUCCESS :: int where
  "NTB_COMM_SUCCESS = ntb_err_code ''NTB_COMM_SUCCESS''"

definition NTB_COMM_NOMEM :: int where
  "NTB_COMM_NOMEM = ntb_err_code ''NTB_COMM_NOMEM''"

definition NTB_COMM_INVAL_PARAM :: int where
  "NTB_COMM_INVAL_PARAM = ntb_err_code ''NTB_COMM_INVAL_PARAM''"

definition NTB_VRF_NOENT :: int where
  "NTB_VRF_NOENT = ntb_err_code ''NTB_VRF_NOENT''"

definition NTB_TUNNEL_INUSED :: int where
  "NTB_TUNNEL_INUSED = ntb_err_code ''NTB_TUNNEL_INUSED''"

definition NTB_TUNNEL_MAP_NOSPACE :: int where
  "NTB_TUNNEL_MAP_NOSPACE = ntb_err_code ''NTB_TUNNEL_MAP_NOSPACE''"

definition NTB_IPV4_ROUTETYPE_NO_SAME :: int where
  "NTB_IPV4_ROUTETYPE_NO_SAME = ntb_err_code ''NTB_IPV4_ROUTETYPE_NO_SAME''"

definition NTB_ROUTE_NH_ALLOC_OID_FAIL :: int where
  "NTB_ROUTE_NH_ALLOC_OID_FAIL = ntb_err_code ''NTB_ROUTE_NH_ALLOC_OID_FAIL''"

definition NTB_VRF_NOT_EXIST :: int where
  "NTB_VRF_NOT_EXIST = ntb_err_code ''NTB_VRF_NOT_EXIST''"

definition NTB_ROUTE_PREFIX_NOSPACE :: int where
  "NTB_ROUTE_PREFIX_NOSPACE = ntb_err_code ''NTB_ROUTE_PREFIX_NOSPACE''"

definition NTB_ROUTE_RESULT_NOSPACE :: int where
  "NTB_ROUTE_RESULT_NOSPACE = ntb_err_code ''NTB_ROUTE_RESULT_NOSPACE''"

definition NTB_ROUTE_NEXTHOP_ECMP_NOSPACE :: int where
  "NTB_ROUTE_NEXTHOP_ECMP_NOSPACE = ntb_err_code ''NTB_ROUTE_NEXTHOP_ECMP_NOSPACE''"

definition NTB_ROUTE_PREFIX_NOT_FOUND :: int where
  "NTB_ROUTE_PREFIX_NOT_FOUND = ntb_err_code ''NTB_ROUTE_PREFIX_NOT_FOUND''"

definition NTB_LOAD_TO_P4_FAIL :: int where
  "NTB_LOAD_TO_P4_FAIL = ntb_err_code ''NTB_LOAD_TO_P4_FAIL''"

definition NTB_ERRNO_END :: int where
  "NTB_ERRNO_END = ntb_err_code ''NTB_ERRNO_END''"

definition NTB_ERR_CODE_VALID :: "int \<Rightarrow> bool" where
  "NTB_ERR_CODE_VALID e \<longleftrightarrow> NTB_ERRNO_END \<le> e \<and> e \<le> - NTB_ERRNO_START"

text \<open>Codes of the C library that the agent returns as they are.\<close>

definition ENOENT :: int where "ENOENT = 2"
definition ENOMEM :: int where "ENOMEM = 12"
definition EFAULT :: int where "EFAULT = 14"
definition ENOSPC :: int where "ENOSPC = 28"

text \<open>The event types of the forwarding statistics, with their error mark.\<close>

definition foreach_swf_evt_type :: "(string \<times> bool) list" where
  "foreach_swf_evt_type =
    [(''NETIO_MBUF_ALLOC_FAILED'', True),
     (''NETIO_PKT_RECV_FAILED'', True),
     (''NETIO_PKT_RECV_SUCCEED'', False),
     (''IP_TUNNEL_TYPE_UNSUPPORTED'', True),
     (''VXLAN_RX_NOT_UDP'', True),
     (''VXLAN_RX_NOT_VXLAN_PORT'', True),
     (''VXLAN_NOT_MAP_VRF'', True),
     (''VXLAN_TX_MBUF_PREPARE_NOSPACE'', True),
     (''VXLAN_TX_SEND_FAILED'', True),
     (''TGRE_INNER_NOT_IP4'', True),
     (''TGRE_NOT_MAP_VRF'', True),
     (''TGRE_TX_MBUF_PREPARE_NOSPACE'', True),
     (''TGRE_TX_SEND_FAILED'', True),
     (''OVERLAY_IP_RECEIVED'', False),
     (''OVERLAY_IP_LOOKUP_ROUTE_FAILED'', True),
     (''OVERLAY_IP_ROUTE_REJECT'', True),
     (''OVERLAY_IP_TTL_EXCEEDED'', True),
     (''OVERLAY_IP_FORWARD_NOARP'', True),
     (''OVERLAY_IP_FORWARD_SEND'', False),
     (''OVERLAY_ICMP_INTIP_NOT_SET'', True),
     (''OVERLAY_ICMP_NOT_FIRST_FRAG'', True),
     (''OVERLAY_ICMP_MBUF_ALLOC_FAILED'', True),
     (''OVERLAY_ICMP_MBUF_PREP_NOSPACE'', True),
     (''OVERLAY_ICMP_LOOKUP_ROUTE_FAILED'', True),
     (''OVERLAY_ICMP_NEXTHOP_REJECT'', True),
     (''OVERLAY_ICMP_NEXTHOP_NOARP'', True),
     (''OVERLAY_ICMP_SEND'', False),
     (''OVERLAY_ARP_RECEIVED'', False),
     (''OVERLAY_ARP_REQ_RECEIVED'', False),
     (''OVERLAY_ARP_REQ_NOT_TO_ME'', True),
     (''OVERLAY_ARP_REPLAY_SEND'', False),
     (''OVERLAY_ARP_PROBE_MBUF_ALLOC_FAILED'', True),
     (''OVERLAY_ARP_PROBE_VRF_LOOKUP_FAILED'', True),
     (''OVERLAY_ARP_PROBE_ROUTE_LOOKUP_FAILED'', True),
     (''OVERLAY_ARP_PROBE_ROUTE_RESULT_REJECT'', True),
     (''OVERLAY_ARP_PROBE_SELECT_SIP_FAILED'', True),
     (''OVERLAY_ARP_PROBE_SEND'', False),
     (''OVERLAY_ARP_LEARN_NOTIFY'', False),
     (''OVERLAY_ARP_LEARN_NOTIFY_FAILED'', True),
     (''PACKET_MAX'', False)]"

definition swf_evt :: "string \<Rightarrow> nat" where
  "swf_evt n = name_idx n foreach_swf_evt_type"

definition PACKET_MAX :: nat where
  "PACKET_MAX = swf_evt ''PACKET_MAX''"

definition NTB_SWF_EVT_TYPE_VALID :: "nat \<Rightarrow> bool" where
  "NTB_SWF_EVT_TYPE_VALID t \<longleftrightarrow> t < PACKET_MAX"

text \<open>\<^verbatim>\<open>SWF_EVT_STAT_INC\<close>: one 64-bit counter per event type.\<close>

definition SWF_EVT_STAT_INC :: "nat \<Rightarrow> (nat \<Rightarrow> u64) \<Rightarrow> (nat \<Rightarrow> u64)" where
  "SWF_EVT_STAT_INC t st = st(t := st t + 1)"

named_theorems ntb_codes \<open>the numeric value of each error code\<close>

lemma NTB_COMM_SUCCESS_val [ntb_codes]: "NTB_COMM_SUCCESS = 0"
  by code_simp

lemma NTB_COMM_NOMEM_val [ntb_codes]: "NTB_COMM_NOMEM = - 2"
  by code_simp

lemma NTB_COMM_INVAL_PARAM_val [ntb_codes]: "NTB_COMM_INVAL_PARAM = - 4"
  by code_simp

lemma NTB_VRF_NOENT_val [ntb_codes]: "NTB_VRF_NOENT = - 7"
  by code_simp

lemma NTB_TUNNEL_INUSED_val [ntb_codes]: "NTB_TUNNEL_INUSED = - 12"
  by code_simp

lemma NTB_TUNNEL_MAP_NOSPACE_val [ntb_codes]: "NTB_TUNNEL_MAP_NOSPACE = - 13"
  by code_simp

lemma NTB_IPV4_ROUTETYPE_NO_SAME_val [ntb_codes]: "NTB_IPV4_ROUTETYPE_NO_SAME = - 24"
  by code_simp

lemma NTB_ROUTE_NH_ALLOC_OID_FAIL_val [ntb_codes]: "NTB_ROUTE_NH_ALLOC_OID_FAIL = - 29"
  by code_simp

lemma NTB_VRF_NOT_EXIST_val [ntb_codes]: "NTB_VRF_NOT_EXIST = - 32"
  by code_simp

lemma NTB_ROUTE_PREFIX_NOSPACE_val [ntb_codes]: "NTB_ROUTE_PREFIX_NOSPACE = - 33"
  by code_simp

lemma NTB_ROUTE_RESULT_NOSPACE_val [ntb_codes]: "NTB_ROUTE_RESULT_NOSPACE = - 35"
  by code_simp

lemma NTB_ROUTE_NEXTHOP_ECMP_NOSPACE_val [ntb_codes]: "NTB_ROUTE_NEXTHOP_ECMP_NOSPACE = - 37"
  by code_simp

lemma NTB_ROUTE_PREFIX_NOT_FOUND_val [ntb_codes]: "NTB_ROUTE_PREFIX_NOT_FOUND = - 39"
  by code_simp

lemma NTB_LOAD_TO_P4_FAIL_val [ntb_codes]: "NTB_LOAD_TO_P4_FAIL = - 40"
  by code_simp

lemma NTB_ERRNO_END_val [ntb_codes]: "NTB_ERRNO_END = - 81"
  by code_simp

lemma name_idx_inj:
  "n \<in> fst ` set xs \<Longrightarrow> name_idx n xs = name_idx m xs \<Longrightarrow> n = m"
proof (induction xs)
  case Nil
  then show ?case by simp
next
  case (Cons x xs)
  then show ?case by (cases x) (auto split: if_splits)
qed

lemma name_idx_less: "n \<in> fst ` set xs \<Longrightarrow> name_idx n xs < length xs"
  by (induction xs) force+

lemma length_foreach_ntb_err_code: "length foreach_ntb_err_code = 82"
  by (simp add: foreach_ntb_err_code_def)

end
