(* ===== verification/Ntb_Types.thy ===== *)
theory Ntb_Types
  imports Ntb_Errno
begin

text \<open>
  The data of the agent, from its headers: the specification constants of \<^verbatim>\<open>ntb_dp.h\<close>, the route
  objects of \<^verbatim>\<open>route.h\<close>, the neighbour entry of \<^verbatim>\<open>neigh.h\<close>, the tunnel objects of \<^verbatim>\<open>tunnel_map.h\<close> and
  the VRF of \<^verbatim>\<open>vrf.h\<close>. A struct is a record, an enumeration a datatype, a pointer an address; the
  singly linked tunnel list of a VRF is the list of the addresses it links.
\<close>

subsection \<open>Specification constants (ntb\_dp.h)\<close>

definition NTB_NR_VRF :: nat where "NTB_NR_VRF = 4096"
definition NTB_NR_ROUTES_ALL :: nat where "NTB_NR_ROUTES_ALL = 800 * 1024"
definition NTB_NR_FIB_RES_ALL :: nat where "NTB_NR_FIB_RES_ALL = 800 * 1024"
definition NTB_NR_NHOP_ALL :: nat where "NTB_NR_NHOP_ALL = NTB_NR_FIB_RES_ALL"
definition NTB_NR_TUNNEL_ALL :: nat where "NTB_NR_TUNNEL_ALL = 8 * 1024"
definition NTB_VRF_NAME_LEN :: nat where "NTB_VRF_NAME_LEN = 64"
definition MAX_VRF_GW_HASH_ENT :: nat where "MAX_VRF_GW_HASH_ENT = 10000"

definition ROUTE_MAX_ECMP :: nat where "ROUTE_MAX_ECMP = 1"
definition MROUTE_MAX_ECMP :: nat where "MROUTE_MAX_ECMP = 8"
definition MAX_NHOPS_PER_RTOUE :: nat where
  "MAX_NHOPS_PER_RTOUE =
     (if ROUTE_MAX_ECMP > MROUTE_MAX_ECMP then ROUTE_MAX_ECMP else MROUTE_MAX_ECMP)"

definition ROUTE_ECMP_VALID :: "nat \<Rightarrow> bool" where
  "ROUTE_ECMP_VALID e \<longleftrightarrow> e \<le> ROUTE_MAX_ECMP"

definition MROUTE_ECMP_VALID :: "nat \<Rightarrow> bool" where
  "MROUTE_ECMP_VALID e \<longleftrightarrow> e \<le> MROUTE_MAX_ECMP"

definition NH_WEIGHT_VALID :: "int \<Rightarrow> bool" where
  "NH_WEIGHT_VALID w \<longleftrightarrow> 1 \<le> w \<and> w \<le> 99"

definition NH_WEIGHT_ARG_VALID :: "int \<Rightarrow> bool" where
  "NH_WEIGHT_ARG_VALID w \<longleftrightarrow> 0 \<le> w \<and> w \<le> 99"

definition IP4_PREFIX_LEN_VALID :: "nat \<Rightarrow> bool" where
  "IP4_PREFIX_LEN_VALID l \<longleftrightarrow> l \<le> 32"

definition IP4_ADDR_IS_ZERO :: "u32 \<Rightarrow> bool" where
  "IP4_ADDR_IS_ZERO ip4 \<longleftrightarrow> ip4 = 0"

definition DSCP_ID_VALID :: "int \<Rightarrow> bool" where
  "DSCP_ID_VALID d \<longleftrightarrow> 0 \<le> d \<and> d \<le> 63"

text \<open>\<^verbatim>\<open>isprint\<close> in the C locale, on the bytes of a string.\<close>

definition isprint :: "char \<Rightarrow> bool" where
  "isprint c \<longleftrightarrow> 32 \<le> (of_char c :: nat) \<and> (of_char c :: nat) < 127"

fun find_str_spec_char :: "string \<Rightarrow> bool" where
  "find_str_spec_char [] = False"
| "find_str_spec_char (c # s) = (if \<not> isprint c then True else find_str_spec_char s)"

definition VRF_NAME_VALID :: "string option \<Rightarrow> bool" where
  "VRF_NAME_VALID n = (case n of None \<Rightarrow> False | Some s \<Rightarrow>
     s \<noteq> [] \<and> hd s \<noteq> CHR '' '' \<and> length s < NTB_VRF_NAME_LEN \<and> \<not> find_str_spec_char s)"

subsection \<open>Route objects (route.h)\<close>

datatype ntb_encap_type =
  NTB_ENCAP_INVALID | NTB_ENCAP_VXLAN | NTB_ENCAP_TGRE | NTB_ENCAP_MAX

datatype rib_type = RT_DEFAULT | RT_MROUTE | RT_MAX

datatype prefix_type = RT_PREFIX_INVALID | RT_PREFIX_LPM | RT_PREFIX_HOST | RT_PREFIX_MAX

record ntb_rib_key =
  rk_vrf_id :: int
  rk_family :: u8
  rk_prefixlen :: u8
  rk_prefix4 :: u32

text \<open>
  The encapsulation union of \<^verbatim>\<open>ip_tunnel_info\<close> is its three storage words; the VXLAN and the TGRE
  view read them (bit fields allocated from the least significant bit).
\<close>

record ip_tunnel_info =
  ti_family :: u8
  ti_type :: ntb_encap_type
  ti_u0 :: u32
  ti_u1 :: u32
  ti_u2 :: u32

definition vxlan_remote :: "ip_tunnel_info \<Rightarrow> u32" where "vxlan_remote t = ti_u0 t"
definition vxlan_local :: "ip_tunnel_info \<Rightarrow> u32" where "vxlan_local t = ti_u1 t"
definition vxlan_vni :: "ip_tunnel_info \<Rightarrow> u32" where "vxlan_vni t = take_bit 24 (ti_u2 t)"
definition vxlan_dscp :: "ip_tunnel_info \<Rightarrow> u32" where "vxlan_dscp t = drop_bit 24 (ti_u2 t)"
definition tgre_remote :: "ip_tunnel_info \<Rightarrow> u32" where "tgre_remote t = ti_u0 t"
definition tgre_vpcid :: "ip_tunnel_info \<Rightarrow> u32" where "tgre_vpcid t = ti_u1 t"
definition tgre_vmip :: "ip_tunnel_info \<Rightarrow> u32" where "tgre_vmip t = ti_u2 t"

record fib_nhop_encap_data =
  en_gateway :: u32
  en_tunnel_info :: ip_tunnel_info

record fib_nhop =
  nh_oid :: u32
  ref_count :: u32
  nh_neigh_oid :: u32
  nh_gateway :: u32
  nh_tunnel_info :: ip_tunnel_info

record fib_res =
  f_res_oid :: u32
  fr_flags :: u32
  mpath_cnt :: u32
  mpath_max :: u32
  mpath :: "addr list"

definition FRF_REJECT :: u32 where "FRF_REJECT = 1"
definition FRF_MROUTE :: u32 where "FRF_MROUTE = 2"
definition FRF_NOTTL :: u32 where "FRF_NOTTL = 4"

definition fib_res_is_reject :: "fib_res \<Rightarrow> bool" where
  "fib_res_is_reject r \<longleftrightarrow> fr_flags r AND FRF_REJECT \<noteq> 0"

definition fib_res_is_mroute :: "fib_res \<Rightarrow> bool" where
  "fib_res_is_mroute r \<longleftrightarrow> fr_flags r AND FRF_MROUTE \<noteq> 0"

definition fib_res_is_nottl :: "fib_res \<Rightarrow> bool" where
  "fib_res_is_nottl r \<longleftrightarrow> fr_flags r AND FRF_NOTTL \<noteq> 0"

definition fib_res_set_flags :: "u32 \<Rightarrow> fib_res \<Rightarrow> fib_res" where
  "fib_res_set_flags fl r = r\<lparr>fr_flags := fr_flags r OR fl\<rparr>"

definition fib_res_unset_flags :: "u32 \<Rightarrow> fib_res \<Rightarrow> fib_res" where
  "fib_res_unset_flags fl r = r\<lparr>fr_flags := fr_flags r AND NOT fl\<rparr>"

definition fib_res_clone_flags :: "fib_res \<Rightarrow> fib_res \<Rightarrow> fib_res" where
  "fib_res_clone_flags d s = d\<lparr>fr_flags := fr_flags s\<rparr>"

subsection \<open>Neighbour entries (neigh.h)\<close>

record ol_neigh_entry =
  F_arp_valid :: bool
  F_fast_arp :: bool
  F_arp_hot :: bool
  F_entry_valid :: bool
  F_arp_check :: bool
  F_arp_static :: bool
  hh_len :: u8
  hh :: "u8 list"
  ne_oid :: u32
  refcnt :: u32
  tx_tsc :: u64
  retry_interval :: u64
  lastest_report_time :: u64

text \<open>The entry as \<^verbatim>\<open>rte_zmalloc_socket\<close> hands it out.\<close>

definition ol_neigh_entry_zero :: ol_neigh_entry where
  "ol_neigh_entry_zero =
    \<lparr>F_arp_valid = False, F_fast_arp = False, F_arp_hot = False, F_entry_valid = False,
     F_arp_check = False, F_arp_static = False, hh_len = 0, hh = replicate 22 0,
     ne_oid = 0, refcnt = 0, tx_tsc = 0, retry_interval = 0, lastest_report_time = 0\<rparr>"

subsection \<open>Tunnels (tunnel\_map.h)\<close>

datatype ntb_tunnel_type =
  NTB_TUNNEL_INVALID | NTB_TUNNEL_VXLAN | NTB_TUNNEL_TGRE | NTB_TUNNEL_MAX

text \<open>The union \<^verbatim>\<open>ntb_tunnel_id_t\<close>: its three members name the same 32-bit word.\<close>

type_synonym ntb_tunnel_id = u32

record ntb_tunnel_attr =
  urpf :: bool
  htab16 :: bool

definition TUNNEL_ATTR_EQUAL :: "ntb_tunnel_attr \<Rightarrow> ntb_tunnel_attr \<Rightarrow> bool" where
  "TUNNEL_ATTR_EQUAL a b \<longleftrightarrow> urpf a = urpf b \<and> htab16 a = htab16 b"

definition MIN_VNI_ID :: nat where "MIN_VNI_ID = 1"
definition MAX_VNI_ID :: nat where "MAX_VNI_ID = 2 ^ 24"

definition VNI_ID_VALID :: "nat \<Rightarrow> bool" where
  "VNI_ID_VALID v \<longleftrightarrow> MIN_VNI_ID \<le> v \<and> v \<le> MAX_VNI_ID"

record ntb_tunnel_info =
  tu_type :: ntb_tunnel_type
  tu_id :: ntb_tunnel_id
  tu_bd_ids :: "ntb_tunnel_id list"
  tu_vrf_id :: int
  tu_attribute :: ntb_tunnel_attr

definition ntb_tunnel_info_zero :: ntb_tunnel_info where
  "ntb_tunnel_info_zero =
    \<lparr>tu_type = NTB_TUNNEL_INVALID, tu_id = 0, tu_bd_ids = replicate 4 0, tu_vrf_id = 0,
     tu_attribute = \<lparr>urpf = False, htab16 = False\<rparr>\<rparr>"

subsection \<open>VRFs (vrf.h)\<close>

text \<open>
  The VRF's \<^verbatim>\<open>rib\<close> and \<^verbatim>\<open>fib_res_array\<close> pointers are set once by the initialisation, to the one RIB hash
  table and the one result array of the process: those two objects are fields of the agent state.
\<close>

record 'f vrf_dp =
  dp_fib :: 'f
  rib_cnt :: int
  tunnel_rmap :: "addr list"
  tunnel_cnt :: u32
  neigh_cnt :: u32
  internal_ip :: u32
  route_mac :: "u8 list"
  vrf_id :: int

record 'f ntb_vrf =
  vname :: "char list"
  valid :: bool
  dp :: "'f vrf_dp"

subsection \<open>Keys of the agent's hash tables\<close>

text \<open>
  DPDK's \<^verbatim>\<open>rte_hash\<close> compares keys as bytes. The four key structs are packed, so byte equality is
  equality of their fields; each struct is a constructor.
\<close>

datatype hkey =
    RibKey ntb_rib_key
  | NhopKey u32 ip_tunnel_info
  | NeighKey u32 u32
  | TunnelKey ntb_tunnel_type ntb_tunnel_id

lemma NTB_NR_VRF_pos [simp]: "0 < NTB_NR_VRF"
  by (simp add: NTB_NR_VRF_def)

lemma find_str_spec_char_iff: "find_str_spec_char s \<longleftrightarrow> (\<exists>c \<in> set s. \<not> isprint c)"
  by (induction s) auto

lemma VRF_NAME_VALID_no_nul: "VRF_NAME_VALID (Some s) \<Longrightarrow> CHR 0x00 \<notin> set s"
  by (force simp: VRF_NAME_VALID_def find_str_spec_char_iff isprint_def)

lemma vxlan_u2_split:
  "ti_u2 t = push_bit 24 (vxlan_dscp t) OR vxlan_vni t"
  by (rule bit_word_eqI) (auto simp: vxlan_dscp_def vxlan_vni_def bit_simps)

end
