(* ===== verification/Ntb_Env.thy ===== *)
theory Ntb_Env
  imports Ntb_Types
begin

text \<open>
  The code the agent calls and the repository does not hold: DPDK's hash tables, file-backed array,
  forwarding table and allocator, and the switch HAL the agent was written against. Each library is
  a record of operations that every model function takes as an argument (together the \<open>env\<close>), and
  what the agent relies on is a locale per library: the documented effect of each call on what a
  lookup sees. The locales fix, beside the operations, an observer of the library's state
  (\<open>fib_routes\<close>, \<open>fb_used\<close>), which the code never reads.
\<close>

subsection \<open>Operations\<close>

text \<open>
  Return values keep what the agent looks at: a lookup returns the stored data or \<open>None\<close> for a
  negative code; the other calls return the code and the new state. \<^verbatim>\<open>rte_hash_del_key\<close> returns the
  position of the deleted key, which is not always 0.
\<close>

record 't hash_api =
  rte_hash_create :: "nat \<Rightarrow> 't option"
  rte_hash_reset :: "'t \<Rightarrow> 't"
  rte_hash_lookup_data :: "'t \<Rightarrow> hkey \<Rightarrow> nat option"
  rte_hash_add_key_data :: "'t \<Rightarrow> hkey \<Rightarrow> nat \<Rightarrow> int \<times> 't"
  rte_hash_del_key :: "'t \<Rightarrow> hkey \<Rightarrow> int \<times> 't"
  rte_hash_iterate :: "'t \<Rightarrow> nat \<Rightarrow> (hkey \<times> nat \<times> nat) option"

record 'b fbarray_api =
  rte_fbarray_init :: "nat \<Rightarrow> int \<times> 'b"
  rte_fbarray_len :: "'b \<Rightarrow> nat"
  rte_fbarray_find_next_free :: "'b \<Rightarrow> nat \<Rightarrow> int"
  rte_fbarray_set_used :: "'b \<Rightarrow> nat \<Rightarrow> int \<times> 'b"
  rte_fbarray_set_free :: "'b \<Rightarrow> nat \<Rightarrow> int \<times> 'b"

record 'f fib_api =
  rte_fib_create :: "nat \<Rightarrow> nat \<Rightarrow> 'f option"
  rte_fib_add :: "'f \<Rightarrow> u32 \<Rightarrow> u8 \<Rightarrow> nat \<Rightarrow> int \<times> 'f"
  rte_fib_delete :: "'f \<Rightarrow> u32 \<Rightarrow> u8 \<Rightarrow> int \<times> 'f"
  rte_fib_lookup :: "'f \<Rightarrow> u32 \<Rightarrow> nat"

datatype hal_tunnel_type = TYPE_TUNNEL_TYPE_VXLAN | TYPE_TUNNEL_TYPE_GRE

record hal_route_key =
  hrk_vrf :: u32
  hrk_ip_src_addr :: u32
  hrk_ip_dst_addr :: u32

record hal_nhop_data =
  hnd_tunnel_key :: u32
  hnd_local :: u32
  hnd_remote :: u32
  hnd_neigh_id :: u32

text \<open>An object id allocator also gets the old content of the out parameter it writes.\<close>

record 'h hal_api =
  hal_nhop_alloc_oid :: "'h \<Rightarrow> u32 \<Rightarrow> int \<times> u32 \<times> 'h"
  hal_neigh_alloc_oid :: "'h \<Rightarrow> u32 \<Rightarrow> int \<times> u32 \<times> 'h"
  hal_route_entry_add :: "'h \<Rightarrow> hal_route_key \<Rightarrow> u32 \<Rightarrow> int \<times> 'h"
  hal_route_entry_del :: "'h \<Rightarrow> hal_route_key \<Rightarrow> int \<times> 'h"
  hal_nhop_entry_add :: "'h \<Rightarrow> u32 \<Rightarrow> hal_nhop_data \<Rightarrow> int \<times> 'h"
  hal_nhop_entry_del :: "'h \<Rightarrow> u32 \<Rightarrow> int \<times> 'h"
  hal_neigh_entry_add :: "'h \<Rightarrow> u32 \<Rightarrow> u8 list \<Rightarrow> int \<times> 'h"
  hal_neigh_entry_del :: "'h \<Rightarrow> u32 \<Rightarrow> int \<times> 'h"
  hal_tunnel_map_vrf_entry_add :: "'h \<Rightarrow> hal_tunnel_type \<times> u32 \<Rightarrow> u32 \<Rightarrow> int \<times> 'h"
  hal_tunnel_map_vrf_entry_del :: "'h \<Rightarrow> hal_tunnel_type \<times> u32 \<Rightarrow> int \<times> 'h"

text \<open>
  \<open>assert_on\<close>: the build defines \<^verbatim>\<open>RTE_ENABLE_ASSERT\<close>. \<open>zmalloc_ok n\<close>: the \<open>n\<close>-th allocation of the
  run succeeds.
\<close>

record ('t, 'b, 'f, 'h) env =
  assert_on :: bool
  zmalloc_ok :: "nat \<Rightarrow> bool"
  hash :: "'t hash_api"
  fbarray :: "'b fbarray_api"
  fib :: "'f fib_api"
  hal :: "'h hal_api"

text \<open>\<^verbatim>\<open>RTE_ASSERT\<close>: panics on a false condition in builds that enable it, and is empty otherwise.\<close>

definition rte_assert :: "('t, 'b, 'f, 'h) env \<Rightarrow> bool \<Rightarrow> unit outcome" where
  "rte_assert D c = (if assert_on D \<and> \<not> c then Inl AssertFailed else Inr ())"

lemma rte_assert_off [simp]: "\<not> assert_on D \<Longrightarrow> rte_assert D c = Inr ()"
  by (simp add: rte_assert_def)

lemma rte_assert_True [simp]: "rte_assert D True = Inr ()"
  by (simp add: rte_assert_def)

lemma bindR_rte_assert [simp]:
  "bindR (rte_assert D c) f = (if assert_on D \<and> \<not> c then Inl AssertFailed else f ())"
  by (simp add: rte_assert_def)

lemma rte_assert_eq_Inr [simp]: "rte_assert D c = Inr u \<longleftrightarrow> (assert_on D \<longrightarrow> c)"
  by (auto simp: rte_assert_def)

subsection \<open>Longest prefix match\<close>

text \<open>The network of an address at a prefix length, and the match a forwarding table answers with.\<close>

definition ip4_net :: "u32 \<Rightarrow> nat \<Rightarrow> u32" where
  "ip4_net ip d = push_bit (32 - d) (drop_bit (32 - d) ip)"

fun lpm_from :: "(u32 \<times> u8 \<rightharpoonup> nat) \<Rightarrow> u32 \<Rightarrow> nat \<Rightarrow> nat option" where
  "lpm_from m ip 0 = m (ip4_net ip 0, 0)"
| "lpm_from m ip (Suc d) =
     (case m (ip4_net ip (Suc d), of_nat (Suc d)) of Some v \<Rightarrow> Some v | None \<Rightarrow> lpm_from m ip d)"

lemma ip4_net_idem [simp]: "ip4_net (ip4_net ip d) d = ip4_net ip d"
  by (rule bit_word_eqI) (auto simp: ip4_net_def bit_simps)

lemma ip4_net_32 [simp]: "ip4_net ip 32 = ip"
  by (simp add: ip4_net_def)

lemma lpm_from_Some_iff:
  "lpm_from m ip n = Some v \<longleftrightarrow>
    (\<exists>d \<le> n. m (ip4_net ip d, of_nat d) = Some v \<and>
      (\<forall>d'. d < d' \<and> d' \<le> n \<longrightarrow> m (ip4_net ip d', of_nat d') = None))"
proof (induction n)
  case 0
  then show ?case by simp
next
  case (Suc n)
  show ?case
  proof (cases "m (ip4_net ip (Suc n), of_nat (Suc n))")
    case None
    with Suc show ?thesis by (auto simp: le_Suc_eq)
  next
    case (Some w)
    have last: "d = Suc n" if "d \<le> Suc n"
      and "\<forall>d'. d < d' \<and> d' \<le> Suc n \<longrightarrow> m (ip4_net ip d', of_nat d') = None" for d
      using that Some by (metis le_neq_implies_less option.simps(3) order_refl)
    show ?thesis
    proof
      assume "lpm_from m ip (Suc n) = Some v"
      with Some show "\<exists>d \<le> Suc n. m (ip4_net ip d, of_nat d) = Some v \<and>
          (\<forall>d'. d < d' \<and> d' \<le> Suc n \<longrightarrow> m (ip4_net ip d', of_nat d') = None)"
        by (intro exI [of _ "Suc n"]) (auto simp del: of_nat_Suc)
    next
      assume "\<exists>d \<le> Suc n. m (ip4_net ip d, of_nat d) = Some v \<and>
          (\<forall>d'. d < d' \<and> d' \<le> Suc n \<longrightarrow> m (ip4_net ip d', of_nat d') = None)"
      then have "m (ip4_net ip (Suc n), of_nat (Suc n)) = Some v" using last by blast
      then show "lpm_from m ip (Suc n) = Some v" by (simp del: of_nat_Suc)
    qed
  qed
qed

lemma lpm_from_None_iff:
  "lpm_from m ip n = None \<longleftrightarrow> (\<forall>d \<le> n. m (ip4_net ip d, of_nat d) = None)"
  by (induction n) (auto simp: le_Suc_eq split: option.splits)

subsection \<open>What the agent relies on\<close>

locale rte_hash =
  fixes H :: "'t hash_api"
  assumes reset_empty: "rte_hash_lookup_data H (rte_hash_reset H t) k = None"
    and add_ok: "rte_hash_add_key_data H t k v = (r, t') \<Longrightarrow> 0 \<le> r \<Longrightarrow>
      rte_hash_lookup_data H t' = (rte_hash_lookup_data H t)(k \<mapsto> v)"
    and add_fail: "rte_hash_add_key_data H t k v = (r, t') \<Longrightarrow> r < 0 \<Longrightarrow>
      rte_hash_lookup_data H t' = rte_hash_lookup_data H t"
    and add_present: "rte_hash_lookup_data H t k \<noteq> None \<Longrightarrow>
      0 \<le> fst (rte_hash_add_key_data H t k v)"
    and del_present: "rte_hash_lookup_data H t k \<noteq> None \<Longrightarrow>
      rte_hash_del_key H t k = (r, t') \<Longrightarrow>
      0 \<le> r \<and> rte_hash_lookup_data H t' = (rte_hash_lookup_data H t)(k := None)"
    and del_absent: "rte_hash_lookup_data H t k = None \<Longrightarrow>
      rte_hash_del_key H t k = (r, t') \<Longrightarrow>
      r < 0 \<and> rte_hash_lookup_data H t' = rte_hash_lookup_data H t"
    and finite_keys: "finite (dom (rte_hash_lookup_data H t))"
begin

lemma del_lookup:
  "rte_hash_del_key H t k = (r, t') \<Longrightarrow>
    rte_hash_lookup_data H t' = (rte_hash_lookup_data H t)(k := None)"
  using del_present [of t k r t'] del_absent [of t k r t']
  by (cases "rte_hash_lookup_data H t k") (auto simp: fun_upd_idem_iff)

text \<open>A key added and deleted again leaves the table as it was, as far as lookups can tell.\<close>

lemma add_del_lookup:
  assumes "rte_hash_lookup_data H t k = None"
    and "rte_hash_add_key_data H t k v = (r, t')" and "0 \<le> r"
    and "rte_hash_del_key H t' k = (r', t'')"
  shows "rte_hash_lookup_data H t'' = rte_hash_lookup_data H t"
  using del_lookup [OF assms(4)] add_ok [OF assms(2,3)] assms(1) by auto

end

text \<open>
  Iteration visits the occupied slots in order of position; deleting a key frees its slot and moves
  nothing.
\<close>

fun next_slot :: "'a option list \<Rightarrow> nat \<Rightarrow> ('a \<times> nat) option" where
  "next_slot [] i = None"
| "next_slot (x # xs) (Suc i) = map_option (\<lambda>(y, j). (y, Suc j)) (next_slot xs i)"
| "next_slot (None # xs) 0 = map_option (\<lambda>(y, j). (y, Suc j)) (next_slot xs 0)"
| "next_slot (Some y # xs) 0 = Some (y, 1)"

locale rte_hash_iter = rte_hash H for H :: "'t hash_api" +
  fixes hash_slots :: "'t \<Rightarrow> (hkey \<times> nat) option list"
  assumes slots_lookup:
      "rte_hash_lookup_data H t k = Some v \<longleftrightarrow> Some (k, v) \<in> set (hash_slots t)"
    and slots_del: "rte_hash_del_key H t k = (r, t') \<Longrightarrow>
      hash_slots t' = map (\<lambda>e. case e of None \<Rightarrow> None
        | Some (k', v) \<Rightarrow> if k' = k then None else Some (k', v)) (hash_slots t)"
    and iterate_slots: "rte_hash_iterate H t i =
      map_option (\<lambda>((k, v), j). (k, v, j)) (next_slot (hash_slots t) i)"

locale rte_fbarray =
  fixes A :: "'b fbarray_api"
    and fb_used :: "'b \<Rightarrow> nat set"
  assumes init_ok: "rte_fbarray_init A n = (0, b) \<Longrightarrow> rte_fbarray_len A b = n \<and> fb_used b = {}"
    and find_free: "rte_fbarray_find_next_free A b i = r \<Longrightarrow> 0 \<le> r \<Longrightarrow>
      i \<le> nat r \<and> nat r < rte_fbarray_len A b \<and> nat r \<notin> fb_used b"
    and find_least: "rte_fbarray_find_next_free A b i = r \<Longrightarrow> 0 \<le> r \<Longrightarrow>
      i \<le> j \<Longrightarrow> j < nat r \<Longrightarrow> j \<in> fb_used b"
    and find_full: "rte_fbarray_find_next_free A b i < 0 \<Longrightarrow>
      i \<le> j \<Longrightarrow> j < rte_fbarray_len A b \<Longrightarrow> j \<in> fb_used b"
    and set_used: "i < rte_fbarray_len A b \<Longrightarrow> rte_fbarray_set_used A b i = (r, b') \<Longrightarrow>
      r = 0 \<and> rte_fbarray_len A b' = rte_fbarray_len A b \<and> fb_used b' = insert i (fb_used b)"
    and set_free: "i < rte_fbarray_len A b \<Longrightarrow> rte_fbarray_set_free A b i = (r, b') \<Longrightarrow>
      r = 0 \<and> rte_fbarray_len A b' = rte_fbarray_len A b \<and> fb_used b' = fb_used b - {i}"

locale rte_fib =
  fixes F :: "'f fib_api"
    and fib_routes :: "'f \<Rightarrow> (u32 \<times> u8 \<rightharpoonup> nat)"
    and fib_default :: "'f \<Rightarrow> nat"
  assumes fib_create: "rte_fib_create F n d = Some f \<Longrightarrow>
      fib_routes f = Map.empty \<and> fib_default f = d"
    and fib_add_ok: "rte_fib_add F f ip l nh = (0, f') \<Longrightarrow>
      fib_routes f' = (fib_routes f)((ip4_net ip (unat l), l) \<mapsto> nh) \<and> fib_default f' = fib_default f"
    and fib_add_fail: "rte_fib_add F f ip l nh = (r, f') \<Longrightarrow> r \<noteq> 0 \<Longrightarrow>
      fib_routes f' = fib_routes f \<and> fib_default f' = fib_default f"
    and fib_delete_present: "fib_routes f (ip4_net ip (unat l), l) \<noteq> None \<Longrightarrow>
      rte_fib_delete F f ip l = (r, f') \<Longrightarrow> r = 0 \<and>
      fib_routes f' = (fib_routes f)((ip4_net ip (unat l), l) := None) \<and> fib_default f' = fib_default f"
    and fib_delete_absent: "fib_routes f (ip4_net ip (unat l), l) = None \<Longrightarrow>
      rte_fib_delete F f ip l = (r, f') \<Longrightarrow> r \<noteq> 0 \<and>
      fib_routes f' = fib_routes f \<and> fib_default f' = fib_default f"
    and fib_lookup: "rte_fib_lookup F f ip =
      (case lpm_from (fib_routes f) ip 32 of Some nh \<Rightarrow> nh | None \<Rightarrow> fib_default f)"
begin

lemma fib_delete_routes:
  "rte_fib_delete F f ip l = (r, f') \<Longrightarrow>
    fib_routes f' = (fib_routes f)((ip4_net ip (unat l), l) := None)"
  using fib_delete_present [of f ip l r f'] fib_delete_absent [of f ip l r f']
  by (cases "fib_routes f (ip4_net ip (unat l), l)") (auto simp: fun_upd_idem_iff)

end

text \<open>The three DPDK libraries of one environment together.\<close>

locale dpdk_env =
  rte_hash "hash D" + rte_fbarray "fbarray D" fb_used + rte_fib "fib D" fib_routes fib_default
  for D :: "('t, 'b, 'f, 'h) env"
    and fb_used :: "'b \<Rightarrow> nat set"
    and fib_routes :: "'f \<Rightarrow> (u32 \<times> u8 \<rightharpoonup> nat)"
    and fib_default :: "'f \<Rightarrow> nat"

end
