(* ===== verification/Ntb_State.thy ===== *)
theory Ntb_State
  imports Ntb_Env
begin

text \<open>
  The agent's global state and the primitive accesses to it. Every file-scope variable of the agent
  is a field: the VRF array and its counter, the result array with the memory behind it, the hash
  tables, the neighbour counter, and the MAC addresses. Each kind of heap object has a heap of its
  own (the C types of these objects never alias). An allocation takes the next address, which is
  never handed out again, so a pointer kept after \<^verbatim>\<open>rte_free\<close> is seen to dangle. The last field is
  the state of the switch behind the HAL.
\<close>

record ('t, 'b, 'f, 'h) agent =
  g_ntb_vrfs :: "'f ntb_vrf list"
  g_ntb_vrf_n :: int
  g_fib_res_array :: 'b
  fib_res_mem :: "nat \<Rightarrow> fib_res"
  f_res_blackhole :: int
  ntb_rib_hash_tbl :: 't
  g_nhop_hash_tbl :: 't
  ol_neigh_hash_tbl :: 't
  ol_neigh_count :: u32
  vrf_hash_tbl :: 't
  nhop_heap :: "addr \<rightharpoonup> fib_nhop"
  neigh_heap :: "addr \<rightharpoonup> ol_neigh_entry"
  tunnel_heap :: "addr \<rightharpoonup> ntb_tunnel_info"
  next_addr :: addr
  fake_mac :: "u8 list"
  def_gw_mac :: "u8 list"
  hw_state :: 'h

subsection \<open>Memory\<close>

text \<open>
  \<^verbatim>\<open>rte_zmalloc\<close> and \<^verbatim>\<open>rte_zmalloc_socket\<close>: a fresh address or \<^verbatim>\<open>NULL\<close>; the caller installs the
  zeroed object in the heap of its type.
\<close>

definition rte_zmalloc ::
  "('t, 'b, 'f, 'h) env \<Rightarrow> ('t, 'b, 'f, 'h) agent \<Rightarrow> addr option \<times> ('t, 'b, 'f, 'h) agent" where
  "rte_zmalloc D s =
     (if zmalloc_ok D (next_addr s) then Some (next_addr s) else None,
      s\<lparr>next_addr := Suc (next_addr s)\<rparr>)"

text \<open>
  A \<^verbatim>\<open>vrf_dp_t *\<close> points into the VRF array; it is represented by the index of its element.
\<close>

definition get_dp :: "('t, 'b, 'f, 'h) agent \<Rightarrow> nat \<Rightarrow> 'f vrf_dp outcome" where
  "get_dp s i = bindR (read_at (g_ntb_vrfs s) i) (\<lambda>v. Inr (dp v))"

definition upd_dp ::
  "nat \<Rightarrow> ('f vrf_dp \<Rightarrow> 'f vrf_dp) \<Rightarrow> ('t, 'b, 'f, 'h) agent \<Rightarrow> ('t, 'b, 'f, 'h) agent" where
  "upd_dp i f s = s\<lparr>g_ntb_vrfs := (g_ntb_vrfs s)
     [i := (g_ntb_vrfs s ! i)\<lparr>dp := f (dp (g_ntb_vrfs s ! i))\<rparr>]\<rparr>"

text \<open>
  \<^verbatim>\<open>rte_fbarray_get\<close>: the element's address, or \<^verbatim>\<open>NULL\<close> for an index past the end (a negative
  \<^verbatim>\<open>int\<close> becomes such an index).
\<close>

definition rte_fbarray_get ::
  "('t, 'b, 'f, 'h) env \<Rightarrow> ('t, 'b, 'f, 'h) agent \<Rightarrow> int \<Rightarrow> nat option" where
  "rte_fbarray_get D s i =
     (if 0 \<le> i \<and> nat i < rte_fbarray_len (fbarray D) (g_fib_res_array s) then Some (nat i) else None)"

definition load_res :: "('t, 'b, 'f, 'h) agent \<Rightarrow> nat option \<Rightarrow> fib_res outcome" where
  "load_res s p = (case p of None \<Rightarrow> Inl NullDeref | Some i \<Rightarrow> Inr (fib_res_mem s i))"

definition store_res ::
  "nat \<Rightarrow> fib_res \<Rightarrow> ('t, 'b, 'f, 'h) agent \<Rightarrow> ('t, 'b, 'f, 'h) agent" where
  "store_res i r s = s\<lparr>fib_res_mem := (fib_res_mem s)(i := r)\<rparr>"

subsection \<open>Observations\<close>

text \<open>The hash tables as maps.\<close>

definition rib_map :: "('t, 'b, 'f, 'h) env \<Rightarrow> ('t, 'b, 'f, 'h) agent \<Rightarrow> hkey \<rightharpoonup> nat" where
  "rib_map D s = rte_hash_lookup_data (hash D) (ntb_rib_hash_tbl s)"

definition nhop_map :: "('t, 'b, 'f, 'h) env \<Rightarrow> ('t, 'b, 'f, 'h) agent \<Rightarrow> hkey \<rightharpoonup> nat" where
  "nhop_map D s = rte_hash_lookup_data (hash D) (g_nhop_hash_tbl s)"

definition neigh_map :: "('t, 'b, 'f, 'h) env \<Rightarrow> ('t, 'b, 'f, 'h) agent \<Rightarrow> hkey \<rightharpoonup> nat" where
  "neigh_map D s = rte_hash_lookup_data (hash D) (ol_neigh_hash_tbl s)"

definition tunnel_map :: "('t, 'b, 'f, 'h) env \<Rightarrow> ('t, 'b, 'f, 'h) agent \<Rightarrow> hkey \<rightharpoonup> nat" where
  "tunnel_map D s = rte_hash_lookup_data (hash D) (vrf_hash_tbl s)"

text \<open>
  What the forwarding operations may change of a VRF and what they never touch, as projections of
  the state: \<open>vrf_ids\<close> is constant after the initialisation, \<open>vrf_names\<close> belongs to the VRF table,
  \<open>tunnel_part\<close> to the tunnel map, \<open>route_part\<close> to the route tables and \<open>neigh_part\<close> to the
  neighbour table.
\<close>

definition vrf_ids :: "('t, 'b, 'f, 'h) agent \<Rightarrow> int list" where
  "vrf_ids s = map (vrf_id \<circ> dp) (g_ntb_vrfs s)"

definition vrf_names :: "('t, 'b, 'f, 'h) agent \<Rightarrow> (char list \<times> bool) list \<times> int" where
  "vrf_names s = (map (\<lambda>v. (vname v, valid v)) (g_ntb_vrfs s), g_ntb_vrf_n s)"

definition tunnel_part ::
  "('t, 'b, 'f, 'h) agent \<Rightarrow> 't \<times> (addr \<rightharpoonup> ntb_tunnel_info) \<times> (addr list \<times> u32) list" where
  "tunnel_part s = (vrf_hash_tbl s, tunnel_heap s,
     map (\<lambda>v. (tunnel_rmap (dp v), tunnel_cnt (dp v))) (g_ntb_vrfs s))"

definition route_part ::
  "('t, 'b, 'f, 'h) agent \<Rightarrow> 't \<times> 'b \<times> (nat \<Rightarrow> fib_res) \<times> int \<times> ('f \<times> int) list" where
  "route_part s = (ntb_rib_hash_tbl s, g_fib_res_array s, fib_res_mem s, f_res_blackhole s,
     map (\<lambda>v. (dp_fib (dp v), rib_cnt (dp v))) (g_ntb_vrfs s))"

definition nhop_part :: "('t, 'b, 'f, 'h) agent \<Rightarrow> 't \<times> (addr \<rightharpoonup> fib_nhop)" where
  "nhop_part s = (g_nhop_hash_tbl s, nhop_heap s)"

definition neigh_part ::
  "('t, 'b, 'f, 'h) agent \<Rightarrow> 't \<times> (addr \<rightharpoonup> ol_neigh_entry) \<times> u32 \<times> u32 list" where
  "neigh_part s = (ol_neigh_hash_tbl s, neigh_heap s, ol_neigh_count s,
     map (neigh_cnt \<circ> dp) (g_ntb_vrfs s))"

lemmas map_defs = rib_map_def nhop_map_def neigh_map_def tunnel_map_def
lemmas part_defs = vrf_ids_def vrf_names_def tunnel_part_def route_part_def nhop_part_def
  neigh_part_def

subsection \<open>Rewriting\<close>

lemma get_dp_in [simp]: "i < length (g_ntb_vrfs s) \<Longrightarrow> get_dp s i = Inr (dp (g_ntb_vrfs s ! i))"
  by (simp add: get_dp_def)

lemma get_dp_out [simp]: "length (g_ntb_vrfs s) \<le> i \<Longrightarrow> get_dp s i = Inl OutOfBounds"
  by (simp add: get_dp_def)

lemma load_res_None [simp]: "load_res s None = Inl NullDeref"
  and load_res_Some [simp]: "load_res s (Some i) = Inr (fib_res_mem s i)"
  by (simp_all add: load_res_def)

lemma rte_fbarray_get_int [simp]:
  "i < rte_fbarray_len (fbarray D) (g_fib_res_array s) \<Longrightarrow> rte_fbarray_get D s (int i) = Some i"
  by (simp add: rte_fbarray_get_def)

lemma upd_dp_sel [simp]:
  "g_ntb_vrf_n (upd_dp i f s) = g_ntb_vrf_n s"
  "g_fib_res_array (upd_dp i f s) = g_fib_res_array s"
  "fib_res_mem (upd_dp i f s) = fib_res_mem s"
  "f_res_blackhole (upd_dp i f s) = f_res_blackhole s"
  "ntb_rib_hash_tbl (upd_dp i f s) = ntb_rib_hash_tbl s"
  "g_nhop_hash_tbl (upd_dp i f s) = g_nhop_hash_tbl s"
  "ol_neigh_hash_tbl (upd_dp i f s) = ol_neigh_hash_tbl s"
  "ol_neigh_count (upd_dp i f s) = ol_neigh_count s"
  "vrf_hash_tbl (upd_dp i f s) = vrf_hash_tbl s"
  "nhop_heap (upd_dp i f s) = nhop_heap s"
  "neigh_heap (upd_dp i f s) = neigh_heap s"
  "tunnel_heap (upd_dp i f s) = tunnel_heap s"
  "next_addr (upd_dp i f s) = next_addr s"
  "fake_mac (upd_dp i f s) = fake_mac s"
  "def_gw_mac (upd_dp i f s) = def_gw_mac s"
  "hw_state (upd_dp i f s) = hw_state s"
  "length (g_ntb_vrfs (upd_dp i f s)) = length (g_ntb_vrfs s)"
  by (simp_all add: upd_dp_def)

lemma upd_dp_vrfs:
  "g_ntb_vrfs (upd_dp i f s) =
    (g_ntb_vrfs s)[i := (g_ntb_vrfs s ! i)\<lparr>dp := f (dp (g_ntb_vrfs s ! i))\<rparr>]"
  by (simp add: upd_dp_def)

lemma upd_dp_nth [simp]:
  "j < length (g_ntb_vrfs s) \<Longrightarrow> g_ntb_vrfs (upd_dp i f s) ! j =
    (if i = j then (g_ntb_vrfs s ! j)\<lparr>dp := f (dp (g_ntb_vrfs s ! j))\<rparr> else g_ntb_vrfs s ! j)"
  by (simp add: upd_dp_def nth_list_update)

text \<open>An update of a VRF that keeps a projection of it keeps the list of the projections.\<close>

lemma map_upd_dp:
  assumes "\<And>v. g (v\<lparr>dp := f (dp v)\<rparr>) = g v"
  shows "map g (g_ntb_vrfs (upd_dp i f s)) = map g (g_ntb_vrfs s)"
  by (cases "i < length (g_ntb_vrfs s)")
    (simp_all add: upd_dp_vrfs map_update assms list_update_same_conv list_update_beyond)

lemma store_res_sel [simp]:
  "g_ntb_vrfs (store_res i r s) = g_ntb_vrfs s"
  "g_ntb_vrf_n (store_res i r s) = g_ntb_vrf_n s"
  "g_fib_res_array (store_res i r s) = g_fib_res_array s"
  "fib_res_mem (store_res i r s) = (fib_res_mem s)(i := r)"
  "f_res_blackhole (store_res i r s) = f_res_blackhole s"
  "ntb_rib_hash_tbl (store_res i r s) = ntb_rib_hash_tbl s"
  "g_nhop_hash_tbl (store_res i r s) = g_nhop_hash_tbl s"
  "ol_neigh_hash_tbl (store_res i r s) = ol_neigh_hash_tbl s"
  "ol_neigh_count (store_res i r s) = ol_neigh_count s"
  "vrf_hash_tbl (store_res i r s) = vrf_hash_tbl s"
  "nhop_heap (store_res i r s) = nhop_heap s"
  "neigh_heap (store_res i r s) = neigh_heap s"
  "tunnel_heap (store_res i r s) = tunnel_heap s"
  "next_addr (store_res i r s) = next_addr s"
  "fake_mac (store_res i r s) = fake_mac s"
  "hw_state (store_res i r s) = hw_state s"
  by (simp_all add: store_res_def)

lemma vrf_ids_length: "vrf_ids s' = vrf_ids s \<Longrightarrow> length (g_ntb_vrfs s') = length (g_ntb_vrfs s)"
  unfolding vrf_ids_def by (metis length_map)

lemma vrf_ids_nth:
  "vrf_ids s' = vrf_ids s \<Longrightarrow> i < length (g_ntb_vrfs s) \<Longrightarrow>
    vrf_id (dp (g_ntb_vrfs s' ! i)) = vrf_id (dp (g_ntb_vrfs s ! i))"
  unfolding vrf_ids_def by (metis comp_apply length_map nth_map)

end
