(* ===== verification/Ntb_Ref_Env.thy ===== *)
theory Ntb_Ref_Env
  imports Ntb_Env
begin

text \<open>
  A reference environment that computes: a hash table is a capacity and its slots, the file-backed
  array a length and the list of its used indices, a forwarding table a default, a bound and the
  list of its routes, and the switch the four tables the agent writes plus two object id counters.
  It shows that the assumptions of the environment locales can hold together, and it is the
  environment at which the witnesses evaluate the model.
\<close>

type_synonym ref_hash = "nat \<times> (hkey \<times> nat) option list"
type_synonym ref_fbarray = "nat \<times> nat list"
type_synonym ref_fib = "nat \<times> nat \<times> ((u32 \<times> u8) \<times> nat) list"

subsection \<open>Hash table\<close>

fun slot_lookup :: "(hkey \<times> nat) option list \<Rightarrow> hkey \<Rightarrow> nat option" where
  "slot_lookup [] k = None"
| "slot_lookup (None # xs) k = slot_lookup xs k"
| "slot_lookup (Some (k', v) # xs) k = (if k' = k then Some v else slot_lookup xs k)"

fun slot_set :: "(hkey \<times> nat) option list \<Rightarrow> hkey \<Rightarrow> nat \<Rightarrow> (hkey \<times> nat) option list" where
  "slot_set [] k v = []"
| "slot_set (None # xs) k v = None # slot_set xs k v"
| "slot_set (Some (k', w) # xs) k v =
     (if k' = k then Some (k', v) # xs else Some (k', w) # slot_set xs k v)"

fun slot_fill :: "(hkey \<times> nat) option list \<Rightarrow> hkey \<Rightarrow> nat \<Rightarrow> (hkey \<times> nat) option list" where
  "slot_fill [] k v = [Some (k, v)]"
| "slot_fill (None # xs) k v = Some (k, v) # xs"
| "slot_fill (Some e # xs) k v = Some e # slot_fill xs k v"

fun slot_pos :: "(hkey \<times> nat) option list \<Rightarrow> hkey \<Rightarrow> nat \<Rightarrow> int" where
  "slot_pos [] k i = - ENOENT"
| "slot_pos (None # xs) k i = slot_pos xs k (Suc i)"
| "slot_pos (Some (k', v) # xs) k i = (if k' = k then int i else slot_pos xs k (Suc i))"

fun slot_clear :: "(hkey \<times> nat) option list \<Rightarrow> hkey \<Rightarrow> (hkey \<times> nat) option list" where
  "slot_clear [] k = []"
| "slot_clear (None # xs) k = None # slot_clear xs k"
| "slot_clear (Some (k', v) # xs) k =
     (if k' = k then None else Some (k', v)) # slot_clear xs k"

fun slot_used :: "(hkey \<times> nat) option list \<Rightarrow> nat" where
  "slot_used [] = 0"
| "slot_used (None # xs) = slot_used xs"
| "slot_used (Some e # xs) = Suc (slot_used xs)"

definition ref_hash_add :: "ref_hash \<Rightarrow> hkey \<Rightarrow> nat \<Rightarrow> int \<times> ref_hash" where
  "ref_hash_add t k v = (case t of (cap, xs) \<Rightarrow>
     if slot_lookup xs k \<noteq> None then (0, (cap, slot_set xs k v))
     else if slot_used xs < cap then (0, (cap, slot_fill xs k v))
     else (- ENOSPC, (cap, xs)))"

lemma length_slot_clear [simp]: "length (slot_clear xs k) = length xs"
  by (induction xs k rule: slot_clear.induct) auto

text \<open>The slots with shadowed duplicates of a key dropped (an add never makes any).\<close>

function slot_live :: "(hkey \<times> nat) option list \<Rightarrow> (hkey \<times> nat) option list" where
  "slot_live [] = []"
| "slot_live (None # xs) = None # slot_live xs"
| "slot_live (Some (k, v) # xs) = Some (k, v) # slot_live (slot_clear xs k)"
  by pat_completeness auto
termination by (relation "measure length") auto

definition ref_hash_api :: "ref_hash hash_api" where
  "ref_hash_api = \<lparr>rte_hash_create = (\<lambda>n. Some (n, [])),
     rte_hash_reset = (\<lambda>t. (fst t, [])),
     rte_hash_lookup_data = (\<lambda>t. slot_lookup (snd t)),
     rte_hash_add_key_data = ref_hash_add,
     rte_hash_del_key = (\<lambda>t k. (slot_pos (snd t) k 0, (fst t, slot_clear (snd t) k))),
     rte_hash_iterate = (\<lambda>t i. map_option (\<lambda>((k, v), j). (k, v, j)) (next_slot (slot_live (snd t)) i))\<rparr>"

subsection \<open>File-backed array\<close>

fun first_free :: "nat \<Rightarrow> nat list \<Rightarrow> nat \<Rightarrow> nat" where
  "first_free 0 us i = i"
| "first_free (Suc n) us i = (if List.member us i then first_free n us (Suc i) else i)"

definition ref_fb_find :: "ref_fbarray \<Rightarrow> nat \<Rightarrow> int" where
  "ref_fb_find b i = (case b of (len, us) \<Rightarrow>
     let j = first_free (Suc (length us)) us i in if j < len then int j else - ENOSPC)"

definition ref_fbarray_api :: "ref_fbarray fbarray_api" where
  "ref_fbarray_api = \<lparr>rte_fbarray_init = (\<lambda>n. (0, (n, []))),
     rte_fbarray_len = fst,
     rte_fbarray_find_next_free = ref_fb_find,
     rte_fbarray_set_used = (\<lambda>b i. (0, (fst b, i # snd b))),
     rte_fbarray_set_free = (\<lambda>b i. (0, (fst b, removeAll i (snd b))))\<rparr>"

subsection \<open>Forwarding table\<close>

definition ref_fib_add :: "ref_fib \<Rightarrow> u32 \<Rightarrow> u8 \<Rightarrow> nat \<Rightarrow> int \<times> ref_fib" where
  "ref_fib_add f ip l nh = (case f of (n, d, rs) \<Rightarrow>
     let k = (ip4_net ip (unat l), l) in
     if map_of rs k \<noteq> None \<or> length rs < n then (0, (n, d, (k, nh) # filter (\<lambda>r. fst r \<noteq> k) rs))
     else (- ENOSPC, f))"

definition ref_fib_delete :: "ref_fib \<Rightarrow> u32 \<Rightarrow> u8 \<Rightarrow> int \<times> ref_fib" where
  "ref_fib_delete f ip l = (case f of (n, d, rs) \<Rightarrow>
     let k = (ip4_net ip (unat l), l) in
     if map_of rs k \<noteq> None then (0, (n, d, filter (\<lambda>r. fst r \<noteq> k) rs)) else (- ENOENT, f))"

definition ref_fib_routes :: "ref_fib \<Rightarrow> (u32 \<times> u8 \<rightharpoonup> nat)" where
  "ref_fib_routes f = map_of (snd (snd f))"

definition ref_fib_default :: "ref_fib \<Rightarrow> nat" where
  "ref_fib_default f = fst (snd f)"

definition ref_fib_api :: "ref_fib fib_api" where
  "ref_fib_api = \<lparr>rte_fib_create = (\<lambda>n d. Some (n, d, [])),
     rte_fib_add = ref_fib_add,
     rte_fib_delete = ref_fib_delete,
     rte_fib_lookup = (\<lambda>f ip. case lpm_from (map_of (snd (snd f))) ip 32 of
        Some nh \<Rightarrow> nh | None \<Rightarrow> fst (snd f))\<rparr>"

subsection \<open>Switch tables\<close>

record hw =
  hw_next_nhop :: u32
  hw_next_neigh :: u32
  hw_route :: "hal_route_key \<rightharpoonup> u32"
  hw_nhop :: "u32 \<rightharpoonup> hal_nhop_data"
  hw_neigh :: "u32 \<rightharpoonup> u8 list"
  hw_tunnel :: "hal_tunnel_type \<times> u32 \<rightharpoonup> u32"

definition hw_empty :: hw where
  "hw_empty = \<lparr>hw_next_nhop = 1, hw_next_neigh = 1, hw_route = Map.empty, hw_nhop = Map.empty,
     hw_neigh = Map.empty, hw_tunnel = Map.empty\<rparr>"

definition ref_hal_api :: "hw hal_api" where
  "ref_hal_api = \<lparr>
     hal_nhop_alloc_oid = (\<lambda>h old. (0, hw_next_nhop h, h\<lparr>hw_next_nhop := hw_next_nhop h + 1\<rparr>)),
     hal_neigh_alloc_oid = (\<lambda>h old. (0, hw_next_neigh h, h\<lparr>hw_next_neigh := hw_next_neigh h + 1\<rparr>)),
     hal_route_entry_add = (\<lambda>h k d. (0, h\<lparr>hw_route := (hw_route h)(k \<mapsto> d)\<rparr>)),
     hal_route_entry_del = (\<lambda>h k. (0, h\<lparr>hw_route := (hw_route h)(k := None)\<rparr>)),
     hal_nhop_entry_add = (\<lambda>h k d. (0, h\<lparr>hw_nhop := (hw_nhop h)(k \<mapsto> d)\<rparr>)),
     hal_nhop_entry_del = (\<lambda>h k. (0, h\<lparr>hw_nhop := (hw_nhop h)(k := None)\<rparr>)),
     hal_neigh_entry_add = (\<lambda>h k d. (0, h\<lparr>hw_neigh := (hw_neigh h)(k \<mapsto> d)\<rparr>)),
     hal_neigh_entry_del = (\<lambda>h k. (0, h\<lparr>hw_neigh := (hw_neigh h)(k := None)\<rparr>)),
     hal_tunnel_map_vrf_entry_add = (\<lambda>h k d. (0, h\<lparr>hw_tunnel := (hw_tunnel h)(k \<mapsto> d)\<rparr>)),
     hal_tunnel_map_vrf_entry_del = (\<lambda>h k. (0, h\<lparr>hw_tunnel := (hw_tunnel h)(k := None)\<rparr>))\<rparr>"

text \<open>The environment: \<open>a\<close> switches the assertions, \<open>ok\<close> decides each allocation.\<close>

definition ref_env :: "bool \<Rightarrow> (nat \<Rightarrow> bool) \<Rightarrow> (ref_hash, ref_fbarray, ref_fib, hw) env" where
  "ref_env a ok = \<lparr>assert_on = a, zmalloc_ok = ok, hash = ref_hash_api,
     fbarray = ref_fbarray_api, fib = ref_fib_api, hal = ref_hal_api\<rparr>"

lemmas ref_env_simps = ref_env_def ref_hash_api_def ref_hash_add_def ref_fbarray_api_def
  ref_fb_find_def ref_fib_api_def ref_fib_add_def ref_fib_delete_def ref_hal_api_def

subsection \<open>The reference environment meets the laws\<close>

lemma slot_lookup_set:
  "slot_lookup xs k \<noteq> None \<Longrightarrow> slot_lookup (slot_set xs k v) = (slot_lookup xs)(k \<mapsto> v)"
  by (rule ext, induction xs k v rule: slot_set.induct) (auto split: if_splits)

lemma slot_lookup_fill:
  "slot_lookup xs k = None \<Longrightarrow> slot_lookup (slot_fill xs k v) = (slot_lookup xs)(k \<mapsto> v)"
  by (rule ext, induction xs k v rule: slot_fill.induct) (auto split: if_splits)

lemma slot_lookup_clear: "slot_lookup (slot_clear xs k) = (slot_lookup xs)(k := None)"
  by (rule ext, induction xs k rule: slot_clear.induct) auto

lemma slot_pos_present: "slot_lookup xs k \<noteq> None \<Longrightarrow> 0 \<le> slot_pos xs k i"
  by (induction xs k i rule: slot_pos.induct) auto

lemma slot_pos_absent: "slot_lookup xs k = None \<Longrightarrow> slot_pos xs k i < 0"
  by (induction xs k i rule: slot_pos.induct) (auto simp: ENOENT_def split: if_splits)

lemma slot_lookup_in: "slot_lookup xs k = Some v \<Longrightarrow> Some (k, v) \<in> set xs"
  by (induction xs k rule: slot_lookup.induct) (auto split: if_splits)

lemma finite_slot_lookup: "finite (dom (slot_lookup xs))"
proof (rule finite_subset)
  show "dom (slot_lookup xs) \<subseteq> (\<lambda>e. fst (the e)) ` set xs"
    using slot_lookup_in by (force simp: image_iff)
qed simp

interpretation ref_hash: rte_hash ref_hash_api
proof
  fix t :: ref_hash and k
  show "rte_hash_lookup_data ref_hash_api (rte_hash_reset ref_hash_api t) k = None"
    by (simp add: ref_hash_api_def)
next
  fix t :: ref_hash and k v r t'
  assume "rte_hash_add_key_data ref_hash_api t k v = (r, t')" and "0 \<le> r"
  then show "rte_hash_lookup_data ref_hash_api t' = (rte_hash_lookup_data ref_hash_api t)(k \<mapsto> v)"
    by (auto simp: ref_hash_api_def ref_hash_add_def slot_lookup_set slot_lookup_fill ENOSPC_def
        split: prod.splits if_splits)
next
  fix t :: ref_hash and k v r t'
  assume "rte_hash_add_key_data ref_hash_api t k v = (r, t')" and "r < 0"
  then show "rte_hash_lookup_data ref_hash_api t' = rte_hash_lookup_data ref_hash_api t"
    by (auto simp: ref_hash_api_def ref_hash_add_def split: prod.splits if_splits)
next
  fix t :: ref_hash and k v
  assume "rte_hash_lookup_data ref_hash_api t k \<noteq> None"
  then show "0 \<le> fst (rte_hash_add_key_data ref_hash_api t k v)"
    by (auto simp: ref_hash_api_def ref_hash_add_def split: prod.splits)
next
  fix t :: ref_hash and k r t'
  assume "rte_hash_lookup_data ref_hash_api t k \<noteq> None"
    and "rte_hash_del_key ref_hash_api t k = (r, t')"
  then show "0 \<le> r \<and> rte_hash_lookup_data ref_hash_api t'
      = (rte_hash_lookup_data ref_hash_api t)(k := None)"
    using slot_pos_present by (auto simp: ref_hash_api_def slot_lookup_clear)
next
  fix t :: ref_hash and k r t'
  assume "rte_hash_lookup_data ref_hash_api t k = None"
    and "rte_hash_del_key ref_hash_api t k = (r, t')"
  then show "r < 0 \<and> rte_hash_lookup_data ref_hash_api t' = rte_hash_lookup_data ref_hash_api t"
    using slot_pos_absent by (auto simp: ref_hash_api_def slot_lookup_clear)
next
  fix t :: ref_hash
  show "finite (dom (rte_hash_lookup_data ref_hash_api t))"
    by (simp add: ref_hash_api_def finite_slot_lookup)
qed

lemma slot_clear_map:
  "slot_clear xs k = map (\<lambda>e. case e of None \<Rightarrow> None | Some (k', v) \<Rightarrow> if k' = k then None else Some (k', v)) xs"
  by (induction xs k rule: slot_clear.induct) auto

lemma slot_clear_commute: "slot_clear (slot_clear xs k) k' = slot_clear (slot_clear xs k') k"
  by (induction xs) (auto simp: slot_clear_map split: option.splits)

lemma slot_clear_idem: "slot_clear (slot_clear xs k) k = slot_clear xs k"
  by (induction xs) (auto simp: slot_clear_map split: option.splits)

lemma slot_live_lookup: "Some (k, v) \<in> set (slot_live xs) \<longleftrightarrow> slot_lookup xs k = Some v"
  by (induction xs rule: slot_live.induct) (auto simp: slot_lookup_clear)

lemma slot_live_clear: "slot_live (slot_clear xs k) = slot_clear (slot_live xs) k"
proof (induction xs rule: slot_live.induct)
  case (3 k' v xs)
  then show ?case
    by (cases "k' = k") (simp_all add: slot_clear_idem [of xs] slot_clear_commute [of xs k k'])
qed simp_all

interpretation ref_hash_it: rte_hash_iter ref_hash_api "\<lambda>t. slot_live (snd t)"
proof unfold_locales
  fix t :: ref_hash and k v
  show "rte_hash_lookup_data ref_hash_api t k = Some v \<longleftrightarrow> Some (k, v) \<in> set (slot_live (snd t))"
    by (simp add: ref_hash_api_def slot_live_lookup)
next
  fix t :: ref_hash and k r t'
  assume "rte_hash_del_key ref_hash_api t k = (r, t')"
  then show "slot_live (snd t') = map (\<lambda>e. case e of None \<Rightarrow> None
      | Some (k', v) \<Rightarrow> if k' = k then None else Some (k', v)) (slot_live (snd t))"
    by (auto simp: ref_hash_api_def slot_live_clear simp flip: slot_clear_map)
next
  fix t :: ref_hash and i
  show "rte_hash_iterate ref_hash_api t i =
      map_option (\<lambda>((k, v), j). (k, v, j)) (next_slot (slot_live (snd t)) i)"
    by (simp add: ref_hash_api_def)
qed

lemma first_free_ge: "i \<le> first_free n us i"
  by (induction n us i rule: first_free.induct) auto

lemma first_free_used: "i \<le> j \<Longrightarrow> j < first_free n us i \<Longrightarrow> j \<in> set us"
  by (induction n us i rule: first_free.induct)
    (auto split: if_splits, metis Suc_leI le_neq_implies_less)

lemma first_free_stuck: "first_free n us i \<in> set us \<Longrightarrow> n = first_free n us i - i"
proof (induction n us i rule: first_free.induct)
  case (1 us i)
  then show ?case by simp
next
  case (2 n us i)
  then show ?case using first_free_ge [of "Suc i" n us] by (auto split: if_splits)
qed

lemma first_free_fresh: "first_free (Suc (length us)) us i \<notin> set us"
proof
  define n j where "n = Suc (length us)" and "j = first_free n us i"
  assume "first_free (Suc (length us)) us i \<in> set us"
  then have "j \<in> set us" by (simp only: n_def j_def)
  then have len: "j = i + n"
    using first_free_stuck [of n us i] first_free_ge [of i n us] by (simp add: j_def)
  have "{i ..< j} \<subseteq> set us"
    using first_free_used [of i _ n us] by (auto simp: j_def)
  then have "card {i ..< j} \<le> card (set us)" by (intro card_mono) auto
  then show False using len card_length [of us] by (simp add: n_def)
qed

lemma ref_fb_find_nonneg:
  "0 \<le> ref_fb_find b i \<longleftrightarrow> first_free (Suc (length (snd b))) (snd b) i < fst b"
  by (cases b) (simp add: ref_fb_find_def Let_def ENOSPC_def del: first_free.simps)

lemma ref_fb_find_eq:
  "0 \<le> ref_fb_find b i \<Longrightarrow> nat (ref_fb_find b i) = first_free (Suc (length (snd b))) (snd b) i"
  by (cases b) (auto simp: ref_fb_find_def Let_def ENOSPC_def simp del: first_free.simps)

interpretation ref_fb: rte_fbarray ref_fbarray_api "\<lambda>b. set (snd b)"
proof
  fix b :: ref_fbarray and i j r
  assume f: "rte_fbarray_find_next_free ref_fbarray_api b i = r" and r: "0 \<le> r"
  have k: "nat r = first_free (Suc (length (snd b))) (snd b) i"
      "first_free (Suc (length (snd b))) (snd b) i < fst b"
    using f r ref_fb_find_eq [of b i] ref_fb_find_nonneg [of b i]
    by (auto simp: ref_fbarray_api_def simp del: first_free.simps)
  show "i \<le> nat r \<and> nat r < rte_fbarray_len ref_fbarray_api b \<and> nat r \<notin> set (snd b)"
    using k first_free_ge [of i "Suc (length (snd b))" "snd b"] first_free_fresh [of "snd b" i]
    by (simp add: ref_fbarray_api_def del: first_free.simps)
  show "i \<le> j \<Longrightarrow> j < nat r \<Longrightarrow> j \<in> set (snd b)"
    unfolding k by (rule first_free_used)
next
  fix b :: ref_fbarray and i j
  assume f: "rte_fbarray_find_next_free ref_fbarray_api b i < 0"
    and j: "i \<le> j" "j < rte_fbarray_len ref_fbarray_api b"
  have "\<not> first_free (Suc (length (snd b))) (snd b) i < fst b"
    using f ref_fb_find_nonneg [of b i] by (simp add: ref_fbarray_api_def del: first_free.simps)
  then show "j \<in> set (snd b)"
    using j by (intro first_free_used [of i j "Suc (length (snd b))" "snd b"])
      (simp_all add: ref_fbarray_api_def del: first_free.simps)
qed (auto simp: ref_fbarray_api_def)

lemma map_of_filter_neq: "map_of (filter (\<lambda>r. fst r \<noteq> k) rs) = (map_of rs)(k := None)"
  by (rule ext, induction rs) auto

interpretation ref_fib: rte_fib ref_fib_api ref_fib_routes ref_fib_default
  by unfold_locales
    (auto simp: ref_fib_api_def ref_fib_routes_def ref_fib_default_def ref_fib_add_def
      ref_fib_delete_def map_of_filter_neq Let_def ENOSPC_def ENOENT_def
      split: prod.splits if_splits option.splits)

lemma ref_env_hash [simp]: "hash (ref_env a ok) = ref_hash_api"
  and ref_env_fbarray [simp]: "fbarray (ref_env a ok) = ref_fbarray_api"
  and ref_env_fib [simp]: "fib (ref_env a ok) = ref_fib_api"
  and ref_env_hal [simp]: "hal (ref_env a ok) = ref_hal_api"
  and ref_env_assert [simp]: "assert_on (ref_env a ok) = a"
  and ref_env_zmalloc [simp]: "zmalloc_ok (ref_env a ok) = ok"
  by (simp_all add: ref_env_def)

lemma ref_dpdk_env:
  "dpdk_env (ref_env a ok) (\<lambda>b. set (snd b)) ref_fib_routes ref_fib_default"
  unfolding dpdk_env_def
  by (simp add: ref_hash.rte_hash_axioms ref_fb.rte_fbarray_axioms ref_fib.rte_fib_axioms)

interpretation ref: dpdk_env "ref_env a ok" "\<lambda>b. set (snd b)" ref_fib_routes ref_fib_default
  for a ok
  by (rule ref_dpdk_env)

end
