(* ===== verification/Ntb_Refcount.thy ===== *)
theory Ntb_Refcount
  imports Ntb_Prelude
begin

text \<open>
  The contract of a table of reference counted objects, which the neighbour table and the next hop
  table both offer to the route code: a user acquires the object of a key and releases it again.
  \<open>refs s k\<close> is the number of references held on the object of \<open>k\<close> (0 when there is none),
  \<open>cap\<close> the largest count the object's counter can hold.
\<close>

locale refcounted =
  fixes inv :: "'s \<Rightarrow> bool"
    and key_ok :: "'k \<Rightarrow> bool"
    and refs :: "'s \<Rightarrow> 'k \<Rightarrow> nat"
    and acquire :: "'k \<Rightarrow> 's \<Rightarrow> (int \<times> 's) outcome"
    and release :: "'k \<Rightarrow> 's \<Rightarrow> (int \<times> 's) outcome"
    and cap :: nat
  assumes acquire_returns: "inv s \<Longrightarrow> key_ok k \<Longrightarrow> \<exists>r s'. acquire k s = Inr (r, s')"
    and acquire_ok: "inv s \<Longrightarrow> key_ok k \<Longrightarrow> refs s k < cap \<Longrightarrow> acquire k s = Inr (r, s') \<Longrightarrow> 0 \<le> r \<Longrightarrow>
      inv s' \<and> (\<forall>k'. key_ok k' \<longrightarrow> refs s' k' = ((refs s)(k := Suc (refs s k))) k')"
    and acquire_fail: "inv s \<Longrightarrow> key_ok k \<Longrightarrow> acquire k s = Inr (r, s') \<Longrightarrow> r < 0 \<Longrightarrow>
      inv s' \<and> (\<forall>k'. key_ok k' \<longrightarrow> refs s' k' = refs s k')"
    and acquire_held: "inv s \<Longrightarrow> key_ok k \<Longrightarrow> 0 < refs s k \<Longrightarrow> acquire k s = Inr (r, s') \<Longrightarrow> 0 \<le> r"
    and release_held: "inv s \<Longrightarrow> key_ok k \<Longrightarrow> 0 < refs s k \<Longrightarrow>
      \<exists>s'. release k s = Inr (0, s') \<and> inv s'
        \<and> (\<forall>k'. key_ok k' \<longrightarrow> refs s' k' = ((refs s)(k := refs s k - 1)) k')"
begin

text \<open>A reference that was acquired can be given back, and the counts are then as before.\<close>

lemma acquire_release:
  assumes "inv s" and "key_ok k" and "refs s k < cap" and "acquire k s = Inr (r, s')" and "0 \<le> r"
  shows "\<exists>s''. release k s' = Inr (0, s'') \<and> inv s'' \<and> (\<forall>k'. key_ok k' \<longrightarrow> refs s'' k' = refs s k')"
proof -
  from acquire_ok [OF assms] have i: "inv s'"
    and n: "\<And>k'. key_ok k' \<Longrightarrow> refs s' k' = ((refs s)(k := Suc (refs s k))) k'" by auto
  have "0 < refs s' k" using n [OF assms(2)] by simp
  from release_held [OF i assms(2) this] obtain s'' where "release k s' = Inr (0, s'')" "inv s''"
    "\<And>k'. key_ok k' \<Longrightarrow> refs s'' k' = ((refs s')(k := refs s' k - 1)) k'" by auto
  then show ?thesis using n assms(2) by auto
qed

text \<open>
  A run of several users: a list of acquire and release requests, each on a key. The run stops at
  the first refusal.
\<close>

fun run :: "(bool \<times> 'k) list \<Rightarrow> 's \<Rightarrow> 's outcome option" where
  "run [] s = Some (Inr s)"
| "run ((acq, k) # ops) s = (case (if acq then acquire k s else release k s) of
     Inl e \<Rightarrow> Some (Inl e)
   | Inr (r, s') \<Rightarrow> if r < 0 then None else run ops s')"

text \<open>The demand of a run: how far it may push a count, and the references it holds on the way.\<close>

fun covered :: "(bool \<times> 'k) list \<Rightarrow> ('k \<Rightarrow> nat) \<Rightarrow> bool" where
  "covered [] n = True"
| "covered ((acq, k) # ops) n \<longleftrightarrow> key_ok k \<and>
     (if acq then n k < cap \<and> covered ops (n(k := Suc (n k)))
      else 0 < n k \<and> covered ops (n(k := n k - 1)))"

fun net :: "(bool \<times> 'k) list \<Rightarrow> ('k \<Rightarrow> nat) \<Rightarrow> ('k \<Rightarrow> nat)" where
  "net [] n = n"
| "net ((acq, k) # ops) n = net ops (n(k := (if acq then Suc (n k) else n k - 1)))"

text \<open>
  A run that never releases more than it holds never faults, and one that is not refused leaves
  exactly the references it has not given back.
\<close>

lemma run_counts:
  assumes "inv s" and "covered ops n" and "\<And>k. key_ok k \<Longrightarrow> refs s k = n k"
  shows "run ops s = None \<or>
    (\<exists>s'. run ops s = Some (Inr s') \<and> inv s' \<and> (\<forall>k. key_ok k \<longrightarrow> refs s' k = net ops n k))"
  using assms
proof (induction ops arbitrary: s n)
  case Nil
  then show ?case by simp
next
  case (Cons op ops)
  obtain acq k where op: "op = (acq, k)" by (cases op)
  have k: "key_ok k" "refs s k = n k" using Cons.prems by (auto simp: op)
  show ?case
  proof (cases acq)
    case True
    obtain r s' where a: "acquire k s = Inr (r, s')"
      using acquire_returns [OF Cons.prems(1) k(1)] by blast
    show ?thesis
    proof (cases "r < 0")
      case True
      then show ?thesis using a \<open>acq\<close> by (simp add: op)
    next
      case False
      have s': "inv s' \<and> (\<forall>k'. key_ok k' \<longrightarrow> refs s' k' = ((refs s)(k := Suc (refs s k))) k')"
        using acquire_ok [OF Cons.prems(1) k(1) _ a] Cons.prems(2) k(2) False \<open>acq\<close> by (simp add: op)
      have "covered ops (n(k := Suc (n k)))" using Cons.prems(2) \<open>acq\<close> by (simp add: op)
      then show ?thesis
        using Cons.IH [of s' "n(k := Suc (n k))"] s' Cons.prems(3) a False \<open>acq\<close>
        by (simp add: op del: fun_upd_apply) (simp add: k)
    qed
  next
    case False
    have "0 < refs s k" using Cons.prems(2) k False by (simp add: op)
    then obtain s' where "release k s = Inr (0, s')" "inv s'"
      "\<And>k'. key_ok k' \<Longrightarrow> refs s' k' = ((refs s)(k := refs s k - 1)) k'"
      using release_held [OF Cons.prems(1) k(1)] by blast
    moreover have "covered ops (n(k := n k - 1))" using Cons.prems(2) False by (simp add: op)
    ultimately show ?thesis
      using Cons.IH [of s' "n(k := n k - 1)"] Cons.prems(3) False
      by (simp add: op del: fun_upd_apply) (simp add: k)
  qed
qed

end

end
