(* ===== verification/Ntb_Neigh.thy ===== *)
theory Ntb_Neigh
  imports Ntb_State Ntb_Ref_Env Ntb_Refcount
begin

text \<open>
  The overlay neighbour table of \<^verbatim>\<open>agent/neigh.c\<close>: the MAC addresses the agent keeps, the reference
  counted entries of a (VRF, gateway) pair, and the load of an entry into the switch.
\<close>

subsection \<open>Switch entries\<close>

definition shc_hal_neigh_entry_add ::
  "('t, 'b, 'f, 'h) env \<Rightarrow> u32 \<Rightarrow> u8 list \<Rightarrow> ('t, 'b, 'f, 'h) agent
    \<Rightarrow> int \<times> ('t, 'b, 'f, 'h) agent" where
  "shc_hal_neigh_entry_add D neigh_oid dmac s =
     (case hal_neigh_entry_add (hal D) (hw_state s) neigh_oid dmac of (r, h) \<Rightarrow>
        (if r \<noteq> 0 then NTB_LOAD_TO_P4_FAIL else 0, s\<lparr>hw_state := h\<rparr>))"

definition shc_hal_neigh_entry_del ::
  "('t, 'b, 'f, 'h) env \<Rightarrow> u32 \<Rightarrow> ('t, 'b, 'f, 'h) agent \<Rightarrow> int \<times> ('t, 'b, 'f, 'h) agent" where
  "shc_hal_neigh_entry_del D neigh_oid s =
     (case hal_neigh_entry_del (hal D) (hw_state s) neigh_oid of (r, h) \<Rightarrow>
        (if r \<noteq> 0 then NTB_LOAD_TO_P4_FAIL else 0, s\<lparr>hw_state := h\<rparr>))"

subsection \<open>MAC addresses\<close>

definition default_mac :: "u8 list" where
  "default_mac = [0x3c, 0xfd, 0xfe, 0x29, 0xcb, 0xc2]"

definition ntb_fake_mac_get :: "('t, 'b, 'f, 'h) agent \<Rightarrow> u8 list" where
  "ntb_fake_mac_get s = fake_mac s"

definition ntb_fake_mac_set ::
  "u8 list \<Rightarrow> ('t, 'b, 'f, 'h) agent \<Rightarrow> int \<times> ('t, 'b, 'f, 'h) agent" where
  "ntb_fake_mac_set m s = (0, s\<lparr>fake_mac := m\<rparr>)"

definition ntb_def_gw_mac_get :: "('t, 'b, 'f, 'h) agent \<Rightarrow> u8 list" where
  "ntb_def_gw_mac_get s = def_gw_mac s"

definition ntb_def_gw_mac_set ::
  "u8 list \<Rightarrow> ('t, 'b, 'f, 'h) agent \<Rightarrow> int \<times> ('t, 'b, 'f, 'h) agent" where
  "ntb_def_gw_mac_set m s = (0, s\<lparr>def_gw_mac := m\<rparr>)"

definition ntb_broadcast_mac_get :: "u8 list" where
  "ntb_broadcast_mac_get = [0xff, 0xff, 0xff, 0xff, 0xff, 0xff]"

definition ntb_zero_mac_get :: "u8 list" where
  "ntb_zero_mac_get = [0, 0, 0, 0, 0, 0]"

subsection \<open>Entries\<close>

definition put_neigh ::
  "addr \<Rightarrow> ol_neigh_entry \<Rightarrow> ('t, 'b, 'f, 'h) agent \<Rightarrow> ('t, 'b, 'f, 'h) agent" where
  "put_neigh p n s = s\<lparr>neigh_heap := (neigh_heap s)(p \<mapsto> n)\<rparr>"

definition free_neigh :: "addr \<Rightarrow> ('t, 'b, 'f, 'h) agent \<Rightarrow> ('t, 'b, 'f, 'h) agent" where
  "free_neigh p s = s\<lparr>neigh_heap := (neigh_heap s)(p := None)\<rparr>"

definition ol_neigh_lookup ::
  "('t, 'b, 'f, 'h) env \<Rightarrow> u32 \<Rightarrow> u32 \<Rightarrow> ol_neigh_entry \<Rightarrow> ('t, 'b, 'f, 'h) agent
    \<Rightarrow> (int \<times> ol_neigh_entry) outcome" where
  "ol_neigh_lookup D vrfid gw entry s =
     (case rte_hash_lookup_data (hash D) (ol_neigh_hash_tbl s) (NeighKey vrfid gw) of
        None \<Rightarrow> Inr (- 1, entry)
      | Some p \<Rightarrow> bindR (load (neigh_heap s) p) (\<lambda>n. Inr (0, n)))"

text \<open>
  The Ethernet header a static entry carries: destination, source, and the IPv4 type, over the
  first 14 of the 22 header bytes.
\<close>

definition static_hh :: "u8 list \<Rightarrow> u8 list \<Rightarrow> u8 list \<Rightarrow> u8 list" where
  "static_hh hw_addr fmac h = put_bytes 0 (hw_addr @ fmac @ [0x08, 0x00]) h"

definition ol_neigh_set_static ::
  "u8 list \<Rightarrow> u8 list \<Rightarrow> ol_neigh_entry \<Rightarrow> ol_neigh_entry" where
  "ol_neigh_set_static hw_addr fmac n =
     (let n1 = (if \<not> F_arp_static n then n\<lparr>refcnt := refcnt n + 1\<rparr> else n) in
      n1\<lparr>F_arp_static := True, F_entry_valid := True, hh := static_hh hw_addr fmac (hh n1),
         hh_len := 14, F_arp_valid := True\<rparr>)"

definition ol_neigh_add_static ::
  "('t, 'b, 'f, 'h) env \<Rightarrow> u32 \<Rightarrow> u32 \<Rightarrow> u8 list \<Rightarrow> ('t, 'b, 'f, 'h) agent
    \<Rightarrow> (int \<times> ('t, 'b, 'f, 'h) agent) outcome" where
  "ol_neigh_add_static D vrfid gw hw_addr s =
     (let key = NeighKey vrfid gw;
          fin = (\<lambda>p s'. bindR (load (neigh_heap s') p) (\<lambda>n.
            Inr (0, put_neigh p (ol_neigh_set_static hw_addr (ntb_fake_mac_get s') n) s')))
      in case rte_hash_lookup_data (hash D) (ol_neigh_hash_tbl s) key of
        Some p \<Rightarrow> fin p s
      | None \<Rightarrow> (case rte_zmalloc D s of
            (None, s1) \<Rightarrow> Inr (NTB_COMM_NOMEM, s1)
          | (Some p, s1) \<Rightarrow>
              let s2 = put_neigh p ol_neigh_entry_zero s1 in
              case rte_hash_add_key_data (hash D) (ol_neigh_hash_tbl s2) key p of (r, t) \<Rightarrow>
                let s3 = s2\<lparr>ol_neigh_hash_tbl := t\<rparr> in
                if r < 0 then Inr (- EFAULT, free_neigh p s3)
                else fin p (s3\<lparr>ol_neigh_count := ol_neigh_count s3 + 1\<rparr>)))"

definition ntb_neigh_add ::
  "('t, 'b, 'f, 'h) env \<Rightarrow> nat \<Rightarrow> u32 \<Rightarrow> u32 \<Rightarrow> ('t, 'b, 'f, 'h) agent
    \<Rightarrow> (int \<times> u32 \<times> ('t, 'b, 'f, 'h) agent) outcome" where
  "ntb_neigh_add D i gw oid_ret s = bindR (get_dp s i) (\<lambda>v.
     let key = NeighKey (of_int (vrf_id v)) gw in
     case rte_hash_lookup_data (hash D) (ol_neigh_hash_tbl s) key of
       Some p \<Rightarrow> bindR (load (neigh_heap s) p) (\<lambda>n.
         Inr (0, ne_oid n, put_neigh p (n\<lparr>refcnt := refcnt n + 1\<rparr>) s))
     | None \<Rightarrow> (case rte_zmalloc D s of
           (None, s1) \<Rightarrow> Inr (- ENOMEM, oid_ret, s1)
         | (Some p, s1) \<Rightarrow>
             let n = ol_neigh_entry_zero\<lparr>refcnt := 1, F_fast_arp := True, F_entry_valid := True\<rparr>;
                 s2 = put_neigh p n s1
             in case rte_hash_add_key_data (hash D) (ol_neigh_hash_tbl s2) key p of (r, t) \<Rightarrow>
               let s3 = s2\<lparr>ol_neigh_hash_tbl := t\<rparr> in
               if r < 0 then Inr (- EFAULT, oid_ret, free_neigh p s3)
               else case hal_neigh_alloc_oid (hal D) (hw_state s3) (ne_oid n) of (r', oid, h) \<Rightarrow>
                 let s4 = put_neigh p (n\<lparr>ne_oid := oid\<rparr>) (s3\<lparr>hw_state := h\<rparr>) in
                 if r' < 0 then
                   let s5 = s4\<lparr>ol_neigh_hash_tbl :=
                     snd (rte_hash_del_key (hash D) (ol_neigh_hash_tbl s4) key)\<rparr>
                   in Inr (r', oid_ret, free_neigh p s5)
                 else
                   let s5 = upd_dp i (\<lambda>v. v\<lparr>neigh_cnt := neigh_cnt v + 1\<rparr>) s4
                   in Inr (0, oid, s5\<lparr>ol_neigh_count := ol_neigh_count s5 + 1\<rparr>)))"

definition ntb_neigh_del ::
  "('t, 'b, 'f, 'h) env \<Rightarrow> nat \<Rightarrow> u32 \<Rightarrow> ('t, 'b, 'f, 'h) agent
    \<Rightarrow> (int \<times> ('t, 'b, 'f, 'h) agent) outcome" where
  "ntb_neigh_del D i gw s = bindR (get_dp s i) (\<lambda>v.
     let key = NeighKey (of_int (vrf_id v)) gw in
     case rte_hash_lookup_data (hash D) (ol_neigh_hash_tbl s) key of
       None \<Rightarrow> Inr (- 1, s)
     | Some p \<Rightarrow> bindR (load (neigh_heap s) p) (\<lambda>n.
         bindR (rte_assert D (refcnt n > 0)) (\<lambda>_.
         let n' = n\<lparr>refcnt := refcnt n - 1\<rparr>; s1 = put_neigh p n' s in
         if refcnt n' > 0 then Inr (0, s1)
         else
           let s2 = upd_dp i (\<lambda>v. v\<lparr>neigh_cnt := neigh_cnt v - 1\<rparr>) s1;
               s3 = s2\<lparr>ol_neigh_count := ol_neigh_count s2 - 1\<rparr>;
               s4 = s3\<lparr>ol_neigh_hash_tbl :=
                 snd (rte_hash_del_key (hash D) (ol_neigh_hash_tbl s3) key)\<rparr>
           in Inr (0, free_neigh p s4))))"

text \<open>
  The lookup on behalf of the packet path: \<open>flag\<close> 0 loads the entry into the switch, any other flag
  takes it out. \<open>hw_addr\<close> is the content of the out parameter.
\<close>

definition ntb_neigh_lookup ::
  "('t, 'b, 'f, 'h) env \<Rightarrow> u32 \<Rightarrow> u32 \<Rightarrow> u8 list \<Rightarrow> int \<Rightarrow> ('t, 'b, 'f, 'h) agent
    \<Rightarrow> (int \<times> u8 list \<times> ('t, 'b, 'f, 'h) agent) outcome" where
  "ntb_neigh_lookup D vrfid gw hw_addr flag_of_add_del s =
     (case rte_hash_lookup_data (hash D) (ol_neigh_hash_tbl s) (NeighKey vrfid gw) of
        None \<Rightarrow> Inr (- ENOENT, hw_addr, s)
      | Some p \<Rightarrow> bindR (load (neigh_heap s) p) (\<lambda>n.
          if \<not> F_arp_valid n then Inr (- 1, hw_addr, s)
          else
            let dmac = take 6 (hh n) in
            case (if flag_of_add_del = 0 then shc_hal_neigh_entry_add D (ne_oid n) dmac s
                  else shc_hal_neigh_entry_del D (ne_oid n) s) of
              (ret, s') \<Rightarrow> if ret < 0 then Inr (ret, dmac, s') else Inr (0, dmac, s')))"

definition ntb_neigh_init ::
  "('t, 'b, 'f, 'h) env \<Rightarrow> ('t, 'b, 'f, 'h) agent \<Rightarrow> (int \<times> ('t, 'b, 'f, 'h) agent) outcome" where
  "ntb_neigh_init D s = (case rte_hash_create (hash D) (MAX_VRF_GW_HASH_ENT * 6) of
     None \<Rightarrow> bindR (rte_assert D False) (\<lambda>_. Inl NullDeref)
   | Some t \<Rightarrow> Inr (0, s\<lparr>ol_neigh_hash_tbl := rte_hash_reset (hash D) t\<rparr>))"

definition ntb_neigh_deinit :: int where
  "ntb_neigh_deinit = 0"

subsection \<open>Invariant\<close>

text \<open>
  The table and the heap are linked, and the global counter is the size of the table, modulo its
  width.
\<close>

definition neigh_wf :: "('t, 'b, 'f, 'h) env \<Rightarrow> ('t, 'b, 'f, 'h) agent \<Rightarrow> bool" where
  "neigh_wf D s \<longleftrightarrow> linked (neigh_map D s) (neigh_heap s) (next_addr s)
    \<and> ol_neigh_count s = of_nat (card (dom (neigh_map D s)))"

text \<open>The VRF at index \<open>i\<close> of the array has the id \<open>i + 1\<close>.\<close>

definition vrf_ids_ok :: "('t, 'b, 'f, 'h) agent \<Rightarrow> bool" where
  "vrf_ids_ok s \<longleftrightarrow> vrf_ids s = map (\<lambda>i. int i + 1) [0..<NTB_NR_VRF]"

text \<open>The table key of a gateway in the VRF at an index.\<close>

definition slot_key :: "nat \<times> u32 \<Rightarrow> hkey" where
  "slot_key k = NeighKey (of_nat (fst k + 1)) (snd k)"

text \<open>The references held on the neighbour of a gateway in the VRF at an index.\<close>

definition neigh_refs ::
  "('t, 'b, 'f, 'h) env \<Rightarrow> ('t, 'b, 'f, 'h) agent \<Rightarrow> nat \<times> u32 \<Rightarrow> nat" where
  "neigh_refs D s k = (case neigh_map D s (slot_key k) of
     None \<Rightarrow> 0
   | Some p \<Rightarrow> (case neigh_heap s p of None \<Rightarrow> 0 | Some n \<Rightarrow> unat (refcnt n)))"

definition neigh_counted :: "('t, 'b, 'f, 'h) env \<Rightarrow> ('t, 'b, 'f, 'h) agent \<Rightarrow> bool" where
  "neigh_counted D s \<longleftrightarrow> neigh_wf D s \<and> vrf_ids_ok s \<and> (\<forall>n \<in> ran (neigh_heap s). refcnt n \<noteq> 0)"

text \<open>What the neighbour operations leave alone.\<close>

definition neigh_frame :: "('t, 'b, 'f, 'h) agent \<Rightarrow> ('t, 'b, 'f, 'h) agent \<Rightarrow> bool" where
  "neigh_frame s s' \<longleftrightarrow> vrf_ids s' = vrf_ids s \<and> vrf_names s' = vrf_names s
    \<and> tunnel_part s' = tunnel_part s \<and> route_part s' = route_part s \<and> nhop_part s' = nhop_part s
    \<and> fake_mac s' = fake_mac s \<and> next_addr s \<le> next_addr s'"

lemma neigh_frame_refl [simp, intro]: "neigh_frame s s"
  by (simp add: neigh_frame_def)

lemma neigh_frame_trans [trans]: "neigh_frame s s' \<Longrightarrow> neigh_frame s' s'' \<Longrightarrow> neigh_frame s s''"
  by (auto simp: neigh_frame_def)

lemma part_map_upd_neigh_cnt:
  "map (\<lambda>v. vrf_id (dp v)) (g_ntb_vrfs (upd_dp i (\<lambda>v. v\<lparr>neigh_cnt := c v\<rparr>) s)) =
    map (\<lambda>v. vrf_id (dp v)) (g_ntb_vrfs s)"
  "map (\<lambda>v. (vname v, valid v)) (g_ntb_vrfs (upd_dp i (\<lambda>v. v\<lparr>neigh_cnt := c v\<rparr>) s)) =
    map (\<lambda>v. (vname v, valid v)) (g_ntb_vrfs s)"
  "map (\<lambda>v. (tunnel_rmap (dp v), tunnel_cnt (dp v)))
      (g_ntb_vrfs (upd_dp i (\<lambda>v. v\<lparr>neigh_cnt := c v\<rparr>) s)) =
    map (\<lambda>v. (tunnel_rmap (dp v), tunnel_cnt (dp v))) (g_ntb_vrfs s)"
  "map (\<lambda>v. (dp_fib (dp v), rib_cnt (dp v)))
      (g_ntb_vrfs (upd_dp i (\<lambda>v. v\<lparr>neigh_cnt := c v\<rparr>) s)) =
    map (\<lambda>v. (dp_fib (dp v), rib_cnt (dp v))) (g_ntb_vrfs s)"
  by (rule map_upd_dp; simp)+

lemmas neigh_frame_simps = neigh_frame_def part_defs comp_def part_map_upd_neigh_cnt
  put_neigh_def free_neigh_def

lemma vrf_ids_ok_frame: "neigh_frame s s' \<Longrightarrow> vrf_ids_ok s \<Longrightarrow> vrf_ids_ok s'"
  by (simp add: neigh_frame_def vrf_ids_ok_def)

lemma vrf_ids_ok_length: "vrf_ids_ok s \<Longrightarrow> length (g_ntb_vrfs s) = NTB_NR_VRF"
  unfolding vrf_ids_ok_def vrf_ids_def by (metis diff_zero length_map length_upt)

lemma vrf_ids_ok_nth:
  assumes "vrf_ids_ok s" and "i < NTB_NR_VRF"
  shows "vrf_id (dp (g_ntb_vrfs s ! i)) = int i + 1"
proof -
  have "map (vrf_id \<circ> dp) (g_ntb_vrfs s) ! i = map (\<lambda>i. int i + 1) [0..<NTB_NR_VRF] ! i"
    using assms(1) by (simp add: vrf_ids_ok_def vrf_ids_def)
  then show ?thesis using assms vrf_ids_ok_length [OF assms(1)] by simp
qed

lemma slot_id_inj:
  "i < NTB_NR_VRF \<Longrightarrow> j < NTB_NR_VRF \<Longrightarrow> (of_nat (i + 1) :: u32) = of_nat (j + 1) \<Longrightarrow> i = j"
  by (simp add: NTB_NR_VRF_def word_of_nat_eq_iff take_bit_eq_mod of_nat_eq_iff
      del: of_nat_Suc of_nat_add)

text \<open>
  The effect of an acquisition: a hit counts up, a miss links a fresh entry, a failure changes
  nothing that the table shows.
\<close>

context dpdk_env
begin

lemma neigh_map_finite: "finite (dom (neigh_map D s))"
  by (simp add: neigh_map_def finite_keys)

text \<open>A neighbour that is not in the table yet: it is created, or nothing changes.\<close>

lemma neigh_add_absent:
  assumes wf: "neigh_wf D s" and i: "i < length (g_ntb_vrfs s)"
    and k: "k = NeighKey (of_int (vrf_id (dp (g_ntb_vrfs s ! i)))) gw" and None: "neigh_map D s k = None"
  shows "\<exists>r oid s'. ntb_neigh_add D i gw old s = Inr (r, oid, s') \<and> neigh_frame s s' \<and> neigh_wf D s' \<and>
    (if r < 0 then oid = old \<and> neigh_map D s' = neigh_map D s \<and> neigh_heap s' = neigh_heap s
     else r = 0 \<and> neigh_map D s' = (neigh_map D s)(k \<mapsto> next_addr s) \<and>
       (\<exists>n. neigh_heap s' = (neigh_heap s)(next_addr s \<mapsto> n) \<and> refcnt n = 1 \<and> oid = ne_oid n))"
proof -
  define a n where "a = next_addr s"
    and "n = ol_neigh_entry_zero\<lparr>refcnt := 1, F_fast_arp := True, F_entry_valid := True\<rparr>"
  obtain r t where t: "rte_hash_add_key_data (hash D) (ol_neigh_hash_tbl s) k a = (r, t)"
    by fastforce
  obtain r' oid h where h: "hal_neigh_alloc_oid (hal D) (hw_state s) (ne_oid n) = (r', oid, h)"
    by (metis surj_pair)
  obtain r2 t2 where t2: "rte_hash_del_key (hash D) t k = (r2, t2)" by fastforce
  have l: "linked (neigh_map D s) (neigh_heap s) a" using wf by (simp add: neigh_wf_def a_def)
  note fresh = linked_fresh [OF l order_refl] and m0 = None [unfolded neigh_map_def]
  have wf_fail: "neigh_wf D s'" if "neigh_map D s' = neigh_map D s" "neigh_heap s' = neigh_heap s"
    "next_addr s' = Suc a" "ol_neigh_count s' = ol_neigh_count s" for s'
    using wf linked_mono [OF l, of "Suc a"] that by (simp add: neigh_wf_def)
  note run = ntb_neigh_add_def rte_zmalloc_def put_neigh_def free_neigh_def None k [symmetric]
    a_def [symmetric] n_def [symmetric] t h t2 Let_def
  consider "\<not> zmalloc_ok D a" | "zmalloc_ok D a" "r < 0" | "zmalloc_ok D a" "0 \<le> r" "r' < 0"
    | "zmalloc_ok D a" "0 \<le> r" "0 \<le> r'" by linarith
  then show ?thesis
  proof cases
    case 1
    let ?s = "s\<lparr>next_addr := Suc a\<rparr>"
    have "ntb_neigh_add D i gw old s = Inr (- ENOMEM, old, ?s)" using 1 i m0 by (simp add: run)
    then show ?thesis using wf_fail [of ?s] by (simp add: neigh_frame_simps neigh_map_def ENOMEM_def a_def)
  next
    case 2
    let ?s = "s\<lparr>next_addr := Suc a, ol_neigh_hash_tbl := t\<rparr>"
    have "ntb_neigh_add D i gw old s = Inr (- EFAULT, old, ?s)" using 2 i m0 fresh by (simp add: run fun_upd_idem)
    moreover have "neigh_map D ?s = neigh_map D s" using add_fail [OF t] 2 by (simp add: neigh_map_def)
    ultimately show ?thesis using wf_fail [of ?s] by (simp add: neigh_frame_simps EFAULT_def a_def)
  next
    case 3
    let ?s = "s\<lparr>next_addr := Suc a, ol_neigh_hash_tbl := t2, hw_state := h\<rparr>"
    have "ntb_neigh_add D i gw old s = Inr (r', old, ?s)" using 3 i m0 fresh by (simp add: run fun_upd_idem)
    moreover have "neigh_map D ?s = neigh_map D s"
      using add_del_lookup [OF m0 t _ t2] 3 by (simp add: neigh_map_def)
    ultimately show ?thesis using wf_fail [of ?s] 3 by (simp add: neigh_frame_simps a_def)
  next
    case 4
    let ?s4 = "s\<lparr>next_addr := Suc a, ol_neigh_hash_tbl := t, hw_state := h,
      neigh_heap := (neigh_heap s)(a \<mapsto> n\<lparr>ne_oid := oid\<rparr>)\<rparr>"
    let ?s5 = "upd_dp i (\<lambda>v. v\<lparr>neigh_cnt := neigh_cnt v + 1\<rparr>) ?s4"
    let ?s = "?s5\<lparr>ol_neigh_count := ol_neigh_count ?s5 + 1\<rparr>"
    have "ntb_neigh_add D i gw old s = Inr (0, ne_oid (n\<lparr>ne_oid := oid\<rparr>), ?s)" using 4 i m0 by (simp add: run)
    moreover have m: "neigh_map D ?s = (neigh_map D s)(k \<mapsto> a)" using add_ok [OF t] 4 by (simp add: neigh_map_def)
    moreover have "neigh_wf D ?s"
      using wf linked_new [OF l None lessI] card_insert_dom_upd [OF neigh_map_finite None]
      unfolding neigh_wf_def m by (simp add: a_def)
    ultimately show ?thesis
      by (intro exI [of _ 0] exI [of _ oid] exI [of _ ?s])
        (auto simp: neigh_frame_simps n_def a_def intro!: exI [of _ "n\<lparr>ne_oid := oid\<rparr>"])
  qed
qed

lemma ntb_neigh_add_cases:
  assumes wf: "neigh_wf D s" and i: "i < length (g_ntb_vrfs s)"
    and k: "k = NeighKey (of_int (vrf_id (dp (g_ntb_vrfs s ! i)))) gw"
  obtains
    (hit) p n s' where "neigh_map D s k = Some p" "neigh_heap s p = Some n"
      "ntb_neigh_add D i gw old s = Inr (0, ne_oid n, s')" "neigh_frame s s'"
      "neigh_map D s' = neigh_map D s"
      "neigh_heap s' = (neigh_heap s)(p \<mapsto> n\<lparr>refcnt := refcnt n + 1\<rparr>)" "neigh_wf D s'"
  | (new) n s' where "neigh_map D s k = None"
      "ntb_neigh_add D i gw old s = Inr (0, ne_oid n, s')" "neigh_frame s s'"
      "neigh_map D s' = (neigh_map D s)(k \<mapsto> next_addr s)"
      "neigh_heap s' = (neigh_heap s)(next_addr s \<mapsto> n)" "refcnt n = 1" "neigh_wf D s'"
  | (fail) r s' where "neigh_map D s k = None"
      "ntb_neigh_add D i gw old s = Inr (r, old, s')" "r < 0" "neigh_frame s s'"
      "neigh_map D s' = neigh_map D s" "neigh_heap s' = neigh_heap s" "neigh_wf D s'"
proof (cases "neigh_map D s k")
  case (Some p)
  then obtain n where n: "neigh_heap s p = Some n" "p \<noteq> 0"
    using wf linked_load unfolding neigh_wf_def by metis
  let ?s = "put_neigh p (n\<lparr>refcnt := refcnt n + 1\<rparr>) s"
  have "ntb_neigh_add D i gw old s = Inr (0, ne_oid n, ?s)"
    using Some n i by (simp add: ntb_neigh_add_def k neigh_map_def)
  moreover have "neigh_wf D ?s"
    using wf n(1) by (simp add: neigh_wf_def put_neigh_def neigh_map_def linked_put)
  ultimately show ?thesis
    using Some n by (intro hit [of p n ?s]) (simp_all add: neigh_frame_simps neigh_map_def)
next
  case None
  obtain r oid s' where c: "ntb_neigh_add D i gw old s = Inr (r, oid, s')" "neigh_frame s s'" "neigh_wf D s'"
    "if r < 0 then oid = old \<and> neigh_map D s' = neigh_map D s \<and> neigh_heap s' = neigh_heap s
     else r = 0 \<and> neigh_map D s' = (neigh_map D s)(k \<mapsto> next_addr s) \<and>
       (\<exists>n. neigh_heap s' = (neigh_heap s)(next_addr s \<mapsto> n) \<and> refcnt n = 1 \<and> oid = ne_oid n)"
    using neigh_add_absent [OF wf i k None, of old] by blast
  show ?thesis
  proof (cases "r < 0")
    case True
    then show ?thesis using c None by (intro fail [of r s']) auto
  next
    case False
    then obtain m where "neigh_heap s' = (neigh_heap s)(next_addr s \<mapsto> m)" "refcnt m = 1" "oid = ne_oid m"
      using c(4) by auto
    with False show ?thesis using c None by (intro new [of m s']) auto
  qed
qed

text \<open>The effect of a release.\<close>

lemma ntb_neigh_del_cases:
  assumes wf: "neigh_wf D s" and i: "i < length (g_ntb_vrfs s)"
    and k: "k = NeighKey (of_int (vrf_id (dp (g_ntb_vrfs s ! i)))) gw"
    and pos: "assert_on D \<Longrightarrow> \<forall>n \<in> ran (neigh_heap s). refcnt n \<noteq> 0"
  obtains
    (absent) "neigh_map D s k = None" "ntb_neigh_del D i gw s = Inr (- 1, s)"
  | (kept) p n s' where "neigh_map D s k = Some p" "neigh_heap s p = Some n" "refcnt n \<noteq> 1"
      "ntb_neigh_del D i gw s = Inr (0, s')" "neigh_frame s s'" "neigh_map D s' = neigh_map D s"
      "neigh_heap s' = (neigh_heap s)(p \<mapsto> n\<lparr>refcnt := refcnt n - 1\<rparr>)" "neigh_wf D s'"
  | (dropped) p n s' where "neigh_map D s k = Some p" "neigh_heap s p = Some n" "refcnt n = 1"
      "ntb_neigh_del D i gw s = Inr (0, s')" "neigh_frame s s'"
      "neigh_map D s' = (neigh_map D s)(k := None)" "neigh_heap s' = (neigh_heap s)(p := None)"
      "neigh_wf D s'"
proof (cases "neigh_map D s k")
  case None
  then show ?thesis using i by (intro absent) (simp_all add: ntb_neigh_del_def k neigh_map_def)
next
  case (Some p)
  have l: "linked (neigh_map D s) (neigh_heap s) (next_addr s)" using wf by (simp add: neigh_wf_def)
  obtain n where n: "neigh_heap s p = Some n" "p \<noteq> 0" using linked_load [OF l Some] by blast
  have ok: "assert_on D \<longrightarrow> 0 < refcnt n"
    using pos n(1) by (auto simp: ran_def word_neq_0_conv)
  note m0 = Some [unfolded neigh_map_def]
  let ?s1 = "put_neigh p (n\<lparr>refcnt := refcnt n - 1\<rparr>) s"
  show ?thesis
  proof (cases "refcnt n = 1")
    case False
    then have "refcnt n - 1 > 0" by (simp add: word_gt_0)
    then have "ntb_neigh_del D i gw s = Inr (0, ?s1)"
      using m0 n i ok by (simp add: ntb_neigh_del_def k Let_def)
    moreover have "neigh_wf D ?s1"
      using wf n(1) by (simp add: neigh_wf_def put_neigh_def neigh_map_def linked_put)
    ultimately show ?thesis
      using Some n False by (intro kept [of p n ?s1]) (simp_all add: neigh_frame_simps neigh_map_def)
  next
    case True
    obtain r t where t: "rte_hash_del_key (hash D) (ol_neigh_hash_tbl s) k = (r, t)" by fastforce
    let ?s2 = "upd_dp i (\<lambda>v. v\<lparr>neigh_cnt := neigh_cnt v - 1\<rparr>) ?s1"
    let ?s = "?s2\<lparr>ol_neigh_count := ol_neigh_count s - 1, ol_neigh_hash_tbl := t,
      neigh_heap := (neigh_heap s)(p := None)\<rparr>"
    have "ntb_neigh_del D i gw s = Inr (0, ?s)"
      using m0 n i ok True t by (simp add: ntb_neigh_del_def k Let_def put_neigh_def free_neigh_def)
    moreover have m: "neigh_map D ?s = (neigh_map D s)(k := None)"
      using del_lookup [OF t] by (simp add: neigh_map_def)
    moreover have "neigh_wf D ?s"
      using wf linked_drop [OF l Some] card_dom_drop [OF neigh_map_finite Some]
      unfolding neigh_wf_def m by (simp add: put_neigh_def)
    ultimately show ?thesis
      using Some n True by (intro dropped [of p n ?s]) (simp_all add: neigh_frame_simps)
  qed
qed

end

subsection \<open>Reference counting\<close>

text \<open>The two operations as the acquire and release of a reference counted table.\<close>

definition neigh_acquire ::
  "('t, 'b, 'f, 'h) env \<Rightarrow> nat \<times> u32 \<Rightarrow> ('t, 'b, 'f, 'h) agent
    \<Rightarrow> (int \<times> ('t, 'b, 'f, 'h) agent) outcome" where
  "neigh_acquire D k s = bindR (ntb_neigh_add D (fst k) (snd k) 0 s) (\<lambda>(r, _, s'). Inr (r, s'))"

definition neigh_release ::
  "('t, 'b, 'f, 'h) env \<Rightarrow> nat \<times> u32 \<Rightarrow> ('t, 'b, 'f, 'h) agent
    \<Rightarrow> (int \<times> ('t, 'b, 'f, 'h) agent) outcome" where
  "neigh_release D k s = ntb_neigh_del D (fst k) (snd k) s"

definition neigh_slot :: "nat \<times> u32 \<Rightarrow> bool" where
  "neigh_slot k \<longleftrightarrow> fst k < NTB_NR_VRF"

lemma neigh_key_slot:
  assumes "vrf_ids_ok s" and "neigh_slot k"
  shows "slot_key k = NeighKey (of_int (vrf_id (dp (g_ntb_vrfs s ! fst k)))) (snd k)"
  using vrf_ids_ok_nth [of s "fst k"] assms by (simp add: neigh_slot_def slot_key_def)

lemma neigh_slot_inj:
  "neigh_slot k \<Longrightarrow> neigh_slot k' \<Longrightarrow> slot_key k = slot_key k' \<longleftrightarrow> k = k'"
  using slot_id_inj [of "fst k" "fst k'"] by (auto simp: neigh_slot_def slot_key_def prod_eq_iff)

context dpdk_env
begin

lemma neigh_refs_pos:
  assumes "neigh_counted D s"
  shows "0 < neigh_refs D s k \<longleftrightarrow> neigh_map D s (slot_key k) \<noteq> None"
proof (cases "neigh_map D s (slot_key k)")
  case None
  then show ?thesis by (simp add: neigh_refs_def)
next
  case (Some p)
  then obtain n where "neigh_heap s p = Some n"
    using assms linked_load unfolding neigh_counted_def neigh_wf_def by metis
  moreover from this have "refcnt n \<noteq> 0" using assms by (auto simp: neigh_counted_def ran_def)
  ultimately show ?thesis using Some by (simp add: neigh_refs_def unat_gt_0)
qed

lemma neigh_refs_other:
  assumes wf: "neigh_wf D s" and k: "neigh_slot k" "neigh_slot k'" "k' \<noteq> k"
    and m: "neigh_map D s' (slot_key k') =
      neigh_map D s (slot_key k')"
    and h: "\<And>q. q \<noteq> p \<Longrightarrow> neigh_heap s' q = neigh_heap s q"
    and p: "\<And>k''. neigh_map D s k'' = Some p \<Longrightarrow> k'' = slot_key k"
  shows "neigh_refs D s' k' = neigh_refs D s k'"
proof (cases "neigh_map D s (slot_key k')")
  case None
  then show ?thesis using m by (simp add: neigh_refs_def)
next
  case (Some q)
  then have "q \<noteq> p" using p k neigh_slot_inj [of k' k] by auto
  then show ?thesis using Some m h by (simp add: neigh_refs_def)
qed

text \<open>What changes one object changes the count of its key only.\<close>

lemma neigh_refs_upd:
  assumes wf: "neigh_wf D s" and k: "neigh_slot k" "neigh_slot k'"
    and v: "neigh_refs D s' k = v"
    and m: "\<And>q. q \<noteq> slot_key k \<Longrightarrow> neigh_map D s' q = neigh_map D s q"
    and h: "\<And>q. q \<noteq> p \<Longrightarrow> neigh_heap s' q = neigh_heap s q"
    and p: "\<And>k''. neigh_map D s k'' = Some p \<Longrightarrow> k'' = slot_key k"
  shows "neigh_refs D s' k' = ((neigh_refs D s)(k := v)) k'"
proof (cases "k' = k")
  case False
  then have "slot_key k' \<noteq> slot_key k" using k neigh_slot_inj by blast
  from m [OF this] show ?thesis using neigh_refs_other [OF wf k False _ h p] False by simp
qed (simp add: v)

lemma neigh_acquire_effect:
  assumes c: "neigh_counted D s" and k: "neigh_slot k"
  shows "\<exists>r s'. neigh_acquire D k s = Inr (r, s') \<and>
    (if r < 0 then neigh_refs D s k = 0 \<and> neigh_counted D s' \<and> (\<forall>k'. neigh_refs D s' k' = neigh_refs D s k')
     else neigh_refs D s k < 2 ^ 32 - 1 \<longrightarrow> neigh_counted D s' \<and>
       (\<forall>k'. neigh_slot k' \<longrightarrow>
         neigh_refs D s' k' = ((neigh_refs D s)(k := Suc (neigh_refs D s k))) k'))"
proof -
  have wf: "neigh_wf D s" and ids: "vrf_ids_ok s" using c by (simp_all add: neigh_counted_def)
  have i: "fst k < length (g_ntb_vrfs s)" using k ids by (simp add: neigh_slot_def vrf_ids_ok_length)
  have l: "linked (neigh_map D s) (neigh_heap s) (next_addr s)" using wf by (simp add: neigh_wf_def)
  note key = neigh_key_slot [OF ids k]
  from wf i key show ?thesis
  proof (cases rule: ntb_neigh_add_cases [where old = 0])
    case (hit p n s')
    have refs: "neigh_refs D s k = unat (refcnt n)" using hit(1,2) by (simp add: neigh_refs_def)
    have "neigh_refs D s' k' = ((neigh_refs D s)(k := Suc (neigh_refs D s k))) k'"
      if "neigh_refs D s k < 2 ^ 32 - 1" "neigh_slot k'" for k'
    proof (rule neigh_refs_upd [OF wf k that(2) _ _ _ linked_inj [OF l _ hit(1)]])
      show "neigh_refs D s' k = Suc (neigh_refs D s k)"
        using hit refs that(1) unat_u32_Suc [of "refcnt n"] by (simp add: neigh_refs_def)
    qed (simp_all add: hit)
    moreover have "neigh_counted D s'" if "neigh_refs D s k < 2 ^ 32 - 1"
    proof -
      have "refcnt n + 1 \<noteq> 0" using refs that by (auto simp: unat_eq_zero [symmetric] unat_u32_Suc)
      then show ?thesis using c hit vrf_ids_ok_frame [OF hit(4) ids]
        by (auto simp: neigh_counted_def ran_def split: if_splits)
    qed
    ultimately show ?thesis using hit(3) by (simp add: neigh_acquire_def)
  next
    case (new n s')
    have fresh: "neigh_map D s k' \<noteq> Some (next_addr s)" for k'
      using l by (auto simp: linked_def)
    have "neigh_refs D s' k' = ((neigh_refs D s)(k := Suc (neigh_refs D s k))) k'" if "neigh_slot k'" for k'
      using new fresh by (intro neigh_refs_upd [OF wf k that, where p = "next_addr s"]) (auto simp: neigh_refs_def)
    moreover have "neigh_counted D s'"
      using c new vrf_ids_ok_frame [OF new(3) ids]
      by (auto simp: neigh_counted_def ran_def split: if_splits)
    ultimately show ?thesis using new(2) by (simp add: neigh_acquire_def)
  next
    case (fail r s')
    have "neigh_refs D s' k' = neigh_refs D s k'" for k'
      using fail(5,6) by (simp add: neigh_refs_def cong: option.case_cong)
    moreover have "neigh_counted D s'"
      using c fail vrf_ids_ok_frame [OF fail(4) ids] by (simp add: neigh_counted_def)
    ultimately show ?thesis using fail by (simp add: neigh_acquire_def neigh_refs_def)
  qed
qed

lemma neigh_release_effect:
  assumes c: "neigh_counted D s" and k: "neigh_slot k" and pos: "0 < neigh_refs D s k"
  shows "\<exists>s'. neigh_release D k s = Inr (0, s') \<and> neigh_counted D s' \<and>
    (\<forall>k'. neigh_slot k' \<longrightarrow> neigh_refs D s' k' = ((neigh_refs D s)(k := neigh_refs D s k - 1)) k')"
proof -
  have wf: "neigh_wf D s" and ids: "vrf_ids_ok s" using c by (simp_all add: neigh_counted_def)
  have i: "fst k < length (g_ntb_vrfs s)" using k ids by (simp add: neigh_slot_def vrf_ids_ok_length)
  have l: "linked (neigh_map D s) (neigh_heap s) (next_addr s)" using wf by (simp add: neigh_wf_def)
  note key = neigh_key_slot [OF ids k]
  have "\<forall>n \<in> ran (neigh_heap s). refcnt n \<noteq> 0" using c by (simp add: neigh_counted_def)
  with wf i key show ?thesis
  proof (cases rule: ntb_neigh_del_cases)
    case absent
    then show ?thesis using neigh_refs_pos [OF c] pos by simp
  next
    case (kept p n s')
    have refs: "neigh_refs D s k = unat (refcnt n)" using kept(1,2) by (simp add: neigh_refs_def)
    have n0: "refcnt n \<noteq> 0" using pos refs by (simp add: unat_gt_0 word_gt_0)
    have "neigh_refs D s' k' = ((neigh_refs D s)(k := neigh_refs D s k - 1)) k'" if "neigh_slot k'" for k'
    proof (rule neigh_refs_upd [OF wf k that _ _ _ linked_inj [OF l _ kept(1)]])
      show "neigh_refs D s' k = neigh_refs D s k - 1"
        using kept refs unat_u32_pred [OF n0] by (simp add: neigh_refs_def)
    qed (simp_all add: kept)
    moreover have "neigh_counted D s'"
      using c kept vrf_ids_ok_frame [OF kept(5) ids]
      by (auto simp: neigh_counted_def ran_def split: if_splits)
    ultimately show ?thesis using kept(4) by (simp add: neigh_release_def)
  next
    case (dropped p n s')
    have refs: "neigh_refs D s k = 1" using dropped(1,2,3) by (simp add: neigh_refs_def)
    have "neigh_refs D s' k' = ((neigh_refs D s)(k := neigh_refs D s k - 1)) k'" if "neigh_slot k'" for k'
    proof (rule neigh_refs_upd [OF wf k that _ _ _ linked_inj [OF l _ dropped(1)]])
      show "neigh_refs D s' k = neigh_refs D s k - 1"
        unfolding refs by (simp add: neigh_refs_def dropped(6))
    qed (simp_all add: dropped(6,7))
    moreover have "ran (neigh_heap s') \<subseteq> ran (neigh_heap s)"
      unfolding dropped(7) by (auto simp: ran_def)
    then have "neigh_counted D s'"
      using c dropped(8) vrf_ids_ok_frame [OF dropped(5) ids] by (auto simp: neigh_counted_def)
    ultimately show ?thesis using dropped(4) by (simp add: neigh_release_def)
  qed
qed

end

text \<open>The neighbour table keeps the contract of a reference counted table.\<close>

sublocale dpdk_env \<subseteq> nbr: refcounted "neigh_counted D" neigh_slot "neigh_refs D"
  "neigh_acquire D" "neigh_release D" "2 ^ 32 - 1"
proof unfold_locales
  fix s k assume a: "neigh_counted D s" "neigh_slot k"
  from neigh_acquire_effect [OF a] show "\<exists>r s'. neigh_acquire D k s = Inr (r, s')" by blast
  fix r s'
  assume r: "neigh_acquire D k s = Inr (r, s')"
  show "neigh_counted D s' \<and> (\<forall>k'. neigh_slot k' \<longrightarrow>
      neigh_refs D s' k' = ((neigh_refs D s)(k := Suc (neigh_refs D s k))) k')"
    if "neigh_refs D s k < 2 ^ 32 - 1" "0 \<le> r"
    using neigh_acquire_effect [OF a] r that by (auto split: if_splits)
  show "neigh_counted D s' \<and> (\<forall>k'. neigh_slot k' \<longrightarrow> neigh_refs D s' k' = neigh_refs D s k')"
    if "r < 0"
    using neigh_acquire_effect [OF a] r that by auto
  show "0 \<le> r" if "0 < neigh_refs D s k"
    using neigh_acquire_effect [OF a] r that by (auto split: if_splits)
next
  fix s k assume "neigh_counted D s" "neigh_slot k" "0 < neigh_refs D s k"
  then show "\<exists>s'. neigh_release D k s = Inr (0, s') \<and> neigh_counted D s' \<and> (\<forall>k'. neigh_slot k' \<longrightarrow>
      neigh_refs D s' k' = ((neigh_refs D s)(k := neigh_refs D s k - 1)) k')"
    by (rule neigh_release_effect)
qed

end
