(* ===== verification/Ntb_Route_Obj.thy ===== *)
theory Ntb_Route_Obj
  imports Ntb_Neigh
begin

text \<open>
  The objects a route is made of (\<^verbatim>\<open>agent/route.c\<close>, first half): the next hop, shared by reference
  count and found by its gateway and tunnel; the forwarding result in the file-backed array; and
  the prefix in the RIB hash and the VRF's forwarding table.
\<close>

subsection \<open>Switch entries\<close>

definition shc_hal_route_entry_add ::
  "('t, 'b, 'f, 'h) env \<Rightarrow> int \<Rightarrow> u32 \<Rightarrow> u32 \<Rightarrow> u32 \<Rightarrow> ('t, 'b, 'f, 'h) agent
    \<Rightarrow> int \<times> ('t, 'b, 'f, 'h) agent" where
  "shc_hal_route_entry_add D vrfid src_ip dst_ip nhoid s =
     (case hal_route_entry_add (hal D) (hw_state s)
        \<lparr>hrk_vrf = of_int vrfid, hrk_ip_src_addr = src_ip, hrk_ip_dst_addr = dst_ip\<rparr> nhoid of
      (r, h) \<Rightarrow> (if r \<noteq> 0 then NTB_LOAD_TO_P4_FAIL else 0, s\<lparr>hw_state := h\<rparr>))"

definition shc_hal_route_entry_del ::
  "('t, 'b, 'f, 'h) env \<Rightarrow> int \<Rightarrow> u32 \<Rightarrow> u32 \<Rightarrow> ('t, 'b, 'f, 'h) agent
    \<Rightarrow> int \<times> ('t, 'b, 'f, 'h) agent" where
  "shc_hal_route_entry_del D vrfid src_ip dst_ip s =
     (case hal_route_entry_del (hal D) (hw_state s)
        \<lparr>hrk_vrf = of_int vrfid, hrk_ip_src_addr = src_ip, hrk_ip_dst_addr = dst_ip\<rparr> of
      (r, h) \<Rightarrow> (if r \<noteq> 0 then NTB_LOAD_TO_P4_FAIL else 0, s\<lparr>hw_state := h\<rparr>))"

definition shc_hal_nhop_entry_add ::
  "('t, 'b, 'f, 'h) env \<Rightarrow> u32 \<Rightarrow> u32 \<Rightarrow> u32 \<Rightarrow> u32 \<Rightarrow> u32 \<Rightarrow> ('t, 'b, 'f, 'h) agent
    \<Rightarrow> int \<times> ('t, 'b, 'f, 'h) agent" where
  "shc_hal_nhop_entry_add D nhop_id tunnel_key local remote neigh_id s =
     (case hal_nhop_entry_add (hal D) (hw_state s) nhop_id
        \<lparr>hnd_tunnel_key = 11, hnd_local = 0xD00001, hnd_remote = remote, hnd_neigh_id = neigh_id\<rparr> of
      (r, h) \<Rightarrow> (if r \<noteq> 0 then NTB_LOAD_TO_P4_FAIL else 0, s\<lparr>hw_state := h\<rparr>))"

definition shc_hal_nhop_entry_del ::
  "('t, 'b, 'f, 'h) env \<Rightarrow> u32 \<Rightarrow> ('t, 'b, 'f, 'h) agent \<Rightarrow> int \<times> ('t, 'b, 'f, 'h) agent" where
  "shc_hal_nhop_entry_del D nhop_id s =
     (case hal_nhop_entry_del (hal D) (hw_state s) nhop_id of
      (r, h) \<Rightarrow> (if r \<noteq> 0 then NTB_LOAD_TO_P4_FAIL else 0, s\<lparr>hw_state := h\<rparr>))"

subsection \<open>Reading results and next hops\<close>

definition fib_res_get ::
  "('t, 'b, 'f, 'h) env \<Rightarrow> ('t, 'b, 'f, 'h) agent \<Rightarrow> int \<Rightarrow> nat option" where
  "fib_res_get D s f_res_id = rte_fbarray_get D s f_res_id"

definition fib_res_rtype_get :: "fib_res \<Rightarrow> rib_type" where
  "fib_res_rtype_get f_res = (if fr_flags f_res AND FRF_MROUTE \<noteq> 0 then RT_MROUTE else RT_DEFAULT)"

definition rt_prefix_type_get ::
  "('t, 'b, 'f, 'h) env \<Rightarrow> ntb_rib_key \<Rightarrow> int \<Rightarrow> ('t, 'b, 'f, 'h) agent \<Rightarrow> prefix_type outcome" where
  "rt_prefix_type_get D pfx f_res_id s =
     (let p = fib_res_get D s f_res_id in
      bindR (rte_assert D (p \<noteq> None)) (\<lambda>_.
      bindR (load_res s p) (\<lambda>f_res.
      if mpath_cnt f_res = 1 then
        bindR (read_at (mpath f_res) 0) (\<lambda>q. bindR (load (nhop_heap s) q) (\<lambda>n.
          Inr (if ti_type (nh_tunnel_info n) = NTB_ENCAP_TGRE \<and> rk_prefixlen pfx = 32
               then RT_PREFIX_HOST else RT_PREFIX_LPM)))
      else Inr RT_PREFIX_LPM)))"

definition fib_res_mpath_nospace :: "fib_res \<Rightarrow> bool" where
  "fib_res_mpath_nospace r \<longleftrightarrow> mpath_cnt r \<ge> mpath_max r"

definition fib_nhop_equal :: "fib_nhop \<Rightarrow> fib_nhop_encap_data \<Rightarrow> bool" where
  "fib_nhop_equal nhop_args match_key = (case ti_type (nh_tunnel_info nhop_args) of
     NTB_ENCAP_VXLAN \<Rightarrow> nh_gateway nhop_args = en_gateway match_key
       \<and> nh_tunnel_info nhop_args = en_tunnel_info match_key
   | NTB_ENCAP_TGRE \<Rightarrow> nh_tunnel_info nhop_args = en_tunnel_info match_key
   | _ \<Rightarrow> False)"

subsection \<open>Next hops\<close>

definition put_nhop ::
  "addr \<Rightarrow> fib_nhop \<Rightarrow> ('t, 'b, 'f, 'h) agent \<Rightarrow> ('t, 'b, 'f, 'h) agent" where
  "put_nhop p n s = s\<lparr>nhop_heap := (nhop_heap s)(p \<mapsto> n)\<rparr>"

definition free_nhop :: "addr \<Rightarrow> ('t, 'b, 'f, 'h) agent \<Rightarrow> ('t, 'b, 'f, 'h) agent" where
  "free_nhop p s = s\<lparr>nhop_heap := (nhop_heap s)(p := None)\<rparr>"

definition ntb_nhop_hash_key :: "fib_nhop_encap_data \<Rightarrow> hkey" where
  "ntb_nhop_hash_key e = NhopKey (en_gateway e) (en_tunnel_info e)"

definition fib_nhop_new :: "fib_nhop_encap_data \<Rightarrow> fib_nhop" where
  "fib_nhop_new e = \<lparr>nh_oid = 0, ref_count = 0, nh_neigh_oid = 0, nh_gateway = en_gateway e,
     nh_tunnel_info = en_tunnel_info e\<rparr>"

text \<open>The labels \<^verbatim>\<open>rollback3\<close> to \<^verbatim>\<open>rollback5\<close>.\<close>

definition nhop_rollback5 :: "addr \<Rightarrow> int \<Rightarrow> ('t, 'b, 'f, 'h) agent
    \<Rightarrow> (int \<times> addr \<times> ('t, 'b, 'f, 'h) agent) outcome" where
  "nhop_rollback5 p ret s = Inr (ret, 0, free_nhop p s)"

definition nhop_rollback4 :: "('t, 'b, 'f, 'h) env \<Rightarrow> hkey \<Rightarrow> addr \<Rightarrow> int \<Rightarrow> ('t, 'b, 'f, 'h) agent
    \<Rightarrow> (int \<times> addr \<times> ('t, 'b, 'f, 'h) agent) outcome" where
  "nhop_rollback4 D nhop_key p ret s = nhop_rollback5 p ret
     (s\<lparr>g_nhop_hash_tbl := snd (rte_hash_del_key (hash D) (g_nhop_hash_tbl s) nhop_key)\<rparr>)"

definition nhop_rollback3 ::
  "('t, 'b, 'f, 'h) env \<Rightarrow> nat \<Rightarrow> u32 \<Rightarrow> hkey \<Rightarrow> addr \<Rightarrow> int \<Rightarrow> ('t, 'b, 'f, 'h) agent
    \<Rightarrow> (int \<times> addr \<times> ('t, 'b, 'f, 'h) agent) outcome" where
  "nhop_rollback3 D i gw nhop_key p ret s =
     (if \<not> IP4_ADDR_IS_ZERO gw
      then bindR (ntb_neigh_del D i gw s) (\<lambda>(_, s'). nhop_rollback4 D nhop_key p ret s')
      else nhop_rollback4 D nhop_key p ret s)"

text \<open>
  Takes a reference on the next hop of \<open>e\<close>, creating it on first use. The third component of the
  result is the pointer stored through \<^verbatim>\<open>fib_nhop_ret\<close>; on failure nothing is stored and it is 0.
\<close>

definition nhop_obj_ref :: "addr \<Rightarrow> int \<Rightarrow> ('t, 'b, 'f, 'h) agent
    \<Rightarrow> (int \<times> addr \<times> ('t, 'b, 'f, 'h) agent) outcome" where
  "nhop_obj_ref p ret s = bindR (load (nhop_heap s) p) (\<lambda>n.
     Inr (ret, p, put_nhop p (n\<lparr>ref_count := ref_count n + 1\<rparr>) s))"

text \<open>The neighbour of the gateway; a next hop with gateway 0 has none, and its id stays 0.\<close>

definition nhop_neigh_add ::
  "('t, 'b, 'f, 'h) env \<Rightarrow> nat \<Rightarrow> fib_nhop \<Rightarrow> ('t, 'b, 'f, 'h) agent
    \<Rightarrow> (int \<times> u32 \<times> ('t, 'b, 'f, 'h) agent) outcome" where
  "nhop_neigh_add D i n s =
     (if \<not> IP4_ADDR_IS_ZERO (nh_gateway n) then ntb_neigh_add D i (nh_gateway n) 0 s
      else Inr (0, nh_neigh_oid n, s))"

definition nhop_obj_create ::
  "('t, 'b, 'f, 'h) env \<Rightarrow> nat \<Rightarrow> fib_nhop_encap_data \<Rightarrow> ('t, 'b, 'f, 'h) agent
    \<Rightarrow> (int \<times> addr \<times> ('t, 'b, 'f, 'h) agent) outcome" where
  "nhop_obj_create D i e s =
     (let nhop_key = ntb_nhop_hash_key e in
      case rte_hash_lookup_data (hash D) (g_nhop_hash_tbl s) nhop_key of
        Some p \<Rightarrow> bindR (rte_assert D (p \<noteq> 0)) (\<lambda>_. nhop_obj_ref p 0 s)
      | None \<Rightarrow> (case rte_zmalloc D s of
            (None, s1) \<Rightarrow> Inr (NTB_COMM_NOMEM, 0, s1)
          | (Some p, s1) \<Rightarrow>
              let n = fib_nhop_new e; s2 = put_nhop p n s1 in
              case rte_hash_add_key_data (hash D) (g_nhop_hash_tbl s2) nhop_key p of (r, t) \<Rightarrow>
                let s3 = s2\<lparr>g_nhop_hash_tbl := t\<rparr> in
                if r < 0 then nhop_rollback5 p (- EFAULT) s3
                else
                  bindR (nhop_neigh_add D i n s3) (\<lambda>(r', neigh_oid, s4).
                  if r' < 0 then nhop_rollback4 D nhop_key p r' s4
                  else
                    let s5 = put_nhop p (n\<lparr>nh_neigh_oid := neigh_oid\<rparr>) s4 in
                    case hal_nhop_alloc_oid (hal D) (hw_state s5) 0 of (ret, oid, h) \<Rightarrow>
                      let s6 = s5\<lparr>hw_state := h\<rparr> in
                      if ret < 0
                      then nhop_rollback3 D i (nh_gateway n) nhop_key p NTB_ROUTE_NH_ALLOC_OID_FAIL s6
                      else nhop_obj_ref p ret
                        (put_nhop p (n\<lparr>nh_neigh_oid := neigh_oid, nh_oid := oid\<rparr>) s6))))"

text \<open>
  Gives a reference back; the last one deletes the next hop. \<^verbatim>\<open>ret\<close> still holds the position that
  \<^verbatim>\<open>rte_hash_del_key\<close> returned when the gateway is zero and the last assertion reads it.
\<close>

definition nhop_neigh_del ::
  "('t, 'b, 'f, 'h) env \<Rightarrow> nat \<Rightarrow> fib_nhop \<Rightarrow> int \<Rightarrow> ('t, 'b, 'f, 'h) agent
    \<Rightarrow> (int \<times> ('t, 'b, 'f, 'h) agent) outcome" where
  "nhop_neigh_del D i n r s =
     (if \<not> IP4_ADDR_IS_ZERO (nh_gateway n)
      then bindR (ntb_neigh_del D i (nh_gateway n) s) (\<lambda>(r', s').
        bindR (rte_assert D (0 = r')) (\<lambda>_. Inr (r', s')))
      else Inr (r, s))"

definition nhop_obj_delete ::
  "('t, 'b, 'f, 'h) env \<Rightarrow> nat \<Rightarrow> addr \<Rightarrow> ('t, 'b, 'f, 'h) agent
    \<Rightarrow> (int \<times> ('t, 'b, 'f, 'h) agent) outcome" where
  "nhop_obj_delete D i p s = bindR (load (nhop_heap s) p) (\<lambda>n0.
     let n = n0\<lparr>ref_count := ref_count n0 - 1\<rparr>; s1 = put_nhop p n s in
     if ref_count n > 0 then Inr (0, s1)
     else
       case rte_hash_del_key (hash D) (g_nhop_hash_tbl s1)
              (NhopKey (nh_gateway n) (nh_tunnel_info n)) of (r, t) \<Rightarrow>
         let s2 = s1\<lparr>g_nhop_hash_tbl := t\<rparr> in
         bindR (rte_assert D (0 \<le> r)) (\<lambda>_.
         bindR (nhop_neigh_del D i n r s2) (\<lambda>(ret, s3).
         bindR (rte_assert D (0 = ret)) (\<lambda>_. Inr (0, free_nhop p s3)))))"

subsection \<open>Results\<close>

definition fib_res_md_set ::
  "('t, 'b, 'f, 'h) env \<Rightarrow> fib_res \<Rightarrow> fib_res option \<Rightarrow> rib_type \<Rightarrow> (int \<times> fib_res) outcome" where
  "fib_res_md_set D f_res f_res_old rtype =
     (let r = (case f_res_old of None \<Rightarrow> f_res | Some old \<Rightarrow> fib_res_clone_flags f_res old) in
      case rtype of
        RT_DEFAULT \<Rightarrow> Inr (0, fib_res_unset_flags FRF_MROUTE (r\<lparr>mpath_max := of_nat ROUTE_MAX_ECMP\<rparr>))
      | RT_MROUTE \<Rightarrow> Inr (0, fib_res_set_flags FRF_MROUTE (r\<lparr>mpath_max := of_nat MROUTE_MAX_ECMP\<rparr>))
      | RT_MAX \<Rightarrow> bindR (rte_assert D False) (\<lambda>_. Inr (- 1, r)))"

text \<open>The object id is not reset.\<close>

definition fib_res_reset :: "fib_res \<Rightarrow> fib_res" where
  "fib_res_reset r = r\<lparr>fr_flags := 0, mpath_cnt := 0, mpath_max := of_nat ROUTE_MAX_ECMP,
     mpath := replicate ROUTE_MAX_ECMP 0\<rparr>"

definition fib_res_id_alloc ::
  "('t, 'b, 'f, 'h) env \<Rightarrow> ('t, 'b, 'f, 'h) agent \<Rightarrow> (int \<times> ('t, 'b, 'f, 'h) agent) outcome" where
  "fib_res_id_alloc D s =
     (let f_res_id = rte_fbarray_find_next_free (fbarray D) (g_fib_res_array s) 0 in
      if f_res_id < 0 then Inr (- ENOSPC, s)
      else case rte_fbarray_set_used (fbarray D) (g_fib_res_array s) (nat f_res_id) of (ret, b) \<Rightarrow>
        let s1 = s\<lparr>g_fib_res_array := b\<rparr>; p = rte_fbarray_get D s1 f_res_id in
        bindR (rte_assert D (0 = ret)) (\<lambda>_.
        bindR (rte_assert D (p \<noteq> None)) (\<lambda>_.
        bindR (load_res s1 p) (\<lambda>r.
          Inr (f_res_id, store_res (nat f_res_id) (fib_res_reset r) s1)))))"

definition rib_res_nhop_ctor :: "nat \<Rightarrow> addr \<Rightarrow> fib_res \<Rightarrow> fib_res outcome" where
  "rib_res_nhop_ctor nhsel nhop f_res = bindR (write_at (mpath f_res) nhsel nhop) (\<lambda>ms.
     Inr (f_res\<lparr>mpath := ms, mpath_cnt := mpath_cnt f_res + 1\<rparr>))"

text \<open>The copy loop of \<^verbatim>\<open>fib_res_obj_create\<close>, over the indices it visits.\<close>

fun fib_res_fill :: "addr list \<Rightarrow> nat list \<Rightarrow> fib_res \<Rightarrow> fib_res outcome" where
  "fib_res_fill fib_nhops [] r = Inr r"
| "fib_res_fill fib_nhops (i # is) r = bindR (read_at fib_nhops i) (\<lambda>p.
     bindR (rib_res_nhop_ctor i p r) (fib_res_fill fib_nhops is))"

definition fib_res_obj_create ::
  "('t, 'b, 'f, 'h) env \<Rightarrow> addr list \<Rightarrow> nat \<Rightarrow> nat option \<Rightarrow> rib_type \<Rightarrow> ('t, 'b, 'f, 'h) agent
    \<Rightarrow> (int \<times> ('t, 'b, 'f, 'h) agent) outcome" where
  "fib_res_obj_create D fib_nhops nhop_num f_res_old rtype s =
     bindR (fib_res_id_alloc D s) (\<lambda>(f_res_id, s1).
     if f_res_id < 0 then Inr (NTB_ROUTE_RESULT_NOSPACE, s1)
     else
       let p = fib_res_get D s1 f_res_id in
       bindR (load_res s1 p) (\<lambda>r0.
       bindR (fib_res_fill fib_nhops [0..<nhop_num] r0) (\<lambda>r1.
       bindR (if rtype = RT_DEFAULT then
                if nhop_num = 1 then
                  bindR (read_at fib_nhops 0) (\<lambda>q. bindR (load (nhop_heap s1) q) (\<lambda>n.
                    Inr (r1\<lparr>f_res_oid := nh_oid n\<rparr>)))
                else Inr r1
              else Inr (r1\<lparr>f_res_oid := of_nat nhop_num\<rparr>)) (\<lambda>r2.
       bindR (case f_res_old of None \<Rightarrow> Inr r2 | Some o' \<Rightarrow>
                bindR (load_res s1 (Some o')) (\<lambda>old. Inr (r2\<lparr>fr_flags := fr_flags old\<rparr>))) (\<lambda>r3.
       bindR (fib_res_md_set D r3 None rtype) (\<lambda>(_, r4).
         Inr (f_res_id, store_res (nat f_res_id) r4 s1)))))))"

definition fib_res_id_free ::
  "('t, 'b, 'f, 'h) env \<Rightarrow> int \<Rightarrow> ('t, 'b, 'f, 'h) agent \<Rightarrow> int \<times> ('t, 'b, 'f, 'h) agent" where
  "fib_res_id_free D f_res_id s =
     (case rte_fbarray_set_free (fbarray D) (g_fib_res_array s) (nat f_res_id) of
        (r, b) \<Rightarrow> (r, s\<lparr>g_fib_res_array := b\<rparr>))"

definition fib_res_obj_delete ::
  "('t, 'b, 'f, 'h) env \<Rightarrow> int \<Rightarrow> ('t, 'b, 'f, 'h) agent
    \<Rightarrow> (int \<times> ('t, 'b, 'f, 'h) agent) outcome" where
  "fib_res_obj_delete D fib_res_id s =
     (let p = fib_res_get D s fib_res_id in
      bindR (rte_assert D (p \<noteq> None)) (\<lambda>_.
      bindR (load_res s p) (\<lambda>f_res.
        if mpath_cnt f_res = 1 then Inr (0, snd (fib_res_id_free D fib_res_id s))
        else Inr (0, snd (fib_res_id_free D fib_res_id s)))))"

subsection \<open>Prefixes\<close>

definition rt_prefix_obj_update ::
  "('t, 'b, 'f, 'h) env \<Rightarrow> nat \<Rightarrow> ntb_rib_key \<Rightarrow> int \<Rightarrow> int \<Rightarrow> ('t, 'b, 'f, 'h) agent
    \<Rightarrow> (int \<times> ('t, 'b, 'f, 'h) agent) outcome" where
  "rt_prefix_obj_update D i pfx f_res_id f_res_id_new s = bindR (get_dp s i) (\<lambda>v.
     bindR (if f_res_id > 0 then rt_prefix_type_get D pfx f_res_id s else Inr RT_PREFIX_INVALID) (\<lambda>_.
     bindR (rt_prefix_type_get D pfx f_res_id_new s) (\<lambda>_.
     bindR (rte_assert D (fib_res_get D s f_res_id_new \<noteq> None)) (\<lambda>_.
     case rte_hash_add_key_data (hash D) (ntb_rib_hash_tbl s) (RibKey pfx) (nat f_res_id_new) of
       (r, t) \<Rightarrow>
         let s1 = s\<lparr>ntb_rib_hash_tbl := t\<rparr> in
         if r < 0 then Inr (NTB_ROUTE_PREFIX_NOSPACE, s1)
         else case rte_fib_add (fib D) (dp_fib v) (bswap32 (rk_prefix4 pfx)) (rk_prefixlen pfx)
                (nat f_res_id_new) of (r', f) \<Rightarrow>
           let s2 = upd_dp i (\<lambda>v. v\<lparr>dp_fib := f\<rparr>) s1 in
           if r' \<noteq> 0 then
             Inr (NTB_ROUTE_PREFIX_NOSPACE, s2\<lparr>ntb_rib_hash_tbl :=
               (if f_res_id < 0 then snd (rte_hash_del_key (hash D) (ntb_rib_hash_tbl s2) (RibKey pfx))
                else snd (rte_hash_add_key_data (hash D) (ntb_rib_hash_tbl s2) (RibKey pfx)
                       (nat f_res_id)))\<rparr>)
           else Inr (0, if f_res_id < 0 then upd_dp i (\<lambda>v. v\<lparr>rib_cnt := rib_cnt v + 1\<rparr>) s2 else s2)))))"

definition rt_prefix_obj_delete ::
  "('t, 'b, 'f, 'h) env \<Rightarrow> nat \<Rightarrow> ntb_rib_key \<Rightarrow> int \<Rightarrow> ('t, 'b, 'f, 'h) agent
    \<Rightarrow> (int \<times> ('t, 'b, 'f, 'h) agent) outcome" where
  "rt_prefix_obj_delete D i pfx f_res_id s = bindR (get_dp s i) (\<lambda>v.
     bindR (rt_prefix_type_get D pfx f_res_id s) (\<lambda>_.
     case rte_fib_delete (fib D) (dp_fib v) (bswap32 (rk_prefix4 pfx)) (rk_prefixlen pfx) of
       (r, f) \<Rightarrow>
         let s1 = upd_dp i (\<lambda>v. v\<lparr>dp_fib := f\<rparr>) s in
         bindR (rte_assert D (0 = r)) (\<lambda>_.
         case rte_hash_del_key (hash D) (ntb_rib_hash_tbl s1) (RibKey pfx) of (ret, t) \<Rightarrow>
           let s2 = s1\<lparr>ntb_rib_hash_tbl := t\<rparr> in
           bindR (rte_assert D (0 \<le> ret)) (\<lambda>_.
           let s3 = upd_dp i (\<lambda>v. v\<lparr>rib_cnt := rib_cnt v - 1\<rparr>) s2 in
           bindR (get_dp s3 i) (\<lambda>v3.
           bindR (rte_assert D (rib_cnt v3 \<ge> 0)) (\<lambda>_.
           bindR (rte_assert D (fib_res_get D s3 f_res_id \<noteq> None)) (\<lambda>_.
             Inr (ret, s3))))))))"

subsection \<open>Next hop invariant\<close>

text \<open>
  \<open>refs p\<close> is the number of routes that use the next hop at \<open>p\<close>. The table and the heap are
  linked, an object sits under the key of its own gateway and tunnel, and its counter is the number
  of its users, which is not 0.
\<close>

definition nhop_wf ::
  "('t, 'b, 'f, 'h) env \<Rightarrow> (addr \<Rightarrow> nat) \<Rightarrow> ('t, 'b, 'f, 'h) agent \<Rightarrow> bool" where
  "nhop_wf D refs s \<longleftrightarrow> linked (nhop_map D s) (nhop_heap s) (next_addr s)
    \<and> (\<forall>k p n. nhop_map D s k = Some p \<longrightarrow> nhop_heap s p = Some n \<longrightarrow>
         k = NhopKey (nh_gateway n) (nh_tunnel_info n))
    \<and> (\<forall>p n. nhop_heap s p = Some n \<longrightarrow> unat (ref_count n) = refs p \<and> 0 < refs p)
    \<and> (\<forall>p. nhop_heap s p = None \<longrightarrow> refs p = 0)"

text \<open>What the next hop operations leave alone.\<close>

definition obj_frame :: "('t, 'b, 'f, 'h) agent \<Rightarrow> ('t, 'b, 'f, 'h) agent \<Rightarrow> bool" where
  "obj_frame s s' \<longleftrightarrow> vrf_ids s' = vrf_ids s \<and> vrf_names s' = vrf_names s
    \<and> tunnel_part s' = tunnel_part s \<and> route_part s' = route_part s
    \<and> fake_mac s' = fake_mac s \<and> next_addr s \<le> next_addr s'"

lemma obj_frame_trans [trans]: "obj_frame s s' \<Longrightarrow> obj_frame s' s'' \<Longrightarrow> obj_frame s s''"
  by (auto simp: obj_frame_def)

lemma neigh_frame_obj: "neigh_frame s s' \<Longrightarrow> obj_frame s s'"
  by (simp add: neigh_frame_def obj_frame_def)

lemma neigh_frame_nhop:
  "neigh_frame s s' \<Longrightarrow> nhop_map D s' = nhop_map D s \<and> nhop_heap s' = nhop_heap s
    \<and> g_nhop_hash_tbl s' = g_nhop_hash_tbl s"
  by (simp add: neigh_frame_def nhop_part_def nhop_map_def)

lemma neigh_frame_length: "neigh_frame s s' \<Longrightarrow> length (g_ntb_vrfs s') = length (g_ntb_vrfs s)"
  unfolding neigh_frame_def by (elim conjE, rule vrf_ids_length)

lemma obj_frame_length: "obj_frame s s' \<Longrightarrow> length (g_ntb_vrfs s') = length (g_ntb_vrfs s)"
  unfolding obj_frame_def by (elim conjE, rule vrf_ids_length)

lemma neigh_wf_cong:
  "neigh_wf D s \<Longrightarrow> ol_neigh_hash_tbl s' = ol_neigh_hash_tbl s \<Longrightarrow> neigh_heap s' = neigh_heap s \<Longrightarrow>
    ol_neigh_count s' = ol_neigh_count s \<Longrightarrow> next_addr s \<le> next_addr s' \<Longrightarrow> neigh_wf D s'"
  by (auto simp: neigh_wf_def neigh_map_def intro: linked_mono)

text \<open>A new reference, on a next hop that exists or on a fresh one.\<close>

lemma nhop_wf_acquired:
  assumes wf: "nhop_wf D refs s" and bound: "Suc (refs p) < 2 ^ 32"
    and m: "nhop_map D s' = (nhop_map D s)(NhopKey (nh_gateway n) (nh_tunnel_info n) \<mapsto> p)"
    and h: "nhop_heap s' = (nhop_heap s)(p \<mapsto> n)" and a: "next_addr s \<le> next_addr s'"
    and new: "(nhop_map D s (NhopKey (nh_gateway n) (nh_tunnel_info n)) = None \<and> p = next_addr s
        \<and> next_addr s < next_addr s' \<and> ref_count n = 1)
      \<or> (\<exists>n0. nhop_map D s (NhopKey (nh_gateway n) (nh_tunnel_info n)) = Some p
        \<and> nhop_heap s p = Some n0 \<and> ref_count n = ref_count n0 + 1)"
  shows "nhop_wf D (refs(p := Suc (refs p))) s'"
proof -
  have l: "linked (nhop_map D s) (nhop_heap s) (next_addr s)" using wf by (simp add: nhop_wf_def)
  show ?thesis
    using new
  proof (elim disjE conjE exE)
    assume k: "nhop_map D s (NhopKey (nh_gateway n) (nh_tunnel_info n)) = None"
      and p: "p = next_addr s" "next_addr s < next_addr s'" and c: "ref_count n = 1"
    have "nhop_heap s p = None" using linked_fresh [OF l] p by simp
    then have "refs p = 0" using wf by (simp add: nhop_wf_def)
    moreover have "nhop_map D s k' \<noteq> Some p" for k' using l p by (auto simp: linked_def)
    ultimately show ?thesis
      using wf linked_new [OF l k p(2), of n] c unfolding nhop_wf_def m h by (auto simp: p)
  next
    fix n0
    assume k: "nhop_map D s (NhopKey (nh_gateway n) (nh_tunnel_info n)) = Some p"
      and n0: "nhop_heap s p = Some n0" and c: "ref_count n = ref_count n0 + 1"
    have m': "nhop_map D s' = nhop_map D s" using k m by auto
    have "unat (ref_count n) = Suc (refs p)"
      using wf n0 bound unat_u32_Suc [of "ref_count n0"] by (simp add: nhop_wf_def c)
    moreover have "k' = NhopKey (nh_gateway n) (nh_tunnel_info n)" if "nhop_map D s k' = Some p" for k'
      using linked_inj [OF l that k] .
    ultimately show ?thesis
      using wf linked_mono [OF linked_put [OF l n0, of n] a] unfolding nhop_wf_def m' h
      by (simp split: if_splits)
  qed
qed

lemma nhop_wf_same:
  "nhop_wf D refs s \<Longrightarrow> nhop_map D s' = nhop_map D s \<Longrightarrow> nhop_heap s' = nhop_heap s \<Longrightarrow>
    next_addr s \<le> next_addr s' \<Longrightarrow> nhop_wf D refs s'"
  by (auto simp: nhop_wf_def intro: linked_mono)


context dpdk_env
begin

lemma nhop_rollback4_eq:
  assumes "rte_hash_lookup_data (hash D) t0 k = None"
    and "rte_hash_add_key_data (hash D) t0 k p = (r, t)" and "0 \<le> r" and "g_nhop_hash_tbl s = t"
  shows "\<exists>t'. rte_hash_lookup_data (hash D) t' = rte_hash_lookup_data (hash D) t0 \<and>
    nhop_rollback4 D k p ret s = Inr (ret, 0, s\<lparr>g_nhop_hash_tbl := t', nhop_heap := (nhop_heap s)(p := None)\<rparr>)"
proof -
  obtain r' t' where d: "rte_hash_del_key (hash D) t k = (r', t')" by fastforce
  show ?thesis
    using add_del_lookup [OF assms(1-3) d] d assms(4)
    by (intro exI [of _ t']) (simp add: nhop_rollback4_def nhop_rollback5_def free_nhop_def)
qed

lemma neigh_add_returns:
  assumes "neigh_wf D s" and "i < length (g_ntb_vrfs s)"
  shows "\<exists>r oid s'. ntb_neigh_add D i gw old s = Inr (r, oid, s') \<and> neigh_frame s s' \<and> neigh_wf D s'"
  using assms by (cases rule: ntb_neigh_add_cases [OF _ _ refl, of s i gw old]) auto

lemma neigh_del_returns:
  assumes "\<not> assert_on D" and "neigh_wf D s" and "i < length (g_ntb_vrfs s)"
  shows "\<exists>r s'. ntb_neigh_del D i gw s = Inr (r, s') \<and> neigh_frame s s' \<and> neigh_wf D s'"
  using assms by (cases rule: ntb_neigh_del_cases [OF _ _ refl, of s i gw]) auto

text \<open>A creation that failed takes the new next hop out of the table and frees it.\<close>

lemma nhop_rollback4_frame:
  assumes m0: "rte_hash_lookup_data (hash D) (g_nhop_hash_tbl s) k = None"
    and t: "rte_hash_add_key_data (hash D) (g_nhop_hash_tbl s) k a = (r, t)" "0 \<le> r"
    and fresh: "nhop_heap s a = None"
    and s': "g_nhop_hash_tbl s' = t" "nhop_heap s' = (nhop_heap s)(a \<mapsto> n)" "obj_frame s s'" "neigh_wf D s'"
  shows "\<exists>s''. nhop_rollback4 D k a ret s' = Inr (ret, 0, s'') \<and> obj_frame s s'' \<and> neigh_wf D s''
    \<and> nhop_map D s'' = nhop_map D s \<and> nhop_heap s'' = nhop_heap s"
proof -
  obtain t' where t': "rte_hash_lookup_data (hash D) t' = rte_hash_lookup_data (hash D) (g_nhop_hash_tbl s)"
    "nhop_rollback4 D k a ret s' = Inr (ret, 0, s'\<lparr>g_nhop_hash_tbl := t', nhop_heap := (nhop_heap s')(a := None)\<rparr>)"
    using nhop_rollback4_eq [OF m0 t s'(1), of ret] by blast
  let ?s = "s'\<lparr>g_nhop_hash_tbl := t', nhop_heap := (nhop_heap s')(a := None)\<rparr>"
  have "neigh_wf D ?s" using neigh_wf_cong [OF s'(4), of ?s] by simp
  then show ?thesis using t' s' fresh
    by (intro exI [of _ ?s]) (simp add: obj_frame_def part_defs nhop_map_def fun_upd_idem)
qed

text \<open>The neighbour is released first.\<close>

lemma nhop_rollback3_frame:
  assumes off: "\<not> assert_on D" and i: "i < length (g_ntb_vrfs s')"
    and m0: "rte_hash_lookup_data (hash D) (g_nhop_hash_tbl s) k = None"
    and t: "rte_hash_add_key_data (hash D) (g_nhop_hash_tbl s) k a = (r, t)" "0 \<le> r"
    and fresh: "nhop_heap s a = None"
    and s': "g_nhop_hash_tbl s' = t" "nhop_heap s' = (nhop_heap s)(a \<mapsto> n)" "obj_frame s s'" "neigh_wf D s'"
  shows "\<exists>s''. nhop_rollback3 D i gw k a ret s' = Inr (ret, 0, s'') \<and> obj_frame s s'' \<and> neigh_wf D s''
    \<and> nhop_map D s'' = nhop_map D s \<and> nhop_heap s'' = nhop_heap s"
proof -
  obtain s7 where s7: "nhop_rollback3 D i gw k a ret s' = nhop_rollback4 D k a ret s7"
    and f7: "neigh_frame s' s7" "neigh_wf D s7"
    using neigh_del_returns [OF off s'(4) i, of gw] s'(4)
    by (cases "IP4_ADDR_IS_ZERO gw") (auto simp: nhop_rollback3_def)
  have "g_nhop_hash_tbl s7 = t" "nhop_heap s7 = (nhop_heap s)(a \<mapsto> n)" "obj_frame s s7"
    using neigh_frame_nhop [OF f7(1), of D] s'(1,2) obj_frame_trans [OF s'(3) neigh_frame_obj [OF f7(1)]] by simp_all
  from nhop_rollback4_frame [OF m0 t fresh this f7(2), of ret] show ?thesis by (simp only: s7)
qed

text \<open>
  The rest of the creation, once the new next hop \<open>n\<close> at \<open>a\<close> is in the hash table: either it gets its
  neighbour and its object id, or all is undone.
\<close>

lemma nhop_create_linked:
  assumes off: "\<not> assert_on D" and i: "i < length (g_ntb_vrfs s)" and nw: "neigh_wf D s"
    and k: "k = ntb_nhop_hash_key e" and m0: "rte_hash_lookup_data (hash D) (g_nhop_hash_tbl s) k = None"
    and alloc: "zmalloc_ok D (next_addr s)" "nhop_heap s (next_addr s) = None" "next_addr s \<noteq> 0"
    and t: "rte_hash_add_key_data (hash D) (g_nhop_hash_tbl s) k (next_addr s) = (r, t)" "0 \<le> r"
  shows "\<exists>ret p s'. nhop_obj_create D i e s = Inr (ret, p, s') \<and> obj_frame s s' \<and> neigh_wf D s' \<and>
    (if ret < 0 then p = 0 \<and> nhop_map D s' = nhop_map D s \<and> nhop_heap s' = nhop_heap s
     else p = next_addr s \<and> nhop_map D s' = (nhop_map D s)(k \<mapsto> p) \<and> next_addr s < next_addr s' \<and>
       (\<exists>n. nhop_heap s' = (nhop_heap s)(p \<mapsto> n) \<and> k = NhopKey (nh_gateway n) (nh_tunnel_info n) \<and> ref_count n = 1))"
proof -
  define a n where "a = next_addr s" and "n = fib_nhop_new e"
  define s3 where "s3 = s\<lparr>next_addr := Suc a, nhop_heap := (nhop_heap s)(a \<mapsto> n), g_nhop_hash_tbl := t\<rparr>"
  note al = alloc [folded a_def] and ta = t [folded a_def]
  have s3: "neigh_wf D s3" "i < length (g_ntb_vrfs s3)" "obj_frame s s3"
    using neigh_wf_cong [OF nw, of s3] i by (simp_all add: s3_def a_def obj_frame_def part_defs)
  obtain r' noid s4 where N: "nhop_neigh_add D i n s3 = Inr (r', noid, s4)"
    and fr: "neigh_frame s3 s4" and w4: "neigh_wf D s4"
    using neigh_add_returns [OF s3(1,2), of "nh_gateway n" 0] s3(1)
    by (cases "IP4_ADDR_IS_ZERO (nh_gateway n)") (auto simp: nhop_neigh_add_def)
  have s4: "g_nhop_hash_tbl s4 = t" "nhop_heap s4 = (nhop_heap s)(a \<mapsto> n)" "obj_frame s s4"
    "i < length (g_ntb_vrfs s4)" "next_addr s < next_addr s4"
    using neigh_frame_nhop [OF fr, of D] obj_frame_trans [OF s3(3) neigh_frame_obj [OF fr]]
      neigh_frame_length [OF fr] i fr
    by (simp_all add: s3_def neigh_frame_def a_def)
  obtain ret oid h where h: "hal_nhop_alloc_oid (hal D) (hw_state s4) 0 = (ret, oid, h)" by (metis surj_pair)
  define s6 where "s6 = s4\<lparr>nhop_heap := (nhop_heap s)(a \<mapsto> n\<lparr>nh_neigh_oid := noid\<rparr>), hw_state := h\<rparr>"
  have s6: "i < length (g_ntb_vrfs s6)" "g_nhop_hash_tbl s6 = t" "nhop_heap s6 = (nhop_heap s)(a \<mapsto> n\<lparr>nh_neigh_oid := noid\<rparr>)"
    "obj_frame s s6" "neigh_wf D s6"
    using neigh_wf_cong [OF w4, of s6] s4 by (simp_all add: s6_def obj_frame_def part_defs)
  have eq: "nhop_obj_create D i e s = (if r' < 0 then nhop_rollback4 D k a r' s4
    else if ret < 0 then nhop_rollback3 D i (nh_gateway n) k a NTB_ROUTE_NH_ALLOC_OID_FAIL s6
    else nhop_obj_ref a ret (s6\<lparr>nhop_heap := (nhop_heap s)(a \<mapsto> n\<lparr>nh_neigh_oid := noid, nh_oid := oid\<rparr>)\<rparr>))"
    using al(1) ta N h s4(2)
    by (simp add: nhop_obj_create_def rte_zmalloc_def put_nhop_def k [symmetric] m0 a_def [symmetric]
        n_def [symmetric] Let_def s3_def [symmetric] s6_def)
  consider "r' < 0" | "0 \<le> r'" "ret < 0" | "0 \<le> r'" "0 \<le> ret" by linarith
  then show ?thesis
  proof cases
    case 1
    then show ?thesis using nhop_rollback4_frame [OF m0 ta al(2) s4(1-3) w4, of r'] eq by auto
  next
    case 2
    then show ?thesis
      using nhop_rollback3_frame [OF off s6(1) m0 ta al(2) s6(2-5), of "nh_gateway n" NTB_ROUTE_NH_ALLOC_OID_FAIL] eq
      by (intro exI [of _ NTB_ROUTE_NH_ALLOC_OID_FAIL]) (auto simp: ntb_codes)
  next
    case 3
    let ?n = "n\<lparr>nh_neigh_oid := noid, nh_oid := oid, ref_count := 1\<rparr>"
    let ?s = "s6\<lparr>nhop_heap := (nhop_heap s)(a \<mapsto> ?n)\<rparr>"
    have "nhop_obj_create D i e s = Inr (ret, a, ?s)"
      using eq 3 al(3) by (simp add: nhop_obj_ref_def put_nhop_def n_def fib_nhop_new_def)
    moreover have "k = NhopKey (nh_gateway ?n) (nh_tunnel_info ?n)"
      by (simp add: k n_def ntb_nhop_hash_key_def fib_nhop_new_def)
    ultimately show ?thesis
      using 3 add_ok [OF ta] s4(5) s6 neigh_wf_cong [OF s6(5), of ?s]
      by (intro exI [of _ ret] exI [of _ a] exI [of _ ?s])
        (auto simp: a_def nhop_map_def obj_frame_def part_defs s6_def intro!: exI [of _ ?n])
  qed
qed

text \<open>The effect of taking a reference on a next hop.\<close>

lemma nhop_obj_create_cases:
  assumes off: "\<not> assert_on D" and i: "i < length (g_ntb_vrfs s)"
    and nw: "neigh_wf D s" and wf: "nhop_wf D refs s" and k: "k = ntb_nhop_hash_key e"
  obtains
    (hit) p n s' where "nhop_map D s k = Some p" "nhop_heap s p = Some n"
      "nhop_obj_create D i e s = Inr (0, p, s')" "obj_frame s s'" "neigh_wf D s'"
      "nhop_map D s' = nhop_map D s" "k = NhopKey (nh_gateway n) (nh_tunnel_info n)"
      "nhop_heap s' = (nhop_heap s)(p \<mapsto> n\<lparr>ref_count := ref_count n + 1\<rparr>)"
  | (new) ret n s' where "nhop_map D s k = None" "0 \<le> ret"
      "nhop_obj_create D i e s = Inr (ret, next_addr s, s')" "obj_frame s s'" "neigh_wf D s'"
      "nhop_map D s' = (nhop_map D s)(k \<mapsto> next_addr s)"
      "k = NhopKey (nh_gateway n) (nh_tunnel_info n)"
      "nhop_heap s' = (nhop_heap s)(next_addr s \<mapsto> n)" "ref_count n = 1" "next_addr s < next_addr s'"
  | (fail) ret s' where "nhop_map D s k = None" "ret < 0"
      "nhop_obj_create D i e s = Inr (ret, 0, s')" "obj_frame s s'" "neigh_wf D s'"
      "nhop_map D s' = nhop_map D s" "nhop_heap s' = nhop_heap s"
proof (cases "nhop_map D s k")
  case (Some p)
  have l: "linked (nhop_map D s) (nhop_heap s) (next_addr s)" using wf by (simp add: nhop_wf_def)
  obtain n where n: "nhop_heap s p = Some n" "p \<noteq> 0" using linked_load [OF l Some] by blast
  let ?s = "put_nhop p (n\<lparr>ref_count := ref_count n + 1\<rparr>) s"
  have "nhop_obj_create D i e s = Inr (0, p, ?s)"
    using Some n off by (simp add: nhop_obj_create_def nhop_obj_ref_def k nhop_map_def Let_def)
  moreover have "neigh_wf D ?s" using nw by (rule neigh_wf_cong) (simp_all add: put_nhop_def)
  moreover have "k = NhopKey (nh_gateway n) (nh_tunnel_info n)" using wf Some n by (simp add: nhop_wf_def)
  ultimately show ?thesis using Some n
    by (intro hit [of p n ?s]) (simp_all add: obj_frame_def part_defs put_nhop_def nhop_map_def)
next
  case None
  have l: "linked (nhop_map D s) (nhop_heap s) (next_addr s)" using wf by (simp add: nhop_wf_def)
  define a where "a = next_addr s"
  have fresh: "nhop_heap s a = None" "a \<noteq> 0" using linked_fresh [OF l] l by (simp_all add: a_def linked_def)
  obtain r t where t: "rte_hash_add_key_data (hash D) (g_nhop_hash_tbl s) k a = (r, t)" by fastforce
  note m0 = None [unfolded nhop_map_def]
  note run = nhop_obj_create_def rte_zmalloc_def put_nhop_def k [symmetric] m0 a_def [symmetric] t Let_def
  consider "\<not> zmalloc_ok D a" | "zmalloc_ok D a" "r < 0" | "zmalloc_ok D a" "0 \<le> r" by linarith
  then show ?thesis
  proof cases
    case 1
    let ?s = "s\<lparr>next_addr := Suc a\<rparr>"
    have "nhop_obj_create D i e s = Inr (NTB_COMM_NOMEM, 0, ?s)" using 1 by (simp add: run)
    then show ?thesis using None neigh_wf_cong [OF nw, of ?s]
      by (intro fail [of NTB_COMM_NOMEM ?s])
        (simp_all add: obj_frame_def part_defs nhop_map_def a_def ntb_codes)
  next
    case 2
    let ?s = "s\<lparr>next_addr := Suc a, g_nhop_hash_tbl := t\<rparr>"
    have "nhop_obj_create D i e s = Inr (- EFAULT, 0, ?s)"
      using 2 fresh by (simp add: run nhop_rollback5_def free_nhop_def fun_upd_idem)
    then show ?thesis using None neigh_wf_cong [OF nw, of ?s] add_fail [OF t] 2
      by (intro fail [of "- EFAULT" ?s])
        (simp_all add: obj_frame_def part_defs nhop_map_def a_def EFAULT_def)
  next
    case 3
    obtain ret p s' where c: "nhop_obj_create D i e s = Inr (ret, p, s')" "obj_frame s s'" "neigh_wf D s'"
      "if ret < 0 then p = 0 \<and> nhop_map D s' = nhop_map D s \<and> nhop_heap s' = nhop_heap s
       else p = next_addr s \<and> nhop_map D s' = (nhop_map D s)(k \<mapsto> p) \<and> next_addr s < next_addr s' \<and>
         (\<exists>n. nhop_heap s' = (nhop_heap s)(p \<mapsto> n) \<and> k = NhopKey (nh_gateway n) (nh_tunnel_info n) \<and> ref_count n = 1)"
      using nhop_create_linked [OF off i nw k m0 _ _ _ t [unfolded a_def] 3(2)] 3(1) fresh by (auto simp: a_def)
    show ?thesis
    proof (cases "ret < 0")
      case True
      then show ?thesis using c None by (intro fail [of ret s']) auto
    next
      case False
      then obtain n where "nhop_heap s' = (nhop_heap s)(next_addr s \<mapsto> n)"
        "k = NhopKey (nh_gateway n) (nh_tunnel_info n)" "ref_count n = 1" using c(4) by auto
      with False show ?thesis using c None by (intro new [of ret s' n]) auto
    qed
  qed
qed


text \<open>The effect of giving a reference back.\<close>

lemma nhop_obj_delete_last:
  assumes off: "\<not> assert_on D" and i: "i < length (g_ntb_vrfs s)"
    and nw: "neigh_wf D s" and wf: "nhop_wf D refs s" and n: "nhop_heap s p = Some n" and last: "refs p = 1"
  shows "\<exists>s'. nhop_obj_delete D i p s = Inr (0, s') \<and> obj_frame s s' \<and> neigh_wf D s'
    \<and> nhop_wf D (refs(p := 0)) s' \<and> (\<forall>q. q \<noteq> p \<longrightarrow> nhop_heap s' q = nhop_heap s q)"
proof -
  let ?k = "NhopKey (nh_gateway n) (nh_tunnel_info n)"
  have l: "linked (nhop_map D s) (nhop_heap s) (next_addr s)" using wf by (simp add: nhop_wf_def)
  have k: "nhop_map D s ?k = Some p" using linked_key [OF l n] wf n by (auto simp: nhop_wf_def)
  have p: "p \<noteq> 0" using linked_load [OF l k] by blast
  have c: "unat (ref_count n) = refs p" "0 < refs p" using wf n by (auto simp: nhop_wf_def)
  have c': "unat (ref_count n - 1) = refs p - 1"
    using c unat_u32_pred [of "ref_count n"] by (metis unat_0 less_irrefl)
  have z: "ref_count n - 1 = 0" using c' last by (simp add: unat_eq_zero)
  obtain r t where t: "rte_hash_del_key (hash D) (g_nhop_hash_tbl s) ?k = (r, t)" by fastforce
  define s2 where "s2 = s\<lparr>nhop_heap := (nhop_heap s)(p \<mapsto> n\<lparr>ref_count := 0\<rparr>), g_nhop_hash_tbl := t\<rparr>"
  have s2: "neigh_wf D s2" "i < length (g_ntb_vrfs s2)" "obj_frame s s2"
    using neigh_wf_cong [OF nw, of s2] i
    by (simp_all add: s2_def put_nhop_def obj_frame_def part_defs)
  obtain ret s3 where N: "nhop_neigh_del D i (n\<lparr>ref_count := 0\<rparr>) r s2 = Inr (ret, s3)"
    and s3: "neigh_frame s2 s3" "neigh_wf D s3"
    using neigh_del_returns [OF off s2(1,2), of "nh_gateway n"] off s2(1)
    by (cases "IP4_ADDR_IS_ZERO (nh_gateway n)") (auto simp: nhop_neigh_del_def)
  have eq: "nhop_obj_delete D i p s = Inr (0, free_nhop p s3)"
    using off n p z t N by (simp add: nhop_obj_delete_def Let_def put_nhop_def s2_def [symmetric])
  have h3: "nhop_heap s3 = (nhop_heap s)(p \<mapsto> n\<lparr>ref_count := 0\<rparr>)"
    "nhop_map D s3 = (nhop_map D s)(?k := None)"
    using neigh_frame_nhop [OF s3(1), of D] del_lookup [OF t]
    by (simp_all add: s2_def put_nhop_def nhop_map_def)
  have fr: "obj_frame s (free_nhop p s3)"
    using obj_frame_trans [OF s2(3) neigh_frame_obj [OF s3(1)]]
    by (simp add: obj_frame_def part_defs free_nhop_def)
  moreover have "neigh_wf D (free_nhop p s3)" using neigh_wf_cong [OF s3(2)] by (simp add: free_nhop_def)
  moreover have "nhop_wf D (refs(p := 0)) (free_nhop p s3)"
  proof -
    have "linked (nhop_map D (free_nhop p s3)) (nhop_heap (free_nhop p s3)) (next_addr (free_nhop p s3))"
      using linked_mono [OF linked_drop [OF l k]] fr h3
      by (simp add: free_nhop_def nhop_map_def obj_frame_def)
    then show ?thesis
      using wf last h3 by (auto simp: nhop_wf_def free_nhop_def nhop_map_def split: if_splits)
  qed
  ultimately show ?thesis using eq last h3 by (simp add: free_nhop_def)
qed

lemma nhop_obj_delete_effect:
  assumes off: "\<not> assert_on D" and i: "i < length (g_ntb_vrfs s)"
    and nw: "neigh_wf D s" and wf: "nhop_wf D refs s" and n: "nhop_heap s p = Some n"
  shows "\<exists>s'. nhop_obj_delete D i p s = Inr (0, s') \<and> obj_frame s s' \<and> neigh_wf D s'
    \<and> nhop_wf D (refs(p := refs p - 1)) s' \<and> (\<forall>q. q \<noteq> p \<longrightarrow> nhop_heap s' q = nhop_heap s q)
    \<and> (refs p \<noteq> 1 \<longrightarrow> nhop_heap s' p = Some (n\<lparr>ref_count := ref_count n - 1\<rparr>))"
proof -
  let ?n = "n\<lparr>ref_count := ref_count n - 1\<rparr>"
  have l: "linked (nhop_map D s) (nhop_heap s) (next_addr s)" using wf by (simp add: nhop_wf_def)
  have k: "nhop_map D s (NhopKey (nh_gateway n) (nh_tunnel_info n)) = Some p" using linked_key [OF l n] wf n by (auto simp: nhop_wf_def)
  have p: "p \<noteq> 0" using linked_load [OF l k] by blast
  have c: "unat (ref_count n) = refs p" "0 < refs p" using wf n by (auto simp: nhop_wf_def)
  have c': "unat (ref_count n - 1) = refs p - 1"
    using c unat_u32_pred [of "ref_count n"] by (metis unat_0 less_irrefl)
  show ?thesis
  proof (cases "refs p = 1")
    case False
    then have "ref_count n - 1 > 0" using c c' by (metis Suc_pred' neq0_conv One_nat_def unat_gt_0 word_neq_0_conv)
    moreover have "1 < refs p" using c(2) False by linarith
    then have "nhop_wf D (refs(p := refs p - 1)) (put_nhop p ?n s)"
      using wf linked_put [OF l n, of ?n] c' n
      by (auto simp: nhop_wf_def put_nhop_def nhop_map_def)
    ultimately show ?thesis
      using n p False neigh_wf_cong [OF nw, of "put_nhop p ?n s"]
      by (simp add: nhop_obj_delete_def Let_def put_nhop_def obj_frame_def part_defs)
  next
    case True
    then show ?thesis using nhop_obj_delete_last [OF off i nw wf n] by simp
  qed
qed

text \<open>A result with a single path, allocated for a new route.\<close>

lemma fib_res_obj_create_single:
  assumes off: "\<not> assert_on D" and rt: "rtype \<noteq> RT_MAX"
    and ns: "0 < length ns" "ns ! 0 = p" and n: "nhop_heap s p = Some n" "p \<noteq> 0"
  obtains
    (full) "fib_res_obj_create D ns 1 None rtype s = Inr (NTB_ROUTE_RESULT_NOSPACE, s)"
      "\<forall>j < rte_fbarray_len (fbarray D) (g_fib_res_array s). j \<in> fb_used (g_fib_res_array s)"
  | (new) rid r b where "fib_res_obj_create D ns 1 None rtype s =
        Inr (int rid, s\<lparr>g_fib_res_array := b, fib_res_mem := (fib_res_mem s)(rid := r)\<rparr>)"
      "rid \<notin> fb_used (g_fib_res_array s)" "rid < rte_fbarray_len (fbarray D) (g_fib_res_array s)"
      "fb_used b = insert rid (fb_used (g_fib_res_array s))"
      "rte_fbarray_len (fbarray D) b = rte_fbarray_len (fbarray D) (g_fib_res_array s)"
      "mpath r = [p]" "mpath_cnt r = 1" "fib_res_rtype_get r = rtype" "fib_res_is_reject r = False"
      "mpath_max r = of_nat (if rtype = RT_MROUTE then MROUTE_MAX_ECMP else ROUTE_MAX_ECMP)"
proof (cases "rte_fbarray_find_next_free (fbarray D) (g_fib_res_array s) 0 < 0")
  case True
  then show ?thesis using find_full [OF True]
    by (intro full) (simp_all add: fib_res_obj_create_def fib_res_id_alloc_def ENOSPC_def)
next
  case False
  then obtain rid where rid: "rte_fbarray_find_next_free (fbarray D) (g_fib_res_array s) 0 = int rid"
    by (metis linorder_not_less zero_le_imp_eq_int)
  have f: "rid < rte_fbarray_len (fbarray D) (g_fib_res_array s)" "rid \<notin> fb_used (g_fib_res_array s)"
    using find_free [OF rid] by simp_all
  obtain ret b where b: "rte_fbarray_set_used (fbarray D) (g_fib_res_array s) rid = (ret, b)" by fastforce
  have u: "fb_used b = insert rid (fb_used (g_fib_res_array s))"
    "rte_fbarray_len (fbarray D) b = rte_fbarray_len (fbarray D) (g_fib_res_array s)"
    using set_used [OF f(1) b] by simp_all
  obtain x xs where ns': "ns = x # xs" using ns(1) by (cases ns) auto
  note run = fib_res_obj_create_def fib_res_id_alloc_def rid b Let_def store_res_def fib_res_get_def
    rte_fbarray_get_def fib_res_reset_def rib_res_nhop_ctor_def ROUTE_MAX_ECMP_def fib_res_md_set_def
    MROUTE_MAX_ECMP_def fib_res_unset_flags_def fib_res_set_flags_def
  show ?thesis
  proof (cases rtype)
    case RT_DEFAULT
    then show ?thesis using off ns n f u
      by (intro new [where rid = rid and b = b and r = "(fib_res_mem s rid)\<lparr>mpath := [p],
            mpath_cnt := 1, f_res_oid := nh_oid n, mpath_max := 1, fr_flags := 0\<rparr>"])
        (simp_all add: run ns' fib_res_rtype_get_def fib_res_is_reject_def)
  next
    case RT_MROUTE
    then show ?thesis using off ns n f u
      by (intro new [where rid = rid and b = b and r = "(fib_res_mem s rid)\<lparr>mpath := [p],
            mpath_cnt := 1, f_res_oid := 1, mpath_max := 8, fr_flags := FRF_MROUTE\<rparr>"])
        (simp_all add: run ns' fib_res_rtype_get_def fib_res_is_reject_def FRF_MROUTE_def FRF_REJECT_def)
  next
    case RT_MAX
    with rt show ?thesis by simp
  qed
qed

end

end
