(* ===== verification/Ntb_Route.thy ===== *)
theory Ntb_Route
  imports Ntb_Route_Obj
begin

text \<open>
  The route operations of \<^verbatim>\<open>agent/route.c\<close> (second half): insertion and removal of a route, the
  lookup on behalf of the packet path, the cleanup of a VRF, and the initialisation of the tables.
\<close>

subsection \<open>Insertion\<close>

text \<open>The loop that looks for an equal next hop among the paths of a result.\<close>

fun mpath_has_equal ::
  "(addr \<rightharpoonup> fib_nhop) \<Rightarrow> addr list \<Rightarrow> fib_nhop_encap_data \<Rightarrow> nat list \<Rightarrow> bool outcome" where
  "mpath_has_equal h ms e [] = Inr False"
| "mpath_has_equal h ms e (i # is) = bindR (read_at ms i) (\<lambda>p. bindR (load h p) (\<lambda>n.
     if fib_nhop_equal n e then Inr True else mpath_has_equal h ms e is))"

text \<open>The loop that copies the paths of a result into the local array.\<close>

fun mpath_copy :: "addr list \<Rightarrow> nat list \<Rightarrow> addr list \<Rightarrow> addr list outcome" where
  "mpath_copy ms [] f_nhops = Inr f_nhops"
| "mpath_copy ms (i # is) f_nhops = bindR (read_at ms i) (\<lambda>p.
     bindR (write_at f_nhops i p) (mpath_copy ms is))"

definition local_nhops :: "addr list" where
  "local_nhops = replicate MAX_NHOPS_PER_RTOUE 0"

definition insert_rollback2 ::
  "('t, 'b, 'f, 'h) env \<Rightarrow> nat \<Rightarrow> addr \<Rightarrow> int \<Rightarrow> ('t, 'b, 'f, 'h) agent
    \<Rightarrow> (int \<times> ('t, 'b, 'f, 'h) agent) outcome" where
  "insert_rollback2 D i nhop_new ret s =
     bindR (nhop_obj_delete D i nhop_new s) (\<lambda>(_, s'). Inr (ret, s'))"

definition insert_rollback1 ::
  "('t, 'b, 'f, 'h) env \<Rightarrow> nat \<Rightarrow> addr \<Rightarrow> int \<Rightarrow> int \<Rightarrow> ('t, 'b, 'f, 'h) agent
    \<Rightarrow> (int \<times> ('t, 'b, 'f, 'h) agent) outcome" where
  "insert_rollback1 D i nhop_new f_res_id_new ret s =
     bindR (fib_res_obj_delete D f_res_id_new s) (\<lambda>(_, s'). insert_rollback2 D i nhop_new ret s')"

text \<open>
  The work after the sanity check: \<open>old\<close> is the result the prefix has, if any (then its id is
  \<^verbatim>\<open>f_res_id\<close>; otherwise \<^verbatim>\<open>f_res_id\<close> is \<open>- 1\<close>).
\<close>

definition route_nhop_insert_new ::
  "('t, 'b, 'f, 'h) env \<Rightarrow> nat \<Rightarrow> ntb_rib_key \<Rightarrow> fib_nhop_encap_data \<Rightarrow> rib_type \<Rightarrow> nat option
    \<Rightarrow> ('t, 'b, 'f, 'h) agent \<Rightarrow> (int \<times> ('t, 'b, 'f, 'h) agent) outcome" where
  "route_nhop_insert_new D i pfx e rtype old s =
     (let f_res_id = (case old of None \<Rightarrow> - 1 | Some rid \<Rightarrow> int rid) in
      bindR (nhop_obj_create D i e s) (\<lambda>(ret, nhop_new, s1).
      if ret < 0 then Inr (ret, s1)
      else
        bindR (case old of
            None \<Rightarrow> bindR (write_at local_nhops 0 nhop_new) (\<lambda>ns. Inr (1, ns))
          | Some rid \<Rightarrow> bindR (load_res s1 (fib_res_get D s1 (int rid))) (\<lambda>f_res.
              let cnt = unat (mpath_cnt f_res) in
              bindR (mpath_copy (mpath f_res) [0..<cnt] local_nhops) (\<lambda>ns0.
              bindR (write_at ns0 cnt nhop_new) (\<lambda>ns. Inr (Suc cnt, ns))))) (\<lambda>(num, f_nhops).
        bindR (fib_res_obj_create D f_nhops num old rtype s1) (\<lambda>(f_res_id_new, s2).
        if f_res_id_new < 0 then insert_rollback2 D i nhop_new f_res_id_new s2
        else
          bindR (rt_prefix_obj_update D i pfx f_res_id f_res_id_new s2) (\<lambda>(ret, s3).
          if ret < 0 then insert_rollback1 D i nhop_new f_res_id_new ret s3
          else case old of
            None \<Rightarrow> Inr (ret, s3)
          | Some rid \<Rightarrow> bindR (fib_res_obj_delete D (int rid) s3) (\<lambda>(ret, s4).
              bindR (rte_assert D (ret = 0)) (\<lambda>_. Inr (ret, s4))))))))"

definition ntb_route_nhop_insert ::
  "('t, 'b, 'f, 'h) env \<Rightarrow> nat \<Rightarrow> ntb_rib_key \<Rightarrow> fib_nhop_encap_data \<Rightarrow> rib_type
    \<Rightarrow> ('t, 'b, 'f, 'h) agent \<Rightarrow> (int \<times> ('t, 'b, 'f, 'h) agent) outcome" where
  "ntb_route_nhop_insert D i pfx e rtype s =
     (case rte_hash_lookup_data (hash D) (ntb_rib_hash_tbl s) (RibKey pfx) of
        None \<Rightarrow> route_nhop_insert_new D i pfx e rtype None s
      | Some rid \<Rightarrow> bindR (load_res s (fib_res_get D s (int rid))) (\<lambda>f_res.
          if fib_res_rtype_get f_res \<noteq> rtype then Inr (NTB_IPV4_ROUTETYPE_NO_SAME, s)
          else if fib_res_mpath_nospace f_res then Inr (NTB_ROUTE_NEXTHOP_ECMP_NOSPACE, s)
          else bindR (mpath_has_equal (nhop_heap s) (mpath f_res) e [0..<unat (mpath_cnt f_res)])
            (\<lambda>eq. if eq then Inr (0, s)
                  else route_nhop_insert_new D i pfx e rtype (Some rid) s)))"

subsection \<open>Removal\<close>

text \<open>The position of a next hop among the paths, and the loop that copies all others.\<close>

fun mpath_index :: "addr list \<Rightarrow> addr \<Rightarrow> nat list \<Rightarrow> nat option outcome" where
  "mpath_index ms p [] = Inr None"
| "mpath_index ms p (i # is) = bindR (read_at ms i) (\<lambda>q.
     if q = p then Inr (Some i) else mpath_index ms p is)"

fun mpath_copy_others ::
  "addr list \<Rightarrow> addr \<Rightarrow> nat list \<Rightarrow> nat \<Rightarrow> addr list \<Rightarrow> addr list outcome" where
  "mpath_copy_others ms p [] rpath_index f_nhops = Inr f_nhops"
| "mpath_copy_others ms p (i # is) rpath_index f_nhops = bindR (read_at ms i) (\<lambda>q.
     if q = p then mpath_copy_others ms p is rpath_index f_nhops
     else bindR (write_at f_nhops rpath_index q) (mpath_copy_others ms p is (Suc rpath_index)))"

definition ntb_route_nhop_delete ::
  "('t, 'b, 'f, 'h) env \<Rightarrow> nat \<Rightarrow> ntb_rib_key \<Rightarrow> fib_nhop_encap_data \<Rightarrow> rib_type
    \<Rightarrow> ('t, 'b, 'f, 'h) agent \<Rightarrow> (int \<times> ('t, 'b, 'f, 'h) agent) outcome" where
  "ntb_route_nhop_delete D i pfx e rtype s =
     (case rte_hash_lookup_data (hash D) (ntb_rib_hash_tbl s) (RibKey pfx) of
        None \<Rightarrow> Inr (0, s)
      | Some rid \<Rightarrow>
          bindR (rte_assert D (fib_res_get D s (int rid) \<noteq> None)) (\<lambda>_.
          bindR (load_res s (fib_res_get D s (int rid))) (\<lambda>f_res.
          if fib_res_rtype_get f_res \<noteq> rtype then Inr (NTB_IPV4_ROUTETYPE_NO_SAME, s)
          else case rte_hash_lookup_data (hash D) (g_nhop_hash_tbl s) (ntb_nhop_hash_key e) of
            None \<Rightarrow> Inr (0, s)
          | Some f_nhop \<Rightarrow>
              let cnt = unat (mpath_cnt f_res) in
              bindR (mpath_index (mpath f_res) f_nhop [0..<cnt]) (\<lambda>idx.
              if idx = None then Inr (0, s)
              else if mpath_cnt f_res = 1 then
                bindR (rt_prefix_obj_delete D i pfx (int rid) s) (\<lambda>(ret, s1).
                bindR (rte_assert D (ret = 0)) (\<lambda>_.
                bindR (fib_res_obj_delete D (int rid) s1) (\<lambda>(ret, s2).
                bindR (rte_assert D (ret = 0)) (\<lambda>_.
                bindR (nhop_obj_delete D i f_nhop s2) (\<lambda>(ret, s3).
                bindR (rte_assert D (ret = 0)) (\<lambda>_. Inr (ret, s3)))))))
              else
                bindR (mpath_copy_others (mpath f_res) f_nhop [0..<cnt] 0 local_nhops) (\<lambda>f_nhops.
                bindR (fib_res_obj_create D f_nhops (cnt - 1) (Some rid) rtype s)
                  (\<lambda>(f_res_id_new, s1).
                if f_res_id_new < 0 then Inr (f_res_id_new, s1)
                else
                  bindR (rt_prefix_obj_update D i pfx (int rid) f_res_id_new s1) (\<lambda>(ret, s2).
                  if ret < 0 then bindR (fib_res_obj_delete D f_res_id_new s2) (\<lambda>(_, s3). Inr (ret, s3))
                  else
                    bindR (fib_res_obj_delete D (int rid) s2) (\<lambda>(ret, s3).
                    bindR (rte_assert D (ret = 0)) (\<lambda>_.
                    bindR (nhop_obj_delete D i f_nhop s3) (\<lambda>(ret, s4).
                    bindR (rte_assert D (ret = 0)) (\<lambda>_. Inr (ret, s4))))))))))))"

text \<open>The loop that releases the recorded next hops.\<close>

fun nhop_delete_all ::
  "('t, 'b, 'f, 'h) env \<Rightarrow> nat \<Rightarrow> addr list \<Rightarrow> nat list \<Rightarrow> ('t, 'b, 'f, 'h) agent
    \<Rightarrow> ('t, 'b, 'f, 'h) agent outcome" where
  "nhop_delete_all D i f_nhops [] s = Inr s"
| "nhop_delete_all D i f_nhops (j # js) s = bindR (read_at f_nhops j) (\<lambda>p.
     bindR (nhop_obj_delete D i p s) (\<lambda>(ret, s1).
     bindR (rte_assert D (ret = 0)) (\<lambda>_. nhop_delete_all D i f_nhops js s1)))"

definition ntb_route_delete ::
  "('t, 'b, 'f, 'h) env \<Rightarrow> nat \<Rightarrow> ntb_rib_key \<Rightarrow> ('t, 'b, 'f, 'h) agent
    \<Rightarrow> (int \<times> ('t, 'b, 'f, 'h) agent) outcome" where
  "ntb_route_delete D i pfx s =
     (case rte_hash_lookup_data (hash D) (ntb_rib_hash_tbl s) (RibKey pfx) of
        None \<Rightarrow> Inr (NTB_ROUTE_PREFIX_NOT_FOUND, s)
      | Some rid \<Rightarrow>
          bindR (rte_assert D (fib_res_get D s (int rid) \<noteq> None)) (\<lambda>_.
          bindR (load_res s (fib_res_get D s (int rid))) (\<lambda>f_res.
          let nhop_num = unat (mpath_cnt f_res) in
          bindR (mpath_copy (mpath f_res) [0..<nhop_num] local_nhops) (\<lambda>f_nhops.
          bindR (rt_prefix_obj_delete D i pfx (int rid) s) (\<lambda>(ret, s1).
          bindR (rte_assert D (ret = 0)) (\<lambda>_.
          bindR (fib_res_obj_delete D (int rid) s1) (\<lambda>(ret, s2).
          bindR (rte_assert D (ret = 0)) (\<lambda>_.
          bindR (nhop_delete_all D i f_nhops [0..<nhop_num] s2) (\<lambda>s3. Inr (0, s3))))))))))"

subsection \<open>Lookup\<close>

text \<open>
  \<open>flag\<close> 0 loads the route and its next hop into the switch, any other flag takes them out. The
  second component of the result is the pointer stored through \<^verbatim>\<open>f_res\<close>. Nothing looks at the
  reject flag: the first path is read whatever the result is.
\<close>

definition ntb_route_lookup ::
  "('t, 'b, 'f, 'h) env \<Rightarrow> nat \<Rightarrow> u32 \<Rightarrow> u32 \<Rightarrow> int \<Rightarrow> ('t, 'b, 'f, 'h) agent
    \<Rightarrow> (int \<times> nat option \<times> ('t, 'b, 'f, 'h) agent) outcome" where
  "ntb_route_lookup D i sip0 dip0 flag_of_add_del s = bindR (get_dp s i) (\<lambda>v.
     let dip = bswap32 dip0;
         next_hop = rte_fib_lookup (fib D) (dp_fib v) dip;
         p = fib_res_get D s (int next_hop);
         sip = bswap32 sip0
     in
     bindR (if flag_of_add_del = 0 then
              bindR (load_res s p) (\<lambda>r. bindR (read_at (mpath r) 0) (\<lambda>q. bindR (load (nhop_heap s) q)
                (\<lambda>n. Inr (shc_hal_route_entry_add D (vrf_id v) sip dip (nh_oid n) s))))
            else Inr (shc_hal_route_entry_del D (vrf_id v) sip dip s)) (\<lambda>(ret, s1).
     if ret < 0 then Inr (ret, p, s1)
     else
       bindR (load_res s1 p) (\<lambda>r. bindR (read_at (mpath r) 0) (\<lambda>q. bindR (load (nhop_heap s1) q) (\<lambda>n.
         let t = nh_tunnel_info n in
         case (if flag_of_add_del = 0
               then shc_hal_nhop_entry_add D (nh_oid n) (vxlan_vni t) (vxlan_local t) (vxlan_remote t)
                      (nh_neigh_oid n) s1
               else shc_hal_nhop_entry_del D (nh_oid n) s1) of
           (ret, s2) \<Rightarrow> if ret < 0 then Inr (ret, p, s2) else Inr (0, p, s2))))))"

text \<open>
  \<^verbatim>\<open>hash % f_res->mpath_cnt\<close>: the count is unsigned, so a negative \<^verbatim>\<open>hash\<close> is first converted.
\<close>

definition fib_res_select_mpath :: "fib_res \<Rightarrow> int \<Rightarrow> nat" where
  "fib_res_select_mpath f_res h =
     (if mpath_cnt f_res > 0 then unat ((of_int h :: u32) mod mpath_cnt f_res) else 0)"

subsection \<open>Cleanup and initialisation\<close>

text \<open>
  The loop deletes keys of the table it iterates over; that it ends is a theorem. A table entry is
  compared as a RIB key; no other keys are ever added to this table.
\<close>

partial_function (option) ntb_route_cleanup_loop ::
  "('t, 'b, 'f, 'h) env \<Rightarrow> nat \<Rightarrow> nat \<Rightarrow> ('t, 'b, 'f, 'h) agent
    \<Rightarrow> ('t, 'b, 'f, 'h) agent outcome option" where
  "ntb_route_cleanup_loop D i iter s =
     (case rte_hash_iterate (hash D) (ntb_rib_hash_tbl s) iter of
        None \<Rightarrow> Some (Inr s)
      | Some (k, _, iter') \<Rightarrow> (case bindR (get_dp s i) (\<lambda>v.
            case k of RibKey rk \<Rightarrow>
                if vrf_id v = rk_vrf_id rk then bindR (ntb_route_delete D i rk s) (\<lambda>(_, s'). Inr s')
                else Inr s
            | _ \<Rightarrow> Inr s) of
          Inl f \<Rightarrow> Some (Inl f)
        | Inr s' \<Rightarrow> ntb_route_cleanup_loop D i iter' s'))"

definition ntb_route_cleanup ::
  "('t, 'b, 'f, 'h) env \<Rightarrow> nat \<Rightarrow> ('t, 'b, 'f, 'h) agent
    \<Rightarrow> (int \<times> ('t, 'b, 'f, 'h) agent) outcome option" where
  "ntb_route_cleanup D i s =
     map_option (\<lambda>r. bindR r (\<lambda>s'. Inr (0, s'))) (ntb_route_cleanup_loop D i 0 s)"

text \<open>
  Initialisation. A table that cannot be created fails the assertion; a build without assertions
  goes on with a null table, which is reported as a null dereference here.
\<close>

definition ntb_nhop_init ::
  "('t, 'b, 'f, 'h) env \<Rightarrow> ('t, 'b, 'f, 'h) agent \<Rightarrow> ('t, 'b, 'f, 'h) agent outcome" where
  "ntb_nhop_init D s = (case rte_hash_create (hash D) NTB_NR_NHOP_ALL of
     None \<Rightarrow> bindR (rte_assert D False) (\<lambda>_. Inl NullDeref)
   | Some t \<Rightarrow> Inr (s\<lparr>g_nhop_hash_tbl := rte_hash_reset (hash D) t\<rparr>))"

text \<open>\<open>tbl\<close> is the static \<^verbatim>\<open>ntb_rib_hash_tbl\<close>: \<open>None\<close> until the first call.\<close>

definition ntb_vrf_route_init ::
  "('t, 'b, 'f, 'h) env \<Rightarrow> nat \<Rightarrow> int \<Rightarrow> 't option \<Rightarrow> ('t, 'b, 'f, 'h) agent
    \<Rightarrow> (int \<times> 't option \<times> ('t, 'b, 'f, 'h) agent) outcome" where
  "ntb_vrf_route_init D i f_res_bh tbl s =
     bindR (case tbl of
         Some t \<Rightarrow> Inr t
       | None \<Rightarrow> (case rte_hash_create (hash D) (NTB_NR_ROUTES_ALL * 2) of
             None \<Rightarrow> bindR (rte_assert D False) (\<lambda>_. Inl NullDeref)
           | Some t \<Rightarrow> Inr (rte_hash_reset (hash D) t))) (\<lambda>t.
     let s1 = s\<lparr>ntb_rib_hash_tbl := t\<rparr> in
     case rte_fib_create (fib D) NTB_NR_ROUTES_ALL (nat f_res_bh) of
       None \<Rightarrow> bindR (rte_assert D False) (\<lambda>_. Inl NullDeref)
     | Some f \<Rightarrow> Inr (0, Some t, upd_dp i (\<lambda>v. v\<lparr>dp_fib := f\<rparr>) s1))"

end
