(* ===== verification/Ntb_Route_Inv.thy ===== *)
theory Ntb_Route_Inv
  imports Ntb_Route
begin

text \<open>
  The invariant of the route tables and its preservation. A live result has exactly one path (the
  path array has one element), so the users of a next hop are the prefixes whose result points to
  it; the counter of the next hop is their number. On top of the invariant, \<open>route_view\<close> is what
  the tables mean: a map from prefixes to next hops. Every route operation is shown to implement an
  update of this map, or to leave it alone when it fails.
\<close>

subsection \<open>Users of a next hop\<close>

definition path_users :: "(hkey \<rightharpoonup> nat) \<Rightarrow> (nat \<Rightarrow> fib_res) \<Rightarrow> addr \<Rightarrow> hkey set" where
  "path_users rib mem p = {k. \<exists>rid. rib k = Some rid \<and> mpath (mem rid) = [p]}"

definition nhop_users :: "('t, 'b, 'f, 'h) env \<Rightarrow> ('t, 'b, 'f, 'h) agent \<Rightarrow> addr \<Rightarrow> nat" where
  "nhop_users D s p = card (path_users (rib_map D s) (fib_res_mem s) p)"

text \<open>A result in use.\<close>

definition res_wf :: "fib_res \<Rightarrow> bool" where
  "res_wf r \<longleftrightarrow> mpath_cnt r = 1 \<and> length (mpath r) = 1 \<and> \<not> fib_res_is_reject r
    \<and> mpath_max r = of_nat (if fib_res_rtype_get r = RT_MROUTE then MROUTE_MAX_ECMP else ROUTE_MAX_ECMP)"

text \<open>The RIB: each prefix has a result of its own, and the used results are these and the blackhole.\<close>

definition rib_wf ::
  "('t, 'b, 'f, 'h) env \<Rightarrow> ('b \<Rightarrow> nat set) \<Rightarrow> ('t, 'b, 'f, 'h) agent \<Rightarrow> bool" where
  "rib_wf D used s \<longleftrightarrow>
     rte_fbarray_len (fbarray D) (g_fib_res_array s) = NTB_NR_FIB_RES_ALL + 1
   \<and> 0 \<le> f_res_blackhole s \<and> nat (f_res_blackhole s) < NTB_NR_FIB_RES_ALL + 1
   \<and> nat (f_res_blackhole s) \<notin> ran (rib_map D s)
   \<and> used (g_fib_res_array s) = insert (nat (f_res_blackhole s)) (ran (rib_map D s))
   \<and> inj_on (rib_map D s) (dom (rib_map D s))
   \<and> (\<forall>k r. rib_map D s k = Some r \<longrightarrow> r < NTB_NR_FIB_RES_ALL + 1 \<and> res_wf (fib_res_mem s r))
   \<and> (\<forall>k r. rib_map D s k = Some r \<longrightarrow>
        (\<exists>key. k = RibKey key \<and> 1 \<le> rk_vrf_id key \<and> rk_vrf_id key \<le> int NTB_NR_VRF))"

text \<open>\<^verbatim>\<open>rib_cnt\<close> of a VRF is the number of its prefixes.\<close>

definition vrf_prefixes :: "(hkey \<rightharpoonup> nat) \<Rightarrow> nat \<Rightarrow> hkey set" where
  "vrf_prefixes rib i = {k \<in> dom rib. \<exists>key. k = RibKey key \<and> rk_vrf_id key = int i + 1}"

definition rib_counts :: "('t, 'b, 'f, 'h) env \<Rightarrow> ('t, 'b, 'f, 'h) agent \<Rightarrow> bool" where
  "rib_counts D s \<longleftrightarrow>
     (\<forall>i < NTB_NR_VRF. rib_cnt (dp (g_ntb_vrfs s ! i)) = int (card (vrf_prefixes (rib_map D s) i)))"

definition route_inv ::
  "('t, 'b, 'f, 'h) env \<Rightarrow> ('b \<Rightarrow> nat set) \<Rightarrow> ('t, 'b, 'f, 'h) agent \<Rightarrow> bool" where
  "route_inv D used s \<longleftrightarrow> vrf_ids_ok s \<and> neigh_wf D s \<and> rib_wf D used s
    \<and> nhop_wf D (nhop_users D s) s \<and> rib_counts D s"

subsection \<open>What the tables mean\<close>

definition nhop_view ::
  "('t, 'b, 'f, 'h) agent \<Rightarrow> addr \<rightharpoonup> u32 \<times> ip_tunnel_info" where
  "nhop_view s p = map_option (\<lambda>n. (nh_gateway n, nh_tunnel_info n)) (nhop_heap s p)"

definition route_view ::
  "('t, 'b, 'f, 'h) env \<Rightarrow> ('t, 'b, 'f, 'h) agent \<Rightarrow> ntb_rib_key \<rightharpoonup> rib_type \<times> u32 \<times> ip_tunnel_info" where
  "route_view D s key = (case rib_map D s (RibKey key) of
     None \<Rightarrow> None
   | Some r \<Rightarrow> (case mpath (fib_res_mem s r) of
       [] \<Rightarrow> None
     | p # _ \<Rightarrow> map_option (Pair (fib_res_rtype_get (fib_res_mem s r))) (nhop_view s p)))"

text \<open>
  The forwarding tables agree with the RIB when all prefixes are canonical (no host bits set) and of
  one address family: the forwarding table of a VRF holds the same results under the networks.
\<close>

definition canonical :: "u8 \<Rightarrow> ntb_rib_key \<Rightarrow> bool" where
  "canonical fam key \<longleftrightarrow> rk_family key = fam
    \<and> ip4_net (bswap32 (rk_prefix4 key)) (unat (rk_prefixlen key)) = bswap32 (rk_prefix4 key)"

definition vrf_key :: "u8 \<Rightarrow> nat \<Rightarrow> u32 \<Rightarrow> u8 \<Rightarrow> ntb_rib_key" where
  "vrf_key fam i net l = \<lparr>rk_vrf_id = int i + 1, rk_family = fam, rk_prefixlen = l,
     rk_prefix4 = bswap32 net\<rparr>"

definition fib_inv ::
  "('t, 'b, 'f, 'h) env \<Rightarrow> ('f \<Rightarrow> (u32 \<times> u8 \<rightharpoonup> nat)) \<Rightarrow> ('f \<Rightarrow> nat) \<Rightarrow> u8
    \<Rightarrow> ('t, 'b, 'f, 'h) agent \<Rightarrow> bool" where
  "fib_inv D rts dflt fam s \<longleftrightarrow>
     (\<forall>key. rib_map D s (RibKey key) \<noteq> None \<longrightarrow> canonical fam key)
   \<and> (\<forall>i < NTB_NR_VRF. dflt (dp_fib (dp (g_ntb_vrfs s ! i))) = nat (f_res_blackhole s)
      \<and> (\<forall>net l. rts (dp_fib (dp (g_ntb_vrfs s ! i))) (net, l) =
           (if ip4_net net (unat l) = net then rib_map D s (RibKey (vrf_key fam i net l)) else None)))"

subsection \<open>Counting users\<close>

lemma path_users_insert:
  assumes "rib k = None" and "rid \<notin> ran rib" and "mpath r = [p]"
  shows "path_users (rib(k \<mapsto> rid)) (mem(rid := r)) q =
    (if q = p then insert k (path_users rib mem p) else path_users rib mem q)"
  using assms by (auto simp: path_users_def ran_def split: if_splits)

lemma path_users_delete:
  assumes "inj_on rib (dom rib)" and "rib k = Some rid" and "mpath (mem rid) = [p]"
  shows "path_users (rib(k := None)) mem q =
    (if q = p then path_users rib mem p - {k} else path_users rib mem q)"
  using assms by (auto simp: path_users_def split: if_splits)

lemma path_users_cong:
  "(\<And>r. r \<in> ran rib \<Longrightarrow> mem' r = mem r) \<Longrightarrow> path_users rib mem' p = path_users rib mem p"
  unfolding path_users_def by (metis ranI)

lemma path_users_subset: "path_users rib mem p \<subseteq> dom rib"
  by (auto simp: path_users_def)

lemma nhop_view_Some: "nhop_heap s p = Some n \<Longrightarrow> nhop_view s p = Some (nh_gateway n, nh_tunnel_info n)"
  by (simp add: nhop_view_def)

lemma canonical_vrf_key:
  "canonical fam key \<Longrightarrow> rk_vrf_id key = int i + 1 \<Longrightarrow>
    vrf_key fam i (ip4_net (bswap32 (rk_prefix4 key)) (unat (rk_prefixlen key))) (rk_prefixlen key) = key"
  by (simp add: vrf_key_def canonical_def)

lemma vrf_key_eq_iff:
  "vrf_key fam i net l = key \<longleftrightarrow> rk_vrf_id key = int i + 1 \<and> rk_family key = fam
    \<and> rk_prefixlen key = l \<and> rk_prefix4 key = bswap32 net"
  by (cases key) (auto simp: vrf_key_def)

context dpdk_env
begin

lemma rib_map_finite: "finite (dom (rib_map D s))"
  by (simp add: rib_map_def finite_keys)

lemma path_users_finite: "finite (path_users (rib_map D s) mem p)"
  by (rule finite_subset [OF path_users_subset rib_map_finite])

text \<open>The result array bounds the number of routes, so no counter of a next hop wraps around.\<close>

lemma nhop_users_bound:
  assumes "rib_wf D fb_used s"
  shows "nhop_users D s p \<le> NTB_NR_FIB_RES_ALL + 1"
proof -
  have "nhop_users D s p \<le> card (dom (rib_map D s))"
    unfolding nhop_users_def by (intro card_mono rib_map_finite path_users_subset)
  also have "\<dots> = card (rib_map D s ` dom (rib_map D s))"
    using assms by (subst card_image) (auto simp: rib_wf_def)
  also have "\<dots> \<le> card (Some ` {..<NTB_NR_FIB_RES_ALL + 1})"
    using assms by (intro card_mono) (auto simp: rib_wf_def image_iff)
  also have "\<dots> \<le> NTB_NR_FIB_RES_ALL + 1"
    by (simp add: card_image)
  finally show ?thesis .
qed

lemma route_inv_users_bound:
  assumes "route_inv D fb_used s"
  shows "Suc (nhop_users D s p) < 2 ^ 32"
proof -
  have "nhop_users D s p \<le> NTB_NR_FIB_RES_ALL + 1"
    using nhop_users_bound assms by (simp add: route_inv_def)
  also have "\<dots> < 2 ^ 32 - 1" by (simp add: NTB_NR_FIB_RES_ALL_def)
  finally show ?thesis by simp
qed

text \<open>The next hop of a live result is live.\<close>

lemma route_path_live:
  assumes inv: "route_inv D fb_used s" and k: "rib_map D s k = Some r"
  obtains p n where "mpath (fib_res_mem s r) = [p]" "nhop_heap s p = Some n" "p \<noteq> 0"
    "0 < nhop_users D s p"
proof -
  have "length (mpath (fib_res_mem s r)) = 1" using inv k by (auto simp: route_inv_def rib_wf_def res_wf_def)
  then obtain p where p: "mpath (fib_res_mem s r) = [p]" by (auto simp: length_Suc_conv)
  then have "k \<in> path_users (rib_map D s) (fib_res_mem s) p" using k by (auto simp: path_users_def)
  then have u: "0 < nhop_users D s p"
    using path_users_finite by (auto simp: nhop_users_def card_gt_0_iff)
  then obtain n where n: "nhop_heap s p = Some n"
    using inv by (cases "nhop_heap s p") (auto simp: route_inv_def nhop_wf_def)
  have l: "linked (nhop_map D s) (nhop_heap s) (next_addr s)"
    using inv by (simp add: route_inv_def nhop_wf_def)
  obtain k' where "nhop_map D s k' = Some p" using linked_key [OF l n] by blast
  then have "p \<noteq> 0" using linked_load [OF l] by blast
  then show thesis using that p n u by blast
qed

lemma route_view_live:
  assumes "route_inv D fb_used s"
  shows "route_view D s key = None \<longleftrightarrow> rib_map D s (RibKey key) = None"
proof (cases "rib_map D s (RibKey key)")
  case None
  then show ?thesis by (simp add: route_view_def)
next
  case (Some r)
  obtain p n where "mpath (fib_res_mem s r) = [p]" "nhop_heap s p = Some n"
    using route_path_live [OF assms Some] by blast
  then show ?thesis using Some by (simp add: route_view_def nhop_view_def)
qed

end

subsection \<open>Prefix operations\<close>

text \<open>What they leave alone; the forwarding table and the prefix counter of one VRF may change.\<close>

definition prefix_frame :: "('t, 'b, 'f, 'h) agent \<Rightarrow> ('t, 'b, 'f, 'h) agent \<Rightarrow> bool" where
  "prefix_frame s s' \<longleftrightarrow> vrf_ids s' = vrf_ids s \<and> vrf_names s' = vrf_names s
    \<and> tunnel_part s' = tunnel_part s \<and> nhop_part s' = nhop_part s \<and> neigh_part s' = neigh_part s
    \<and> fib_res_mem s' = fib_res_mem s \<and> g_fib_res_array s' = g_fib_res_array s
    \<and> f_res_blackhole s' = f_res_blackhole s \<and> next_addr s' = next_addr s \<and> fake_mac s' = fake_mac s"

definition slot_fib :: "('t, 'b, 'f, 'h) agent \<Rightarrow> nat \<Rightarrow> 'f" where
  "slot_fib s i = dp_fib (dp (g_ntb_vrfs s ! i))"

definition slot_rib_cnt :: "('t, 'b, 'f, 'h) agent \<Rightarrow> nat \<Rightarrow> int" where
  "slot_rib_cnt s i = rib_cnt (dp (g_ntb_vrfs s ! i))"

definition pfx_net :: "ntb_rib_key \<Rightarrow> u32 \<times> u8" where
  "pfx_net pfx = (ip4_net (bswap32 (rk_prefix4 pfx)) (unat (rk_prefixlen pfx)), rk_prefixlen pfx)"

lemma map_upd_fib_cnt:
  "map (\<lambda>v. vrf_id (dp v)) (g_ntb_vrfs (upd_dp i (\<lambda>v. v\<lparr>dp_fib := f v\<rparr>) s)) =
    map (\<lambda>v. vrf_id (dp v)) (g_ntb_vrfs s)"
  "map (\<lambda>v. vrf_id (dp v)) (g_ntb_vrfs (upd_dp i (\<lambda>v. v\<lparr>rib_cnt := c v\<rparr>) s)) =
    map (\<lambda>v. vrf_id (dp v)) (g_ntb_vrfs s)"
  "map (\<lambda>v. (vname v, valid v)) (g_ntb_vrfs (upd_dp i g s)) = map (\<lambda>v. (vname v, valid v)) (g_ntb_vrfs s)"
  "map (\<lambda>v. (tunnel_rmap (dp v), tunnel_cnt (dp v))) (g_ntb_vrfs (upd_dp i (\<lambda>v. v\<lparr>dp_fib := f v\<rparr>) s)) =
    map (\<lambda>v. (tunnel_rmap (dp v), tunnel_cnt (dp v))) (g_ntb_vrfs s)"
  "map (\<lambda>v. (tunnel_rmap (dp v), tunnel_cnt (dp v))) (g_ntb_vrfs (upd_dp i (\<lambda>v. v\<lparr>rib_cnt := c v\<rparr>) s)) =
    map (\<lambda>v. (tunnel_rmap (dp v), tunnel_cnt (dp v))) (g_ntb_vrfs s)"
  "map (\<lambda>v. neigh_cnt (dp v)) (g_ntb_vrfs (upd_dp i (\<lambda>v. v\<lparr>dp_fib := f v\<rparr>) s)) =
    map (\<lambda>v. neigh_cnt (dp v)) (g_ntb_vrfs s)"
  "map (\<lambda>v. neigh_cnt (dp v)) (g_ntb_vrfs (upd_dp i (\<lambda>v. v\<lparr>rib_cnt := c v\<rparr>) s)) =
    map (\<lambda>v. neigh_cnt (dp v)) (g_ntb_vrfs s)"
  by (rule map_upd_dp; simp)+

lemmas prefix_frame_simps = prefix_frame_def part_defs comp_def map_upd_fib_cnt

lemma prefix_frame_trans [trans]: "prefix_frame s s' \<Longrightarrow> prefix_frame s' s'' \<Longrightarrow> prefix_frame s s''"
  by (auto simp: prefix_frame_def)

lemma prefix_frame_length: "prefix_frame s s' \<Longrightarrow> length (g_ntb_vrfs s') = length (g_ntb_vrfs s)"
  unfolding prefix_frame_def by (elim conjE, rule vrf_ids_length)

lemma prefix_frame_upd:
  "prefix_frame s (s\<lparr>ntb_rib_hash_tbl := t\<rparr>)"
  "prefix_frame s (upd_dp i (\<lambda>v. v\<lparr>dp_fib := f v\<rparr>) s)"
  "prefix_frame s (upd_dp i (\<lambda>v. v\<lparr>rib_cnt := c v\<rparr>) s)"
  by (simp_all add: prefix_frame_simps)

context dpdk_env
begin

lemma rt_prefix_type_get_live:
  assumes "\<not> assert_on D" and "rid < rte_fbarray_len (fbarray D) (g_fib_res_array s)"
    and "mpath (fib_res_mem s rid) = [p]" and "nhop_heap s p = Some n" and "p \<noteq> 0"
  shows "\<exists>t. rt_prefix_type_get D pfx (int rid) s = Inr t"
  using assms by (auto simp: rt_prefix_type_get_def fib_res_get_def)

lemma rt_prefix_obj_update_cases:
  assumes off: "\<not> assert_on D" and i: "i < length (g_ntb_vrfs s)"
    and rid: "rid < rte_fbarray_len (fbarray D) (g_fib_res_array s)" "mpath (fib_res_mem s rid) = [p]"
    and n: "nhop_heap s p = Some n" "p \<noteq> 0" and k: "rib_map D s (RibKey pfx) = None"
  obtains
    (fail) s' where "rt_prefix_obj_update D i pfx (- 1) (int rid) s = Inr (NTB_ROUTE_PREFIX_NOSPACE, s')"
      "prefix_frame s s'" "rib_map D s' = rib_map D s"
      "\<And>j. j < length (g_ntb_vrfs s) \<Longrightarrow> slot_rib_cnt s' j = slot_rib_cnt s j
         \<and> fib_routes (slot_fib s' j) = fib_routes (slot_fib s j)
         \<and> fib_default (slot_fib s' j) = fib_default (slot_fib s j)"
  | (ok) s' where "rt_prefix_obj_update D i pfx (- 1) (int rid) s = Inr (0, s')"
      "prefix_frame s s'" "rib_map D s' = (rib_map D s)(RibKey pfx \<mapsto> rid)"
      "\<And>j. j < length (g_ntb_vrfs s) \<Longrightarrow> slot_rib_cnt s' j = slot_rib_cnt s j + (if i = j then 1 else 0)
         \<and> fib_routes (slot_fib s' j) =
             (if i = j then (fib_routes (slot_fib s j))(pfx_net pfx \<mapsto> rid) else fib_routes (slot_fib s j))
         \<and> fib_default (slot_fib s' j) = fib_default (slot_fib s j)"
proof -
  obtain ty where ty: "rt_prefix_type_get D pfx (int rid) s = Inr ty"
    using rt_prefix_type_get_live [OF off rid n] by blast
  obtain r t where t: "rte_hash_add_key_data (hash D) (ntb_rib_hash_tbl s) (RibKey pfx) rid = (r, t)"
    by fastforce
  obtain r' f where f: "rte_fib_add (fib D) (slot_fib s i) (bswap32 (rk_prefix4 pfx))
    (rk_prefixlen pfx) rid = (r', f)" by fastforce
  obtain r2 t2 where t2: "rte_hash_del_key (hash D) t (RibKey pfx) = (r2, t2)" by fastforce
  note run = rt_prefix_obj_update_def ty t t2 f [unfolded slot_fib_def] Let_def
  define s2 where "s2 = upd_dp i (\<lambda>v. v\<lparr>dp_fib := f\<rparr>) (s\<lparr>ntb_rib_hash_tbl := t\<rparr>)"
  consider "r < 0" | "0 \<le> r" "r' \<noteq> 0" | "0 \<le> r" "r' = 0" by linarith
  then show thesis
  proof cases
    case 1
    then show ?thesis using off i add_fail [OF t]
      by (intro fail [of "s\<lparr>ntb_rib_hash_tbl := t\<rparr>"])
        (simp_all add: run prefix_frame_upd rib_map_def slot_rib_cnt_def slot_fib_def)
  next
    case 2
    then show ?thesis using off i add_del_lookup [OF k [unfolded rib_map_def] t 2(1) t2] fib_add_fail [OF f]
      by (intro fail [of "s2\<lparr>ntb_rib_hash_tbl := t2\<rparr>"])
        (simp_all add: run s2_def prefix_frame_simps rib_map_def slot_rib_cnt_def slot_fib_def)
  next
    case 3
    then show ?thesis using off i add_ok [OF t] fib_add_ok [OF f [unfolded 3(2)]]
      by (intro ok [of "upd_dp i (\<lambda>v. v\<lparr>rib_cnt := rib_cnt v + 1\<rparr>) s2"])
        (simp_all add: run s2_def prefix_frame_simps rib_map_def slot_rib_cnt_def slot_fib_def pfx_net_def)
  qed
qed

lemma rt_prefix_obj_delete_effect:
  assumes off: "\<not> assert_on D" and i: "i < length (g_ntb_vrfs s)"
    and rid: "rid < rte_fbarray_len (fbarray D) (g_fib_res_array s)" "mpath (fib_res_mem s rid) = [p]"
    and n: "nhop_heap s p = Some n" "p \<noteq> 0"
  shows "\<exists>ret s'. rt_prefix_obj_delete D i pfx (int rid) s = Inr (ret, s') \<and> prefix_frame s s'
    \<and> rib_map D s' = (rib_map D s)(RibKey pfx := None)
    \<and> ntb_rib_hash_tbl s' = snd (rte_hash_del_key (hash D) (ntb_rib_hash_tbl s) (RibKey pfx))
    \<and> (\<forall>j < length (g_ntb_vrfs s). slot_rib_cnt s' j = slot_rib_cnt s j - (if i = j then 1 else 0)
         \<and> fib_routes (slot_fib s' j) =
             (if i = j then (fib_routes (slot_fib s j))(pfx_net pfx := None) else fib_routes (slot_fib s j))
         \<and> fib_default (slot_fib s' j) = fib_default (slot_fib s j))"
proof -
  obtain ty where ty: "rt_prefix_type_get D pfx (int rid) s = Inr ty"
    using rt_prefix_type_get_live [OF off rid n] by blast
  obtain r f where f: "rte_fib_delete (fib D) (slot_fib s i) (bswap32 (rk_prefix4 pfx))
    (rk_prefixlen pfx) = (r, f)" by fastforce
  obtain ret t where t: "rte_hash_del_key (hash D) (ntb_rib_hash_tbl s) (RibKey pfx) = (ret, t)" by fastforce
  let ?s1 = "upd_dp i (\<lambda>v. v\<lparr>dp_fib := f\<rparr>) s"
  let ?s = "upd_dp i (\<lambda>v. v\<lparr>rib_cnt := rib_cnt v - 1\<rparr>) (?s1\<lparr>ntb_rib_hash_tbl := t\<rparr>)"
  have "rt_prefix_obj_delete D i pfx (int rid) s = Inr (ret, ?s)"
    using off i by (simp add: rt_prefix_obj_delete_def ty f [unfolded slot_fib_def] t Let_def)
  moreover have "rib_map D ?s = (rib_map D s)(RibKey pfx := None)"
    using del_lookup [OF t] by (simp add: rib_map_def)
  moreover have "fib_default f = fib_default (slot_fib s i)"
    using fib_delete_present [OF _ f] fib_delete_absent [OF _ f]
    by (cases "fib_routes (slot_fib s i) (pfx_net pfx)") (auto simp: pfx_net_def)
  ultimately show ?thesis
    using fib_delete_routes [OF f] t
    by (intro exI [of _ ret] exI [of _ ?s])
      (simp add: prefix_frame_simps slot_rib_cnt_def slot_fib_def pfx_net_def)
qed

end

subsection \<open>Steps of the invariant\<close>

lemma vrf_prefixes_upd:
  "vrf_prefixes (rib(RibKey key \<mapsto> r)) i =
    (if rk_vrf_id key = int i + 1 then insert (RibKey key) (vrf_prefixes rib i) else vrf_prefixes rib i)"
  "vrf_prefixes (rib(RibKey key := None)) i = vrf_prefixes rib i - {RibKey key}"
  by (auto simp: vrf_prefixes_def)

lemma vrf_prefixes_mem:
  "RibKey key \<in> vrf_prefixes rib i \<longleftrightarrow> rib (RibKey key) \<noteq> None \<and> rk_vrf_id key = int i + 1"
  by (auto simp: vrf_prefixes_def)

lemma res_wf_inj_upd:
  "inj_on rib (dom rib) \<Longrightarrow> r \<notin> ran rib \<Longrightarrow> inj_on (rib(k \<mapsto> r)) (dom (rib(k \<mapsto> r)))"
  by (auto simp: inj_on_def ran_def dom_def split: if_splits)

lemma inj_on_dom_del: "inj_on rib (dom rib) \<Longrightarrow> inj_on (rib(k := None)) (dom (rib(k := None)))"
  by (auto simp: inj_on_def dom_def split: if_splits)

lemma ran_del:
  assumes "inj_on rib (dom rib)" and "rib k = Some r"
  shows "ran (rib(k := None)) = ran rib - {r}"
  using assms by (auto simp: ran_def inj_on_def dom_def split: if_splits) (metis domI option.inject)

text \<open>A failed operation: the RIB is as before, and so is everything reachable from it.\<close>

lemma route_view_kept:
  assumes "rib_map D s' = rib_map D s" and "\<And>r. r \<in> ran (rib_map D s) \<Longrightarrow> fib_res_mem s' r = fib_res_mem s r"
    and "\<And>p. nhop_view s' p = nhop_view s p"
  shows "route_view D s' = route_view D s"
  using assms ranI by (fastforce simp: route_view_def fun_eq_iff split: option.splits list.splits)

context dpdk_env
begin

lemma vrf_prefixes_finite: "finite (vrf_prefixes (rib_map D s) i)"
  by (rule finite_subset [OF _ rib_map_finite]) (auto simp: vrf_prefixes_def)

lemma route_inv_kept:
  assumes inv: "route_inv D fb_used s" and rib: "rib_map D s' = rib_map D s"
    and mem: "\<And>r. r \<in> ran (rib_map D s) \<Longrightarrow> fib_res_mem s' r = fib_res_mem s r"
    and arr: "fb_used (g_fib_res_array s') = fb_used (g_fib_res_array s)"
      "rte_fbarray_len (fbarray D) (g_fib_res_array s') = rte_fbarray_len (fbarray D) (g_fib_res_array s)"
    and fr: "f_res_blackhole s' = f_res_blackhole s" "vrf_ids s' = vrf_ids s"
    and cnt: "\<And>j. j < NTB_NR_VRF \<Longrightarrow> slot_rib_cnt s' j = slot_rib_cnt s j"
    and wf: "neigh_wf D s'" "nhop_wf D (nhop_users D s) s'"
  shows "route_inv D fb_used s'"
proof -
  have "nhop_users D s' = nhop_users D s"
    by (rule ext) (simp add: nhop_users_def rib path_users_cong [OF mem])
  moreover have "fib_res_mem s' r = fib_res_mem s r" if "rib_map D s k = Some r" for k r
    using mem [OF ranI [of "rib_map D s", OF that]] .
  then have "rib_wf D fb_used s'"
    using inv by (simp add: route_inv_def rib_wf_def rib arr fr)
  moreover have "rib_counts D s'"
    using inv cnt by (simp add: route_inv_def rib_counts_def rib slot_rib_cnt_def)
  ultimately show ?thesis using inv wf by (simp add: route_inv_def vrf_ids_ok_def fr)
qed

lemma route_inv_insert:
  assumes inv: "route_inv D fb_used s" and k: "rib_map D s (RibKey pfx) = None"
    and i: "i < NTB_NR_VRF" "rk_vrf_id pfx = int i + 1"
    and rid: "rid \<notin> fb_used (g_fib_res_array s)"
      "rid < rte_fbarray_len (fbarray D) (g_fib_res_array s)"
    and rib: "rib_map D s' = (rib_map D s)(RibKey pfx \<mapsto> rid)"
    and mem: "fib_res_mem s' = (fib_res_mem s)(rid := r)" "res_wf r" "mpath r = [p]"
    and arr: "fb_used (g_fib_res_array s') = insert rid (fb_used (g_fib_res_array s))"
      "rte_fbarray_len (fbarray D) (g_fib_res_array s') = rte_fbarray_len (fbarray D) (g_fib_res_array s)"
    and fr: "f_res_blackhole s' = f_res_blackhole s" "vrf_ids s' = vrf_ids s"
    and cnt: "\<And>j. j < NTB_NR_VRF \<Longrightarrow> slot_rib_cnt s' j = slot_rib_cnt s j + (if i = j then 1 else 0)"
    and wf: "neigh_wf D s'" "nhop_wf D ((nhop_users D s)(p := Suc (nhop_users D s p))) s'"
  shows "route_inv D fb_used s'"
proof -
  have rw: "rib_wf D fb_used s" using inv by (simp add: route_inv_def)
  then have fresh: "rid \<notin> ran (rib_map D s)" "rid \<noteq> nat (f_res_blackhole s)"
    using rid by (auto simp: rib_wf_def)
  have "nhop_users D s' = (nhop_users D s)(p := Suc (nhop_users D s p))"
  proof
    fix q
    have "RibKey pfx \<notin> path_users (rib_map D s) (fib_res_mem s) p" using k by (simp add: path_users_def)
    then show "nhop_users D s' q = ((nhop_users D s)(p := Suc (nhop_users D s p))) q"
      using path_users_finite
      by (simp add: nhop_users_def rib mem(1) path_users_insert [OF k fresh(1) mem(3)])
  qed
  moreover have "rib_wf D fb_used s'"
  proof -
    have "ran (rib_map D s') = insert rid (ran (rib_map D s))" using k by (simp add: rib)
    moreover have "inj_on (rib_map D s') (dom (rib_map D s'))"
      unfolding rib using rw fresh by (intro res_wf_inj_upd) (simp_all add: rib_wf_def)
    moreover have "x < NTB_NR_FIB_RES_ALL + 1 \<and> res_wf (fib_res_mem s' x)"
      if "rib_map D s' k' = Some x" for k' x
      using that rw fresh(1) mem rid(2) by (auto simp: rib_wf_def rib ran_def split: if_splits)
    moreover have "\<exists>key. k' = RibKey key \<and> 1 \<le> rk_vrf_id key \<and> rk_vrf_id key \<le> int NTB_NR_VRF"
      if "rib_map D s' k' = Some x" for k' x
      using that rw i by (cases "k' = RibKey pfx") (auto simp: rib_wf_def rib)
    ultimately show ?thesis using rw fresh unfolding rib_wf_def arr fr by (simp add: insert_commute)
  qed
  moreover have "rib_counts D s'"
  proof -
    have "RibKey pfx \<notin> vrf_prefixes (rib_map D s) i" using k by (simp add: vrf_prefixes_mem)
    then have "slot_rib_cnt s' j = int (card (vrf_prefixes (rib_map D s') j))" if "j < NTB_NR_VRF" for j
      using cnt [OF that] inv that i vrf_prefixes_finite
      by (auto simp: route_inv_def rib_counts_def rib vrf_prefixes_upd slot_rib_cnt_def)
    then show ?thesis by (simp add: rib_counts_def slot_rib_cnt_def)
  qed
  ultimately show ?thesis using inv wf by (simp add: route_inv_def vrf_ids_ok_def fr)
qed

lemma route_inv_delete:
  assumes inv: "route_inv D fb_used s" and k: "rib_map D s (RibKey pfx) = Some rid"
    and i: "i < NTB_NR_VRF" "rk_vrf_id pfx = int i + 1"
    and rib: "rib_map D s' = (rib_map D s)(RibKey pfx := None)"
    and mem: "fib_res_mem s' = fib_res_mem s" "mpath (fib_res_mem s rid) = [p]"
    and arr: "fb_used (g_fib_res_array s') = fb_used (g_fib_res_array s) - {rid}"
      "rte_fbarray_len (fbarray D) (g_fib_res_array s') = rte_fbarray_len (fbarray D) (g_fib_res_array s)"
    and fr: "f_res_blackhole s' = f_res_blackhole s" "vrf_ids s' = vrf_ids s"
    and cnt: "\<And>j. j < NTB_NR_VRF \<Longrightarrow> slot_rib_cnt s' j = slot_rib_cnt s j - (if i = j then 1 else 0)"
    and wf: "neigh_wf D s'" "nhop_wf D ((nhop_users D s)(p := nhop_users D s p - 1)) s'"
  shows "route_inv D fb_used s'"
proof -
  have rw: "rib_wf D fb_used s" using inv by (simp add: route_inv_def)
  then have inj: "inj_on (rib_map D s) (dom (rib_map D s))" by (simp add: rib_wf_def)
  have ran: "ran (rib_map D s') = ran (rib_map D s) - {rid}" unfolding rib by (rule ran_del [OF inj k])
  have "nhop_users D s' = (nhop_users D s)(p := nhop_users D s p - 1)"
  proof
    fix q
    have "RibKey pfx \<in> path_users (rib_map D s) (fib_res_mem s) p" using k mem by (simp add: path_users_def)
    then show "nhop_users D s' q = ((nhop_users D s)(p := nhop_users D s p - 1)) q"
      using path_users_finite
      by (simp add: nhop_users_def rib mem(1) path_users_delete [where rib = "rib_map D s" and mem = "fib_res_mem s", OF inj k mem(2)])
  qed
  moreover have "rib_wf D fb_used s'"
  proof -
    have "rid \<noteq> nat (f_res_blackhole s)" using rw k by (auto simp: rib_wf_def intro: ranI)
    moreover have "inj_on (rib_map D s') (dom (rib_map D s'))"
      unfolding rib by (rule inj_on_dom_del [OF inj])
    moreover have "x < NTB_NR_FIB_RES_ALL + 1 \<and> res_wf (fib_res_mem s x)
        \<and> (\<exists>key. k' = RibKey key \<and> 1 \<le> rk_vrf_id key \<and> rk_vrf_id key \<le> int NTB_NR_VRF)"
      if "rib_map D s' k' = Some x" for k' x
    proof -
      have "rib_map D s k' = Some x" using that by (simp add: rib split: if_splits)
      then show ?thesis using rw by (simp add: rib_wf_def)
    qed
    ultimately show ?thesis using rw unfolding rib_wf_def arr fr ran mem by auto
  qed
  moreover have "rib_counts D s'"
  proof -
    have "RibKey pfx \<in> vrf_prefixes (rib_map D s) j \<longleftrightarrow> i = j" for j
      using k i by (auto simp: vrf_prefixes_mem)
    moreover have "0 < card (vrf_prefixes (rib_map D s) i)"
      using calculation [of i] vrf_prefixes_finite [of s i] by (auto simp: card_gt_0_iff)
    ultimately have "slot_rib_cnt s' j = int (card (vrf_prefixes (rib_map D s') j))" if "j < NTB_NR_VRF" for j
      using cnt [OF that] inv that vrf_prefixes_finite
      by (auto simp: route_inv_def rib_counts_def rib vrf_prefixes_upd slot_rib_cnt_def of_nat_diff)
    then show ?thesis by (simp add: rib_counts_def slot_rib_cnt_def)
  qed
  ultimately show ?thesis using inv wf by (simp add: route_inv_def vrf_ids_ok_def fr)
qed

text \<open>The forwarding tables follow the RIB.\<close>

lemma fib_inv_kept:
  assumes "fib_inv D fib_routes fib_default fam s" and "rib_map D s' = rib_map D s"
    and "f_res_blackhole s' = f_res_blackhole s"
    and "\<And>j. j < NTB_NR_VRF \<Longrightarrow> fib_routes (slot_fib s' j) = fib_routes (slot_fib s j)
      \<and> fib_default (slot_fib s' j) = fib_default (slot_fib s j)"
  shows "fib_inv D fib_routes fib_default fam s'"
  using assms by (simp add: fib_inv_def slot_fib_def)

lemma fib_inv_update:
  assumes inv: "fib_inv D fib_routes fib_default fam s" and c: "canonical fam pfx"
    and i: "i < NTB_NR_VRF" "rk_vrf_id pfx = int i + 1"
    and rib: "rib_map D s' = (rib_map D s)(RibKey pfx := ro)"
    and bh: "f_res_blackhole s' = f_res_blackhole s"
    and f: "\<And>j. j < NTB_NR_VRF \<Longrightarrow> fib_default (slot_fib s' j) = fib_default (slot_fib s j) \<and>
      fib_routes (slot_fib s' j) =
        (if i = j then (fib_routes (slot_fib s j))(pfx_net pfx := ro) else fib_routes (slot_fib s j))"
  shows "fib_inv D fib_routes fib_default fam s'"
proof -
  have "fib_routes (slot_fib s' j) (net, l) =
      (if ip4_net net (unat l) = net then rib_map D s' (RibKey (vrf_key fam j net l)) else None)"
    if "j < NTB_NR_VRF" for j net l
  proof -
    have old: "fib_routes (slot_fib s j) (net, l) =
      (if ip4_net net (unat l) = net then rib_map D s (RibKey (vrf_key fam j net l)) else None)"
      using inv that by (simp add: fib_inv_def slot_fib_def)
    have eq: "vrf_key fam j net l = pfx \<longleftrightarrow> i = j \<and> (net, l) = pfx_net pfx"
      using c i by (auto simp: vrf_key_eq_iff pfx_net_def canonical_def)
    have "ip4_net net (unat l) = net" if "(net, l) = pfx_net pfx"
      using that by (auto simp: pfx_net_def)
    then show ?thesis using f [OF that] old eq by (auto simp: rib)
  qed
  moreover have "canonical fam key" if "rib_map D s' (RibKey key) \<noteq> None" for key
    using that inv c by (auto simp: fib_inv_def rib split: if_splits)
  ultimately show ?thesis using inv f by (simp add: fib_inv_def slot_fib_def bh)
qed

end

subsection \<open>Insertion\<close>

text \<open>A reference taken for a new route, against the state before.\<close>

definition acquired ::
  "('t, 'b, 'f, 'h) env \<Rightarrow> fib_nhop_encap_data \<Rightarrow> addr \<Rightarrow> ('t, 'b, 'f, 'h) agent
    \<Rightarrow> ('t, 'b, 'f, 'h) agent \<Rightarrow> bool" where
  "acquired D e p s s1 \<longleftrightarrow> obj_frame s s1 \<and> neigh_wf D s1 \<and> p \<noteq> 0
    \<and> nhop_wf D ((nhop_users D s)(p := Suc (nhop_users D s p))) s1
    \<and> nhop_view s1 p = Some (en_gateway e, en_tunnel_info e)
    \<and> (\<forall>q. q \<noteq> p \<or> nhop_view s q \<noteq> None \<longrightarrow> nhop_view s1 q = nhop_view s q)"

text \<open>The forwarding state of a VRF is part of \<open>route_part\<close>.\<close>

lemma route_part_slot:
  assumes "route_part s' = route_part s" and "j < length (g_ntb_vrfs s)"
  shows "slot_fib s' j = slot_fib s j \<and> slot_rib_cnt s' j = slot_rib_cnt s j"
proof -
  have e: "map (\<lambda>v. (dp_fib (dp v), rib_cnt (dp v))) (g_ntb_vrfs s') =
      map (\<lambda>v. (dp_fib (dp v), rib_cnt (dp v))) (g_ntb_vrfs s)"
    using assms(1) by (simp add: route_part_def)
  have "length (g_ntb_vrfs s') = length (g_ntb_vrfs s)"
    using arg_cong [OF e, of length] by simp
  then show ?thesis using arg_cong [OF e, of "\<lambda>xs. xs ! j"] assms(2)
    by (simp add: slot_fib_def slot_rib_cnt_def)
qed

text \<open>What an operation keeps of the parts it has nothing to do with.\<close>

definition outer_frame :: "('t, 'b, 'f, 'h) agent \<Rightarrow> ('t, 'b, 'f, 'h) agent \<Rightarrow> bool" where
  "outer_frame s s' \<longleftrightarrow> vrf_ids s' = vrf_ids s \<and> vrf_names s' = vrf_names s
    \<and> tunnel_part s' = tunnel_part s \<and> f_res_blackhole s' = f_res_blackhole s
    \<and> fake_mac s' = fake_mac s \<and> next_addr s \<le> next_addr s'
    \<and> fib_res_mem s' (nat (f_res_blackhole s)) = fib_res_mem s (nat (f_res_blackhole s))"

text \<open>A route operation that changed nothing a reader of the tables can see.\<close>

definition routes_kept ::
  "('t, 'b, 'f, 'h) env \<Rightarrow> ('b \<Rightarrow> nat set) \<Rightarrow> ('f \<Rightarrow> (u32 \<times> u8 \<rightharpoonup> nat)) \<Rightarrow> ('f \<Rightarrow> nat)
    \<Rightarrow> ('t, 'b, 'f, 'h) agent \<Rightarrow> ('t, 'b, 'f, 'h) agent \<Rightarrow> bool" where
  "routes_kept D used rts dflt s s' \<longleftrightarrow> route_inv D used s' \<and> route_view D s' = route_view D s
    \<and> outer_frame s s' \<and> (\<forall>fam. fib_inv D rts dflt fam s \<longrightarrow> fib_inv D rts dflt fam s')"

text \<open>A result that was just allocated for one path, and the state with it.\<close>

definition fresh_res ::
  "('t, 'b, 'f, 'h) env \<Rightarrow> ('b \<Rightarrow> nat set) \<Rightarrow> rib_type \<Rightarrow> addr \<Rightarrow> nat \<Rightarrow> fib_res \<Rightarrow> 'b
    \<Rightarrow> ('t, 'b, 'f, 'h) agent \<Rightarrow> bool" where
  "fresh_res D used rtype p rid r b s \<longleftrightarrow> rid \<notin> used (g_fib_res_array s)
    \<and> rid < rte_fbarray_len (fbarray D) (g_fib_res_array s)
    \<and> used b = insert rid (used (g_fib_res_array s))
    \<and> rte_fbarray_len (fbarray D) b = rte_fbarray_len (fbarray D) (g_fib_res_array s)
    \<and> mpath r = [p] \<and> mpath_cnt r = 1 \<and> fib_res_rtype_get r = rtype \<and> \<not> fib_res_is_reject r
    \<and> mpath_max r = of_nat (if rtype = RT_MROUTE then MROUTE_MAX_ECMP else ROUTE_MAX_ECMP)"

abbreviation with_res ::
  "nat \<Rightarrow> fib_res \<Rightarrow> 'b \<Rightarrow> ('t, 'b, 'f, 'h) agent \<Rightarrow> ('t, 'b, 'f, 'h) agent" where
  "with_res rid r b s \<equiv> s\<lparr>g_fib_res_array := b, fib_res_mem := (fib_res_mem s)(rid := r)\<rparr>"

context dpdk_env
begin

lemma nhop_obj_create_acquired:
  assumes off: "\<not> assert_on D" and inv: "route_inv D fb_used s" and i: "i < length (g_ntb_vrfs s)"
  obtains
    (fail) ret s1 where "nhop_obj_create D i e s = Inr (ret, 0, s1)" "ret < 0" "obj_frame s s1"
      "neigh_wf D s1" "nhop_wf D (nhop_users D s) s1" "nhop_view s1 = nhop_view s"
  | (ok) ret p s1 where "nhop_obj_create D i e s = Inr (ret, p, s1)" "0 \<le> ret" "acquired D e p s s1"
proof -
  have wf: "neigh_wf D s" "nhop_wf D (nhop_users D s) s" using inv by (simp_all add: route_inv_def)
  note bound = route_inv_users_bound [OF inv]
  have key: "NhopKey (nh_gateway n) (nh_tunnel_info n) = ntb_nhop_hash_key e \<longleftrightarrow>
    nh_gateway n = en_gateway e \<and> nh_tunnel_info n = en_tunnel_info e" for n
    by (simp add: ntb_nhop_hash_key_def)
  from off i wf refl [of "ntb_nhop_hash_key e"] show thesis
  proof (cases rule: nhop_obj_create_cases)
    case (hit p n s')
    let ?n = "n\<lparr>ref_count := ref_count n + 1\<rparr>"
    have "nhop_wf D ((nhop_users D s)(p := Suc (nhop_users D s p))) s'"
      using hit bound [of p]
      by (intro nhop_wf_acquired [OF wf(2), where n = ?n]) (auto simp: obj_frame_def)
    moreover have "p \<noteq> 0" using hit(1) wf(2) by (auto simp: nhop_wf_def linked_def)
    ultimately show ?thesis using hit key [of n]
      by (intro ok [of 0 p s']) (auto simp: acquired_def nhop_view_def)
  next
    case (new ret n s')
    have "nhop_wf D ((nhop_users D s)(next_addr s := Suc (nhop_users D s (next_addr s)))) s'"
      using new bound [of "next_addr s"]
      by (intro nhop_wf_acquired [OF wf(2), where n = n]) auto
    moreover have "next_addr s \<noteq> 0" "nhop_heap s (next_addr s) = None"
      using wf(2) linked_fresh by (auto simp: nhop_wf_def linked_def)
    ultimately show ?thesis using new key [of n]
      by (intro ok [of ret "next_addr s" s']) (auto simp: acquired_def nhop_view_def)
  next
    case (fail ret s')
    then show ?thesis
      using nhop_wf_same [OF wf(2), of s'] that(1) [of ret s']
      by (simp add: nhop_view_def fun_eq_iff obj_frame_def)
  qed
qed

text \<open>Giving the reference back restores what the next hops mean.\<close>

lemma insert_rollback2_effect:
  assumes off: "\<not> assert_on D" and i: "i < length (g_ntb_vrfs s2)"
    and wf: "nhop_wf D (nhop_users D s) s" and a: "acquired D e p s s1"
    and s2: "nhop_heap s2 = nhop_heap s1" "nhop_map D s2 = nhop_map D s1" "next_addr s1 \<le> next_addr s2"
      "neigh_wf D s2"
  shows "\<exists>s'. insert_rollback2 D i p ret s2 = Inr (ret, s') \<and> obj_frame s2 s' \<and> neigh_wf D s'
    \<and> nhop_wf D (nhop_users D s) s' \<and> nhop_view s' = nhop_view s"
proof -
  let ?r = "(nhop_users D s)(p := Suc (nhop_users D s p))"
  have "nhop_wf D ?r s2" using nhop_wf_same [of D ?r s1 s2] a s2 by (simp add: acquired_def)
  moreover obtain n where n: "nhop_heap s2 p = Some n"
    using a s2 by (auto simp: acquired_def nhop_view_def)
  ultimately obtain s' where s': "nhop_obj_delete D i p s2 = Inr (0, s')" "obj_frame s2 s'" "neigh_wf D s'"
    "nhop_wf D (nhop_users D s) s'" "\<And>q. q \<noteq> p \<Longrightarrow> nhop_heap s' q = nhop_heap s2 q"
    "nhop_users D s p \<noteq> 0 \<Longrightarrow> nhop_heap s' p = Some (n\<lparr>ref_count := ref_count n - 1\<rparr>)"
    using nhop_obj_delete_effect [OF off i s2(4), of ?r p n] by auto
  have "nhop_view s' q = nhop_view s q" for q
  proof (cases "q = p")
    case False
    then show ?thesis using s'(5) s2(1) a by (auto simp: acquired_def nhop_view_def)
  next
    case True
    show ?thesis
    proof (cases "nhop_users D s p = 0")
      case True
      then have "nhop_heap s' p = None" "nhop_heap s p = None"
        using wf s'(4) unfolding nhop_wf_def by (metis not_None_eq less_irrefl)+
      then show ?thesis using \<open>q = p\<close> by (simp add: nhop_view_def)
    next
      case False
      then have "nhop_view s p \<noteq> None" using wf by (auto simp: nhop_wf_def nhop_view_def)
      then have "nhop_view s1 p = nhop_view s p" using a unfolding acquired_def by blast
      then show ?thesis
        using s'(6) False \<open>q = p\<close> n s2(1) by (simp add: nhop_view_def)
    qed
  qed
  then show ?thesis using s' by (auto simp: insert_rollback2_def)
qed


text \<open>
  A failed insertion: whatever was written to the result array and the prefix tables is undone, and
  the next hop reference is given back.
\<close>

lemma insert_failed:
  assumes off: "\<not> assert_on D" and inv: "route_inv D fb_used s" and a: "acquired D e p s s1"
    and i: "i < NTB_NR_VRF"
    and fr: "vrf_ids s2 = vrf_ids s1" "nhop_part s2 = nhop_part s1" "neigh_wf D s2"
      "next_addr s1 \<le> next_addr s2" "f_res_blackhole s2 = f_res_blackhole s1"
      "vrf_names s2 = vrf_names s1" "tunnel_part s2 = tunnel_part s1" "fake_mac s2 = fake_mac s1"
    and rib: "rib_map D s2 = rib_map D s1"
    and mem: "\<And>r. r \<in> insert (nat (f_res_blackhole s1)) (ran (rib_map D s1)) \<Longrightarrow>
      fib_res_mem s2 r = fib_res_mem s1 r"
    and arr: "fb_used (g_fib_res_array s2) = fb_used (g_fib_res_array s1)"
      "rte_fbarray_len (fbarray D) (g_fib_res_array s2) = rte_fbarray_len (fbarray D) (g_fib_res_array s1)"
    and slots: "\<And>j. j < NTB_NR_VRF \<Longrightarrow> slot_rib_cnt s2 j = slot_rib_cnt s1 j
      \<and> fib_routes (slot_fib s2 j) = fib_routes (slot_fib s1 j)
      \<and> fib_default (slot_fib s2 j) = fib_default (slot_fib s1 j)"
  shows "\<exists>s'. insert_rollback2 D i p ret s2 = Inr (ret, s') \<and> routes_kept D fb_used fib_routes fib_default s s'"
proof -
  note wfs = inv [unfolded route_inv_def]
  have f1: "obj_frame s s1" using a by (simp add: acquired_def)
  have len: "length (g_ntb_vrfs s) = NTB_NR_VRF" using wfs vrf_ids_ok_length by blast
  have len2: "length (g_ntb_vrfs s2) = NTB_NR_VRF"
    using obj_frame_length [OF f1] vrf_ids_length [OF fr(1)] len by simp
  have nh: "nhop_heap s2 = nhop_heap s1" "nhop_map D s2 = nhop_map D s1"
    using fr(2) by (simp_all add: nhop_part_def nhop_map_def)
  have nw: "nhop_wf D (nhop_users D s) s" using wfs by blast
  obtain s' where s': "insert_rollback2 D i p ret s2 = Inr (ret, s')" "obj_frame s2 s'" "neigh_wf D s'"
    "nhop_wf D (nhop_users D s) s'" "nhop_view s' = nhop_view s"
    using insert_rollback2_effect [OF off _ nw a nh(1,2) fr(4,3), of i ret] i len2 by auto
  have rp: "route_part s1 = route_part s" "route_part s' = route_part s2"
    using f1 s'(2) by (simp_all add: obj_frame_def)
  have rib': "rib_map D s' = rib_map D s" using rp rib by (simp add: route_part_def rib_map_def)
  have mem': "fib_res_mem s' r = fib_res_mem s r"
    if "r \<in> insert (nat (f_res_blackhole s)) (ran (rib_map D s))" for r
    using rp mem [of r] that rib by (simp add: route_part_def rib_map_def)
  have slots': "slot_rib_cnt s' j = slot_rib_cnt s j \<and> fib_routes (slot_fib s' j) = fib_routes (slot_fib s j)
      \<and> fib_default (slot_fib s' j) = fib_default (slot_fib s j)" if "j < NTB_NR_VRF" for j
    using slots [OF that] route_part_slot [OF rp(1)] route_part_slot [OF rp(2)] that len len2
      obj_frame_length [OF f1] by simp
  have bh: "f_res_blackhole s' = f_res_blackhole s" "vrf_ids s' = vrf_ids s"
    "fb_used (g_fib_res_array s') = fb_used (g_fib_res_array s)"
    "rte_fbarray_len (fbarray D) (g_fib_res_array s') = rte_fbarray_len (fbarray D) (g_fib_res_array s)"
    using rp fr(1,5) f1 s'(2) arr by (simp_all add: obj_frame_def route_part_def)
  have "route_inv D fb_used s'"
    by (rule route_inv_kept [OF inv rib' _ bh(3,4,1,2) _ s'(3,4)]) (simp_all add: slots' mem')
  moreover have "fib_inv D fib_routes fib_default fam s'" if "fib_inv D fib_routes fib_default fam s" for fam
    by (rule fib_inv_kept [OF that rib' bh(1)]) (simp add: slots')
  moreover have "route_view D s' = route_view D s"
    using rib' mem' s'(5) by (intro route_view_kept) simp_all
  moreover have "outer_frame s s'"
    using s'(2) f1 fr(4,6-8) bh(1,2) mem' by (simp add: outer_frame_def obj_frame_def)
  ultimately show ?thesis using s'(1) by (simp add: routes_kept_def)
qed


text \<open>A result that was allocated and freed again leaves the used set as it was.\<close>

lemma fib_res_obj_delete_effect:
  assumes off: "\<not> assert_on D" and rid: "rid < rte_fbarray_len (fbarray D) (g_fib_res_array s)"
  shows "\<exists>b. fib_res_obj_delete D (int rid) s = Inr (0, s\<lparr>g_fib_res_array := b\<rparr>)
    \<and> fb_used b = fb_used (g_fib_res_array s) - {rid}
    \<and> rte_fbarray_len (fbarray D) b = rte_fbarray_len (fbarray D) (g_fib_res_array s)"
proof -
  obtain r b where b: "rte_fbarray_set_free (fbarray D) (g_fib_res_array s) rid = (r, b)" by fastforce
  show ?thesis using off rid set_free [OF rid b]
    by (intro exI [of _ b]) (simp add: fib_res_obj_delete_def fib_res_get_def fib_res_id_free_def b)
qed

lemma neigh_wf_prefix_frame: "prefix_frame s s' \<Longrightarrow> neigh_wf D s \<Longrightarrow> neigh_wf D s'"
  by (rule neigh_wf_cong) (auto simp: prefix_frame_def neigh_part_def)

lemma nhop_wf_prefix_frame: "prefix_frame s s' \<Longrightarrow> nhop_wf D refs s \<Longrightarrow> nhop_wf D refs s'"
  by (rule nhop_wf_same) (auto simp: prefix_frame_def nhop_part_def nhop_map_def)

lemma write_local_nhops: "\<exists>ns. write_at local_nhops 0 p = Inr ns \<and> 0 < length ns \<and> ns ! 0 = p"
  by (simp add: local_nhops_def MAX_NHOPS_PER_RTOUE_def ROUTE_MAX_ECMP_def MROUTE_MAX_ECMP_def)

text \<open>The new route is added to what the tables mean.\<close>

lemma route_view_insert:
  assumes inv: "route_inv D fb_used s" and a: "acquired D e p s s1" and nv: "nhop_view s' = nhop_view s1"
    and rib: "rib_map D s' = (rib_map D s)(RibKey pfx \<mapsto> rid)" and fresh: "rid \<notin> ran (rib_map D s)"
    and mem: "fib_res_mem s' = (fib_res_mem s)(rid := r)" and r: "mpath r = [p]" "fib_res_rtype_get r = rtype"
  shows "route_view D s' = (route_view D s)(pfx \<mapsto> (rtype, en_gateway e, en_tunnel_info e))"
proof
  fix key
  show "route_view D s' key = ((route_view D s)(pfx \<mapsto> (rtype, en_gateway e, en_tunnel_info e))) key"
  proof (cases "key = pfx")
    case True
    then show ?thesis using rib mem r nv a by (simp add: route_view_def acquired_def)
  next
    case key: False
    show ?thesis
    proof (cases "rib_map D s (RibKey key)")
      case None
      then show ?thesis using key rib by (simp add: route_view_def)
    next
      case (Some x)
      obtain q m where q: "mpath (fib_res_mem s x) = [q]" "nhop_heap s q = Some m"
        using route_path_live [OF inv Some] by blast
      then have "nhop_view s1 q = nhop_view s q" using a by (auto simp: acquired_def nhop_view_def)
      moreover have "x \<noteq> rid" using Some fresh by (auto intro: ranI)
      ultimately show ?thesis using key Some q rib mem nv by (simp add: route_view_def)
    qed
  qed
qed

text \<open>The prefix tables had no room: the result and the next hop are given back.\<close>

lemma insert_prefix_failed:
  assumes off: "\<not> assert_on D" and inv: "route_inv D fb_used s" and a: "acquired D e p s s1"
    and i: "i < NTB_NR_VRF" and new: "fresh_res D fb_used rtype p rid r b s1"
    and fr: "prefix_frame (with_res rid r b s1) s3" "rib_map D s3 = rib_map D s1"
    and slots: "\<And>j. j < NTB_NR_VRF \<Longrightarrow> slot_rib_cnt s3 j = slot_rib_cnt s1 j
      \<and> fib_routes (slot_fib s3 j) = fib_routes (slot_fib s1 j)
      \<and> fib_default (slot_fib s3 j) = fib_default (slot_fib s1 j)"
  shows "\<exists>s'. insert_rollback1 D i p (int rid) ret s3 = Inr (ret, s')
    \<and> routes_kept D fb_used fib_routes fib_default s s'"
proof -
  have nw: "neigh_wf D s1" and rp: "route_part s1 = route_part s"
    using a by (simp_all add: acquired_def obj_frame_def)
  have fresh: "rid \<notin> ran (rib_map D s1)" "rid \<noteq> nat (f_res_blackhole s1)"
    using inv new rp by (auto simp: route_inv_def rib_wf_def route_part_def rib_map_def fresh_res_def)
  have "rid < rte_fbarray_len (fbarray D) (g_fib_res_array s3)"
    using fr(1) new by (simp add: prefix_frame_def fresh_res_def)
  then obtain b' where b': "fib_res_obj_delete D (int rid) s3 = Inr (0, s3\<lparr>g_fib_res_array := b'\<rparr>)"
    "fb_used b' = fb_used (g_fib_res_array s3) - {rid}"
    "rte_fbarray_len (fbarray D) b' = rte_fbarray_len (fbarray D) (g_fib_res_array s3)"
    using fib_res_obj_delete_effect [OF off] by blast
  let ?s4 = "s3\<lparr>g_fib_res_array := b'\<rparr>"
  have "neigh_wf D (with_res rid r b s1)" using neigh_wf_cong [OF nw, of "with_res rid r b s1"] by simp
  then have nw4: "neigh_wf D ?s4" using neigh_wf_cong [OF neigh_wf_prefix_frame [OF fr(1)], of ?s4] by simp
  have "\<exists>s'. insert_rollback2 D i p ret ?s4 = Inr (ret, s') \<and> routes_kept D fb_used fib_routes fib_default s s'"
  proof (rule insert_failed [OF off inv a i])
    show "fib_res_mem ?s4 x = fib_res_mem s1 x"
      if "x \<in> insert (nat (f_res_blackhole s1)) (ran (rib_map D s1))" for x
      using that fresh fr(1) by (auto simp: prefix_frame_def)
    show "slot_rib_cnt ?s4 j = slot_rib_cnt s1 j \<and> fib_routes (slot_fib ?s4 j) = fib_routes (slot_fib s1 j)
        \<and> fib_default (slot_fib ?s4 j) = fib_default (slot_fib s1 j)" if "j < NTB_NR_VRF" for j
      using slots [OF that] by (simp add: slot_fib_def slot_rib_cnt_def)
  qed (use fr nw4 b'(2,3) new in
      \<open>auto simp: prefix_frame_def part_defs rib_map_def fresh_res_def\<close>)
  then show ?thesis using b'(1) by (simp add: insert_rollback1_def)
qed

text \<open>The prefix was added: the route is installed and the invariant holds again.\<close>

lemma insert_prefix_ok:
  assumes inv: "route_inv D fb_used s" and a: "acquired D e p s s1"
    and i: "i < NTB_NR_VRF" "rk_vrf_id pfx = int i + 1" and rt: "rtype \<noteq> RT_MAX"
    and k: "rib_map D s (RibKey pfx) = None" and new: "fresh_res D fb_used rtype p rid r b s1"
    and fr: "prefix_frame (with_res rid r b s1) s3" "rib_map D s3 = (rib_map D s)(RibKey pfx \<mapsto> rid)"
    and slots: "\<And>j. j < NTB_NR_VRF \<Longrightarrow> slot_rib_cnt s3 j = slot_rib_cnt s j + (if i = j then 1 else 0)
      \<and> fib_routes (slot_fib s3 j) =
          (if i = j then (fib_routes (slot_fib s j))(pfx_net pfx \<mapsto> rid) else fib_routes (slot_fib s j))
      \<and> fib_default (slot_fib s3 j) = fib_default (slot_fib s j)"
  shows "route_inv D fb_used s3" and "outer_frame s s3"
    and "route_view D s3 = (route_view D s)(pfx \<mapsto> (rtype, en_gateway e, en_tunnel_info e))"
    and "canonical fam pfx \<Longrightarrow> fib_inv D fib_routes fib_default fam s \<Longrightarrow>
      fib_inv D fib_routes fib_default fam s3"
proof -
  have f1: "obj_frame s s1" and nw: "neigh_wf D s1" using a by (simp_all add: acquired_def)
  have arr: "g_fib_res_array s1 = g_fib_res_array s" using f1 by (simp add: obj_frame_def route_part_def)
  have pf: "vrf_ids s3 = vrf_ids s" "vrf_names s3 = vrf_names s" "tunnel_part s3 = tunnel_part s"
      "f_res_blackhole s3 = f_res_blackhole s" "fake_mac s3 = fake_mac s" "next_addr s \<le> next_addr s3"
      "fib_res_mem s3 = (fib_res_mem s)(rid := r)" "g_fib_res_array s3 = b"
    using fr(1) f1 by (simp_all add: prefix_frame_def obj_frame_def part_defs)
  have fresh: "rid \<notin> ran (rib_map D s)" "rid \<noteq> nat (f_res_blackhole s)"
    using inv new arr by (auto simp: route_inv_def rib_wf_def fresh_res_def)
  have nw2: "neigh_wf D (with_res rid r b s1)" using neigh_wf_cong [OF nw, of "with_res rid r b s1"] by simp
  show "route_inv D fb_used s3"
  proof (rule route_inv_insert [OF inv k i, where rid = rid and r = r and p = p])
    show "nhop_wf D ((nhop_users D s)(p := Suc (nhop_users D s p))) s3"
      using a by (intro nhop_wf_prefix_frame [OF fr(1) nhop_wf_same [of D _ s1]])
        (simp_all add: acquired_def nhop_map_def)
    show "neigh_wf D s3" by (rule neigh_wf_prefix_frame [OF fr(1) nw2])
    show "res_wf r" using new rt by (simp add: res_wf_def fresh_res_def)
  qed (use fr(2) slots new pf arr in \<open>auto simp: fresh_res_def\<close>)
  show "outer_frame s s3" using pf fresh(2) by (simp add: outer_frame_def)
  show "route_view D s3 = (route_view D s)(pfx \<mapsto> (rtype, en_gateway e, en_tunnel_info e))"
    using fr(1) new
    by (intro route_view_insert [OF inv a _ fr(2) fresh(1) pf(7)])
      (simp_all add: prefix_frame_def nhop_part_def nhop_view_def fun_eq_iff fresh_res_def)
  show "fib_inv D fib_routes fib_default fam s3"
    if "canonical fam pfx" "fib_inv D fib_routes fib_default fam s"
    using slots by (intro fib_inv_update [OF that(2,1) i fr(2) pf(4)]) simp
qed

text \<open>
  After a next hop was acquired, the rest of the insertion of a new prefix either fails with
  everything undone or installs the route.
\<close>

lemma insert_after_result:
  assumes off: "\<not> assert_on D" and inv: "route_inv D fb_used s" and a: "acquired D e p s s1"
    and i: "i < NTB_NR_VRF" "rk_vrf_id pfx = int i + 1" and rt: "rtype \<noteq> RT_MAX"
    and k: "rib_map D s (RibKey pfx) = None" and n: "nhop_heap s1 p = Some n"
    and fresh: "fresh_res D fb_used rtype p rid r b s1"
    and ins: "route_nhop_insert_new D i pfx e rtype None s =
      bindR (rt_prefix_obj_update D i pfx (- 1) (int rid) (with_res rid r b s1)) (\<lambda>(ret, s3).
        if ret < 0 then insert_rollback1 D i p (int rid) ret s3 else Inr (ret, s3))"
  shows "\<exists>ret s'. route_nhop_insert_new D i pfx e rtype None s = Inr (ret, s') \<and>
    (if ret < 0 then routes_kept D fb_used fib_routes fib_default s s'
     else ret = 0 \<and> route_inv D fb_used s' \<and> outer_frame s s'
       \<and> route_view D s' = (route_view D s)(pfx \<mapsto> (rtype, en_gateway e, en_tunnel_info e))
       \<and> (\<forall>fam. canonical fam pfx \<longrightarrow> fib_inv D fib_routes fib_default fam s \<longrightarrow>
            fib_inv D fib_routes fib_default fam s'))"
proof -
  let ?s2 = "with_res rid r b s1"
  have f1: "obj_frame s s1" "p \<noteq> 0" using a by (simp_all add: acquired_def)
  have rp: "route_part s1 = route_part s" using f1 by (simp add: obj_frame_def)
  have len: "length (g_ntb_vrfs s1) = NTB_NR_VRF"
    using inv vrf_ids_ok_length [of s] obj_frame_length [OF f1(1)] by (simp add: route_inv_def)
  have rib: "rib_map D ?s2 = rib_map D s" using rp by (simp add: route_part_def rib_map_def)
  have s2: "i < length (g_ntb_vrfs ?s2)" "rid < rte_fbarray_len (fbarray D) (g_fib_res_array ?s2)"
    "mpath (fib_res_mem ?s2 rid) = [p]" "nhop_heap ?s2 p = Some n" "rib_map D ?s2 (RibKey pfx) = None"
    using fresh n k i(1) len rib by (simp_all add: fresh_res_def)
  have slot2: "slot_rib_cnt ?s2 j = slot_rib_cnt s1 j" "slot_fib ?s2 j = slot_fib s1 j" for j
    by (simp_all add: slot_fib_def slot_rib_cnt_def)
  have slot1: "slot_rib_cnt s1 j = slot_rib_cnt s j \<and> slot_fib s1 j = slot_fib s j" if "j < NTB_NR_VRF" for j
    using route_part_slot [OF rp, of j] that len obj_frame_length [OF f1(1)] by simp
  from off s2(1-4) f1(2) s2(5) show ?thesis
  proof (cases rule: rt_prefix_obj_update_cases)
    case (fail s3)
    then have "\<exists>s'. insert_rollback1 D i p (int rid) NTB_ROUTE_PREFIX_NOSPACE s3 =
        Inr (NTB_ROUTE_PREFIX_NOSPACE, s') \<and> routes_kept D fb_used fib_routes fib_default s s'"
      using len by (intro insert_prefix_failed [OF off inv a i(1) fresh]) (simp_all add: slot2 rib_map_def)
    then show ?thesis using ins fail(1)
      by (intro exI [of _ NTB_ROUTE_PREFIX_NOSPACE]) (auto simp: ntb_codes)
  next
    case (ok s3)
    have st: "rib_map D s3 = (rib_map D s)(RibKey pfx \<mapsto> rid)" using ok(3) rib by simp
    have sl: "slot_rib_cnt s3 j = slot_rib_cnt s j + (if i = j then 1 else 0)
        \<and> fib_routes (slot_fib s3 j) =
            (if i = j then (fib_routes (slot_fib s j))(pfx_net pfx \<mapsto> rid) else fib_routes (slot_fib s j))
        \<and> fib_default (slot_fib s3 j) = fib_default (slot_fib s j)" if "j < NTB_NR_VRF" for j
      using ok(4) [of j] slot1 [OF that] that len by (simp add: slot2)
    show ?thesis using ins ok(1) insert_prefix_ok [OF inv a i rt k fresh ok(2) st sl] by simp
  qed
qed

lemma insert_after_acquire:
  assumes off: "\<not> assert_on D" and inv: "route_inv D fb_used s" and a: "acquired D e p s s1"
    and i: "i < NTB_NR_VRF" "rk_vrf_id pfx = int i + 1" and rt: "rtype \<noteq> RT_MAX"
    and k: "rib_map D s (RibKey pfx) = None"
    and create: "nhop_obj_create D i e s = Inr (ret0, p, s1)" "0 \<le> ret0"
  shows "\<exists>ret s'. route_nhop_insert_new D i pfx e rtype None s = Inr (ret, s') \<and>
    (if ret < 0 then routes_kept D fb_used fib_routes fib_default s s'
     else ret = 0 \<and> route_inv D fb_used s' \<and> outer_frame s s'
       \<and> route_view D s' = (route_view D s)(pfx \<mapsto> (rtype, en_gateway e, en_tunnel_info e))
       \<and> (\<forall>fam. canonical fam pfx \<longrightarrow> fib_inv D fib_routes fib_default fam s \<longrightarrow>
            fib_inv D fib_routes fib_default fam s'))"
proof -
  obtain ns where ns: "write_at local_nhops 0 p = Inr ns" "0 < length ns" "ns ! 0 = p"
    using write_local_nhops by blast
  have nz: "p \<noteq> 0" and nw: "neigh_wf D s1" using a by (simp_all add: acquired_def)
  obtain n where n: "nhop_heap s1 p = Some n" using a by (auto simp: acquired_def nhop_view_def)
  from off rt ns(2,3) n nz show ?thesis
  proof (cases rule: fib_res_obj_create_single)
    case full
    have "\<exists>s'. insert_rollback2 D i p NTB_ROUTE_RESULT_NOSPACE s1 =
        Inr (NTB_ROUTE_RESULT_NOSPACE, s') \<and> routes_kept D fb_used fib_routes fib_default s s'"
      by (rule insert_failed [OF off inv a i(1)]) (simp_all add: nw)
    then show ?thesis using create ns full
      by (intro exI [of _ NTB_ROUTE_RESULT_NOSPACE]) (auto simp: route_nhop_insert_new_def ntb_codes)
  next
    case (new rid r b)
    have "fresh_res D fb_used rtype p rid r b s1" using new(2-) by (simp add: fresh_res_def)
    then show ?thesis
      using create ns new(1)
      by (intro insert_after_result [OF off inv a i rt k n, of rid r b])
        (simp_all add: route_nhop_insert_new_def split_def cong: if_cong)
  qed
qed

lemma route_insert_effect:
  assumes off: "\<not> assert_on D" and inv: "route_inv D fb_used s"
    and i: "i < NTB_NR_VRF" "rk_vrf_id pfx = int i + 1" and rt: "rtype \<noteq> RT_MAX"
    and k: "rib_map D s (RibKey pfx) = None"
  shows "\<exists>ret s'. ntb_route_nhop_insert D i pfx e rtype s = Inr (ret, s') \<and>
    (if ret < 0 then routes_kept D fb_used fib_routes fib_default s s'
     else ret = 0 \<and> route_inv D fb_used s' \<and> outer_frame s s'
       \<and> route_view D s' = (route_view D s)(pfx \<mapsto> (rtype, en_gateway e, en_tunnel_info e))
       \<and> (\<forall>fam. canonical fam pfx \<longrightarrow> fib_inv D fib_routes fib_default fam s \<longrightarrow>
            fib_inv D fib_routes fib_default fam s'))"
proof -
  have eq: "ntb_route_nhop_insert D i pfx e rtype s = route_nhop_insert_new D i pfx e rtype None s"
    using k by (simp add: ntb_route_nhop_insert_def rib_map_def)
  have len: "i < length (g_ntb_vrfs s)"
    using i inv vrf_ids_ok_length [of s] by (simp add: route_inv_def)
  from off inv len show ?thesis
  proof (cases rule: nhop_obj_create_acquired [where e = e])
    case (fail ret s1)
    have "route_nhop_insert_new D i pfx e rtype None s = Inr (ret, s1)"
      using fail by (simp add: route_nhop_insert_new_def)
    moreover have rp: "route_part s1 = route_part s" using fail(3) by (simp add: obj_frame_def)
    have slots: "slot_rib_cnt s1 j = slot_rib_cnt s j" "slot_fib s1 j = slot_fib s j" if "j < NTB_NR_VRF" for j
      using route_part_slot [OF rp, of j] that inv vrf_ids_ok_length [of s] by (simp_all add: route_inv_def)
    have same: "rib_map D s1 = rib_map D s" "fib_res_mem s1 = fib_res_mem s"
      "g_fib_res_array s1 = g_fib_res_array s" "f_res_blackhole s1 = f_res_blackhole s"
      using rp by (simp_all add: route_part_def rib_map_def)
    have "route_inv D fb_used s1"
      using same slots fail(3-5)
      by (intro route_inv_kept [OF inv]) (simp_all add: obj_frame_def)
    moreover have "route_view D s1 = route_view D s"
      using same fail(6) by (intro route_view_kept) simp_all
    moreover have "fib_inv D fib_routes fib_default fam s1" if "fib_inv D fib_routes fib_default fam s" for fam
      using same slots by (intro fib_inv_kept [OF that]) simp_all
    ultimately have "routes_kept D fb_used fib_routes fib_default s s1"
      using fail(3) same by (simp add: routes_kept_def outer_frame_def obj_frame_def)
    then show ?thesis using eq fail by (intro exI [of _ ret] exI [of _ s1]) (simp add: route_nhop_insert_new_def)
  next
    case (ok ret p s1)
    show ?thesis unfolding eq by (rule insert_after_acquire [OF off inv ok(3) i rt k ok(1,2)])
  qed
qed

subsection \<open>Removal\<close>

text \<open>The prefix leaves the tables and its result is freed.\<close>

lemma delete_prefix_res:
  assumes off: "\<not> assert_on D" and inv: "route_inv D fb_used s"
    and i: "i < NTB_NR_VRF" and k: "rib_map D s (RibKey pfx) = Some rid"
  shows "\<exists>ret s1 b. rt_prefix_obj_delete D i pfx (int rid) s = Inr (ret, s1)
    \<and> fib_res_obj_delete D (int rid) s1 = Inr (0, s1\<lparr>g_fib_res_array := b\<rparr>) \<and> prefix_frame s s1
    \<and> rib_map D s1 = (rib_map D s)(RibKey pfx := None)
    \<and> ntb_rib_hash_tbl s1 = snd (rte_hash_del_key (hash D) (ntb_rib_hash_tbl s) (RibKey pfx))
    \<and> fb_used b = fb_used (g_fib_res_array s) - {rid}
    \<and> rte_fbarray_len (fbarray D) b = rte_fbarray_len (fbarray D) (g_fib_res_array s)
    \<and> (\<forall>j < NTB_NR_VRF. slot_rib_cnt s1 j = slot_rib_cnt s j - (if i = j then 1 else 0)
         \<and> fib_routes (slot_fib s1 j) =
             (if i = j then (fib_routes (slot_fib s j))(pfx_net pfx := None) else fib_routes (slot_fib s j))
         \<and> fib_default (slot_fib s1 j) = fib_default (slot_fib s j))"
proof -
  have len: "length (g_ntb_vrfs s) = NTB_NR_VRF" using inv vrf_ids_ok_length [of s] by (simp add: route_inv_def)
  obtain p n where p: "mpath (fib_res_mem s rid) = [p]" "nhop_heap s p = Some n" "p \<noteq> 0"
    using route_path_live [OF inv k] by blast
  have rid: "rid < rte_fbarray_len (fbarray D) (g_fib_res_array s)"
    using inv k by (auto simp: route_inv_def rib_wf_def)
  obtain ret s1 where s1: "rt_prefix_obj_delete D i pfx (int rid) s = Inr (ret, s1)" "prefix_frame s s1"
    "rib_map D s1 = (rib_map D s)(RibKey pfx := None)"
    "ntb_rib_hash_tbl s1 = snd (rte_hash_del_key (hash D) (ntb_rib_hash_tbl s) (RibKey pfx))"
    and slots: "\<forall>j < NTB_NR_VRF. slot_rib_cnt s1 j = slot_rib_cnt s j - (if i = j then 1 else 0)
      \<and> fib_routes (slot_fib s1 j) =
          (if i = j then (fib_routes (slot_fib s j))(pfx_net pfx := None) else fib_routes (slot_fib s j))
      \<and> fib_default (slot_fib s1 j) = fib_default (slot_fib s j)"
    using rt_prefix_obj_delete_effect [OF off _ rid p, of i pfx] i len by auto
  have arr: "g_fib_res_array s1 = g_fib_res_array s" using s1(2) by (simp add: prefix_frame_def)
  then show ?thesis using fib_res_obj_delete_effect [OF off, of rid s1] rid s1 slots by (simp add: arr)
qed

text \<open>Without the route, every other route means what it meant: its next hop is still there.\<close>

lemma route_view_delete:
  assumes inv: "route_inv D fb_used s" "route_inv D fb_used s'"
    and rib: "rib_map D s' = (rib_map D s)(RibKey pfx := None)" and mem: "fib_res_mem s' = fib_res_mem s"
    and n: "nhop_heap s p = Some n" and other: "\<And>q. q \<noteq> p \<Longrightarrow> nhop_heap s' q = nhop_heap s q"
    and kept: "nhop_users D s p \<noteq> 1 \<Longrightarrow> nhop_heap s' p = Some (n\<lparr>ref_count := c\<rparr>)"
    and wf: "nhop_wf D ((nhop_users D s)(p := nhop_users D s p - 1)) s'"
  shows "route_view D s' = (route_view D s)(pfx := None)"
proof
  fix key
  have view: "nhop_view s' q = nhop_view s q" if "rib_map D s' (RibKey key) = Some x" "mpath (fib_res_mem s x) = [q]" for q x
  proof (cases "q = p")
    case True
    have "RibKey key \<in> path_users (rib_map D s') (fib_res_mem s') p"
      using that mem True by (auto simp: path_users_def)
    then have "0 < nhop_users D s' p" using path_users_finite by (auto simp: nhop_users_def card_gt_0_iff)
    then have "nhop_heap s' p \<noteq> None" using inv(2) by (auto simp: route_inv_def nhop_wf_def)
    moreover have "nhop_heap s' p = None" if "nhop_users D s p = 1"
      using wf that unfolding nhop_wf_def by (metis (no_types) diff_self_eq_0 fun_upd_same less_irrefl not_None_eq)
    ultimately have "nhop_users D s p \<noteq> 1" by auto
    then show ?thesis using kept True n by (simp add: nhop_view_def)
  qed (simp add: nhop_view_def other)
  show "route_view D s' key = ((route_view D s)(pfx := None)) key"
  proof (cases "rib_map D s' (RibKey key)")
    case None
    then show ?thesis using rib by (auto simp: route_view_def split: if_splits)
  next
    case (Some x)
    then have old: "rib_map D s (RibKey key) = Some x" "key \<noteq> pfx" using rib by (auto split: if_splits)
    obtain q where "mpath (fib_res_mem s x) = [q]" using route_path_live [OF inv(1) old(1)] by blast
    then show ?thesis using old Some mem view [OF Some] by (simp add: route_view_def)
  qed
qed

text \<open>A route that is in the tables is removed completely.\<close>

lemma route_delete_effect:
  assumes off: "\<not> assert_on D" and inv: "route_inv D fb_used s"
    and i: "i < NTB_NR_VRF" "rk_vrf_id pfx = int i + 1"
    and k: "rib_map D s (RibKey pfx) = Some rid"
  shows "\<exists>s'. ntb_route_delete D i pfx s = Inr (0, s') \<and> route_inv D fb_used s' \<and> outer_frame s s'
    \<and> route_view D s' = (route_view D s)(pfx := None)
    \<and> ntb_rib_hash_tbl s' = snd (rte_hash_del_key (hash D) (ntb_rib_hash_tbl s) (RibKey pfx))
    \<and> (\<forall>fam. fib_inv D fib_routes fib_default fam s \<longrightarrow> fib_inv D fib_routes fib_default fam s')"
proof -
  have len: "length (g_ntb_vrfs s) = NTB_NR_VRF" using inv vrf_ids_ok_length [of s] by (simp add: route_inv_def)
  obtain p n where p: "mpath (fib_res_mem s rid) = [p]" "nhop_heap s p = Some n" "p \<noteq> 0" "0 < nhop_users D s p"
    using route_path_live [OF inv k] by blast
  have rid: "rid < rte_fbarray_len (fbarray D) (g_fib_res_array s)" "mpath_cnt (fib_res_mem s rid) = 1"
    using inv k by (auto simp: route_inv_def rib_wf_def res_wf_def)
  obtain ret s1 b where s1: "rt_prefix_obj_delete D i pfx (int rid) s = Inr (ret, s1)"
    "fib_res_obj_delete D (int rid) s1 = Inr (0, s1\<lparr>g_fib_res_array := b\<rparr>)" "prefix_frame s s1"
    "rib_map D s1 = (rib_map D s)(RibKey pfx := None)"
    "ntb_rib_hash_tbl s1 = snd (rte_hash_del_key (hash D) (ntb_rib_hash_tbl s) (RibKey pfx))"
    "fb_used b = fb_used (g_fib_res_array s) - {rid}"
    "rte_fbarray_len (fbarray D) b = rte_fbarray_len (fbarray D) (g_fib_res_array s)"
    and slots1: "\<forall>j < NTB_NR_VRF. slot_rib_cnt s1 j = slot_rib_cnt s j - (if i = j then 1 else 0)
      \<and> fib_routes (slot_fib s1 j) =
          (if i = j then (fib_routes (slot_fib s j))(pfx_net pfx := None) else fib_routes (slot_fib s j))
      \<and> fib_default (slot_fib s1 j) = fib_default (slot_fib s j)"
    using delete_prefix_res [OF off inv i(1) k] by blast
  define s2 where "s2 = s1\<lparr>g_fib_res_array := b\<rparr>"
  have wf2: "neigh_wf D s2" "nhop_wf D (nhop_users D s) s2"
    using neigh_wf_cong [OF neigh_wf_prefix_frame [OF s1(3)], of s2]
      nhop_wf_same [OF nhop_wf_prefix_frame [OF s1(3)], of "nhop_users D s" s2] inv
    by (simp_all add: s2_def route_inv_def nhop_map_def)
  have n2: "nhop_heap s2 = nhop_heap s" "i < length (g_ntb_vrfs s2)"
    using s1(3) i(1) len prefix_frame_length [OF s1(3)] by (simp_all add: s2_def prefix_frame_def nhop_part_def)
  obtain s3 where s3: "nhop_obj_delete D i p s2 = Inr (0, s3)" "obj_frame s2 s3" "neigh_wf D s3"
    "nhop_wf D ((nhop_users D s)(p := nhop_users D s p - 1)) s3"
    "\<And>q. q \<noteq> p \<Longrightarrow> nhop_heap s3 q = nhop_heap s2 q"
    "nhop_users D s p \<noteq> 1 \<Longrightarrow> nhop_heap s3 p = Some (n\<lparr>ref_count := ref_count n - 1\<rparr>)"
    using nhop_obj_delete_effect [OF off n2(2) wf2, of p n] p(2) n2(1) by auto
  have run: "ntb_route_delete D i pfx s = Inr (0, s3)"
    using off k rid p(1) s1(1,2) s3(1)
    by (simp add: ntb_route_delete_def rib_map_def fib_res_get_def Let_def local_nhops_def
        MAX_NHOPS_PER_RTOUE_def ROUTE_MAX_ECMP_def MROUTE_MAX_ECMP_def s2_def)
  have rp: "route_part s3 = route_part s2" using s3(2) by (simp add: obj_frame_def)
  have fin: "rib_map D s3 = (rib_map D s)(RibKey pfx := None)" "fib_res_mem s3 = fib_res_mem s"
    "g_fib_res_array s3 = b" "f_res_blackhole s3 = f_res_blackhole s"
    "ntb_rib_hash_tbl s3 = snd (rte_hash_del_key (hash D) (ntb_rib_hash_tbl s) (RibKey pfx))"
    using rp s1(3-5) by (simp_all add: route_part_def rib_map_def s2_def prefix_frame_def)
  have slots: "slot_fib s3 j = slot_fib s1 j" "slot_rib_cnt s3 j = slot_rib_cnt s1 j" if "j < NTB_NR_VRF" for j
    using route_part_slot [OF rp, of j] that len prefix_frame_length [OF s1(3)]
    by (simp_all add: slot_fib_def slot_rib_cnt_def s2_def)
  have out: "outer_frame s s3"
    using s3(2) s1(3) fin(2,4) by (simp add: outer_frame_def obj_frame_def prefix_frame_def s2_def part_defs)
  have inv3: "route_inv D fb_used s3"
    using s3(3,4) slots slots1 fin s1(3,6,7) out p(1)
    by (intro route_inv_delete [OF inv k i, of s3 p]) (simp_all add: outer_frame_def prefix_frame_def)
  have "fib_inv D fib_routes fib_default fam s3" if f: "fib_inv D fib_routes fib_default fam s" for fam
    using f k fin slots slots1 by (intro fib_inv_update [OF f _ i]) (auto simp: fib_inv_def)
  moreover have "route_view D s3 = (route_view D s)(pfx := None)"
    using s3(5,6) by (intro route_view_delete [OF inv inv3 fin(1,2) p(2) _ _ s3(4)]) (simp_all add: n2(1))
  ultimately show ?thesis using run inv3 out fin(5) by blast
qed

end

end
