(* ===== verification/Ntb_Route_Ops.thy ===== *)
theory Ntb_Route_Ops
  imports Ntb_Route_Inv
begin

text \<open>
  The remaining route operations over the invariant: removal by next hop, the cleanup of a VRF (an
  iteration over a table that the loop body deletes from) and the lookup.
\<close>

subsection \<open>Removal by next hop\<close>

context dpdk_env
begin

lemma route_view_path:
  assumes inv: "route_inv D fb_used s" and k: "rib_map D s (RibKey pfx) = Some rid"
  obtains p n where "mpath (fib_res_mem s rid) = [p]" "nhop_heap s p = Some n" "p \<noteq> 0"
    "nhop_map D s (NhopKey (nh_gateway n) (nh_tunnel_info n)) = Some p"
    "route_view D s pfx = Some (fib_res_rtype_get (fib_res_mem s rid), nh_gateway n, nh_tunnel_info n)"
proof -
  obtain p n where p: "mpath (fib_res_mem s rid) = [p]" "nhop_heap s p = Some n" "p \<noteq> 0"
    using route_path_live [OF inv k] by blast
  have wf: "nhop_wf D (nhop_users D s) s" using inv by (simp add: route_inv_def)
  then obtain k' where "nhop_map D s k' = Some p"
    using linked_key [of "nhop_map D s" "nhop_heap s" "next_addr s" p n] p(2) by (auto simp: nhop_wf_def)
  then have "nhop_map D s (NhopKey (nh_gateway n) (nh_tunnel_info n)) = Some p"
    using wf p(2) by (auto simp: nhop_wf_def)
  then show thesis using that [OF p] k p by (simp add: route_view_def nhop_view_def)
qed

lemma nhop_delete_match:
  assumes off: "\<not> assert_on D" and inv: "route_inv D fb_used s"
    and k: "rib_map D s (RibKey pfx) = Some rid"
    and v: "route_view D s pfx = Some (rtype, en_gateway e, en_tunnel_info e)"
  shows "ntb_route_nhop_delete D i pfx e rtype s = ntb_route_delete D i pfx s"
proof -
  obtain p n where p: "mpath (fib_res_mem s rid) = [p]" "nhop_heap s p = Some n" "p \<noteq> 0"
    "nhop_map D s (NhopKey (nh_gateway n) (nh_tunnel_info n)) = Some p"
    "route_view D s pfx = Some (fib_res_rtype_get (fib_res_mem s rid), nh_gateway n, nh_tunnel_info n)"
    using route_view_path [OF inv k] by blast
  have rid: "rid < rte_fbarray_len (fbarray D) (g_fib_res_array s)" "mpath_cnt (fib_res_mem s rid) = 1"
    using inv k by (auto simp: route_inv_def rib_wf_def res_wf_def)
  have eq: "fib_res_rtype_get (fib_res_mem s rid) = rtype"
    "rte_hash_lookup_data (hash D) (g_nhop_hash_tbl s) (ntb_nhop_hash_key e) = Some p"
    using p(4,5) v by (auto simp: ntb_nhop_hash_key_def nhop_map_def)
  have last: "bindR (nhop_obj_delete D i p s') Inr = bindR (nhop_obj_delete D i p s') (\<lambda>x. Inr (0, snd x))" for s'
    by (cases "nhop_obj_delete D i p s'")
      (auto simp: nhop_obj_delete_def load_def Let_def nhop_neigh_del_def bindR_def
        split: option.splits if_splits sum.splits prod.splits)
  show ?thesis
    using off k rid p(1) eq
    by (simp add: ntb_route_nhop_delete_def ntb_route_delete_def rib_map_def fib_res_get_def Let_def
        local_nhops_def MAX_NHOPS_PER_RTOUE_def ROUTE_MAX_ECMP_def MROUTE_MAX_ECMP_def last
        split_def bindR_assoc)
qed

lemma nhop_delete_exact:
  assumes off: "\<not> assert_on D" and inv: "route_inv D fb_used s"
    and v: "route_view D s pfx = Some (rt, gw, ti)"
  shows "ntb_route_nhop_delete D i pfx e rtype s =
    (if rt \<noteq> rtype then Inr (NTB_IPV4_ROUTETYPE_NO_SAME, s)
     else if (gw, ti) = (en_gateway e, en_tunnel_info e) then ntb_route_delete D i pfx s
     else Inr (0, s))"
proof -
  obtain rid where k: "rib_map D s (RibKey pfx) = Some rid" using v route_view_live [OF inv, of pfx] by auto
  obtain p n where p: "mpath (fib_res_mem s rid) = [p]" "nhop_heap s p = Some n" "p \<noteq> 0"
    "nhop_map D s (NhopKey (nh_gateway n) (nh_tunnel_info n)) = Some p"
    "route_view D s pfx = Some (fib_res_rtype_get (fib_res_mem s rid), nh_gateway n, nh_tunnel_info n)"
    using route_view_path [OF inv k] by blast
  have n: "fib_res_rtype_get (fib_res_mem s rid) = rt" "nh_gateway n = gw" "nh_tunnel_info n = ti"
    using p(5) v by simp_all
  have rid: "rid < rte_fbarray_len (fbarray D) (g_fib_res_array s)" "mpath_cnt (fib_res_mem s rid) = 1"
    using inv k by (auto simp: route_inv_def rib_wf_def res_wf_def)
  have other: "nhop_map D s (ntb_nhop_hash_key e) \<noteq> Some p" if "(gw, ti) \<noteq> (en_gateway e, en_tunnel_info e)"
  proof
    assume "nhop_map D s (ntb_nhop_hash_key e) = Some p"
    then have "ntb_nhop_hash_key e = NhopKey (nh_gateway n) (nh_tunnel_info n)"
      using inv p(2) by (auto simp: route_inv_def nhop_wf_def)
    then show False using that n by (auto simp: ntb_nhop_hash_key_def)
  qed
  consider "rt \<noteq> rtype" | "rt = rtype" "(gw, ti) = (en_gateway e, en_tunnel_info e)"
    | "rt = rtype" "(gw, ti) \<noteq> (en_gateway e, en_tunnel_info e)" by blast
  then show ?thesis
  proof cases
    case 1
    then show ?thesis
      using off k rid n by (simp add: ntb_route_nhop_delete_def rib_map_def fib_res_get_def)
  next
    case 2
    then show ?thesis using nhop_delete_match [OF off inv k] v by simp
  next
    case 3
    then show ?thesis
      using off k rid p(1) other n
      by (auto simp: ntb_route_nhop_delete_def rib_map_def fib_res_get_def Let_def nhop_map_def split: option.split)
  qed
qed

end

subsection \<open>Iteration\<close>

lemma next_slot_Some:
  "next_slot xs i = Some (y, j) \<Longrightarrow>
    i < j \<and> j \<le> length xs \<and> xs ! (j - 1) = Some y \<and> (\<forall>m. i \<le> m \<and> m < j - 1 \<longrightarrow> xs ! m = None)"
proof (induction xs i arbitrary: y j rule: next_slot.induct)
  case (2 x xs i)
  then obtain j' where j: "j = Suc j'" "next_slot xs i = Some (y, j')" by auto
  have IH: "i < j'" "j' \<le> length xs" "xs ! (j' - 1) = Some y"
    "\<And>m. i \<le> m \<Longrightarrow> m < j' - 1 \<Longrightarrow> xs ! m = None"
    using "2.IH" [OF j(2)] by auto
  then show ?case using j(1) by (auto simp: nth_Cons split: nat.splits)
next
  case (3 xs)
  then obtain j' where j: "j = Suc j'" "next_slot xs 0 = Some (y, j')" by auto
  have IH: "0 < j'" "j' \<le> length xs" "xs ! (j' - 1) = Some y"
    "\<And>m. m < j' - 1 \<Longrightarrow> xs ! m = None"
    using "3.IH" [OF j(2)] by auto
  then show ?case using j(1) by (auto simp: nth_Cons split: nat.splits)
qed simp_all

lemma next_slot_None: "next_slot xs i = None \<Longrightarrow> i \<le> m \<Longrightarrow> m < length xs \<Longrightarrow> xs ! m = None"
proof (induction xs i arbitrary: m rule: next_slot.induct)
  case (2 x xs i)
  then show ?case by (cases m) auto
next
  case (3 xs)
  then show ?case by (cases m) auto
qed simp_all

locale dpdk_iter_env = dpdk_env D fb_used fib_routes fib_default + rte_hash_iter "hash D" hash_slots
  for D :: "('t, 'b, 'f, 'h) env"
    and fb_used :: "'b \<Rightarrow> nat set"
    and fib_routes :: "'f \<Rightarrow> (u32 \<times> u8 \<rightharpoonup> nat)"
    and fib_default :: "'f \<Rightarrow> nat"
    and hash_slots :: "'t \<Rightarrow> (hkey \<times> nat) option list"
begin

text \<open>No slot before position \<open>n\<close> holds a prefix of the VRF at index \<open>i\<close>.\<close>

definition swept :: "nat \<Rightarrow> nat \<Rightarrow> ('t, 'b, 'f, 'h) agent \<Rightarrow> bool" where
  "swept i n s \<longleftrightarrow> (\<forall>m < n. m < length (hash_slots (ntb_rib_hash_tbl s)) \<longrightarrow>
     (\<forall>key v. hash_slots (ntb_rib_hash_tbl s) ! m = Some (RibKey key, v) \<longrightarrow> rk_vrf_id key \<noteq> int i + 1))"

lemma swept_del:
  assumes sw: "swept i m s"
    and tbl: "ntb_rib_hash_tbl s' = snd (rte_hash_del_key (hash D) (ntb_rib_hash_tbl s) k)"
  shows "swept i m s'" "length (hash_slots (ntb_rib_hash_tbl s')) = length (hash_slots (ntb_rib_hash_tbl s))"
    "\<And>x v. x < length (hash_slots (ntb_rib_hash_tbl s)) \<Longrightarrow>
      hash_slots (ntb_rib_hash_tbl s) ! x \<in> {None, Some (k, v)} \<Longrightarrow> hash_slots (ntb_rib_hash_tbl s') ! x = None"
proof -
  obtain r t where t: "rte_hash_del_key (hash D) (ntb_rib_hash_tbl s) k = (r, t)" by fastforce
  have sl: "hash_slots (ntb_rib_hash_tbl s') = map (\<lambda>e. case e of None \<Rightarrow> None
      | Some (k', v) \<Rightarrow> if k' = k then None else Some (k', v)) (hash_slots (ntb_rib_hash_tbl s))"
    using slots_del [OF t] t tbl by simp
  show "swept i m s'" "length (hash_slots (ntb_rib_hash_tbl s')) = length (hash_slots (ntb_rib_hash_tbl s))"
    using sw by (auto simp: sl swept_def split: option.splits if_splits)
  show "hash_slots (ntb_rib_hash_tbl s') ! x = None"
    if "x < length (hash_slots (ntb_rib_hash_tbl s))"
      "hash_slots (ntb_rib_hash_tbl s) ! x \<in> {None, Some (k, v)}" for x v
    using that by (auto simp: sl)
qed

lemma swept_extend:
  assumes "swept i m s" and "\<And>x. m \<le> x \<Longrightarrow> x < m' \<Longrightarrow> x < length (hash_slots (ntb_rib_hash_tbl s)) \<Longrightarrow>
    hash_slots (ntb_rib_hash_tbl s) ! x = None \<or>
    (\<exists>key v. hash_slots (ntb_rib_hash_tbl s) ! x = Some (key, v) \<and>
      (\<forall>rk. key = RibKey rk \<longrightarrow> rk_vrf_id rk \<noteq> int i + 1))"
  shows "swept i m' s"
  unfolding swept_def
proof (intro allI impI)
  fix x key v
  assume x: "x < m'" "x < length (hash_slots (ntb_rib_hash_tbl s))"
    "hash_slots (ntb_rib_hash_tbl s) ! x = Some (RibKey key, v)"
  show "rk_vrf_id key \<noteq> int i + 1"
  proof (cases "x < m")
    case True
    then show ?thesis using assms(1) x by (auto simp: swept_def)
  next
    case False
    then show ?thesis using assms(2) [of x] x by auto
  qed
qed

text \<open>When the iteration ends, the table holds no route of the VRF.\<close>

lemma swept_all:
  assumes inv: "route_inv D fb_used s" and sw: "swept i iter s"
    and e: "next_slot (hash_slots (ntb_rib_hash_tbl s)) iter = None"
  shows "route_view D s = (\<lambda>key. if rk_vrf_id key = int i + 1 then None else route_view D s key)"
proof -
  let ?sl = "hash_slots (ntb_rib_hash_tbl s)"
  have "route_view D s key = None" if "rk_vrf_id key = int i + 1" for key
  proof (rule ccontr)
    assume "route_view D s key \<noteq> None"
    then obtain rid where "Some (RibKey key, rid) \<in> set ?sl"
      using route_view_live [OF inv] slots_lookup by (auto simp: rib_map_def)
    then obtain m where m: "m < length ?sl" "?sl ! m = Some (RibKey key, rid)" by (auto simp: in_set_conv_nth)
    then show False using next_slot_None [OF e, of m] sw that by (cases "m < iter") (auto simp: swept_def)
  qed
  then show ?thesis by (auto simp: fun_eq_iff)
qed

text \<open>One round of the loop: the next entry is deleted if it belongs to the VRF, and the iterator moves on.\<close>

lemma cleanup_round:
  assumes off: "\<not> assert_on D" and i: "i < NTB_NR_VRF" and inv: "route_inv D fb_used s" and sw: "swept i iter s"
    and y: "next_slot (hash_slots (ntb_rib_hash_tbl s)) iter = Some ((k, v), j)"
  shows "\<exists>s1. ntb_route_cleanup_loop D i iter s = ntb_route_cleanup_loop D i j s1 \<and> route_inv D fb_used s1
    \<and> outer_frame s s1 \<and> swept i j s1
    \<and> length (hash_slots (ntb_rib_hash_tbl s1)) - j < length (hash_slots (ntb_rib_hash_tbl s)) - iter
    \<and> (\<forall>key. rk_vrf_id key \<noteq> int i + 1 \<longrightarrow> route_view D s1 key = route_view D s key)
    \<and> (\<forall>fam. fib_inv D fib_routes fib_default fam s \<longrightarrow> fib_inv D fib_routes fib_default fam s1)"
proof -
  let ?sl = "hash_slots (ntb_rib_hash_tbl s)"
  have dp: "i < length (g_ntb_vrfs s)" "vrf_id (dp (g_ntb_vrfs s ! i)) = int i + 1"
    using inv i vrf_ids_ok_length [of s] vrf_ids_ok_nth [of s i] by (simp_all add: route_inv_def)
  note ns = next_slot_Some [OF y]
  have it: "rte_hash_iterate (hash D) (ntb_rib_hash_tbl s) iter = Some (k, v, j)" by (simp add: iterate_slots y)
  have jl: "j - 1 < length ?sl" using ns by linarith
  have klook: "rib_map D s k = Some v"
    using slots_lookup [of "ntb_rib_hash_tbl s" k v] ns nth_mem [OF jl] by (simp add: rib_map_def)
  then obtain rk where rk: "k = RibKey rk" using inv by (auto simp: route_inv_def rib_wf_def)
  show ?thesis
  proof (cases "rk_vrf_id rk = int i + 1")
    case True
    obtain s1 where s1: "ntb_route_delete D i rk s = Inr (0, s1)" "route_inv D fb_used s1" "outer_frame s s1"
      "route_view D s1 = (route_view D s)(rk := None)"
      "ntb_rib_hash_tbl s1 = snd (rte_hash_del_key (hash D) (ntb_rib_hash_tbl s) (RibKey rk))"
      "\<forall>fam. fib_inv D fib_routes fib_default fam s \<longrightarrow> fib_inv D fib_routes fib_default fam s1"
      using route_delete_effect [OF off inv i True] klook rk by blast
    note d = swept_del [OF sw s1(5)]
    have "swept i j s1"
    proof (rule swept_extend [OF d(1)])
      fix x assume x: "iter \<le> x" "x < j" "x < length (hash_slots (ntb_rib_hash_tbl s1))"
      then have "?sl ! x \<in> {None, Some (RibKey rk, v)}" using ns rk by (cases "x = j - 1") auto
      then show "hash_slots (ntb_rib_hash_tbl s1) ! x = None \<or> (\<exists>key v. hash_slots (ntb_rib_hash_tbl s1) ! x = Some (key, v) \<and>
          (\<forall>rk. key = RibKey rk \<longrightarrow> rk_vrf_id rk \<noteq> int i + 1))"
        using d(3) [of x v] x(3) d(2) by simp
    qed
    moreover have "ntb_route_cleanup_loop D i iter s = ntb_route_cleanup_loop D i j s1"
      using it dp rk True s1(1) by (subst ntb_route_cleanup_loop.simps) simp
    ultimately show ?thesis using s1 True d(2) ns by (intro exI [of _ s1]) auto
  next
    case False
    have "swept i j s"
    proof (rule swept_extend [OF sw])
      fix x assume "iter \<le> x" "x < j" "x < length ?sl"
      then show "?sl ! x = None \<or> (\<exists>key v. ?sl ! x = Some (key, v) \<and>
          (\<forall>rk. key = RibKey rk \<longrightarrow> rk_vrf_id rk \<noteq> int i + 1))"
        using ns rk False by (cases "x = j - 1") auto
    qed
    moreover have "ntb_route_cleanup_loop D i iter s = ntb_route_cleanup_loop D i j s"
      using it dp rk False by (subst ntb_route_cleanup_loop.simps) simp
    ultimately show ?thesis using inv ns by (intro exI [of _ s]) (auto simp: outer_frame_def)
  qed
qed

text \<open>The cleanup ends, and what is left are the routes of the other VRFs.\<close>

lemma cleanup_loop:
  assumes off: "\<not> assert_on D" and i: "i < NTB_NR_VRF"
  shows "route_inv D fb_used s \<Longrightarrow> swept i iter s \<Longrightarrow>
    \<exists>s'. ntb_route_cleanup_loop D i iter s = Some (Inr s') \<and> route_inv D fb_used s' \<and> outer_frame s s'
      \<and> route_view D s' = (\<lambda>key. if rk_vrf_id key = int i + 1 then None else route_view D s key)
      \<and> (\<forall>fam. fib_inv D fib_routes fib_default fam s \<longrightarrow> fib_inv D fib_routes fib_default fam s')"
proof (induction "length (hash_slots (ntb_rib_hash_tbl s)) - iter" arbitrary: iter s rule: less_induct)
  case less
  show ?case
  proof (cases "next_slot (hash_slots (ntb_rib_hash_tbl s)) iter")
    case None
    then show ?thesis
      using less.prems(1) swept_all [OF less.prems None]
      by (subst ntb_route_cleanup_loop.simps) (simp add: iterate_slots outer_frame_def)
  next
    case (Some y)
    then obtain k v j where y: "next_slot (hash_slots (ntb_rib_hash_tbl s)) iter = Some ((k, v), j)" by (metis surj_pair)
    obtain s1 where s1: "ntb_route_cleanup_loop D i iter s = ntb_route_cleanup_loop D i j s1" "route_inv D fb_used s1"
      "outer_frame s s1" "swept i j s1"
      "length (hash_slots (ntb_rib_hash_tbl s1)) - j < length (hash_slots (ntb_rib_hash_tbl s)) - iter"
      "\<forall>key. rk_vrf_id key \<noteq> int i + 1 \<longrightarrow> route_view D s1 key = route_view D s key"
      "\<forall>fam. fib_inv D fib_routes fib_default fam s \<longrightarrow> fib_inv D fib_routes fib_default fam s1"
      using cleanup_round [OF off i less.prems y] by blast
    obtain s' where s': "ntb_route_cleanup_loop D i j s1 = Some (Inr s')" "route_inv D fb_used s'" "outer_frame s1 s'"
      "route_view D s' = (\<lambda>key. if rk_vrf_id key = int i + 1 then None else route_view D s1 key)"
      "\<forall>fam. fib_inv D fib_routes fib_default fam s1 \<longrightarrow> fib_inv D fib_routes fib_default fam s'"
      using less.hyps [OF s1(5,2,4)] by blast
    have "outer_frame s s'" using s1(3) s'(3) by (auto simp: outer_frame_def)
    then show ?thesis using s' s1(1,6,7) by (auto simp: fun_eq_iff)
  qed
qed

end

lemma ref_iter_env:
  "dpdk_iter_env (ref_env a ok) (\<lambda>b. set (snd b)) ref_fib_routes ref_fib_default (\<lambda>t. slot_live (snd t))"
  unfolding dpdk_iter_env_def by (simp add: ref_dpdk_env ref_hash_it.rte_hash_iter_axioms)

interpretation ref_iter: dpdk_iter_env "ref_env a ok" "\<lambda>b. set (snd b)" ref_fib_routes ref_fib_default
  "\<lambda>t. slot_live (snd t)" for a ok
  by (rule ref_iter_env)

end
