(* ===== verification/Ntb_Vrf.thy ===== *)
theory Ntb_Vrf
  imports Ntb_Neigh
begin

text \<open>
  The VRF table of \<^verbatim>\<open>agent/vrf.c\<close>: lookup by id and by name, creation, and the per-VRF settings.
  The deletion of a VRF, which cleans up its routes and tunnels, and the initialisation are in the
  theory of the life cycle.
\<close>

subsection \<open>Operations\<close>

text \<open>
  \<^verbatim>\<open>int index = vrfid - 1\<close> is computed on \<^verbatim>\<open>uint32_t\<close> and read as a signed number; only the upper
  bound is checked. A VRF pointer is its index.
\<close>

definition ntb_vrf_get_by_id :: "u32 \<Rightarrow> ('t, 'b, 'f, 'h) agent \<Rightarrow> nat option outcome" where
  "ntb_vrf_get_by_id vrfid s = (let index = sint (vrfid - 1) in
     if index < int NTB_NR_VRF then
       if index < 0 then Inl OutOfBounds
       else bindR (read_at (g_ntb_vrfs s) (nat index)) (\<lambda>v.
         Inr (if valid v then Some (nat index) else None))
     else Inr None)"

definition ntb_vrf_dp_get_by_id :: "u32 \<Rightarrow> ('t, 'b, 'f, 'h) agent \<Rightarrow> nat option outcome" where
  "ntb_vrf_dp_get_by_id vrfid s = bindR (ntb_vrf_get_by_id vrfid s) (\<lambda>vrf. Inr vrf)"

definition ntb_vrf_dp_ctor :: "'f vrf_dp \<Rightarrow> 'f vrf_dp" where
  "ntb_vrf_dp_ctor v = v\<lparr>tunnel_rmap := [], tunnel_cnt := 0, neigh_cnt := 0\<rparr>"

text \<open>
  The scan of \<^verbatim>\<open>ntb_vrf_add\<close>: whether a valid VRF has the name already, and the first free entry
  seen so far.
\<close>

fun vrf_add_scan :: "'f ntb_vrf list \<Rightarrow> nat \<Rightarrow> string \<Rightarrow> int \<Rightarrow> (bool \<times> int) outcome" where
  "vrf_add_scan [] i vrf_name free_ent = Inr (False, free_ent)"
| "vrf_add_scan (v # vs) i vrf_name free_ent =
     (if valid v then bindR (strcmp_eq (vname v) vrf_name) (\<lambda>eq.
        if eq then Inr (True, free_ent) else vrf_add_scan vs (Suc i) vrf_name free_ent)
      else vrf_add_scan vs (Suc i) vrf_name (if free_ent = - 1 then int i else free_ent))"

definition vrf_install :: "string \<Rightarrow> u8 list \<Rightarrow> 'f ntb_vrf \<Rightarrow> 'f ntb_vrf" where
  "vrf_install vrf_name mac v =
     v\<lparr>dp := (ntb_vrf_dp_ctor (dp v))\<lparr>route_mac := mac\<rparr>,
       vname := strncpy NTB_VRF_NAME_LEN vrf_name, valid := True\<rparr>"

definition ntb_vrf_add ::
  "string \<Rightarrow> ('t, 'b, 'f, 'h) agent \<Rightarrow> (int \<times> ('t, 'b, 'f, 'h) agent) outcome" where
  "ntb_vrf_add vrf_name s = bindR (vrf_add_scan (g_ntb_vrfs s) 0 vrf_name (- 1)) (\<lambda>(found, free_ent).
     if found then Inr (0, s)
     else if - 1 = free_ent then Inr (NTB_VRF_NOENT, s)
     else bindR (read_at (g_ntb_vrfs s) (nat free_ent)) (\<lambda>v.
       Inr (0, s\<lparr>g_ntb_vrfs := (g_ntb_vrfs s)[nat free_ent := vrf_install vrf_name (ntb_fake_mac_get s) v],
                 g_ntb_vrf_n := g_ntb_vrf_n s + 1\<rparr>)))"

definition ntb_vrf_count :: "('t, 'b, 'f, 'h) agent \<Rightarrow> int" where
  "ntb_vrf_count s = g_ntb_vrf_n s"

text \<open>The search loop that \<^verbatim>\<open>ntb_vrf_lookup\<close> and \<^verbatim>\<open>ntb_vrf_del\<close> share.\<close>

fun vrf_find :: "'f ntb_vrf list \<Rightarrow> nat \<Rightarrow> string \<Rightarrow> nat option outcome" where
  "vrf_find [] i vrf_name = Inr None"
| "vrf_find (v # vs) i vrf_name =
     (if valid v then bindR (strcmp_eq (vname v) vrf_name) (\<lambda>eq.
        if eq then Inr (Some i) else vrf_find vs (Suc i) vrf_name)
      else vrf_find vs (Suc i) vrf_name)"

definition ntb_vrf_lookup :: "string \<Rightarrow> ('t, 'b, 'f, 'h) agent \<Rightarrow> nat option outcome" where
  "ntb_vrf_lookup vrf_name s = vrf_find (g_ntb_vrfs s) 0 vrf_name"

definition ntb_vrf_id_lookup :: "string \<Rightarrow> ('t, 'b, 'f, 'h) agent \<Rightarrow> int outcome" where
  "ntb_vrf_id_lookup vrf_name s = bindR (ntb_vrf_lookup vrf_name s) (\<lambda>vrf. case vrf of
     None \<Rightarrow> Inr NTB_VRF_NOT_EXIST
   | Some i \<Rightarrow> bindR (get_dp s i) (\<lambda>v. Inr (vrf_id v)))"

definition ntb_vrf_intip_set ::
  "string \<Rightarrow> u32 \<Rightarrow> ('t, 'b, 'f, 'h) agent \<Rightarrow> (int \<times> ('t, 'b, 'f, 'h) agent) outcome" where
  "ntb_vrf_intip_set vrf_name intip s = bindR (ntb_vrf_lookup vrf_name s) (\<lambda>vrf. case vrf of
     None \<Rightarrow> Inr (NTB_VRF_NOT_EXIST, s)
   | Some i \<Rightarrow> Inr (0, upd_dp i (\<lambda>v. v\<lparr>internal_ip := intip\<rparr>) s))"

definition ntb_vrf_intip_unset ::
  "string \<Rightarrow> ('t, 'b, 'f, 'h) agent \<Rightarrow> (int \<times> ('t, 'b, 'f, 'h) agent) outcome" where
  "ntb_vrf_intip_unset vrf_name s = ntb_vrf_intip_set vrf_name 0 s"

definition ntb_vrf_intip_get ::
  "string \<Rightarrow> u32 \<Rightarrow> ('t, 'b, 'f, 'h) agent \<Rightarrow> (int \<times> u32) outcome" where
  "ntb_vrf_intip_get vrf_name vrf_ip s = bindR (ntb_vrf_lookup vrf_name s) (\<lambda>vrf. case vrf of
     None \<Rightarrow> Inr (NTB_VRF_NOT_EXIST, vrf_ip)
   | Some i \<Rightarrow> bindR (get_dp s i) (\<lambda>v. Inr (0, internal_ip v)))"

definition ntb_vrf_rmac_set ::
  "string \<Rightarrow> u8 list \<Rightarrow> ('t, 'b, 'f, 'h) agent \<Rightarrow> (int \<times> ('t, 'b, 'f, 'h) agent) outcome" where
  "ntb_vrf_rmac_set vrf_name mac s = bindR (ntb_vrf_lookup vrf_name s) (\<lambda>vrf. case vrf of
     None \<Rightarrow> Inr (NTB_VRF_NOT_EXIST, s)
   | Some i \<Rightarrow> Inr (0, upd_dp i (\<lambda>v. v\<lparr>route_mac := mac\<rparr>) s))"

definition ntb_vrf_rmac_unset ::
  "string \<Rightarrow> u8 list \<Rightarrow> ('t, 'b, 'f, 'h) agent \<Rightarrow> (int \<times> ('t, 'b, 'f, 'h) agent) outcome" where
  "ntb_vrf_rmac_unset vrf_name mac s = bindR (ntb_vrf_lookup vrf_name s) (\<lambda>vrf. case vrf of
     None \<Rightarrow> Inr (NTB_VRF_NOT_EXIST, s)
   | Some i \<Rightarrow> bindR (get_dp s i) (\<lambda>v.
       if mac \<noteq> route_mac v then Inr (NTB_COMM_INVAL_PARAM, s)
       else Inr (0, upd_dp i (\<lambda>v. v\<lparr>route_mac := ntb_fake_mac_get s\<rparr>) s)))"

definition ntb_vrf_rmac_get ::
  "string \<Rightarrow> u8 list \<Rightarrow> ('t, 'b, 'f, 'h) agent \<Rightarrow> (int \<times> u8 list) outcome" where
  "ntb_vrf_rmac_get vrf_name mac s = bindR (ntb_vrf_lookup vrf_name s) (\<lambda>vrf. case vrf of
     None \<Rightarrow> Inr (NTB_VRF_NOT_EXIST, mac)
   | Some i \<Rightarrow> bindR (get_dp s i) (\<lambda>v. Inr (0, route_mac v)))"

definition ntb_vrf_deinit :: int where
  "ntb_vrf_deinit = 0"

subsection \<open>Invariant and meaning\<close>

text \<open>The string in a name buffer.\<close>

definition cstr :: "char list \<Rightarrow> string" where
  "cstr buf = takeWhile (\<lambda>c. c \<noteq> CHR 0x00) buf"

definition vrf_named :: "'f ntb_vrf \<Rightarrow> string \<Rightarrow> bool" where
  "vrf_named v n \<longleftrightarrow> valid v \<and> cstr (vname v) = n"

text \<open>
  The names of valid VRFs are terminated and pairwise different, and the counter counts them.
\<close>

definition vrf_wf :: "('t, 'b, 'f, 'h) agent \<Rightarrow> bool" where
  "vrf_wf s \<longleftrightarrow> vrf_ids_ok s
    \<and> (\<forall>v \<in> set (g_ntb_vrfs s). valid v \<longrightarrow> CHR 0x00 \<in> set (vname v))
    \<and> (\<forall>i < length (g_ntb_vrfs s). \<forall>j < length (g_ntb_vrfs s). valid (g_ntb_vrfs s ! i) \<longrightarrow>
         vrf_named (g_ntb_vrfs s ! j) (cstr (vname (g_ntb_vrfs s ! i))) \<longrightarrow> i = j)
    \<and> g_ntb_vrf_n s = int (card {i. i < length (g_ntb_vrfs s) \<and> valid (g_ntb_vrfs s ! i)})"

text \<open>The table as a map from names to indices.\<close>

definition vrf_view :: "('t, 'b, 'f, 'h) agent \<Rightarrow> string \<rightharpoonup> nat" where
  "vrf_view s n = find (\<lambda>i. vrf_named (g_ntb_vrfs s ! i) n) [0..<length (g_ntb_vrfs s)]"

definition c_name :: "string \<Rightarrow> bool" where
  "c_name n \<longleftrightarrow> CHR 0x00 \<notin> set n"

text \<open>The signed index of the VRF with id \<open>i + 1\<close>.\<close>

lemma sint_slot: "i < NTB_NR_VRF \<Longrightarrow> sint (of_nat i :: u32) = int i"
  by (simp add: NTB_NR_VRF_def signed_of_nat signed_take_bit_int_eq_self)

lemma strcmp_eq_cstr:
  assumes "CHR 0x00 \<in> set buf" and "c_name n"
  shows "strcmp_eq buf n = Inr (cstr buf = n)"
proof -
  obtain t pad where buf: "buf = t @ CHR 0x00 # pad" "CHR 0x00 \<notin> set t"
    using split_list_first [OF assms(1)] by blast
  then have "cstr buf = t" by (auto simp: cstr_def takeWhile_append)
  then show ?thesis using strcmp_eq_terminated [of n t pad] assms(2) buf by (simp add: c_name_def)
qed

lemma cstr_strncpy: "c_name n \<Longrightarrow> length n < k \<Longrightarrow> cstr (strncpy k n) = n"
  by (simp add: strncpy_short cstr_def c_name_def takeWhile_append)

lemma strncpy_terminated: "length n < k \<Longrightarrow> CHR 0x00 \<in> set (strncpy k n)"
  by (simp add: strncpy_short)

lemma find_upt_Suc:
  "find P [0..<Suc m] = (if P 0 then Some 0 else map_option Suc (find (P \<circ> Suc) [0..<m]))"
proof -
  have "[0..<Suc m] = 0 # map Suc [0..<m]" by (simp add: upt_conv_Cons map_Suc_upt del: upt_Suc)
  moreover have "find P (map Suc xs) = map_option Suc (find (P \<circ> Suc) xs)" for xs
    by (induction xs) auto
  ultimately show ?thesis by simp
qed

lemma vrf_find_spec:
  assumes "\<forall>v \<in> set vs. valid v \<longrightarrow> CHR 0x00 \<in> set (vname v)" and "c_name n"
  shows "vrf_find vs k n = Inr (map_option ((+) k) (find (\<lambda>i. vrf_named (vs ! i) n) [0..<length vs]))"
  using assms(1)
proof (induction vs arbitrary: k)
  case Nil
  then show ?case by simp
next
  case (Cons v vs)
  have rest: "map_option ((+) (Suc k)) z = map_option ((+) k) (map_option Suc z)" for z
    by (cases z) auto
  show ?case
    using Cons strcmp_eq_cstr [of "vname v" n] assms(2)
    by (auto simp: find_upt_Suc vrf_named_def comp_def rest simp del: upt_Suc)
qed

lemma vrf_lookup_view:
  assumes "vrf_wf s" and "c_name n"
  shows "ntb_vrf_lookup n s = Inr (vrf_view s n)"
proof -
  have "map_option ((+) 0) z = z" for z :: "nat option" by (cases z) auto
  then show ?thesis
    using vrf_find_spec [of "g_ntb_vrfs s" n 0] assms
    by (simp add: ntb_vrf_lookup_def vrf_wf_def vrf_view_def)
qed

lemma vrf_wf_unique:
  "vrf_wf s \<Longrightarrow> i < length (g_ntb_vrfs s) \<Longrightarrow> j < length (g_ntb_vrfs s) \<Longrightarrow>
    vrf_named (g_ntb_vrfs s ! i) n \<Longrightarrow> vrf_named (g_ntb_vrfs s ! j) n \<Longrightarrow> i = j"
  by (auto simp: vrf_wf_def vrf_named_def)

lemma vrf_view_Some_iff:
  assumes "vrf_wf s"
  shows "vrf_view s n = Some i \<longleftrightarrow> i < length (g_ntb_vrfs s) \<and> vrf_named (g_ntb_vrfs s ! i) n"
proof
  assume "vrf_view s n = Some i"
  then show "i < length (g_ntb_vrfs s) \<and> vrf_named (g_ntb_vrfs s ! i) n"
    by (auto simp: vrf_view_def find_Some_iff)
next
  assume i: "i < length (g_ntb_vrfs s) \<and> vrf_named (g_ntb_vrfs s ! i) n"
  have "\<not> vrf_named (g_ntb_vrfs s ! j) n" if "j < i" for j
    using vrf_wf_unique [OF assms, of i j n] i that by auto
  then show "vrf_view s n = Some i"
    using i by (auto simp: vrf_view_def find_Some_iff intro!: exI [of _ i])
qed

lemma vrf_view_None_iff:
  "vrf_view s n = None \<longleftrightarrow> (\<forall>i < length (g_ntb_vrfs s). \<not> vrf_named (g_ntb_vrfs s ! i) n)"
  by (auto simp: vrf_view_def find_None_iff)

lemma vrf_add_scan_spec:
  assumes "\<forall>v \<in> set vs. valid v \<longrightarrow> CHR 0x00 \<in> set (vname v)" and "c_name n"
  shows "(\<exists>v \<in> set vs. vrf_named v n) \<Longrightarrow> \<exists>f'. vrf_add_scan vs k n f = Inr (True, f')"
    and "\<not> (\<exists>v \<in> set vs. vrf_named v n) \<Longrightarrow> vrf_add_scan vs k n f = Inr (False, if f \<noteq> - 1 then f
      else case find (\<lambda>i. \<not> valid (vs ! i)) [0..<length vs] of None \<Rightarrow> - 1 | Some j \<Rightarrow> int (k + j))"
  using assms(1)
proof (induction vs arbitrary: k f)
  case Nil
  { case 1 then show ?case by simp }
  { case 2 then show ?case by simp }
next
  case (Cons v vs)
  { case 1 then show ?case
      using Cons.IH(1) strcmp_eq_cstr [of "vname v" n] assms(2) by (auto simp: vrf_named_def) }
  { case 2 then show ?case
      using Cons.IH(2) strcmp_eq_cstr [of "vname v" n] assms(2)
      by (auto simp: vrf_named_def find_upt_Suc comp_def simp del: upt_Suc split: option.split) }
qed

lemma ntb_vrf_add_cases:
  assumes wf: "vrf_wf s" and n: "c_name n"
  obtains
    (exists) i where "vrf_view s n = Some i" "ntb_vrf_add n s = Inr (0, s)"
  | (full) "vrf_view s n = None" "\<forall>i < length (g_ntb_vrfs s). valid (g_ntb_vrfs s ! i)"
      "ntb_vrf_add n s = Inr (NTB_VRF_NOENT, s)"
  | (new) i where "vrf_view s n = None" "i < length (g_ntb_vrfs s)" "\<not> valid (g_ntb_vrfs s ! i)"
      "ntb_vrf_add n s = Inr (0, s\<lparr>g_ntb_vrfs :=
         (g_ntb_vrfs s)[i := vrf_install n (fake_mac s) (g_ntb_vrfs s ! i)], g_ntb_vrf_n := g_ntb_vrf_n s + 1\<rparr>)"
proof -
  note t = wf [unfolded vrf_wf_def, THEN conjunct2, THEN conjunct1]
  show thesis
  proof (cases "vrf_view s n")
    case (Some i)
    then have "\<exists>v \<in> set (g_ntb_vrfs s). vrf_named v n" using vrf_view_Some_iff [OF wf] by auto
    then show ?thesis using vrf_add_scan_spec(1) [OF t n, of 0 "- 1"] Some
      by (intro exists) (auto simp: ntb_vrf_add_def)
  next
    case None
    then have no: "\<not> (\<exists>v \<in> set (g_ntb_vrfs s). vrf_named v n)"
      by (auto simp: vrf_view_None_iff in_set_conv_nth)
    show ?thesis
    proof (cases "find (\<lambda>i. \<not> valid (g_ntb_vrfs s ! i)) [0..<length (g_ntb_vrfs s)]")
      case None
      have "ntb_vrf_add n s = Inr (NTB_VRF_NOENT, s)"
        using vrf_add_scan_spec(2) [OF t n no, of 0 "- 1"] None by (simp add: ntb_vrf_add_def)
      then show ?thesis using None \<open>vrf_view s n = None\<close> by (intro full) (auto simp: find_None_iff)
    next
      case (Some i)
      then have i: "i < length (g_ntb_vrfs s)" "\<not> valid (g_ntb_vrfs s ! i)" by (auto simp: find_Some_iff)
      have "ntb_vrf_add n s = Inr (0, s\<lparr>g_ntb_vrfs :=
         (g_ntb_vrfs s)[i := vrf_install n (fake_mac s) (g_ntb_vrfs s ! i)], g_ntb_vrf_n := g_ntb_vrf_n s + 1\<rparr>)"
        using vrf_add_scan_spec(2) [OF t n no, of 0 "- 1"] Some i
        by (simp add: ntb_vrf_add_def ntb_fake_mac_get_def)
      then show ?thesis using i \<open>vrf_view s n = None\<close> by (intro new [of i])
    qed
  qed
qed

lemma vrf_install_sel [simp]:
  "vname (vrf_install n m v) = strncpy NTB_VRF_NAME_LEN n" "valid (vrf_install n m v)"
  "vrf_id (dp (vrf_install n m v)) = vrf_id (dp v)" "dp_fib (dp (vrf_install n m v)) = dp_fib (dp v)"
  "rib_cnt (dp (vrf_install n m v)) = rib_cnt (dp v)"
  by (simp_all add: vrf_install_def ntb_vrf_dp_ctor_def)

text \<open>A successful creation of a new VRF under a name that fits.\<close>

lemma vrf_add_new_wf:
  assumes wf: "vrf_wf s" and n: "c_name n" "length n < NTB_VRF_NAME_LEN"
    and new: "vrf_view s n = None" "i < length (g_ntb_vrfs s)" "\<not> valid (g_ntb_vrfs s ! i)"
    and s': "s' = s\<lparr>g_ntb_vrfs := (g_ntb_vrfs s)[i := vrf_install n m (g_ntb_vrfs s ! i)],
      g_ntb_vrf_n := g_ntb_vrf_n s + 1\<rparr>"
  shows "vrf_wf s'" and "vrf_view s' = (vrf_view s)(n \<mapsto> i)"
proof -
  have nth: "g_ntb_vrfs s' ! j = (if j = i then vrf_install n m (g_ntb_vrfs s ! i) else g_ntb_vrfs s ! j)"
    "length (g_ntb_vrfs s') = length (g_ntb_vrfs s)" if "j < length (g_ntb_vrfs s)" for j
    using that by (auto simp: s' nth_list_update)
  have named: "vrf_named (g_ntb_vrfs s' ! j) x \<longleftrightarrow> (if j = i then x = n else vrf_named (g_ntb_vrfs s ! j) x)"
    if "j < length (g_ntb_vrfs s)" for j x
    using nth [OF that] cstr_strncpy [OF n] by (auto simp: vrf_named_def)
  have fresh: "\<not> vrf_named (g_ntb_vrfs s ! j) n" if "j < length (g_ntb_vrfs s)" for j
    using new(1) that by (simp add: vrf_view_None_iff)
  have set': "set (g_ntb_vrfs s') \<subseteq> insert (vrf_install n m (g_ntb_vrfs s ! i)) (set (g_ntb_vrfs s))"
    by (simp add: s' set_update_subset_insert)
  have "{j. j < length (g_ntb_vrfs s') \<and> valid (g_ntb_vrfs s' ! j)} =
      insert i {j. j < length (g_ntb_vrfs s) \<and> valid (g_ntb_vrfs s ! j)}"
    using new(2) by (auto simp: s' nth_list_update)
  moreover have "vrf_ids s' = vrf_ids s"
    using new(2) by (simp add: s' vrf_ids_def map_update list_update_same_conv)
  moreover have "j = k" if "j < length (g_ntb_vrfs s)" "k < length (g_ntb_vrfs s)" "valid (g_ntb_vrfs s' ! j)"
    "vrf_named (g_ntb_vrfs s' ! k) (cstr (vname (g_ntb_vrfs s' ! j)))" for j k
  proof -
    let ?x = "cstr (vname (g_ntb_vrfs s' ! j))"
    have "vrf_named (g_ntb_vrfs s' ! j) ?x" using that(3) by (simp add: vrf_named_def)
    then show ?thesis
      using that named [OF that(1), of ?x] named [OF that(2), of ?x] fresh [OF that(1)] fresh [OF that(2)]
        vrf_wf_unique [OF wf that(1,2), of ?x] by (cases "j = i"; cases "k = i") auto
  qed
  moreover have "CHR 0x00 \<in> set (vname v)" if "v \<in> set (g_ntb_vrfs s')" "valid v" for v
    using that set' wf strncpy_terminated [OF n(2)] by (auto simp: vrf_wf_def)
  ultimately show wf': "vrf_wf s'"
    using wf new(2,3) by (auto simp: vrf_wf_def vrf_ids_ok_def s')
  show "vrf_view s' = (vrf_view s)(n \<mapsto> i)"
  proof
    fix x
    show "vrf_view s' x = ((vrf_view s)(n \<mapsto> i)) x"
    proof (cases "x = n")
      case True
      then show ?thesis using vrf_view_Some_iff [OF wf', of n i] named [OF new(2)] nth new(2) by simp
    next
      case False
      have "vrf_view s' x = Some j \<longleftrightarrow> vrf_view s x = Some j" for j
        unfolding vrf_view_Some_iff [OF wf'] vrf_view_Some_iff [OF wf] nth(2) [OF new(2)]
        using named [of j x] False new(3) by (auto simp: vrf_named_def [of "g_ntb_vrfs s ! i"] split: if_splits)
      then show ?thesis using False by (metis fun_upd_other option.exhaust)
    qed
  qed
qed

text \<open>The table only depends on the ids, the names and the counter.\<close>

lemma vrf_names_nth:
  assumes "vrf_names s' = vrf_names s"
  shows "length (g_ntb_vrfs s') = length (g_ntb_vrfs s)" "g_ntb_vrf_n s' = g_ntb_vrf_n s"
    "i < length (g_ntb_vrfs s) \<Longrightarrow> vname (g_ntb_vrfs s' ! i) = vname (g_ntb_vrfs s ! i)"
    "i < length (g_ntb_vrfs s) \<Longrightarrow> valid (g_ntb_vrfs s' ! i) = valid (g_ntb_vrfs s ! i)"
proof -
  have e: "map (\<lambda>v. (vname v, valid v)) (g_ntb_vrfs s') = map (\<lambda>v. (vname v, valid v)) (g_ntb_vrfs s)"
    and n: "g_ntb_vrf_n s' = g_ntb_vrf_n s" using assms by (simp_all add: vrf_names_def)
  show l: "length (g_ntb_vrfs s') = length (g_ntb_vrfs s)" using arg_cong [OF e, of length] by simp
  show "g_ntb_vrf_n s' = g_ntb_vrf_n s" by (rule n)
  assume "i < length (g_ntb_vrfs s)"
  then show "vname (g_ntb_vrfs s' ! i) = vname (g_ntb_vrfs s ! i)"
    "valid (g_ntb_vrfs s' ! i) = valid (g_ntb_vrfs s ! i)"
    using arg_cong [OF e, of "\<lambda>xs. xs ! i"] l by simp_all
qed

lemma vrf_wf_cong:
  assumes "vrf_names s' = vrf_names s" and "vrf_ids s' = vrf_ids s"
  shows "vrf_wf s' \<longleftrightarrow> vrf_wf s" and "vrf_view s' = vrf_view s"
proof -
  note nth = vrf_names_nth [OF assms(1)]
  have named: "vrf_named (g_ntb_vrfs s' ! i) x \<longleftrightarrow> vrf_named (g_ntb_vrfs s ! i) x"
    if "i < length (g_ntb_vrfs s)" for i x using nth(3,4) [OF that] by (simp add: vrf_named_def)
  have set: "{i. i < length (g_ntb_vrfs s) \<and> valid (g_ntb_vrfs s' ! i)} =
      {i. i < length (g_ntb_vrfs s) \<and> valid (g_ntb_vrfs s ! i)}" using nth(4) by auto
  show "vrf_wf s' \<longleftrightarrow> vrf_wf s"
    unfolding vrf_wf_def all_set_conv_all_nth nth(1,2) set vrf_ids_ok_def assms(2)
    using nth(3,4) named by auto
  show "vrf_view s' = vrf_view s"
    unfolding vrf_view_def nth(1) using named by (auto simp: fun_eq_iff intro!: find_cong)
qed

end
