(* ===== verification/Ntb_Tunnel.thy ===== *)
theory Ntb_Tunnel
  imports Ntb_Vrf
begin

text \<open>
  The tunnel map of \<^verbatim>\<open>agent/tunnel_map.c\<close>: a hash table from tunnel keys to tunnel objects, and per
  VRF the list of its tunnels. The older variants of the same file (\<^verbatim>\<open>agent/agent-bak\<close> and
  \<^verbatim>\<open>agent/zdw_agent\<close>) have the suffixes \<open>_bak\<close> and \<open>_zdw\<close> where they differ.
\<close>

subsection \<open>Switch entries\<close>

definition shc_hal_tunnel_map_vrf_entry_add ::
  "('t, 'b, 'f, 'h) env \<Rightarrow> ntb_tunnel_type \<Rightarrow> ntb_tunnel_id \<Rightarrow> int \<Rightarrow> ('t, 'b, 'f, 'h) agent
    \<Rightarrow> int \<times> ('t, 'b, 'f, 'h) agent" where
  "shc_hal_tunnel_map_vrf_entry_add D ty tid vrfid s =
     (let (k, d) = (if ty = NTB_TUNNEL_VXLAN then ((TYPE_TUNNEL_TYPE_VXLAN, tid), of_int vrfid)
                    else ((TYPE_TUNNEL_TYPE_GRE, tid), tid)) in
      case hal_tunnel_map_vrf_entry_add (hal D) (hw_state s) k d of (r, h) \<Rightarrow>
        (if r \<noteq> 0 then NTB_LOAD_TO_P4_FAIL else 0, s\<lparr>hw_state := h\<rparr>))"

definition shc_hal_tunnel_map_vrf_entry_del ::
  "('t, 'b, 'f, 'h) env \<Rightarrow> ntb_tunnel_type \<Rightarrow> ntb_tunnel_id \<Rightarrow> ('t, 'b, 'f, 'h) agent
    \<Rightarrow> int \<times> ('t, 'b, 'f, 'h) agent" where
  "shc_hal_tunnel_map_vrf_entry_del D ty tid s =
     (let k = (if ty = NTB_TUNNEL_VXLAN then TYPE_TUNNEL_TYPE_VXLAN else TYPE_TUNNEL_TYPE_GRE, tid) in
      case hal_tunnel_map_vrf_entry_del (hal D) (hw_state s) k of (r, h) \<Rightarrow>
        (if r \<noteq> 0 then NTB_LOAD_TO_P4_FAIL else 0, s\<lparr>hw_state := h\<rparr>))"

subsection \<open>Operations\<close>

definition ntb_tunnel_map_vrf_init ::
  "('t, 'b, 'f, 'h) env \<Rightarrow> ('t, 'b, 'f, 'h) agent \<Rightarrow> (int \<times> ('t, 'b, 'f, 'h) agent) outcome" where
  "ntb_tunnel_map_vrf_init D s = (case rte_hash_create (hash D) (NTB_NR_TUNNEL_ALL * 8) of
     None \<Rightarrow> bindR (rte_assert D False) (\<lambda>_. Inl NullDeref)
   | Some t \<Rightarrow> Inr (0, s\<lparr>vrf_hash_tbl := rte_hash_reset (hash D) t\<rparr>))"

definition ntb_tunnel_map_vrf_deinit :: int where
  "ntb_tunnel_map_vrf_deinit = 0"

definition put_tunnel ::
  "addr \<Rightarrow> ntb_tunnel_info \<Rightarrow> ('t, 'b, 'f, 'h) agent \<Rightarrow> ('t, 'b, 'f, 'h) agent" where
  "put_tunnel p t s = s\<lparr>tunnel_heap := (tunnel_heap s)(p \<mapsto> t)\<rparr>"

definition free_tunnel :: "addr \<Rightarrow> ('t, 'b, 'f, 'h) agent \<Rightarrow> ('t, 'b, 'f, 'h) agent" where
  "free_tunnel p s = s\<lparr>tunnel_heap := (tunnel_heap s)(p := None)\<rparr>"

text \<open>The new tunnel object only gets its VRF: type, id and attribute stay zero.\<close>

definition ntb_tunnel_map_vrf ::
  "('t, 'b, 'f, 'h) env \<Rightarrow> string \<Rightarrow> ntb_tunnel_type \<Rightarrow> ntb_tunnel_id \<Rightarrow> ntb_tunnel_attr
    \<Rightarrow> ('t, 'b, 'f, 'h) agent \<Rightarrow> (int \<times> ('t, 'b, 'f, 'h) agent) outcome" where
  "ntb_tunnel_map_vrf D vrf_name ty tid attr s = bindR (ntb_vrf_lookup vrf_name s) (\<lambda>vrf. case vrf of
     None \<Rightarrow> Inr (NTB_VRF_NOT_EXIST, s)
   | Some i \<Rightarrow> bindR (get_dp s i) (\<lambda>v.
       let map_key = TunnelKey ty tid in
       case rte_hash_lookup_data (hash D) (vrf_hash_tbl s) map_key of
         Some p \<Rightarrow> bindR (rte_assert D (p \<noteq> 0)) (\<lambda>_. bindR (load (tunnel_heap s) p) (\<lambda>tunnel_i.
           if tu_vrf_id tunnel_i \<noteq> vrf_id v then Inr (NTB_TUNNEL_INUSED, s) else Inr (0, s)))
       | None \<Rightarrow> (case rte_zmalloc D s of
             (None, s1) \<Rightarrow> Inr (NTB_COMM_NOMEM, s1)
           | (Some p, s1) \<Rightarrow>
               let s2 = put_tunnel p (ntb_tunnel_info_zero\<lparr>tu_vrf_id := vrf_id v\<rparr>) s1 in
               case rte_hash_add_key_data (hash D) (vrf_hash_tbl s2) map_key p of (r, t) \<Rightarrow>
                 let s3 = s2\<lparr>vrf_hash_tbl := t\<rparr> in
                 if r < 0 then Inr (NTB_TUNNEL_MAP_NOSPACE, free_tunnel p s3)
                 else Inr (0, upd_dp i (\<lambda>v. v\<lparr>tunnel_rmap := p # tunnel_rmap v,
                        tunnel_cnt := tunnel_cnt v + 1\<rparr>) s3))))"

text \<open>
  \<^verbatim>\<open>SLIST_REMOVE\<close>: the walk reads the \<^verbatim>\<open>next\<close> field of every element before the one it looks for, and
  follows a null pointer when there is none.
\<close>

fun slist_remove :: "(addr \<rightharpoonup> 'a) \<Rightarrow> addr list \<Rightarrow> addr \<Rightarrow> addr list outcome" where
  "slist_remove h [] p = Inl NullDeref"
| "slist_remove h (x # xs) p = (if x = p then Inr xs
     else bindR (load h x) (\<lambda>_. bindR (slist_remove h xs p) (\<lambda>ys. Inr (x # ys))))"

text \<open>The release of the tunnel object at the end of an unmapping.\<close>

definition tunnel_release ::
  "('t, 'b, 'f, 'h) env \<Rightarrow> nat option \<Rightarrow> addr \<Rightarrow> ('t, 'b, 'f, 'h) agent
    \<Rightarrow> (int \<times> ('t, 'b, 'f, 'h) agent) outcome" where
  "tunnel_release D vrf_dp p s = bindR (rte_assert D (p \<noteq> 0)) (\<lambda>_. case vrf_dp of
     None \<Rightarrow> Inl NullDeref
   | Some i \<Rightarrow> bindR (get_dp s i) (\<lambda>v. bindR (slist_remove (tunnel_heap s) (tunnel_rmap v) p) (\<lambda>xs.
       Inr (0, upd_dp i (\<lambda>v. v\<lparr>tunnel_rmap := xs, tunnel_cnt := tunnel_cnt v - 1\<rparr>) (free_tunnel p s)))))"

text \<open>Unmapping: the call that deleted the hash entry is commented out.\<close>

definition ntb_tunnel_unmap_vrf ::
  "('t, 'b, 'f, 'h) env \<Rightarrow> ntb_tunnel_type \<Rightarrow> ntb_tunnel_id \<Rightarrow> ('t, 'b, 'f, 'h) agent
    \<Rightarrow> (int \<times> ('t, 'b, 'f, 'h) agent) outcome" where
  "ntb_tunnel_unmap_vrf D ty tid s =
     (case rte_hash_lookup_data (hash D) (vrf_hash_tbl s) (TunnelKey ty tid) of
        None \<Rightarrow> Inr (0, s)
      | Some p \<Rightarrow>
          let s1 = snd (shc_hal_tunnel_map_vrf_entry_del D ty tid s) in
          bindR (load (tunnel_heap s1) p) (\<lambda>tunnel_i.
          bindR (ntb_vrf_dp_get_by_id (of_int (tu_vrf_id tunnel_i)) s1) (\<lambda>vrf_dp.
            tunnel_release D vrf_dp p s1)))"

definition ntb_tunnel_unmap_vrf_zdw ::
  "('t, 'b, 'f, 'h) env \<Rightarrow> ntb_tunnel_type \<Rightarrow> ntb_tunnel_id \<Rightarrow> ('t, 'b, 'f, 'h) agent
    \<Rightarrow> (int \<times> ('t, 'b, 'f, 'h) agent) outcome" where
  "ntb_tunnel_unmap_vrf_zdw D ty tid s =
     (case rte_hash_lookup_data (hash D) (vrf_hash_tbl s) (TunnelKey ty tid) of
        None \<Rightarrow> Inr (0, s)
      | Some p \<Rightarrow> bindR (load (tunnel_heap s) p) (\<lambda>tunnel_i.
          bindR (ntb_vrf_dp_get_by_id (of_int (tu_vrf_id tunnel_i)) s) (\<lambda>vrf_dp.
            tunnel_release D vrf_dp p s)))"

definition tunnel_unmap_bak ::
  "('t, 'b, 'f, 'h) env \<Rightarrow> ntb_tunnel_type \<Rightarrow> ntb_tunnel_id \<Rightarrow> ('t, 'b, 'f, 'h) agent
    \<Rightarrow> int \<times> ('t, 'b, 'f, 'h) agent" where
  "tunnel_unmap_bak D ty tid s = (case rte_hash_del_key (hash D) (vrf_hash_tbl s) (TunnelKey ty tid) of
     (r, t) \<Rightarrow> (if r < 0 then - 1 else 0, s\<lparr>vrf_hash_tbl := t\<rparr>))"

definition ntb_tunnel_unmap_vrf_bak ::
  "('t, 'b, 'f, 'h) env \<Rightarrow> ntb_tunnel_type \<Rightarrow> ntb_tunnel_id \<Rightarrow> ('t, 'b, 'f, 'h) agent
    \<Rightarrow> (int \<times> ('t, 'b, 'f, 'h) agent) outcome" where
  "ntb_tunnel_unmap_vrf_bak D ty tid s =
     (case rte_hash_lookup_data (hash D) (vrf_hash_tbl s) (TunnelKey ty tid) of
        None \<Rightarrow> Inr (0, s)
      | Some p \<Rightarrow> bindR (load (tunnel_heap s) p) (\<lambda>tunnel_i.
          bindR (ntb_vrf_dp_get_by_id (of_int (tu_vrf_id tunnel_i)) s) (\<lambda>vrf_dp.
            case tunnel_unmap_bak D ty tid s of (ret, s1) \<Rightarrow>
              if ret < 0 then Inr (0, s1) else tunnel_release D vrf_dp p s1)))"

text \<open>
  The lookup on behalf of the packet path. The assertion after each HAL call is inverted: it holds
  only when the call failed.
\<close>

definition ntb_tunnel_map_vrf_lookup ::
  "('t, 'b, 'f, 'h) env \<Rightarrow> ntb_tunnel_type \<Rightarrow> ntb_tunnel_id \<Rightarrow> int \<Rightarrow> ('t, 'b, 'f, 'h) agent
    \<Rightarrow> (nat option \<times> ('t, 'b, 'f, 'h) agent) outcome" where
  "ntb_tunnel_map_vrf_lookup D ty tid flag_of_add_del s =
     (case rte_hash_lookup_data (hash D) (vrf_hash_tbl s) (TunnelKey ty tid) of
        None \<Rightarrow> Inr (None, s)
      | Some p \<Rightarrow> bindR (rte_assert D (p \<noteq> 0)) (\<lambda>_.
          bindR (if flag_of_add_del = 0 then bindR (load (tunnel_heap s) p) (\<lambda>t.
                   Inr (shc_hal_tunnel_map_vrf_entry_add D ty tid (tu_vrf_id t) s))
                 else Inr (shc_hal_tunnel_map_vrf_entry_del D ty tid s)) (\<lambda>(ret, s1).
          bindR (rte_assert D (ret \<noteq> 0)) (\<lambda>_.
          bindR (load (tunnel_heap s1) p) (\<lambda>t.
          bindR (ntb_vrf_dp_get_by_id (of_int (tu_vrf_id t)) s1) (\<lambda>vrf_dp.
          bindR (rte_assert D (vrf_dp \<noteq> None)) (\<lambda>_. Inr (vrf_dp, s1))))))))"

definition ntb_tunnel_map_vrf_lookup_bak ::
  "('t, 'b, 'f, 'h) env \<Rightarrow> ntb_tunnel_type \<Rightarrow> ntb_tunnel_id \<Rightarrow> ('t, 'b, 'f, 'h) agent
    \<Rightarrow> nat option outcome" where
  "ntb_tunnel_map_vrf_lookup_bak D ty tid s =
     (case rte_hash_lookup_data (hash D) (vrf_hash_tbl s) (TunnelKey ty tid) of
        None \<Rightarrow> Inr None
      | Some p \<Rightarrow> bindR (rte_assert D (p \<noteq> 0)) (\<lambda>_.
          bindR (load (tunnel_heap s) p) (\<lambda>t.
          bindR (ntb_vrf_dp_get_by_id (of_int (tu_vrf_id t)) s) (\<lambda>vrf_dp.
          bindR (rte_assert D (vrf_dp \<noteq> None)) (\<lambda>_. Inr vrf_dp)))))"

text \<open>The cleanup loop takes the head off the list until it is empty.\<close>

fun tunnel_cleanup_loop ::
  "nat \<Rightarrow> addr list \<Rightarrow> ('t, 'b, 'f, 'h) agent \<Rightarrow> ('t, 'b, 'f, 'h) agent outcome" where
  "tunnel_cleanup_loop i [] s = Inr s"
| "tunnel_cleanup_loop i (p # ps) s = bindR (load (tunnel_heap s) p) (\<lambda>_.
     tunnel_cleanup_loop i ps
       (upd_dp i (\<lambda>v. v\<lparr>tunnel_rmap := ps, tunnel_cnt := tunnel_cnt v - 1\<rparr>) (free_tunnel p s)))"

definition ntb_tunnel_map_cleanup ::
  "nat \<Rightarrow> ('t, 'b, 'f, 'h) agent \<Rightarrow> (int \<times> ('t, 'b, 'f, 'h) agent) outcome" where
  "ntb_tunnel_map_cleanup i s = bindR (get_dp s i) (\<lambda>v.
     bindR (tunnel_cleanup_loop i (tunnel_rmap v) s) (\<lambda>s'. Inr (0, s')))"

fun tunnel_cleanup_loop_bak ::
  "('t, 'b, 'f, 'h) env \<Rightarrow> nat \<Rightarrow> addr list \<Rightarrow> ('t, 'b, 'f, 'h) agent
    \<Rightarrow> ('t, 'b, 'f, 'h) agent outcome" where
  "tunnel_cleanup_loop_bak D i [] s = Inr s"
| "tunnel_cleanup_loop_bak D i (p # ps) s = bindR (load (tunnel_heap s) p) (\<lambda>t.
     let s1 = snd (tunnel_unmap_bak D (tu_type t) (tu_id t) s) in
     tunnel_cleanup_loop_bak D i ps
       (upd_dp i (\<lambda>v. v\<lparr>tunnel_rmap := ps, tunnel_cnt := tunnel_cnt v - 1\<rparr>) (free_tunnel p s1)))"

definition ntb_tunnel_map_cleanup_bak ::
  "('t, 'b, 'f, 'h) env \<Rightarrow> nat \<Rightarrow> ('t, 'b, 'f, 'h) agent
    \<Rightarrow> (int \<times> ('t, 'b, 'f, 'h) agent) outcome" where
  "ntb_tunnel_map_cleanup_bak D i s = bindR (get_dp s i) (\<lambda>v.
     bindR (tunnel_cleanup_loop_bak D i (tunnel_rmap v) s) (\<lambda>s'. Inr (0, s')))"

subsection \<open>Invariant and meaning\<close>

definition slot_rmap :: "('t, 'b, 'f, 'h) agent \<Rightarrow> nat \<Rightarrow> addr list" where
  "slot_rmap s i = tunnel_rmap (dp (g_ntb_vrfs s ! i))"

text \<open>
  Table and heap are linked; the list of a VRF holds exactly its tunnels, each once, and its counter
  their number; a tunnel belongs to a valid VRF.
\<close>

definition tunnel_wf :: "('t, 'b, 'f, 'h) env \<Rightarrow> ('t, 'b, 'f, 'h) agent \<Rightarrow> bool" where
  "tunnel_wf D s \<longleftrightarrow> linked (tunnel_map D s) (tunnel_heap s) (next_addr s)
    \<and> (\<forall>p t. tunnel_heap s p = Some t \<longrightarrow>
         (\<exists>i < NTB_NR_VRF. tu_vrf_id t = int i + 1 \<and> valid (g_ntb_vrfs s ! i)))
    \<and> (\<forall>i < NTB_NR_VRF. distinct (slot_rmap s i)
         \<and> set (slot_rmap s i) = {p. \<exists>t. tunnel_heap s p = Some t \<and> tu_vrf_id t = int i + 1}
         \<and> tunnel_cnt (dp (g_ntb_vrfs s ! i)) = of_nat (length (slot_rmap s i)))"

text \<open>The table as a map from tunnels to VRF ids.\<close>

definition tunnel_view ::
  "('t, 'b, 'f, 'h) env \<Rightarrow> ('t, 'b, 'f, 'h) agent \<Rightarrow> ntb_tunnel_type \<times> ntb_tunnel_id \<rightharpoonup> int" where
  "tunnel_view D s k = (case tunnel_map D s (TunnelKey (fst k) (snd k)) of
     None \<Rightarrow> None
   | Some p \<Rightarrow> map_option tu_vrf_id (tunnel_heap s p))"

text \<open>What the tunnel operations leave alone.\<close>

definition tunnel_frame :: "('t, 'b, 'f, 'h) agent \<Rightarrow> ('t, 'b, 'f, 'h) agent \<Rightarrow> bool" where
  "tunnel_frame s s' \<longleftrightarrow> vrf_ids s' = vrf_ids s \<and> vrf_names s' = vrf_names s
    \<and> route_part s' = route_part s \<and> nhop_part s' = nhop_part s \<and> neigh_part s' = neigh_part s
    \<and> fake_mac s' = fake_mac s \<and> next_addr s \<le> next_addr s'"

lemma map_upd_tunnel:
  "map (\<lambda>v. vrf_id (dp v)) (g_ntb_vrfs (upd_dp i (\<lambda>v. v\<lparr>tunnel_rmap := x v, tunnel_cnt := c v\<rparr>) s)) =
    map (\<lambda>v. vrf_id (dp v)) (g_ntb_vrfs s)"
  "map (\<lambda>v. (vname v, valid v)) (g_ntb_vrfs (upd_dp i g s)) = map (\<lambda>v. (vname v, valid v)) (g_ntb_vrfs s)"
  "map (\<lambda>v. (dp_fib (dp v), rib_cnt (dp v)))
      (g_ntb_vrfs (upd_dp i (\<lambda>v. v\<lparr>tunnel_rmap := x v, tunnel_cnt := c v\<rparr>) s)) =
    map (\<lambda>v. (dp_fib (dp v), rib_cnt (dp v))) (g_ntb_vrfs s)"
  "map (\<lambda>v. neigh_cnt (dp v)) (g_ntb_vrfs (upd_dp i (\<lambda>v. v\<lparr>tunnel_rmap := x v, tunnel_cnt := c v\<rparr>) s)) =
    map (\<lambda>v. neigh_cnt (dp v)) (g_ntb_vrfs s)"
  by (rule map_upd_dp; simp)+

lemmas tunnel_frame_simps = tunnel_frame_def part_defs comp_def map_upd_tunnel put_tunnel_def free_tunnel_def

lemma get_by_id_slot:
  assumes "i < NTB_NR_VRF" and "length (g_ntb_vrfs s) = NTB_NR_VRF"
  shows "ntb_vrf_dp_get_by_id (of_int (int i + 1)) s = Inr (if valid (g_ntb_vrfs s ! i) then Some i else None)"
proof -
  have "sint (of_int (int i + 1) - 1 :: u32) = int i" using assms(1) by (simp add: sint_slot)
  then show ?thesis
    using assms by (simp add: ntb_vrf_dp_get_by_id_def ntb_vrf_get_by_id_def Let_def)
qed

lemma slist_remove_member:
  "set xs \<subseteq> dom h \<Longrightarrow> 0 \<notin> set xs \<Longrightarrow> p \<in> set xs \<Longrightarrow> slist_remove h xs p = Inr (remove1 p xs)"
  by (induction xs) (auto simp: load_def split: option.split)

lemma slot_rmap_upd:
  "j < length (g_ntb_vrfs s) \<Longrightarrow> slot_rmap (upd_dp i (\<lambda>v. v\<lparr>tunnel_rmap := x v, tunnel_cnt := c v\<rparr>) s) j =
    (if i = j then x (dp (g_ntb_vrfs s ! j)) else slot_rmap s j)"
  by (simp add: slot_rmap_def)

context dpdk_env
begin

lemma tunnel_wf_linked: "tunnel_wf D s \<Longrightarrow> linked (tunnel_map D s) (tunnel_heap s) (next_addr s)"
  by (simp add: tunnel_wf_def)

text \<open>The effect of a mapping request for a VRF that exists.\<close>

lemma tunnel_map_vrf_cases:
  assumes off: "\<not> assert_on D" and wf: "tunnel_wf D s" and vw: "vrf_wf s" and n: "c_name n"
    and i: "vrf_view s n = Some i" and k: "k = TunnelKey ty tid"
  obtains
    (same) p t where "tunnel_map D s k = Some p" "tunnel_heap s p = Some t" "tu_vrf_id t = int i + 1"
      "ntb_tunnel_map_vrf D n ty tid attr s = Inr (0, s)"
  | (other) p t where "tunnel_map D s k = Some p" "tunnel_heap s p = Some t" "tu_vrf_id t \<noteq> int i + 1"
      "ntb_tunnel_map_vrf D n ty tid attr s = Inr (NTB_TUNNEL_INUSED, s)"
  | (fail) ret s' where "tunnel_map D s k = None" "ntb_tunnel_map_vrf D n ty tid attr s = Inr (ret, s')" "ret < 0"
      "tunnel_frame s s'" "tunnel_map D s' = tunnel_map D s" "tunnel_heap s' = tunnel_heap s"
      "g_ntb_vrfs s' = g_ntb_vrfs s"
  | (new) t s' where "tunnel_map D s k = None" "ntb_tunnel_map_vrf D n ty tid attr s = Inr (0, s')"
      "tunnel_frame s s'" "tunnel_map D s' = (tunnel_map D s)(k \<mapsto> next_addr s)"
      "tunnel_heap s' = (tunnel_heap s)(next_addr s \<mapsto> t)" "tu_vrf_id t = int i + 1"
      "g_ntb_vrfs s' = g_ntb_vrfs (upd_dp i (\<lambda>v. v\<lparr>tunnel_rmap := next_addr s # tunnel_rmap v,
         tunnel_cnt := tunnel_cnt v + 1\<rparr>) s)" "next_addr s' = Suc (next_addr s)"
proof -
  have ids: "vrf_ids_ok s" using vw by (simp add: vrf_wf_def)
  have iv: "i < length (g_ntb_vrfs s)" "i < NTB_NR_VRF"
    using vrf_view_Some_iff [OF vw, of n i] i vrf_ids_ok_length [OF ids] by auto
  have id: "vrf_id (dp (g_ntb_vrfs s ! i)) = int i + 1" using vrf_ids_ok_nth [OF ids iv(2)] .
  note l = tunnel_wf_linked [OF wf]
  note run = ntb_tunnel_map_vrf_def vrf_lookup_view [OF vw n] i k [symmetric] id iv Let_def
  show thesis
  proof (cases "tunnel_map D s k")
    case (Some p)
    then obtain t where t: "tunnel_heap s p = Some t" "p \<noteq> 0" using linked_load [OF l] by blast
    have "ntb_tunnel_map_vrf D n ty tid attr s =
        (if tu_vrf_id t \<noteq> int i + 1 then Inr (NTB_TUNNEL_INUSED, s) else Inr (0, s))"
      using Some t off by (simp add: run tunnel_map_def)
    then show ?thesis using Some t same other by (cases "tu_vrf_id t = int i + 1") auto
  next
    case None
    define a t where "a = next_addr s" and "t = ntb_tunnel_info_zero\<lparr>tu_vrf_id := int i + 1\<rparr>"
    obtain r tb where tb: "rte_hash_add_key_data (hash D) (vrf_hash_tbl s) k a = (r, tb)" by fastforce
    have fresh: "tunnel_heap s a = None" using linked_fresh [OF l] by (simp add: a_def)
    note run = run None [unfolded tunnel_map_def] rte_zmalloc_def put_tunnel_def a_def [symmetric]
      t_def [symmetric] tb
    consider "\<not> zmalloc_ok D a" | "zmalloc_ok D a" "r < 0" | "zmalloc_ok D a" "0 \<le> r" by linarith
    then show ?thesis
    proof cases
      case 1
      let ?s = "s\<lparr>next_addr := Suc a\<rparr>"
      have "ntb_tunnel_map_vrf D n ty tid attr s = Inr (NTB_COMM_NOMEM, ?s)" using 1 by (simp add: run)
      then show ?thesis using None
        by (intro fail [of NTB_COMM_NOMEM ?s])
          (simp_all add: tunnel_frame_simps tunnel_map_def NTB_COMM_NOMEM_val a_def)
    next
      case 2
      let ?s = "s\<lparr>next_addr := Suc a, vrf_hash_tbl := tb\<rparr>"
      have "ntb_tunnel_map_vrf D n ty tid attr s = Inr (NTB_TUNNEL_MAP_NOSPACE, ?s)"
        using 2 fresh by (simp add: run free_tunnel_def fun_upd_idem)
      then show ?thesis using None add_fail [OF tb] 2
        by (intro fail [of NTB_TUNNEL_MAP_NOSPACE ?s])
          (simp_all add: tunnel_frame_simps tunnel_map_def NTB_TUNNEL_MAP_NOSPACE_val a_def)
    next
      case 3
      let ?s = "upd_dp i (\<lambda>v. v\<lparr>tunnel_rmap := a # tunnel_rmap v, tunnel_cnt := tunnel_cnt v + 1\<rparr>)
        (s\<lparr>next_addr := Suc a, tunnel_heap := (tunnel_heap s)(a \<mapsto> t), vrf_hash_tbl := tb\<rparr>)"
      have "ntb_tunnel_map_vrf D n ty tid attr s = Inr (0, ?s)" using 3 by (simp add: run)
      moreover have "tunnel_frame s ?s" by (simp add: tunnel_frame_simps a_def)
      ultimately show ?thesis using None add_ok [OF tb] 3
        by (intro new [where s' = ?s and t = t])
          (simp_all add: tunnel_map_def upd_dp_vrfs a_def t_def)
    qed
  qed
qed


lemma tunnel_wf_rmap:
  assumes "tunnel_wf D s" and "i < NTB_NR_VRF"
  shows "set (slot_rmap s i) \<subseteq> dom (tunnel_heap s)" "0 \<notin> set (slot_rmap s i)"
    "tunnel_heap s p = Some t \<Longrightarrow> tu_vrf_id t = int i + 1 \<Longrightarrow> p \<in> set (slot_rmap s i)"
proof -
  have s: "set (slot_rmap s i) = {p. \<exists>t. tunnel_heap s p = Some t \<and> tu_vrf_id t = int i + 1}"
    using assms by (simp add: tunnel_wf_def)
  then show "set (slot_rmap s i) \<subseteq> dom (tunnel_heap s)" by auto
  have "tunnel_heap s 0 = None"
  proof (cases "tunnel_heap s 0")
    case (Some t)
    then obtain k where "tunnel_map D s k = Some 0" using linked_key [OF tunnel_wf_linked [OF assms(1)]] by blast
    then show ?thesis using linked_load [OF tunnel_wf_linked [OF assms(1)]] by blast
  qed
  then show "0 \<notin> set (slot_rmap s i)" using s by auto
  show "tunnel_heap s p = Some t \<Longrightarrow> tu_vrf_id t = int i + 1 \<Longrightarrow> p \<in> set (slot_rmap s i)" using s by auto
qed

lemma tunnel_wf_new:
  assumes wf: "tunnel_wf D s" and len: "length (g_ntb_vrfs s) = NTB_NR_VRF"
    and i: "i < NTB_NR_VRF" "valid (g_ntb_vrfs s ! i)"
    and k: "tunnel_map D s k = None" and a: "a = next_addr s"
    and m: "tunnel_map D s' = (tunnel_map D s)(k \<mapsto> a)"
    and h: "tunnel_heap s' = (tunnel_heap s)(a \<mapsto> t)" "tu_vrf_id t = int i + 1"
    and v: "g_ntb_vrfs s' = g_ntb_vrfs (upd_dp i (\<lambda>v. v\<lparr>tunnel_rmap := a # tunnel_rmap v,
         tunnel_cnt := tunnel_cnt v + 1\<rparr>) s)" and nx: "next_addr s' = Suc a"
  shows "tunnel_wf D s'"
proof -
  note l = tunnel_wf_linked [OF wf]
  have fresh: "tunnel_heap s a = None" using linked_fresh [OF l] a by simp
  have "linked (tunnel_map D s') (tunnel_heap s') (next_addr s')"
    unfolding m h nx using linked_new [OF l k, of "Suc a" t] a by simp
  moreover have "\<exists>j < NTB_NR_VRF. tu_vrf_id t' = int j + 1 \<and> valid (g_ntb_vrfs s' ! j)"
    if "tunnel_heap s' p = Some t'" for p t'
  proof -
    have val: "valid (g_ntb_vrfs s' ! j) = valid (g_ntb_vrfs s ! j)" if "j < NTB_NR_VRF" for j
      using that len by (simp add: v)
    show ?thesis
    proof (cases "p = a")
      case True
      then show ?thesis using that h i val by auto
    next
      case False
      then have "tunnel_heap s p = Some t'" using that h by simp
      then obtain j where "j < NTB_NR_VRF" "tu_vrf_id t' = int j + 1" "valid (g_ntb_vrfs s ! j)"
        using wf unfolding tunnel_wf_def by blast
      then show ?thesis using val by blast
    qed
  qed
  moreover have "distinct (slot_rmap s' j)
       \<and> set (slot_rmap s' j) = {p. \<exists>t. tunnel_heap s' p = Some t \<and> tu_vrf_id t = int j + 1}
       \<and> tunnel_cnt (dp (g_ntb_vrfs s' ! j)) = of_nat (length (slot_rmap s' j))" if j: "j < NTB_NR_VRF" for j
  proof -
    have old: "distinct (slot_rmap s j)" "tunnel_cnt (dp (g_ntb_vrfs s ! j)) = of_nat (length (slot_rmap s j))"
      "set (slot_rmap s j) = {p. \<exists>t. tunnel_heap s p = Some t \<and> tu_vrf_id t = int j + 1}"
      using wf j by (auto simp: tunnel_wf_def)
    have "slot_rmap s' j = (if i = j then a # slot_rmap s j else slot_rmap s j)"
      "tunnel_cnt (dp (g_ntb_vrfs s' ! j)) = tunnel_cnt (dp (g_ntb_vrfs s ! j)) + (if i = j then 1 else 0)"
      using j len by (simp_all add: slot_rmap_def v)
    moreover have "a \<notin> set (slot_rmap s j)" using old(3) fresh by auto
    ultimately show ?thesis using old h fresh by auto
  qed
  ultimately show ?thesis unfolding tunnel_wf_def by blast
qed

lemma tunnel_wf_drop:
  assumes wf: "tunnel_wf D s" and len: "length (g_ntb_vrfs s) = NTB_NR_VRF" and i: "i < NTB_NR_VRF"
    and k: "tunnel_map D s k = Some p" and t: "tunnel_heap s p = Some t" "tu_vrf_id t = int i + 1"
    and m: "tunnel_map D s' = (tunnel_map D s)(k := None)"
    and h: "tunnel_heap s' = (tunnel_heap s)(p := None)"
    and v: "g_ntb_vrfs s' = g_ntb_vrfs (upd_dp i (\<lambda>v. v\<lparr>tunnel_rmap := remove1 p (tunnel_rmap v),
         tunnel_cnt := tunnel_cnt v - 1\<rparr>) s)" and nx: "next_addr s' = next_addr s"
  shows "tunnel_wf D s'"
proof -
  note l = tunnel_wf_linked [OF wf]
  have "linked (tunnel_map D s') (tunnel_heap s') (next_addr s')"
    unfolding m h nx by (rule linked_drop [OF l k])
  moreover have "\<exists>j < NTB_NR_VRF. tu_vrf_id t' = int j + 1 \<and> valid (g_ntb_vrfs s' ! j)"
    if "tunnel_heap s' q = Some t'" for q t'
  proof -
    have val: "valid (g_ntb_vrfs s' ! j) = valid (g_ntb_vrfs s ! j)" if "j < NTB_NR_VRF" for j
      using that len by (simp add: v)
    have "tunnel_heap s q = Some t'" using that h by (simp split: if_splits)
    then obtain j where "j < NTB_NR_VRF" "tu_vrf_id t' = int j + 1" "valid (g_ntb_vrfs s ! j)"
      using wf unfolding tunnel_wf_def by blast
    then show ?thesis using val by blast
  qed
  moreover have "distinct (slot_rmap s' j)
       \<and> set (slot_rmap s' j) = {p. \<exists>t. tunnel_heap s' p = Some t \<and> tu_vrf_id t = int j + 1}
       \<and> tunnel_cnt (dp (g_ntb_vrfs s' ! j)) = of_nat (length (slot_rmap s' j))" if j: "j < NTB_NR_VRF" for j
  proof -
    have old: "distinct (slot_rmap s j)" "tunnel_cnt (dp (g_ntb_vrfs s ! j)) = of_nat (length (slot_rmap s j))"
      "set (slot_rmap s j) = {p. \<exists>t. tunnel_heap s p = Some t \<and> tu_vrf_id t = int j + 1}"
      using wf j by (auto simp: tunnel_wf_def)
    have new: "slot_rmap s' j = (if i = j then remove1 p (slot_rmap s j) else slot_rmap s j)"
      "tunnel_cnt (dp (g_ntb_vrfs s' ! j)) = tunnel_cnt (dp (g_ntb_vrfs s ! j)) - (if i = j then 1 else 0)"
      using j len by (simp_all add: slot_rmap_def v)
    have p: "p \<in> set (slot_rmap s j) \<longleftrightarrow> i = j" using old(3) t by auto
    then have "length (slot_rmap s j) = Suc (length (remove1 p (slot_rmap s j)))" if "i = j"
      using that by (simp add: length_remove1) (metis Suc_pred length_pos_if_in_set)
    then show ?thesis using old new p h by (auto simp: set_remove1_eq)
  qed
  ultimately show ?thesis unfolding tunnel_wf_def by blast
qed


text \<open>The VRF of a tunnel, as the unmapping finds it, and the release of the tunnel.\<close>

lemma tunnel_owner:
  assumes wf: "tunnel_wf D s" and ids: "vrf_ids_ok s" and k: "tunnel_map D s k = Some p"
  obtains t i where "tunnel_heap s p = Some t" "p \<noteq> 0" "i < NTB_NR_VRF" "tu_vrf_id t = int i + 1"
    "valid (g_ntb_vrfs s ! i)" "ntb_vrf_dp_get_by_id (of_int (tu_vrf_id t)) s = Inr (Some i)"
    "slist_remove (tunnel_heap s) (slot_rmap s i) p = Inr (remove1 p (slot_rmap s i))"
proof -
  note len = vrf_ids_ok_length [OF ids]
  obtain t where t: "tunnel_heap s p = Some t" "p \<noteq> 0"
    using linked_load [OF tunnel_wf_linked [OF wf] k] by blast
  then obtain i where i: "i < NTB_NR_VRF" "tu_vrf_id t = int i + 1" "valid (g_ntb_vrfs s ! i)"
    using wf unfolding tunnel_wf_def by blast
  have "ntb_vrf_dp_get_by_id (of_int (tu_vrf_id t)) s = Inr (Some i)"
    unfolding i(2) using get_by_id_slot [OF i(1) len] i(3) by simp
  moreover have "slist_remove (tunnel_heap s) (slot_rmap s i) p = Inr (remove1 p (slot_rmap s i))"
    using tunnel_wf_rmap [OF wf i(1)] t(1) i(2) by (intro slist_remove_member) auto
  ultimately show thesis using that t i by blast
qed

lemma tunnel_view_drop:
  assumes l: "linked (tunnel_map D s) (tunnel_heap s) nx" and k: "tunnel_map D s (TunnelKey ty tid) = Some p"
    and m: "tunnel_map D s' = (tunnel_map D s)(TunnelKey ty tid := None)"
    and h: "tunnel_heap s' = (tunnel_heap s)(p := None)"
  shows "tunnel_view D s' = (tunnel_view D s)((ty, tid) := None)"
proof
  fix x
  have "q \<noteq> p" if "tunnel_map D s (TunnelKey (fst x) (snd x)) = Some q" "x \<noteq> (ty, tid)" for q
    using linked_inj [OF l k] that by (cases x) auto
  then show "tunnel_view D s' x = ((tunnel_view D s)((ty, tid) := None)) x"
    by (cases x) (auto simp: tunnel_view_def m h split: option.split)
qed

lemma tunnel_view_new:
  assumes l: "linked (tunnel_map D s) (tunnel_heap s) nx" and nx: "nx \<le> a"
    and m: "tunnel_map D s' = (tunnel_map D s)(TunnelKey ty tid \<mapsto> a)"
    and h: "tunnel_heap s' = (tunnel_heap s)(a \<mapsto> t)"
  shows "tunnel_view D s' = (tunnel_view D s)((ty, tid) \<mapsto> tu_vrf_id t)"
proof
  fix x
  have "q \<noteq> a" if "tunnel_map D s (TunnelKey (fst x) (snd x)) = Some q" for q
    using linked_load [OF l that] nx by auto
  then show "tunnel_view D s' x = ((tunnel_view D s)((ty, tid) \<mapsto> tu_vrf_id t)) x"
    by (cases x) (auto simp: tunnel_view_def m h split: option.split)
qed

lemma unmap_bak_effect:
  assumes off: "\<not> assert_on D" and wf: "tunnel_wf D s" and ids: "vrf_ids_ok s"
    and k: "tunnel_map D s (TunnelKey ty tid) = Some p"
  shows "\<exists>s'. ntb_tunnel_unmap_vrf_bak D ty tid s = Inr (0, s') \<and> tunnel_wf D s' \<and> tunnel_frame s s'
    \<and> tunnel_view D s' = (tunnel_view D s)((ty, tid) := None)"
proof -
  note len = vrf_ids_ok_length [OF ids]
  obtain t i where t: "tunnel_heap s p = Some t" "p \<noteq> 0" "i < NTB_NR_VRF" "tu_vrf_id t = int i + 1"
    "ntb_vrf_dp_get_by_id (of_int (tu_vrf_id t)) s = Inr (Some i)"
    "slist_remove (tunnel_heap s) (slot_rmap s i) p = Inr (remove1 p (slot_rmap s i))"
    using tunnel_owner [OF wf ids k] by metis
  obtain r tb where tb: "rte_hash_del_key (hash D) (vrf_hash_tbl s) (TunnelKey ty tid) = (r, tb)" by fastforce
  have r: "0 \<le> r" using del_present [OF _ tb] k by (simp add: tunnel_map_def)
  let ?s = "upd_dp i (\<lambda>v. v\<lparr>tunnel_rmap := remove1 p (tunnel_rmap (dp (g_ntb_vrfs s ! i))),
      tunnel_cnt := tunnel_cnt v - 1\<rparr>) (free_tunnel p (s\<lparr>vrf_hash_tbl := tb\<rparr>))"
  have run: "ntb_tunnel_unmap_vrf_bak D ty tid s = Inr (0, ?s)"
    using k t off tb r len
    by (simp add: ntb_tunnel_unmap_vrf_bak_def tunnel_map_def tunnel_unmap_bak_def tunnel_release_def
        slot_rmap_def)
  have m: "tunnel_map D ?s = (tunnel_map D s)(TunnelKey ty tid := None)"
    using del_lookup [OF tb] by (simp add: tunnel_map_def free_tunnel_def)
  have "tunnel_wf D ?s"
    by (rule tunnel_wf_drop [OF wf len t(3) k t(1,4) m])
      (simp_all add: free_tunnel_def upd_dp_vrfs)
  moreover have "tunnel_frame s ?s" by (simp add: tunnel_frame_simps)
  moreover have "tunnel_view D ?s = (tunnel_view D s)((ty, tid) := None)"
    by (rule tunnel_view_drop [OF tunnel_wf_linked [OF wf] k m]) (simp add: free_tunnel_def)
  ultimately show ?thesis using run by blast
qed

text \<open>The current unmapping frees the object and leaves the table entry behind.\<close>

lemma unmap_dangles:
  assumes off: "\<not> assert_on D" and wf: "tunnel_wf D s" and ids: "vrf_ids_ok s"
    and k: "tunnel_map D s (TunnelKey ty tid) = Some p"
  shows "\<exists>s'. ntb_tunnel_unmap_vrf D ty tid s = Inr (0, s') \<and> tunnel_map D s' (TunnelKey ty tid) = Some p
    \<and> tunnel_heap s' p = None \<and> p \<noteq> 0"
proof -
  define s1 where "s1 = snd (shc_hal_tunnel_map_vrf_entry_del D ty tid s)"
  have s1: "s1 = s\<lparr>hw_state := hw_state s1\<rparr>"
    by (auto simp: s1_def shc_hal_tunnel_map_vrf_entry_del_def split: prod.split)
  have same: "tunnel_heap s1 = tunnel_heap s" "tunnel_map D s1 = tunnel_map D s" "g_ntb_vrfs s1 = g_ntb_vrfs s"
    "next_addr s1 = next_addr s"
    by (subst s1, simp add: tunnel_map_def)+
  have wf1: "tunnel_wf D s1" "vrf_ids_ok s1"
    using wf ids same by (simp_all add: tunnel_wf_def slot_rmap_def vrf_ids_ok_def vrf_ids_def)
  have k1: "tunnel_map D s1 (TunnelKey ty tid) = Some p" using k same by simp
  obtain t i where t: "tunnel_heap s1 p = Some t" "p \<noteq> 0" "i < NTB_NR_VRF" "tu_vrf_id t = int i + 1"
    "ntb_vrf_dp_get_by_id (of_int (tu_vrf_id t)) s1 = Inr (Some i)"
    "slist_remove (tunnel_heap s1) (slot_rmap s1 i) p = Inr (remove1 p (slot_rmap s1 i))"
    using tunnel_owner [OF wf1 k1] by metis
  let ?s = "upd_dp i (\<lambda>v. v\<lparr>tunnel_rmap := remove1 p (slot_rmap s1 i), tunnel_cnt := tunnel_cnt v - 1\<rparr>)
    (free_tunnel p s1)"
  have "ntb_tunnel_unmap_vrf D ty tid s = Inr (0, ?s)"
    using k t off vrf_ids_ok_length [OF wf1(2)]
    by (simp add: ntb_tunnel_unmap_vrf_def tunnel_map_def s1_def [symmetric] tunnel_release_def slot_rmap_def Let_def)
  moreover have "tunnel_map D ?s (TunnelKey ty tid) = Some p"
    using k1 by (simp add: tunnel_map_def free_tunnel_def)
  ultimately show ?thesis using t(2) by (simp add: free_tunnel_def)
qed

end

end
