(* ===== verification/Ntb_Vrf_Life.thy ===== *)
theory Ntb_Vrf_Life
  imports Ntb_Route_Ops Ntb_Tunnel
begin

text \<open>
  The life cycle of the VRF table (\<^verbatim>\<open>agent/vrf.c\<close>): the initialisation of the tables and the deletion
  of a VRF, which first cleans up the routes and then the tunnels of the VRF.
\<close>

subsection \<open>Deletion\<close>

definition ntb_vrf_dp_dtor ::
  "('t, 'b, 'f, 'h) env \<Rightarrow> nat \<Rightarrow> ('t, 'b, 'f, 'h) agent
    \<Rightarrow> (int \<times> ('t, 'b, 'f, 'h) agent) outcome option" where
  "ntb_vrf_dp_dtor D i s = map_option (\<lambda>r. bindR r (\<lambda>(_, s1).
     bindR (ntb_tunnel_map_cleanup i s1) (\<lambda>(_, s2).
       Inr (0, upd_dp i (\<lambda>v. v\<lparr>internal_ip := 0\<rparr>) s2)))) (ntb_route_cleanup D i s)"

definition vrf_clear :: "'f ntb_vrf \<Rightarrow> 'f ntb_vrf" where
  "vrf_clear v = v\<lparr>vname := (vname v)[0 := CHR 0x00], valid := False\<rparr>"

definition ntb_vrf_del ::
  "('t, 'b, 'f, 'h) env \<Rightarrow> string \<Rightarrow> ('t, 'b, 'f, 'h) agent
    \<Rightarrow> (int \<times> ('t, 'b, 'f, 'h) agent) outcome option" where
  "ntb_vrf_del D vrf_name s = (case vrf_find (g_ntb_vrfs s) 0 vrf_name of
     Inl f \<Rightarrow> Some (Inl f)
   | Inr None \<Rightarrow> Some (Inr (0, s))
   | Inr (Some i) \<Rightarrow> map_option (\<lambda>r. bindR r (\<lambda>(_, s1).
       let s2 = s1\<lparr>g_ntb_vrfs := (g_ntb_vrfs s1)[i := vrf_clear (g_ntb_vrfs s1 ! i)]\<rparr> in
       bindR (rte_assert D (g_ntb_vrf_n s2 > 0)) (\<lambda>_.
         Inr (0, s2\<lparr>g_ntb_vrf_n := g_ntb_vrf_n s2 - 1\<rparr>)))) (ntb_vrf_dp_dtor D i s))"

subsection \<open>Initialisation\<close>

text \<open>
  \<^verbatim>\<open>memset(vrf, 0, sizeof(*vrf))\<close> and the assignments that follow it. The null table pointers of the
  moment between are not modelled: \<^verbatim>\<open>ntb_vrf_route_init\<close> sets them before anything reads them.
\<close>

definition vrf_fresh :: "nat \<Rightarrow> 'f ntb_vrf \<Rightarrow> 'f ntb_vrf" where
  "vrf_fresh i v = \<lparr>vname = replicate NTB_VRF_NAME_LEN (CHR 0x00), valid = False,
     dp = \<lparr>dp_fib = dp_fib (dp v), rib_cnt = 0, tunnel_rmap = [], tunnel_cnt = 0, neigh_cnt = 0,
            internal_ip = 0, route_mac = replicate 6 0, vrf_id = int i + 1\<rparr>\<rparr>"

fun vrf_init_loop ::
  "('t, 'b, 'f, 'h) env \<Rightarrow> int \<Rightarrow> nat list \<Rightarrow> 't option \<Rightarrow> ('t, 'b, 'f, 'h) agent
    \<Rightarrow> ('t, 'b, 'f, 'h) agent outcome" where
  "vrf_init_loop D bh [] tbl s = Inr s"
| "vrf_init_loop D bh (i # is) tbl s = bindR (read_at (g_ntb_vrfs s) i) (\<lambda>v.
     bindR (ntb_vrf_route_init D i bh tbl (s\<lparr>g_ntb_vrfs := (g_ntb_vrfs s)[i := vrf_fresh i v]\<rparr>))
       (\<lambda>(ret, tbl', s'). bindR (rte_assert D (ret = 0)) (\<lambda>_. vrf_init_loop D bh is tbl' s')))"

definition ntb_vrf_init ::
  "('t, 'b, 'f, 'h) env \<Rightarrow> ('t, 'b, 'f, 'h) agent \<Rightarrow> (int \<times> ('t, 'b, 'f, 'h) agent) outcome" where
  "ntb_vrf_init D s = (case rte_fbarray_init (fbarray D) (NTB_NR_FIB_RES_ALL + 1) of (ret, b) \<Rightarrow>
     bindR (rte_assert D (ret = 0)) (\<lambda>_.
     let bh = rte_fbarray_find_next_free (fbarray D) b 0 in
     bindR (rte_assert D (bh \<ge> 0)) (\<lambda>_.
     case rte_fbarray_set_used (fbarray D) b (nat bh) of (ret, b') \<Rightarrow>
       bindR (rte_assert D (0 = ret)) (\<lambda>_.
       let s1 = s\<lparr>g_fib_res_array := b', f_res_blackhole := bh\<rparr>; p = rte_fbarray_get D s1 bh in
       bindR (load_res s1 p) (\<lambda>r.
       let s2 = store_res (the p) (fib_res_set_flags FRF_REJECT r) s1 in
       bindR (vrf_init_loop D bh [0..<length (g_ntb_vrfs s2)] None s2) (\<lambda>s3.
       bindR (ntb_nhop_init D s3) (\<lambda>s4. Inr (0, s4))))))))"

text \<open>The tables of \<^verbatim>\<open>ntb_dp_init\<close>, in the order it initialises them.\<close>

definition tables_init ::
  "('t, 'b, 'f, 'h) env \<Rightarrow> ('t, 'b, 'f, 'h) agent \<Rightarrow> (int \<times> ('t, 'b, 'f, 'h) agent) outcome" where
  "tables_init D s = bindR (ntb_vrf_init D s) (\<lambda>(r, s1). if r < 0 then Inl ProcessExit
     else bindR (ntb_tunnel_map_vrf_init D s1) (\<lambda>(r, s2). if r < 0 then Inl ProcessExit
     else bindR (ntb_neigh_init D s2) (\<lambda>(r, s3). if r < 0 then Inl ProcessExit else Inr (0, s3))))"

text \<open>The state of the process before the initialisation: zeroed memory and no object allocated.\<close>

definition fib_res_zero :: fib_res where
  "fib_res_zero = \<lparr>f_res_oid = 0, fr_flags = 0, mpath_cnt = 0, mpath_max = 0,
     mpath = replicate ROUTE_MAX_ECMP 0\<rparr>"

definition boot :: "('t, 'b, 'f, 'h) agent \<Rightarrow> bool" where
  "boot s \<longleftrightarrow> length (g_ntb_vrfs s) = NTB_NR_VRF \<and> g_ntb_vrf_n s = 0
    \<and> fib_res_mem s = (\<lambda>_. fib_res_zero) \<and> ol_neigh_count s = 0 \<and> nhop_heap s = Map.empty
    \<and> neigh_heap s = Map.empty \<and> tunnel_heap s = Map.empty \<and> 0 < next_addr s"

text \<open>The blackhole result: it rejects, and its path is null.\<close>

definition blackhole_ok :: "('t, 'b, 'f, 'h) agent \<Rightarrow> bool" where
  "blackhole_ok s \<longleftrightarrow> (let r = fib_res_mem s (nat (f_res_blackhole s)) in
     fib_res_is_reject r \<and> mpath_cnt r = 0 \<and> mpath r = [0])"

subsection \<open>Initialisation establishes the invariants\<close>

lemma vrf_ids_ok_nthI:
  assumes "length (g_ntb_vrfs s) = NTB_NR_VRF"
    and "\<And>i. i < NTB_NR_VRF \<Longrightarrow> vrf_id (dp (g_ntb_vrfs s ! i)) = int i + 1"
  shows "vrf_ids_ok s"
  unfolding vrf_ids_ok_def vrf_ids_def using assms by (intro nth_equalityI) auto

text \<open>A VRF as the initialisation leaves it.\<close>

definition vrf_initial :: "('f \<Rightarrow> bool) \<Rightarrow> nat \<Rightarrow> 'f ntb_vrf \<Rightarrow> bool" where
  "vrf_initial P i v \<longleftrightarrow> \<not> valid v \<and> rib_cnt (dp v) = 0 \<and> tunnel_rmap (dp v) = [] \<and> tunnel_cnt (dp v) = 0
    \<and> neigh_cnt (dp v) = 0 \<and> vrf_id (dp v) = int i + 1 \<and> P (dp_fib (dp v))"

text \<open>All tables empty, the blackhole at index 0.\<close>

definition initialised ::
  "('t, 'b, 'f, 'h) env \<Rightarrow> ('b \<Rightarrow> nat set) \<Rightarrow> ('f \<Rightarrow> (u32 \<times> u8 \<rightharpoonup> nat)) \<Rightarrow> ('f \<Rightarrow> nat)
    \<Rightarrow> ('t, 'b, 'f, 'h) agent \<Rightarrow> bool" where
  "initialised D used rts dflt s \<longleftrightarrow> length (g_ntb_vrfs s) = NTB_NR_VRF \<and> g_ntb_vrf_n s = 0
    \<and> f_res_blackhole s = 0
    \<and> (\<forall>i < NTB_NR_VRF. vrf_initial (\<lambda>f. rts f = Map.empty \<and> dflt f = 0) i (g_ntb_vrfs s ! i))
    \<and> rib_map D s = Map.empty \<and> nhop_map D s = Map.empty \<and> tunnel_map D s = Map.empty
    \<and> neigh_map D s = Map.empty \<and> used (g_fib_res_array s) = {0}
    \<and> rte_fbarray_len (fbarray D) (g_fib_res_array s) = NTB_NR_FIB_RES_ALL + 1
    \<and> fib_res_mem s 0 = fib_res_set_flags FRF_REJECT fib_res_zero
    \<and> nhop_heap s = Map.empty \<and> neigh_heap s = Map.empty \<and> tunnel_heap s = Map.empty
    \<and> 0 < next_addr s \<and> ol_neigh_count s = 0"

context dpdk_env
begin

lemma vrf_init_loop_effect:
  assumes "vrf_init_loop D bh [k..<n] tbl s = Inr s'" and "length (g_ntb_vrfs s) = n" and "k \<le> n"
    and "\<And>i. i < k \<Longrightarrow> vrf_initial (\<lambda>f. fib_routes f = Map.empty \<and> fib_default f = nat bh) i (g_ntb_vrfs s ! i)"
    and "case tbl of None \<Rightarrow> k = 0 \<and> 0 < n
      | Some t \<Rightarrow> ntb_rib_hash_tbl s = t \<and> rte_hash_lookup_data (hash D) t = Map.empty"
  shows "(\<exists>vs t. s' = s\<lparr>g_ntb_vrfs := vs, ntb_rib_hash_tbl := t\<rparr> \<and> length vs = n \<and>
      rte_hash_lookup_data (hash D) t = Map.empty \<and>
      (\<forall>i < n. vrf_initial (\<lambda>f. fib_routes f = Map.empty \<and> fib_default f = nat bh) i (vs ! i)))"
  using assms
proof (induction "n - k" arbitrary: k tbl s)
  case 0
  then show ?case
    by (intro exI [of _ "g_ntb_vrfs s"] exI [of _ "ntb_rib_hash_tbl s"]) (auto split: option.splits)
next
  case (Suc m)
  then have k: "k < n" "[k..<n] = k # [Suc k..<n]" by (simp_all add: upt_conv_Cons)
  let ?s1 = "s\<lparr>g_ntb_vrfs := (g_ntb_vrfs s)[k := vrf_fresh k (g_ntb_vrfs s ! k)]\<rparr>"
  from Suc.prems(1) k Suc.prems(2) obtain ret tbl' s2 where r:
    "ntb_vrf_route_init D k bh tbl ?s1 = Inr (ret, tbl', s2)" "vrf_init_loop D bh [Suc k..<n] tbl' s2 = Inr s'"
    by (auto simp: bindR_eq_Inr split: if_splits)
  from r(1) obtain t f where tf: "tbl' = Some t" "s2 = upd_dp k (\<lambda>v. v\<lparr>dp_fib := f\<rparr>) (?s1\<lparr>ntb_rib_hash_tbl := t\<rparr>)"
    "rte_fib_create (fib D) NTB_NR_ROUTES_ALL (nat bh) = Some f" "rte_hash_lookup_data (hash D) t = Map.empty"
    using Suc.prems(5) reset_empty
    by (auto simp: ntb_vrf_route_init_def bindR_eq_Inr fun_eq_iff split: option.splits if_splits)
  note fc = fib_create [OF tf(3)]
  have init: "vrf_initial (\<lambda>f. fib_routes f = Map.empty \<and> fib_default f = nat bh) i (g_ntb_vrfs s2 ! i)"
    if "i < Suc k" for i
    using that Suc.prems(2,4) k(1) fc
    by (cases "i = k") (auto simp: tf(2) vrf_initial_def vrf_fresh_def)
  have len: "length (g_ntb_vrfs s2) = n" using Suc.prems(2) by (simp add: tf(2))
  have tbl: "case tbl' of None \<Rightarrow> Suc k = 0 \<and> 0 < n
      | Some t \<Rightarrow> ntb_rib_hash_tbl s2 = t \<and> rte_hash_lookup_data (hash D) t = Map.empty"
    using tf by simp
  have "m = n - Suc k" "Suc k \<le> n" using Suc.hyps(2) k(1) by simp_all
  from Suc.hyps(1) [OF this(1) r(2) len this(2) init tbl]
  have "\<exists>vs t. s' = s2\<lparr>g_ntb_vrfs := vs, ntb_rib_hash_tbl := t\<rparr> \<and> length vs = n \<and>
      rte_hash_lookup_data (hash D) t = Map.empty \<and>
      (\<forall>i < n. vrf_initial (\<lambda>f. fib_routes f = Map.empty \<and> fib_default f = nat bh) i (vs ! i))" .
  then show ?case by (auto simp: tf(2) upd_dp_def)
qed

text \<open>The result array has the blackhole at index 0 and nothing else.\<close>

lemma fbarray_init_first:
  assumes "rte_fbarray_init (fbarray D) (Suc n) = (0, b)"
  shows "rte_fbarray_find_next_free (fbarray D) b 0 = 0"
proof -
  have b: "rte_fbarray_len (fbarray D) b = Suc n" "fb_used b = {}" using init_ok [OF assms] by simp_all
  let ?r = "rte_fbarray_find_next_free (fbarray D) b 0"
  have "0 \<le> ?r"
  proof (rule ccontr)
    assume "\<not> 0 \<le> ?r"
    then show False using find_full [of b 0 0] b by simp
  qed
  moreover have "\<not> 0 < nat ?r" using find_least [OF refl \<open>0 \<le> ?r\<close>, of 0] b by auto
  ultimately show ?thesis by linarith
qed

text \<open>The state after a successful initialisation.\<close>

lemma tables_init_effect:
  assumes b: "boot s" and i: "tables_init D s = Inr (r, s')" and r: "0 \<le> r"
    and fb: "fst (rte_fbarray_init (fbarray D) (NTB_NR_FIB_RES_ALL + 1)) = 0"
  shows "initialised D fb_used fib_routes fib_default s'"
proof -
  obtain b where ini: "rte_fbarray_init (fbarray D) (Suc NTB_NR_FIB_RES_ALL) = (0, b)"
    using fb by (metis Suc_eq_plus1 prod.collapse)
  note bl = init_ok [OF ini]
  note bh = fbarray_init_first [OF ini]
  obtain r2 b' where b': "rte_fbarray_set_used (fbarray D) b 0 = (r2, b')" by fastforce
  have u: "fb_used b' = {0}" "rte_fbarray_len (fbarray D) b' = Suc NTB_NR_FIB_RES_ALL"
    using set_used [OF _ b'] bl by simp_all
  obtain rv s1 where s1: "ntb_vrf_init D s = Inr (rv, s1)" using i by (auto simp: tables_init_def bindR_eq_Inr)
  define s2 where "s2 = (s\<lparr>g_fib_res_array := b', f_res_blackhole := 0\<rparr>)
    \<lparr>fib_res_mem := (fib_res_mem s)(0 := fib_res_set_flags FRF_REJECT fib_res_zero)\<rparr>"
  have mem: "fib_res_mem s 0 = fib_res_zero" "length (g_ntb_vrfs s) = NTB_NR_VRF" using b by (simp_all add: boot_def)
  obtain s3 where s3: "vrf_init_loop D 0 [0..<NTB_NR_VRF] None s2 = Inr s3" "ntb_nhop_init D s3 = Inr s1"
    using s1 ini bh b' u mem
    by (auto simp: ntb_vrf_init_def bindR_eq_Inr rte_fbarray_get_def Let_def store_res_def s2_def
        split: if_splits)
  have len2: "length (g_ntb_vrfs s2) = NTB_NR_VRF" using mem(2) by (simp add: s2_def)
  obtain vs t where t: "s3 = s2\<lparr>g_ntb_vrfs := vs, ntb_rib_hash_tbl := t\<rparr>" "length vs = NTB_NR_VRF"
      "rte_hash_lookup_data (hash D) t = Map.empty"
      "\<forall>i < NTB_NR_VRF. vrf_initial (\<lambda>f. fib_routes f = Map.empty \<and> fib_default f = 0) i (vs ! i)"
    using vrf_init_loop_effect [OF s3(1) len2] by auto
  obtain tn where n: "s1 = s3\<lparr>g_nhop_hash_tbl := rte_hash_reset (hash D) tn\<rparr>"
    using s3(2) by (auto simp: ntb_nhop_init_def split: option.splits if_splits)
  have rv: "rv = 0" using s1 by (auto simp: ntb_vrf_init_def bindR_eq_Inr Let_def split: if_splits prod.splits)
  obtain tt tg where fin: "s' = s1\<lparr>vrf_hash_tbl := rte_hash_reset (hash D) tt,
      ol_neigh_hash_tbl := rte_hash_reset (hash D) tg\<rparr>"
    using i s1 rv
    by (auto simp: tables_init_def ntb_tunnel_map_vrf_init_def ntb_neigh_init_def bindR_eq_Inr
        split: option.splits if_splits)
  have empty: "rte_hash_lookup_data (hash D) (rte_hash_reset (hash D) x) = Map.empty" for x
    using reset_empty by (simp add: fun_eq_iff)
  show ?thesis
    using t u b by (simp add: initialised_def fin n t(1) s2_def boot_def empty map_defs)
qed

lemma initialised_inv:
  assumes "initialised D fb_used fib_routes fib_default s'"
  shows "route_inv D fb_used s'" "fib_inv D fib_routes fib_default fam s'" "tunnel_wf D s'" "vrf_wf s'"
    "blackhole_ok s'" "neigh_counted D s'" "route_view D s' = Map.empty" "tunnel_view D s' = Map.empty"
    "vrf_view s' = Map.empty"
proof -
  note e = assms [unfolded initialised_def]
  have ids: "vrf_ids_ok s'" using e by (intro vrf_ids_ok_nthI) (auto simp: vrf_initial_def)
  have nw: "neigh_wf D s'" using e by (simp add: neigh_wf_def linked_def)
  show "neigh_counted D s'" using ids nw e by (simp add: neigh_counted_def)
  have "nhop_users D s' p = 0" for p using e by (simp add: nhop_users_def path_users_def)
  then have "nhop_wf D (nhop_users D s') s'" using e by (simp add: nhop_wf_def linked_def)
  moreover have "rib_wf D fb_used s'" using e by (simp add: rib_wf_def NTB_NR_FIB_RES_ALL_def)
  moreover have "rib_counts D s'" using e by (simp add: rib_counts_def vrf_prefixes_def vrf_initial_def)
  ultimately show "route_inv D fb_used s'" using ids nw by (simp add: route_inv_def)
  show "fib_inv D fib_routes fib_default fam s'" using e by (simp add: fib_inv_def vrf_initial_def)
  show "tunnel_wf D s'" using e by (simp add: tunnel_wf_def linked_def slot_rmap_def vrf_initial_def)
  have val: "\<not> valid (g_ntb_vrfs s' ! i)" if "i < NTB_NR_VRF" for i using e that by (simp add: vrf_initial_def)
  show "vrf_wf s'" unfolding vrf_wf_def all_set_conv_all_nth using ids e val by auto
  show "blackhole_ok s'"
    using e by (simp add: blackhole_ok_def fib_res_zero_def fib_res_set_flags_def fib_res_is_reject_def
        FRF_REJECT_def ROUTE_MAX_ECMP_def)
  show "route_view D s' = Map.empty" "tunnel_view D s' = Map.empty"
    using e by (simp_all add: route_view_def tunnel_view_def fun_eq_iff)
  show "vrf_view s' = Map.empty" using e val by (auto simp: fun_eq_iff vrf_view_None_iff vrf_named_def)
qed

end

subsection \<open>A concrete agent\<close>

text \<open>
  The process as the loader leaves it, in the reference environment, and the state all witnesses
  start from.
\<close>

type_synonym ref_state = "(ref_hash, ref_fbarray, ref_fib, hw) agent"

definition ref_vrf :: "nat \<Rightarrow> ref_fib ntb_vrf" where
  "ref_vrf i = \<lparr>vname = replicate NTB_VRF_NAME_LEN (CHR 0x00), valid = False,
     dp = \<lparr>dp_fib = (NTB_NR_ROUTES_ALL, 0, []), rib_cnt = 0, tunnel_rmap = [], tunnel_cnt = 0, neigh_cnt = 0,
            internal_ip = 0, route_mac = replicate 6 0, vrf_id = int i + 1\<rparr>\<rparr>"

definition ref_boot :: ref_state where
  "ref_boot = \<lparr>g_ntb_vrfs = map ref_vrf [0..<NTB_NR_VRF], g_ntb_vrf_n = 0, g_fib_res_array = (0, []),
     fib_res_mem = (\<lambda>_. fib_res_zero), f_res_blackhole = - 1, ntb_rib_hash_tbl = (0, []),
     g_nhop_hash_tbl = (0, []), ol_neigh_hash_tbl = (0, []), ol_neigh_count = 0, vrf_hash_tbl = (0, []),
     nhop_heap = Map.empty, neigh_heap = Map.empty, tunnel_heap = Map.empty, next_addr = 1,
     fake_mac = default_mac, def_gw_mac = default_mac, hw_state = hw_empty\<rparr>"

definition ref_agent :: ref_state where
  "ref_agent = ref_boot\<lparr>g_fib_res_array := (NTB_NR_FIB_RES_ALL + 1, [0]),
     fib_res_mem := (\<lambda>_. fib_res_zero)(0 := fib_res_set_flags FRF_REJECT fib_res_zero),
     f_res_blackhole := 0, ntb_rib_hash_tbl := (NTB_NR_ROUTES_ALL * 2, []),
     g_nhop_hash_tbl := (NTB_NR_NHOP_ALL, []), ol_neigh_hash_tbl := (MAX_VRF_GW_HASH_ENT * 6, []),
     vrf_hash_tbl := (NTB_NR_TUNNEL_ALL * 8, [])\<rparr>"

lemma ref_boot_boot: "boot ref_boot"
  by (simp add: boot_def ref_boot_def)

lemma ref_vrf_init_loop:
  "length (g_ntb_vrfs s) = n \<Longrightarrow> \<exists>s'. vrf_init_loop (ref_env a ok) bh [k..<n] tbl s = Inr s'"
proof (induction "n - k" arbitrary: k tbl s)
  case 0
  then show ?case by simp
next
  case (Suc m)
  then have k: "k < n" "[k..<n] = k # [Suc k..<n]" by (simp_all add: upt_conv_Cons)
  let ?s1 = "s\<lparr>g_ntb_vrfs := (g_ntb_vrfs s)[k := vrf_fresh k (g_ntb_vrfs s ! k)]\<rparr>"
  obtain t f where "ntb_vrf_route_init (ref_env a ok) k bh tbl ?s1 =
      Inr (0, Some t, upd_dp k (\<lambda>v. v\<lparr>dp_fib := f\<rparr>) (?s1\<lparr>ntb_rib_hash_tbl := t\<rparr>))"
    by (cases tbl) (auto simp: ntb_vrf_route_init_def ref_hash_api_def ref_fib_api_def Let_def)
  then show ?case
    using Suc.hyps(1) [of "Suc k" "upd_dp k (\<lambda>v. v\<lparr>dp_fib := f\<rparr>) (?s1\<lparr>ntb_rib_hash_tbl := t\<rparr>)" "Some t"]
      Suc.hyps(2) Suc.prems k by simp
qed

lemma ref_tables_init: "\<exists>s'. tables_init (ref_env a ok) ref_boot = Inr (0, s')"
proof -
  let ?s2 = "store_res 0 (fib_res_set_flags FRF_REJECT fib_res_zero)
    (ref_boot\<lparr>g_fib_res_array := (NTB_NR_FIB_RES_ALL + 1, [0]), f_res_blackhole := 0\<rparr>)"
  obtain s3 where "vrf_init_loop (ref_env a ok) 0 [0..<NTB_NR_VRF] None ?s2 = Inr s3"
    using ref_vrf_init_loop [of ?s2 NTB_NR_VRF a ok 0 0 None] by (auto simp: ref_boot_def)
  then have "ntb_vrf_init (ref_env a ok) ref_boot = Inr (0, s3\<lparr>g_nhop_hash_tbl := (NTB_NR_NHOP_ALL, [])\<rparr>)"
    by (simp add: ntb_vrf_init_def ntb_nhop_init_def ref_hash_api_def ref_fbarray_api_def ref_fb_find_def
        rte_fbarray_get_def Let_def) (simp add: ref_boot_def)
  then show ?thesis
    by (simp add: tables_init_def ntb_tunnel_map_vrf_init_def ntb_neigh_init_def ref_hash_api_def)
qed

lemma ref_agent_initialised:
  "initialised (ref_env a ok) (\<lambda>b. set (snd b)) ref_fib_routes ref_fib_default ref_agent"
  by (simp add: initialised_def ref_agent_def ref_boot_def vrf_initial_def ref_vrf_def ref_fib_routes_def
      ref_fib_default_def ref_fbarray_api_def ref_hash_api_def map_defs fun_eq_iff)

lemmas ref_agent_inv = ref.initialised_inv [OF ref_agent_initialised]

end
