(* ===== verification/Ntb_Control.thy ===== *)
theory Ntb_Control
  imports Ntb_Vrf_Life
begin

text \<open>
  The control plane as a state machine: the requests the management interface issues, run one after
  the other on the tables that \<^verbatim>\<open>ntb_dp_init\<close> set up. \<open>agent_inv\<close> is the invariant of all tables
  together; every admissible request returns (none faults, the cleanup loop ends) and keeps it.
\<close>

subsection \<open>Requests\<close>

datatype ctl_op =
    VrfAdd string
  | VrfDel string
  | IntipSet string u32
  | RmacSet string "u8 list"
  | RmacUnset string "u8 list"
  | RouteInsert nat ntb_rib_key fib_nhop_encap_data rib_type
  | RouteDelete nat ntb_rib_key
  | NhopDelete nat ntb_rib_key fib_nhop_encap_data rib_type
  | NeighAdd nat u32
  | NeighDel nat u32
  | TunnelMap string ntb_tunnel_type ntb_tunnel_id ntb_tunnel_attr

definition ctl_run ::
  "('t, 'b, 'f, 'h) env \<Rightarrow> ctl_op \<Rightarrow> ('t, 'b, 'f, 'h) agent
    \<Rightarrow> (int \<times> ('t, 'b, 'f, 'h) agent) outcome option" where
  "ctl_run D req s = (case req of
     VrfAdd n \<Rightarrow> Some (ntb_vrf_add n s)
   | VrfDel n \<Rightarrow> ntb_vrf_del D n s
   | IntipSet n ip \<Rightarrow> Some (ntb_vrf_intip_set n ip s)
   | RmacSet n m \<Rightarrow> Some (ntb_vrf_rmac_set n m s)
   | RmacUnset n m \<Rightarrow> Some (ntb_vrf_rmac_unset n m s)
   | RouteInsert i pfx e rt \<Rightarrow> Some (ntb_route_nhop_insert D i pfx e rt s)
   | RouteDelete i pfx \<Rightarrow> Some (ntb_route_delete D i pfx s)
   | NhopDelete i pfx e rt \<Rightarrow> Some (ntb_route_nhop_delete D i pfx e rt s)
   | NeighAdd i gw \<Rightarrow> Some (neigh_acquire D (i, gw) s)
   | NeighDel i gw \<Rightarrow> Some (neigh_release D (i, gw) s)
   | TunnelMap n ty tid attr \<Rightarrow> Some (ntb_tunnel_map_vrf D n ty tid attr s))"

text \<open>
  What a request must respect. A name fits its buffer. A route names the VRF it is inserted into and
  has no host bits set. A multicast route is not inserted over one that exists, and a VRF that still
  has tunnels is not deleted: the theorems on these two cases show why.
\<close>

definition pfx_in :: "nat \<Rightarrow> ntb_rib_key \<Rightarrow> bool" where
  "pfx_in i pfx \<longleftrightarrow> i < NTB_NR_VRF \<and> rk_vrf_id pfx = int i + 1"

fun ctl_ok :: "('t, 'b, 'f, 'h) env \<Rightarrow> u8 \<Rightarrow> ctl_op \<Rightarrow> ('t, 'b, 'f, 'h) agent \<Rightarrow> bool" where
  "ctl_ok D fam (VrfAdd n) s \<longleftrightarrow> c_name n \<and> length n < NTB_VRF_NAME_LEN"
| "ctl_ok D fam (VrfDel n) s \<longleftrightarrow> c_name n \<and> (\<forall>i. vrf_view s n = Some i \<longrightarrow> slot_rmap s i = [])"
| "ctl_ok D fam (IntipSet n ip) s \<longleftrightarrow> c_name n"
| "ctl_ok D fam (RmacSet n m) s \<longleftrightarrow> c_name n"
| "ctl_ok D fam (RmacUnset n m) s \<longleftrightarrow> c_name n"
| "ctl_ok D fam (RouteInsert i pfx e rt) s \<longleftrightarrow> pfx_in i pfx \<and> canonical fam pfx \<and> rt \<noteq> RT_MAX
     \<and> (rt = RT_MROUTE \<longrightarrow> route_view D s pfx = None)"
| "ctl_ok D fam (RouteDelete i pfx) s \<longleftrightarrow> pfx_in i pfx"
| "ctl_ok D fam (NhopDelete i pfx e rt) s \<longleftrightarrow> pfx_in i pfx"
| "ctl_ok D fam (NeighAdd i gw) s \<longleftrightarrow> i < NTB_NR_VRF"
| "ctl_ok D fam (NeighDel i gw) s \<longleftrightarrow> i < NTB_NR_VRF"
| "ctl_ok D fam (TunnelMap n ty tid attr) s \<longleftrightarrow> c_name n"

subsection \<open>The invariant of all tables\<close>

definition agent_inv ::
  "('t, 'b, 'f, 'h) env \<Rightarrow> ('b \<Rightarrow> nat set) \<Rightarrow> ('f \<Rightarrow> (u32 \<times> u8 \<rightharpoonup> nat)) \<Rightarrow> ('f \<Rightarrow> nat) \<Rightarrow> u8
    \<Rightarrow> ('t, 'b, 'f, 'h) agent \<Rightarrow> bool" where
  "agent_inv D used rts dflt fam s \<longleftrightarrow> route_inv D used s \<and> fib_inv D rts dflt fam s \<and> vrf_wf s
    \<and> tunnel_wf D s \<and> blackhole_ok s"

text \<open>The states a run of admissible requests can reach from a booted process.\<close>

inductive reachable ::
  "('t, 'b, 'f, 'h) env \<Rightarrow> u8 \<Rightarrow> ('t, 'b, 'f, 'h) agent \<Rightarrow> bool" for D fam where
  init: "boot s \<Longrightarrow> fst (rte_fbarray_init (fbarray D) (NTB_NR_FIB_RES_ALL + 1)) = 0 \<Longrightarrow>
    tables_init D s = Inr (r, s') \<Longrightarrow> 0 \<le> r \<Longrightarrow> reachable D fam s'"
| step: "reachable D fam s \<Longrightarrow> ctl_ok D fam req s \<Longrightarrow> ctl_run D req s = Some (Inr (r, s')) \<Longrightarrow>
    reachable D fam s'"

inductive_simps reachable_iff: "reachable D fam s"

subsection \<open>What each component leaves of the others\<close>

lemma tunnel_wf_kept:
  assumes wf: "tunnel_wf D s" and t: "tunnel_part s' = tunnel_part s" and n: "vrf_names s' = vrf_names s"
    and len: "length (g_ntb_vrfs s) = NTB_NR_VRF" and nx: "next_addr s \<le> next_addr s'"
  shows "tunnel_wf D s'"
proof -
  have h: "tunnel_map D s' = tunnel_map D s" "tunnel_heap s' = tunnel_heap s"
    using t by (simp_all add: tunnel_part_def tunnel_map_def)
  have e: "map (\<lambda>v. (tunnel_rmap (dp v), tunnel_cnt (dp v))) (g_ntb_vrfs s') =
      map (\<lambda>v. (tunnel_rmap (dp v), tunnel_cnt (dp v))) (g_ntb_vrfs s)"
    using t by (simp add: tunnel_part_def)
  have l': "length (g_ntb_vrfs s') = NTB_NR_VRF" using arg_cong [OF e, of length] len by simp
  have slot: "slot_rmap s' i = slot_rmap s i"
    "tunnel_cnt (dp (g_ntb_vrfs s' ! i)) = tunnel_cnt (dp (g_ntb_vrfs s ! i))"
    "valid (g_ntb_vrfs s' ! i) = valid (g_ntb_vrfs s ! i)" if "i < NTB_NR_VRF" for i
    using arg_cong [OF e, of "\<lambda>xs. xs ! i"] that len l' vrf_names_nth(4) [OF n, of i]
    by (simp_all add: slot_rmap_def)
  have "\<exists>i < NTB_NR_VRF. tu_vrf_id t = int i + 1 \<and> valid (g_ntb_vrfs s' ! i)"
    if "tunnel_heap s p = Some t" for p t
    using wf that slot(3) unfolding tunnel_wf_def by blast
  then show ?thesis
    using wf linked_mono [OF _ nx, of "tunnel_map D s" "tunnel_heap s"] by (simp add: tunnel_wf_def h slot)
qed

context dpdk_env
begin

lemma route_inv_parts:
  assumes inv: "route_inv D fb_used s" and r: "route_part s' = route_part s"
    and h: "nhop_part s' = nhop_part s" "neigh_wf D s'" and ids: "vrf_ids s' = vrf_ids s"
    and nx: "next_addr s \<le> next_addr s'"
  shows "route_inv D fb_used s'" "route_view D s' = route_view D s"
    "fib_inv D fib_routes fib_default fam s \<Longrightarrow> fib_inv D fib_routes fib_default fam s'"
    "blackhole_ok s \<Longrightarrow> blackhole_ok s'"
proof -
  have len: "length (g_ntb_vrfs s) = NTB_NR_VRF"
    using inv vrf_ids_ok_length [of s] by (simp add: route_inv_def)
  have same: "rib_map D s' = rib_map D s" "fib_res_mem s' = fib_res_mem s"
    "g_fib_res_array s' = g_fib_res_array s" "f_res_blackhole s' = f_res_blackhole s"
    using r by (simp_all add: route_part_def rib_map_def)
  have slots: "slot_fib s' j = slot_fib s j \<and> slot_rib_cnt s' j = slot_rib_cnt s j" if "j < NTB_NR_VRF" for j
    using route_part_slot [OF r] that len by simp
  have "nhop_wf D (nhop_users D s) s'"
    using inv h(1) nx by - (rule nhop_wf_same [of D _ s], simp_all add: route_inv_def nhop_part_def nhop_map_def)
  then show "route_inv D fb_used s'"
    using same slots h(2) ids by (intro route_inv_kept [OF inv]) simp_all
  show "route_view D s' = route_view D s"
    using same h(1) by (intro route_view_kept) (simp_all add: nhop_view_def nhop_part_def)
  show "fib_inv D fib_routes fib_default fam s'" if "fib_inv D fib_routes fib_default fam s"
    using same slots by (intro fib_inv_kept [OF that]) simp_all
  show "blackhole_ok s \<Longrightarrow> blackhole_ok s'" using same by (simp add: blackhole_ok_def)
qed

text \<open>A route operation leaves the VRF table, the tunnels and the blackhole alone.\<close>

lemma agent_inv_route:
  assumes inv: "agent_inv D fb_used fib_routes fib_default fam s" and o: "outer_frame s s'"
    and r: "route_inv D fb_used s'" "fib_inv D fib_routes fib_default fam s'"
  shows "agent_inv D fb_used fib_routes fib_default fam s'"
proof -
  have len: "length (g_ntb_vrfs s) = NTB_NR_VRF"
    using inv vrf_ids_ok_length [of s] by (simp add: agent_inv_def route_inv_def)
  have "tunnel_wf D s'"
    using inv o by - (rule tunnel_wf_kept [OF _ _ _ len], simp_all add: agent_inv_def outer_frame_def)
  moreover have "vrf_wf s'" using inv o vrf_wf_cong(1) [of s' s] by (simp add: agent_inv_def outer_frame_def)
  moreover have "blackhole_ok s'" using inv o by (simp add: agent_inv_def outer_frame_def blackhole_ok_def)
  ultimately show ?thesis using r by (simp add: agent_inv_def)
qed

lemma agent_inv_neigh:
  assumes inv: "agent_inv D fb_used fib_routes fib_default fam s" and f: "neigh_frame s s'" and w: "neigh_wf D s'"
  shows "agent_inv D fb_used fib_routes fib_default fam s'"
proof -
  note i = inv [unfolded agent_inv_def]
  have len: "length (g_ntb_vrfs s) = NTB_NR_VRF"
    using i vrf_ids_ok_length [of s] by (simp add: route_inv_def)
  have "route_inv D fb_used s'" "fib_inv D fib_routes fib_default fam s'" "blackhole_ok s'"
    using i f w route_inv_parts [where s = s and s' = s'] by (auto simp: neigh_frame_def)
  moreover have "tunnel_wf D s'"
    using i f by - (rule tunnel_wf_kept [OF _ _ _ len], simp_all add: neigh_frame_def)
  moreover have "vrf_wf s'" using i f vrf_wf_cong(1) [of s' s] by (simp add: neigh_frame_def)
  ultimately show ?thesis by (simp add: agent_inv_def)
qed

lemma agent_inv_tunnel:
  assumes inv: "agent_inv D fb_used fib_routes fib_default fam s" and f: "tunnel_frame s s'" and w: "tunnel_wf D s'"
  shows "agent_inv D fb_used fib_routes fib_default fam s'"
proof -
  note i = inv [unfolded agent_inv_def]
  have "neigh_wf D s'"
    using i f by - (rule neigh_wf_cong [of D s], simp_all add: route_inv_def tunnel_frame_def neigh_part_def)
  then have "route_inv D fb_used s'" "fib_inv D fib_routes fib_default fam s'" "blackhole_ok s'"
    using i f route_inv_parts [where s = s and s' = s'] by (auto simp: tunnel_frame_def)
  moreover have "vrf_wf s'" using i f vrf_wf_cong(1) [of s' s] by (simp add: tunnel_frame_def)
  ultimately show ?thesis using w by (simp add: agent_inv_def)
qed

text \<open>A change of the MAC address or the internal address of a VRF.\<close>

lemma agent_inv_settings:
  assumes inv: "agent_inv D fb_used fib_routes fib_default fam s"
    and f: "\<And>v. dp_fib (f v) = dp_fib v \<and> rib_cnt (f v) = rib_cnt v \<and> vrf_id (f v) = vrf_id v
      \<and> tunnel_rmap (f v) = tunnel_rmap v \<and> tunnel_cnt (f v) = tunnel_cnt v \<and> neigh_cnt (f v) = neigh_cnt v"
  shows "agent_inv D fb_used fib_routes fib_default fam (upd_dp i f s)"
proof (rule agent_inv_neigh [OF inv])
  let ?m = "\<lambda>g. map g (g_ntb_vrfs (upd_dp i f s)) = map g (g_ntb_vrfs s)"
  have "?m (\<lambda>v. vrf_id (dp v))" "?m (\<lambda>v. (vname v, valid v))" "?m (\<lambda>v. (dp_fib (dp v), rib_cnt (dp v)))"
    "?m (\<lambda>v. (tunnel_rmap (dp v), tunnel_cnt (dp v)))"
    by (rule map_upd_dp; simp add: f)+
  then show "neigh_frame s (upd_dp i f s)" by (simp add: neigh_frame_def part_defs comp_def)
  show "neigh_wf D (upd_dp i f s)"
    using inv by (simp add: agent_inv_def route_inv_def neigh_wf_def neigh_map_def)
qed

text \<open>A free entry of the VRF table has no tunnels.\<close>

lemma tunnel_wf_invalid:
  assumes "tunnel_wf D s" and "i < NTB_NR_VRF" and "\<not> valid (g_ntb_vrfs s ! i)"
  shows "slot_rmap s i = []" "tunnel_cnt (dp (g_ntb_vrfs s ! i)) = 0"
proof -
  have "{p. \<exists>t. tunnel_heap s p = Some t \<and> tu_vrf_id t = int i + 1} = {}"
    using assms unfolding tunnel_wf_def by fastforce
  moreover have "set (slot_rmap s i) = {p. \<exists>t. tunnel_heap s p = Some t \<and> tu_vrf_id t = int i + 1}"
    using assms(1,2) by (simp add: tunnel_wf_def)
  ultimately show "slot_rmap s i = []" by (metis set_empty)
  then show "tunnel_cnt (dp (g_ntb_vrfs s ! i)) = 0" using assms(1,2) by (simp add: tunnel_wf_def)
qed

lemma agent_inv_vrf_add:
  assumes inv: "agent_inv D fb_used fib_routes fib_default fam s"
    and n: "c_name n" "length n < NTB_VRF_NAME_LEN"
  shows "\<exists>r s'. ntb_vrf_add n s = Inr (r, s') \<and> agent_inv D fb_used fib_routes fib_default fam s'"
proof -
  note w = inv [unfolded agent_inv_def]
  have vw: "vrf_wf s" using w by blast
  have len: "length (g_ntb_vrfs s) = NTB_NR_VRF" using w vrf_ids_ok_length [of s] by (simp add: route_inv_def)
  from vw n(1) show ?thesis
  proof (cases rule: ntb_vrf_add_cases)
    case (new i)
    define s' where "s' = s\<lparr>g_ntb_vrfs := (g_ntb_vrfs s)[i := vrf_install n (fake_mac s) (g_ntb_vrfs s ! i)],
      g_ntb_vrf_n := g_ntb_vrf_n s + 1\<rparr>"
    have nth: "g_ntb_vrfs s' ! j = (if j = i then vrf_install n (fake_mac s) (g_ntb_vrfs s ! i) else g_ntb_vrfs s ! j)"
      if "j < NTB_NR_VRF" for j using that len by (auto simp: s'_def nth_list_update)
    have parts: "route_part s' = route_part s" "nhop_part s' = nhop_part s" "vrf_ids s' = vrf_ids s"
      using new(2) by (simp_all add: s'_def part_defs map_update list_update_same_conv comp_def)
    have "neigh_wf D s'" using w by (simp add: s'_def route_inv_def neigh_wf_def neigh_map_def)
    then have "route_inv D fb_used s'" "fib_inv D fib_routes fib_default fam s'" "blackhole_ok s'"
      using w route_inv_parts [where s = s and s' = s'] parts by (auto simp: s'_def)
    moreover have "vrf_wf s'" by (rule vrf_add_new_wf(1) [OF vw n new(1-3) s'_def])
    moreover have "tunnel_wf D s'"
    proof -
      note e = tunnel_wf_invalid [of s i]
      have same: "tunnel_map D s' = tunnel_map D s" "tunnel_heap s' = tunnel_heap s" "next_addr s' = next_addr s"
        by (simp_all add: s'_def tunnel_map_def)
      have "slot_rmap s' j = slot_rmap s j" "tunnel_cnt (dp (g_ntb_vrfs s' ! j)) = tunnel_cnt (dp (g_ntb_vrfs s ! j))"
        "valid (g_ntb_vrfs s ! j) \<longrightarrow> valid (g_ntb_vrfs s' ! j)" if "j < NTB_NR_VRF" for j
        using that nth [OF that] e w new len
        by (auto simp: slot_rmap_def vrf_install_def ntb_vrf_dp_ctor_def split: if_splits)
      then show ?thesis using w unfolding tunnel_wf_def same by (metis (no_types, lifting))
    qed
    ultimately have "agent_inv D fb_used fib_routes fib_default fam s'" by (simp add: agent_inv_def)
    then show ?thesis using new(4) by (auto simp: s'_def)
  qed (use inv in auto)
qed

end

subsection \<open>Deletion of a VRF\<close>

lemma vrf_clear_sel [simp]:
  "valid (vrf_clear v) = False" "dp (vrf_clear v) = dp v"
  by (simp_all add: vrf_clear_def)

lemma vrf_clear_wf:
  assumes wf: "vrf_wf s" and i: "vrf_view s n = Some i"
    and s': "s' = s\<lparr>g_ntb_vrfs := (g_ntb_vrfs s)[i := vrf_clear (g_ntb_vrfs s ! i)], g_ntb_vrf_n := g_ntb_vrf_n s - 1\<rparr>"
  shows "vrf_wf s'" and "vrf_view s' = (vrf_view s)(n := None)"
proof -
  have iv: "i < length (g_ntb_vrfs s)" "vrf_named (g_ntb_vrfs s ! i) n"
    using i vrf_view_Some_iff [OF wf] by auto
  have nth: "g_ntb_vrfs s' ! j = (if j = i then vrf_clear (g_ntb_vrfs s ! i) else g_ntb_vrfs s ! j)"
    if "j < length (g_ntb_vrfs s)" for j using that by (auto simp: s' nth_list_update)
  have len: "length (g_ntb_vrfs s') = length (g_ntb_vrfs s)" by (simp add: s')
  have named: "vrf_named (g_ntb_vrfs s' ! j) x \<longleftrightarrow> j \<noteq> i \<and> vrf_named (g_ntb_vrfs s ! j) x"
    if "j < length (g_ntb_vrfs s)" for j x using nth [OF that] by (simp add: vrf_named_def)
  let ?V = "{j. j < length (g_ntb_vrfs s) \<and> valid (g_ntb_vrfs s ! j)}"
  have "{j. j < length (g_ntb_vrfs s') \<and> valid (g_ntb_vrfs s' ! j)} = ?V - {i}"
    using nth by (auto simp: len split: if_splits)
  moreover have "i \<in> ?V" using iv by (simp add: vrf_named_def)
  then have "Suc (card (?V - {i})) = card ?V" by (intro card_Suc_Diff1) auto
  then have "int (card (?V - {i})) = int (card ?V) - 1" by linarith
  moreover have "vrf_ids s' = vrf_ids s"
    using iv(1) by (simp add: s' vrf_ids_def map_update list_update_same_conv)
  moreover have "j = k" if "j < length (g_ntb_vrfs s)" "k < length (g_ntb_vrfs s)" "valid (g_ntb_vrfs s' ! j)"
    "vrf_named (g_ntb_vrfs s' ! k) (cstr (vname (g_ntb_vrfs s' ! j)))" for j k
    using that nth named wf by (auto simp: vrf_wf_def split: if_splits)
  moreover have "CHR 0x00 \<in> set (vname v)" if "v \<in> set (g_ntb_vrfs s')" "valid v" for v
    using that wf set_update_subset_insert [of "g_ntb_vrfs s" i "vrf_clear (g_ntb_vrfs s ! i)"]
    by (auto simp: vrf_wf_def s')
  ultimately show wf': "vrf_wf s'"
    using wf len by (simp add: vrf_wf_def vrf_ids_ok_def s')
  show "vrf_view s' = (vrf_view s)(n := None)"
  proof
    fix x
    have "vrf_view s' x = Some j \<longleftrightarrow> ((vrf_view s)(n := None)) x = Some j" for j
      using vrf_view_Some_iff [OF wf', of x j] vrf_view_Some_iff [OF wf, of x j] named [of j x] iv len
        vrf_wf_unique [OF wf, of i j n] by (auto simp: vrf_named_def)
    then show "vrf_view s' x = ((vrf_view s)(n := None)) x" by (metis option.exhaust)
  qed
qed

context dpdk_iter_env
begin

lemma route_cleanup_effect:
  assumes "\<not> assert_on D" and "i < NTB_NR_VRF" and "route_inv D fb_used s"
  shows "\<exists>s'. ntb_route_cleanup D i s = Some (Inr (0, s')) \<and> route_inv D fb_used s' \<and> outer_frame s s'
      \<and> route_view D s' = (\<lambda>key. if rk_vrf_id key = int i + 1 then None else route_view D s key)
      \<and> (\<forall>fam. fib_inv D fib_routes fib_default fam s \<longrightarrow> fib_inv D fib_routes fib_default fam s')"
  using cleanup_loop [OF assms(1,2,3), of 0] by (auto simp: ntb_route_cleanup_def swept_def)

text \<open>Marking a VRF without tunnels as free keeps all tables consistent.\<close>

lemma tunnel_wf_clear:
  assumes tw: "tunnel_wf D s" and len: "length (g_ntb_vrfs s) = NTB_NR_VRF" and iv: "i < NTB_NR_VRF"
    and e: "slot_rmap s i = []"
    and s': "s' = s\<lparr>g_ntb_vrfs := (g_ntb_vrfs s)[i := vrf_clear (g_ntb_vrfs s ! i)], g_ntb_vrf_n := g_ntb_vrf_n s - 1\<rparr>"
  shows "tunnel_wf D s'"
proof -
  have no: "tu_vrf_id t \<noteq> int i + 1" if "tunnel_heap s p = Some t" for p t
    using tunnel_wf_rmap(3) [OF tw, of i p t] iv that e by auto
  have same: "tunnel_map D s' = tunnel_map D s" "tunnel_heap s' = tunnel_heap s" "next_addr s' = next_addr s"
    by (simp_all add: s' tunnel_map_def)
  have slots: "slot_rmap s' j = slot_rmap s j" "tunnel_cnt (dp (g_ntb_vrfs s' ! j)) = tunnel_cnt (dp (g_ntb_vrfs s ! j))"
    "j \<noteq> i \<longrightarrow> valid (g_ntb_vrfs s' ! j) = valid (g_ntb_vrfs s ! j)" if "j < NTB_NR_VRF" for j
    using that len by (cases "j = i"; simp add: s' slot_rmap_def)+
  have "\<exists>j < NTB_NR_VRF. tu_vrf_id t = int j + 1 \<and> valid (g_ntb_vrfs s' ! j)"
    if t: "tunnel_heap s p = Some t" for p t
  proof -
    obtain j where "j < NTB_NR_VRF" "tu_vrf_id t = int j + 1" "valid (g_ntb_vrfs s ! j)"
      using tw t unfolding tunnel_wf_def by blast
    then show ?thesis using slots(3) [of j] no [OF t] by auto
  qed
  then show ?thesis using tw by (simp add: tunnel_wf_def same slots)
qed

lemma agent_inv_clear:
  assumes inv: "agent_inv D fb_used fib_routes fib_default fam s" and i: "vrf_view s n = Some i"
    and iv: "i < NTB_NR_VRF" and e: "slot_rmap s i = []"
    and s': "s' = s\<lparr>g_ntb_vrfs := (g_ntb_vrfs s)[i := vrf_clear (g_ntb_vrfs s ! i)], g_ntb_vrf_n := g_ntb_vrf_n s - 1\<rparr>"
  shows "agent_inv D fb_used fib_routes fib_default fam s'" and "vrf_view s' = (vrf_view s)(n := None)"
    and "route_view D s' = route_view D s"
proof -
  note w = inv [unfolded agent_inv_def]
  have len: "length (g_ntb_vrfs s) = NTB_NR_VRF" using w vrf_ids_ok_length [of s] by (simp add: route_inv_def)
  have cl: "vrf_wf s'" "vrf_view s' = (vrf_view s)(n := None)" using vrf_clear_wf [of s n i s'] w i s' by auto
  have parts: "route_part s' = route_part s" "nhop_part s' = nhop_part s" "vrf_ids s' = vrf_ids s" "neigh_wf D s'"
    using iv len w by (simp_all add: s' part_defs map_update list_update_same_conv comp_def
      route_inv_def neigh_wf_def neigh_map_def)
  have ri: "route_inv D fb_used s'" "fib_inv D fib_routes fib_default fam s'" "blackhole_ok s'"
    "route_view D s' = route_view D s"
    using w route_inv_parts [where s = s and s' = s'] parts by (auto simp: s')
  have "tunnel_wf D s'" using w tunnel_wf_clear [OF _ len iv e s'] by blast
  then show "agent_inv D fb_used fib_routes fib_default fam s'" "vrf_view s' = (vrf_view s)(n := None)"
    "route_view D s' = route_view D s" using cl ri by (simp_all add: agent_inv_def)
qed

lemma vrf_del_effect:
  assumes off: "\<not> assert_on D" and inv: "agent_inv D fb_used fib_routes fib_default fam s"
    and n: "c_name n" and i: "vrf_view s n = Some i" and e: "slot_rmap s i = []"
  shows "\<exists>s'. ntb_vrf_del D n s = Some (Inr (0, s')) \<and> agent_inv D fb_used fib_routes fib_default fam s'
    \<and> vrf_view s' = (vrf_view s)(n := None)
    \<and> route_view D s' = (\<lambda>key. if rk_vrf_id key = int i + 1 then None else route_view D s key)"
proof -
  note w = inv [unfolded agent_inv_def]
  have vw: "vrf_wf s" and ri: "route_inv D fb_used s" using w by blast+
  have len: "length (g_ntb_vrfs s) = NTB_NR_VRF" using ri vrf_ids_ok_length [of s] by (simp add: route_inv_def)
  have iv: "i < NTB_NR_VRF" using i vrf_view_Some_iff [OF vw] len by auto
  obtain s1 where s1: "ntb_route_cleanup D i s = Some (Inr (0, s1))" "route_inv D fb_used s1" "outer_frame s s1"
    "route_view D s1 = (\<lambda>key. if rk_vrf_id key = int i + 1 then None else route_view D s key)"
    "\<forall>fam. fib_inv D fib_routes fib_default fam s \<longrightarrow> fib_inv D fib_routes fib_default fam s1"
    using route_cleanup_effect [OF off iv ri] by blast
  have inv1: "agent_inv D fb_used fib_routes fib_default fam s1"
    using w s1 by (intro agent_inv_route [OF inv s1(3)]) auto
  have len1: "length (g_ntb_vrfs s1) = NTB_NR_VRF"
    using s1(3) vrf_ids_length [of s1 s] len by (simp add: outer_frame_def)
  have e1: "slot_rmap s1 i = []"
  proof -
    have "map (\<lambda>v. (tunnel_rmap (dp v), tunnel_cnt (dp v))) (g_ntb_vrfs s1) =
      map (\<lambda>v. (tunnel_rmap (dp v), tunnel_cnt (dp v))) (g_ntb_vrfs s)"
      using s1(3) by (simp add: outer_frame_def tunnel_part_def)
    from arg_cong [OF this, of "\<lambda>xs. xs ! i"] show ?thesis using e iv len len1 by (simp add: slot_rmap_def)
  qed
  define s2 where "s2 = upd_dp i (\<lambda>v. v\<lparr>internal_ip := 0\<rparr>) s1"
  have inv2: "agent_inv D fb_used fib_routes fib_default fam s2"
    unfolding s2_def by (rule agent_inv_settings [OF inv1]) simp
  have e2: "slot_rmap s2 i = []" using e1 iv len1 by (simp add: s2_def slot_rmap_def)
  have "vrf_names s2 = vrf_names s1" "vrf_ids s2 = vrf_ids s1"
    unfolding s2_def part_defs comp_def by (simp_all add: map_upd_dp)
  then have view2: "vrf_view s2 = vrf_view s"
    using vrf_wf_cong(2) [of s2 s1] vrf_wf_cong(2) [of s1 s] s1(3) by (simp add: outer_frame_def)
  have route2: "route_view D s2 = route_view D s1"
    by (rule route_view_kept) (simp_all add: rib_map_def nhop_view_def s2_def)
  define s3 where "s3 = s2\<lparr>g_ntb_vrfs := (g_ntb_vrfs s2)[i := vrf_clear (g_ntb_vrfs s2 ! i)],
    g_ntb_vrf_n := g_ntb_vrf_n s2 - 1\<rparr>"
  have "ntb_vrf_del D n s = Some (Inr (0, s3))"
    using vrf_lookup_view [OF vw n] i s1(1) e1 iv len1 off
    by (simp add: ntb_vrf_del_def ntb_vrf_lookup_def ntb_vrf_dp_dtor_def ntb_tunnel_map_cleanup_def
        slot_rmap_def Let_def s3_def s2_def)
  then show ?thesis using agent_inv_clear [OF inv2 _ iv e2 s3_def, of n] i view2 route2 s1(4) by simp
qed

end

subsection \<open>Every admissible request returns and keeps the invariant\<close>

context dpdk_env
begin

text \<open>An insertion over a prefix that has a route already.\<close>

lemma insert_existing:
  assumes inv: "route_inv D fb_used s" and v: "route_view D s pfx = Some (rt, gw, ti)"
  shows "ntb_route_nhop_insert D i pfx e rtype s =
    (if rt \<noteq> rtype then Inr (NTB_IPV4_ROUTETYPE_NO_SAME, s)
     else if rt = RT_DEFAULT then Inr (NTB_ROUTE_NEXTHOP_ECMP_NOSPACE, s)
     else if (case ti_type ti of NTB_ENCAP_VXLAN \<Rightarrow> gw = en_gateway e \<and> ti = en_tunnel_info e
              | NTB_ENCAP_TGRE \<Rightarrow> ti = en_tunnel_info e | _ \<Rightarrow> False) then Inr (0, s)
     else route_nhop_insert_new D i pfx e rtype (rib_map D s (RibKey pfx)) s)"
proof -
  obtain rid where k: "rib_map D s (RibKey pfx) = Some rid"
    using v route_view_live [OF inv, of pfx] by auto
  obtain p n where p: "mpath (fib_res_mem s rid) = [p]" "nhop_heap s p = Some n" "p \<noteq> 0"
    "route_view D s pfx = Some (fib_res_rtype_get (fib_res_mem s rid), nh_gateway n, nh_tunnel_info n)"
    using route_view_path [OF inv k] by blast
  have r: "res_wf (fib_res_mem s rid)" "rid < rte_fbarray_len (fbarray D) (g_fib_res_array s)"
    using inv k by (auto simp: route_inv_def rib_wf_def)
  have eq: "fib_res_rtype_get (fib_res_mem s rid) = rt" "nh_gateway n = gw" "nh_tunnel_info n = ti"
    using p(4) v by simp_all
  have rt: "rt \<noteq> RT_DEFAULT \<longleftrightarrow> rt = RT_MROUTE" using eq(1) by (auto simp: fib_res_rtype_get_def)
  have sp: "fib_res_mpath_nospace (fib_res_mem s rid) \<longleftrightarrow> rt = RT_DEFAULT"
    using r(1) eq(1) rt by (auto simp: res_wf_def fib_res_mpath_nospace_def ROUTE_MAX_ECMP_def MROUTE_MAX_ECMP_def
        word_le_nat_alt)
  have ne: "(case ti_type ti of NTB_ENCAP_VXLAN \<Rightarrow> gw = en_gateway e \<and> ti = en_tunnel_info e
      | NTB_ENCAP_TGRE \<Rightarrow> ti = en_tunnel_info e | _ \<Rightarrow> False) \<longleftrightarrow> fib_nhop_equal n e"
    unfolding fib_nhop_equal_def eq(2,3) by (rule refl)
  show ?thesis
    unfolding ne using k r p(1-3) eq(1) rt sp
    by (auto simp: ntb_route_nhop_insert_def rib_map_def fib_res_get_def res_wf_def)
qed

lemma insert_step:
  assumes off: "\<not> assert_on D" and inv: "agent_inv D fb_used fib_routes fib_default fam s"
    and ok: "ctl_ok D fam (RouteInsert i pfx e rt) s"
  shows "\<exists>r s'. ntb_route_nhop_insert D i pfx e rt s = Inr (r, s') \<and> agent_inv D fb_used fib_routes fib_default fam s'"
proof -
  note w = inv [unfolded agent_inv_def]
  have ri: "route_inv D fb_used s" using w by blast
  show ?thesis
  proof (cases "route_view D s pfx")
    case (Some x)
    obtain t gw ti where x: "x = (t, gw, ti)" by (cases x)
    have "rt \<noteq> RT_MROUTE" using ok Some by auto
    then show ?thesis
      using insert_existing [OF ri Some [unfolded x]] ok inv by (cases rt) auto
  next
    case None
    then have k: "rib_map D s (RibKey pfx) = None" using route_view_live [OF ri] by blast
    obtain r s' where r: "ntb_route_nhop_insert D i pfx e rt s = Inr (r, s')" "route_inv D fb_used s'"
      "outer_frame s s'" "fib_inv D fib_routes fib_default fam s'"
      using route_insert_effect [OF off ri _ _ _ k, of i rt e] ok w
      by (auto simp: pfx_in_def routes_kept_def split: if_splits)
    then show ?thesis using agent_inv_route [OF inv r(3,2,4)] by blast
  qed
qed

lemma delete_step:
  assumes off: "\<not> assert_on D" and inv: "agent_inv D fb_used fib_routes fib_default fam s" and i: "pfx_in i pfx"
  shows "\<exists>r s'. ntb_route_delete D i pfx s = Inr (r, s') \<and> agent_inv D fb_used fib_routes fib_default fam s'"
proof (cases "rib_map D s (RibKey pfx)")
  case None
  then show ?thesis using inv by (auto simp: ntb_route_delete_def rib_map_def)
next
  case (Some rid)
  note w = inv [unfolded agent_inv_def]
  obtain s' where s': "ntb_route_delete D i pfx s = Inr (0, s')" "route_inv D fb_used s'" "outer_frame s s'"
    "\<forall>fam. fib_inv D fib_routes fib_default fam s \<longrightarrow> fib_inv D fib_routes fib_default fam s'"
    using route_delete_effect [OF off _ _ _ Some] w i by (auto simp: pfx_in_def)
  then show ?thesis using agent_inv_route [OF inv s'(3,2)] w by blast
qed

lemma nhop_delete_step:
  assumes off: "\<not> assert_on D" and inv: "agent_inv D fb_used fib_routes fib_default fam s" and i: "pfx_in i pfx"
  shows "\<exists>r s'. ntb_route_nhop_delete D i pfx e rt s = Inr (r, s')
    \<and> agent_inv D fb_used fib_routes fib_default fam s'"
proof (cases "route_view D s pfx")
  case None
  then have "ntb_route_nhop_delete D i pfx e rt s = Inr (0, s)"
    using route_view_live [of s pfx] inv by (simp add: agent_inv_def ntb_route_nhop_delete_def rib_map_def)
  then show ?thesis using inv by blast
next
  case (Some x)
  have ri: "route_inv D fb_used s" using inv by (simp add: agent_inv_def)
  obtain t gw ti where "x = (t, gw, ti)" by (cases x)
  then show ?thesis
    using nhop_delete_exact [OF off ri] Some delete_step [OF off inv i] inv by auto
qed

lemma neigh_step:
  assumes off: "\<not> assert_on D" and inv: "agent_inv D fb_used fib_routes fib_default fam s" and i: "i < NTB_NR_VRF"
  shows "\<exists>r s'. neigh_acquire D (i, gw) s = Inr (r, s') \<and> agent_inv D fb_used fib_routes fib_default fam s'"
    "\<exists>r s'. neigh_release D (i, gw) s = Inr (r, s') \<and> agent_inv D fb_used fib_routes fib_default fam s'"
proof -
  have wf: "neigh_wf D s" and ids: "vrf_ids_ok s" using inv by (simp_all add: agent_inv_def route_inv_def)
  have len: "i < length (g_ntb_vrfs s)" using i vrf_ids_ok_length [OF ids] by simp
  note keep = agent_inv_neigh [OF inv]
  show "\<exists>r s'. neigh_acquire D (i, gw) s = Inr (r, s') \<and> agent_inv D fb_used fib_routes fib_default fam s'"
    using wf len refl
    by (cases rule: ntb_neigh_add_cases [where old = 0 and gw = gw]) (auto simp: neigh_acquire_def intro: keep)
  show "\<exists>r s'. neigh_release D (i, gw) s = Inr (r, s') \<and> agent_inv D fb_used fib_routes fib_default fam s'"
    using wf len refl
  proof (cases rule: ntb_neigh_del_cases [where gw = gw])
    show "\<forall>n\<in>ran (neigh_heap s). refcnt n \<noteq> 0" if "assert_on D" using off that by blast
  qed (auto simp: neigh_release_def inv intro: keep)
qed

lemma tunnel_step:
  assumes off: "\<not> assert_on D" and inv: "agent_inv D fb_used fib_routes fib_default fam s" and n: "c_name n"
  shows "\<exists>r s'. ntb_tunnel_map_vrf D n ty tid attr s = Inr (r, s')
    \<and> agent_inv D fb_used fib_routes fib_default fam s'"
proof -
  note w = inv [unfolded agent_inv_def]
  have tw: "tunnel_wf D s" and vw: "vrf_wf s" and ids: "vrf_ids_ok s" using w by (simp_all add: route_inv_def)
  show ?thesis
  proof (cases "vrf_view s n")
    case None
    then show ?thesis using inv vrf_lookup_view [OF vw n] by (auto simp: ntb_tunnel_map_vrf_def)
  next
    case (Some i)
    have i: "i < NTB_NR_VRF" "valid (g_ntb_vrfs s ! i)"
      using Some vrf_view_Some_iff [OF vw] vrf_ids_ok_length [OF ids] by (auto simp: vrf_named_def)
    from off tw vw n Some refl show ?thesis
    proof (cases rule: tunnel_map_vrf_cases [where ty = ty and tid = tid and attr = attr])
      case (fail ret s')
      have "tunnel_wf D s'"
        using tw fail linked_mono [of "tunnel_map D s" "tunnel_heap s" "next_addr s" "next_addr s'"]
        by (simp add: tunnel_wf_def slot_rmap_def tunnel_frame_def)
      then show ?thesis using agent_inv_tunnel [OF inv fail(4)] fail(2) by blast
    next
      case (new t s')
      have "tunnel_wf D s'"
        by (rule tunnel_wf_new [OF tw vrf_ids_ok_length [OF ids] i new(1) refl new(4-8)])
      then show ?thesis using agent_inv_tunnel [OF inv new(3)] new(2) by blast
    qed (use inv in auto)
  qed
qed

lemma settings_step:
  assumes inv: "agent_inv D fb_used fib_routes fib_default fam s" and n: "c_name n"
  shows "\<exists>r s'. ntb_vrf_intip_set n ip s = Inr (r, s') \<and> agent_inv D fb_used fib_routes fib_default fam s'"
    "\<exists>r s'. ntb_vrf_rmac_set n m s = Inr (r, s') \<and> agent_inv D fb_used fib_routes fib_default fam s'"
    "\<exists>r s'. ntb_vrf_rmac_unset n m s = Inr (r, s') \<and> agent_inv D fb_used fib_routes fib_default fam s'"
proof -
  have vw: "vrf_wf s" using inv by (simp add: agent_inv_def)
  note look = vrf_lookup_view [OF vw n]
  have len: "i < length (g_ntb_vrfs s)" if "vrf_view s n = Some i" for i using that vrf_view_Some_iff [OF vw] by blast
  note keep = agent_inv_settings [OF inv]
  show "\<exists>r s'. ntb_vrf_intip_set n ip s = Inr (r, s') \<and> agent_inv D fb_used fib_routes fib_default fam s'"
    using look inv by (cases "vrf_view s n") (auto simp: ntb_vrf_intip_set_def intro: keep)
  show "\<exists>r s'. ntb_vrf_rmac_set n m s = Inr (r, s') \<and> agent_inv D fb_used fib_routes fib_default fam s'"
    using look inv by (cases "vrf_view s n") (auto simp: ntb_vrf_rmac_set_def intro: keep)
  show "\<exists>r s'. ntb_vrf_rmac_unset n m s = Inr (r, s') \<and> agent_inv D fb_used fib_routes fib_default fam s'"
    using look inv len by (cases "vrf_view s n") (auto simp: ntb_vrf_rmac_unset_def intro: keep)
qed

end

context dpdk_iter_env
begin

lemma ctl_step:
  assumes off: "\<not> assert_on D" and inv: "agent_inv D fb_used fib_routes fib_default fam s"
    and ok: "ctl_ok D fam req s"
  shows "\<exists>r s'. ctl_run D req s = Some (Inr (r, s')) \<and> agent_inv D fb_used fib_routes fib_default fam s'"
proof (cases req)
  case (VrfDel n)
  have vw: "vrf_wf s" using inv by (simp add: agent_inv_def)
  show ?thesis
  proof (cases "vrf_view s n")
    case None
    then show ?thesis
      using inv ok VrfDel vrf_lookup_view [OF vw, of n] by (auto simp: ctl_run_def ntb_vrf_del_def ntb_vrf_lookup_def)
  next
    case (Some i)
    then show ?thesis using vrf_del_effect [OF off inv _ Some] ok VrfDel by (auto simp: ctl_run_def)
  qed
next
  case (VrfAdd n)
  then show ?thesis using agent_inv_vrf_add [OF inv, of n] ok by (simp add: ctl_run_def)
next
  case (RouteInsert i pfx e rt)
  then show ?thesis using insert_step [OF off inv] ok by (simp add: ctl_run_def)
next
  case (NhopDelete i pfx e rt)
  then show ?thesis using nhop_delete_step [OF off inv] ok by (simp add: ctl_run_def)
next
  case (RouteDelete i pfx)
  then show ?thesis using delete_step [OF off inv] ok by (simp add: ctl_run_def)
next
  case (TunnelMap n ty tid attr)
  then show ?thesis using tunnel_step [OF off inv] ok by (simp add: ctl_run_def)
qed (use ok settings_step [OF inv] neigh_step [OF off inv] in \<open>simp_all add: ctl_run_def\<close>)

lemma reachable_inv:
  assumes off: "\<not> assert_on D" and r: "reachable D fam s"
  shows "agent_inv D fb_used fib_routes fib_default fam s"
  using r
proof (induction rule: reachable.induct)
  case (init s r s')
  note i = initialised_inv [OF tables_init_effect [OF init(1,3,4,2)]]
  show ?case using i(1,3,4,5) i(2) [of fam] by (simp add: agent_inv_def)
next
  case (step s req r s')
  then show ?case using ctl_step [OF off step.IH step(2)] by auto
qed

end

end
