(* ===== verification/Ntb_Lookup.thy ===== *)
theory Ntb_Lookup
  imports Ntb_Control
begin

text \<open>
  The packet path's view of the route tables: the forwarding table of a VRF answers a longest prefix
  match over the routes of the RIB, and \<^verbatim>\<open>ntb_route_lookup\<close> loads the route and the next hop it found
  into the switch.
\<close>

subsection \<open>Longest prefix match over the routes\<close>

fun lpm_view :: "(ntb_rib_key \<rightharpoonup> 'a) \<Rightarrow> u8 \<Rightarrow> nat \<Rightarrow> u32 \<Rightarrow> nat \<Rightarrow> 'a option" where
  "lpm_view v fam i ip 0 = v (vrf_key fam i (ip4_net ip 0) 0)"
| "lpm_view v fam i ip (Suc d) = (case v (vrf_key fam i (ip4_net ip (Suc d)) (of_nat (Suc d))) of
     Some x \<Rightarrow> Some x | None \<Rightarrow> lpm_view v fam i ip d)"

text \<open>What it means to be the longest match.\<close>

lemma lpm_view_Some_iff:
  "lpm_view v fam i ip n = Some x \<longleftrightarrow>
    (\<exists>d \<le> n. v (vrf_key fam i (ip4_net ip d) (of_nat d)) = Some x \<and>
      (\<forall>d'. d < d' \<and> d' \<le> n \<longrightarrow> v (vrf_key fam i (ip4_net ip d') (of_nat d')) = None))"
proof (induction n)
  case 0
  then show ?case by simp
next
  case (Suc n)
  show ?case
  proof (cases "v (vrf_key fam i (ip4_net ip (Suc n)) (of_nat (Suc n)))")
    case None
    with Suc show ?thesis by (auto simp: le_Suc_eq simp del: of_nat_Suc)
  next
    case (Some y)
    have "d = Suc n" if "d \<le> Suc n"
      "\<forall>d'. d < d' \<and> d' \<le> Suc n \<longrightarrow> v (vrf_key fam i (ip4_net ip d') (of_nat d')) = None" for d
      using that Some by (metis le_neq_implies_less option.simps(3) order_refl)
    then show ?thesis using Some by (auto simp del: of_nat_Suc) (metis option.inject)
  qed
qed

lemma lpm_view_None_iff:
  "lpm_view v fam i ip n = None \<longleftrightarrow> (\<forall>d \<le> n. v (vrf_key fam i (ip4_net ip d) (of_nat d)) = None)"
  by (induction n) (auto simp: le_Suc_eq split: option.splits)

context dpdk_env
begin

lemma fib_inv_routes:
  assumes "fib_inv D fib_routes fib_default fam s" and "i < NTB_NR_VRF" and "d \<le> 32"
  shows "fib_routes (slot_fib s i) (ip4_net ip d, of_nat d) =
    rib_map D s (RibKey (vrf_key fam i (ip4_net ip d) (of_nat d)))"
proof -
  have "unat (of_nat d :: u8) = d" using assms(3) by (simp add: unat_of_nat)
  then show ?thesis using assms by (simp add: fib_inv_def slot_fib_def)
qed

text \<open>The forwarding table answers with a result of the longest matching route of the RIB.\<close>

lemma lpm_from_view:
  assumes fi: "fib_inv D fib_routes fib_default fam s" and ri: "route_inv D fb_used s"
    and i: "i < NTB_NR_VRF" and n: "n \<le> 32"
  shows "case lpm_from (fib_routes (slot_fib s i)) ip n of
      None \<Rightarrow> lpm_view (route_view D s) fam i ip n = None
    | Some rid \<Rightarrow> \<exists>key. rib_map D s (RibKey key) = Some rid
        \<and> lpm_view (route_view D s) fam i ip n = route_view D s key"
  using n
proof (induction n)
  case 0
  then show ?case
    using fib_inv_routes [OF fi i, of 0 ip] route_view_live [OF ri, of "vrf_key fam i (ip4_net ip 0) 0"]
    by (auto split: option.split)
next
  case (Suc d)
  let ?k = "vrf_key fam i (ip4_net ip (Suc d)) (of_nat (Suc d))"
  note f = fib_inv_routes [OF fi i Suc.prems, of ip]
  show ?case
  proof (cases "rib_map D s (RibKey ?k)")
    case None
    then show ?thesis
      using f Suc route_view_live [OF ri, of ?k]
      by (cases "lpm_from (fib_routes (slot_fib s i)) ip d") (simp_all del: of_nat_Suc)
  next
    case (Some rid)
    then obtain x where "route_view D s ?k = Some x" using route_view_live [OF ri, of ?k] by auto
    then show ?thesis using f Some by (auto simp del: of_nat_Suc)
  qed
qed

lemma fib_lookup_view:
  assumes fi: "fib_inv D fib_routes fib_default fam s" and ri: "route_inv D fb_used s" and i: "i < NTB_NR_VRF"
  shows "lpm_view (route_view D s) fam i ip 32 = None \<Longrightarrow>
      rte_fib_lookup (fib D) (slot_fib s i) ip = nat (f_res_blackhole s)"
    and "lpm_view (route_view D s) fam i ip 32 = Some (rt, gw, ti) \<Longrightarrow>
      \<exists>rid p n. rte_fib_lookup (fib D) (slot_fib s i) ip = rid \<and> mpath (fib_res_mem s rid) = [p] \<and> p \<noteq> 0
        \<and> nhop_heap s p = Some n \<and> fib_res_rtype_get (fib_res_mem s rid) = rt \<and> nh_gateway n = gw
        \<and> nh_tunnel_info n = ti \<and> rid < rte_fbarray_len (fbarray D) (g_fib_res_array s)"
proof -
  note l = lpm_from_view [OF fi ri i order.refl, of ip]
  have dflt: "fib_default (slot_fib s i) = nat (f_res_blackhole s)" using fi i by (simp add: fib_inv_def slot_fib_def)
  have live: "\<exists>x. route_view D s key = Some x" if "rib_map D s (RibKey key) = Some rid" for key rid
    using route_view_live [OF ri, of key] that by auto
  show "rte_fib_lookup (fib D) (slot_fib s i) ip = nat (f_res_blackhole s)"
    if "lpm_view (route_view D s) fam i ip 32 = None"
  proof (cases "lpm_from (fib_routes (slot_fib s i)) ip 32")
    case None
    then show ?thesis using dflt by (simp add: fib_lookup)
  next
    case (Some rid)
    then show ?thesis using l that live by fastforce
  qed
  show "\<exists>rid p n. rte_fib_lookup (fib D) (slot_fib s i) ip = rid \<and> mpath (fib_res_mem s rid) = [p] \<and> p \<noteq> 0
        \<and> nhop_heap s p = Some n \<and> fib_res_rtype_get (fib_res_mem s rid) = rt \<and> nh_gateway n = gw
        \<and> nh_tunnel_info n = ti \<and> rid < rte_fbarray_len (fbarray D) (g_fib_res_array s)"
    if v: "lpm_view (route_view D s) fam i ip 32 = Some (rt, gw, ti)"
  proof (cases "lpm_from (fib_routes (slot_fib s i)) ip 32")
    case None
    then show ?thesis using l v by simp
  next
    case (Some rid)
    then obtain key where key: "rib_map D s (RibKey key) = Some rid" "route_view D s key = Some (rt, gw, ti)"
      using l v by auto
    obtain p n where p: "mpath (fib_res_mem s rid) = [p]" "nhop_heap s p = Some n" "p \<noteq> 0"
      "route_view D s key = Some (fib_res_rtype_get (fib_res_mem s rid), nh_gateway n, nh_tunnel_info n)"
      using route_view_path [OF ri key(1)] by blast
    then show ?thesis using key ri Some by (auto simp: fib_lookup route_inv_def rib_wf_def)
  qed
qed

text \<open>The lookup of a destination that has a route.\<close>

lemma route_lookup_hit:
  assumes fi: "fib_inv D fib_routes fib_default fam s" and ri: "route_inv D fb_used s" and i: "i < NTB_NR_VRF"
    and v: "lpm_view (route_view D s) fam i (bswap32 dip) 32 = Some (rt, gw, ti)"
    and h1: "hal_route_entry_add (hal D) (hw_state s) \<lparr>hrk_vrf = of_int (int i + 1),
      hrk_ip_src_addr = bswap32 sip, hrk_ip_dst_addr = bswap32 dip\<rparr> = h1"
  shows "\<exists>p n. nhop_heap s p = Some n \<and> nh_gateway n = gw \<and> nh_tunnel_info n = ti \<and>
    ntb_route_lookup D i sip dip 0 s =
     (let (r1, hw1) = h1 (nh_oid n);
          (r2, hw2) = hal_nhop_entry_add (hal D) hw1 (nh_oid n) \<lparr>hnd_tunnel_key = 11, hnd_local = 0xD00001,
            hnd_remote = vxlan_remote ti, hnd_neigh_id = nh_neigh_oid n\<rparr>;
          rid = Some (rte_fib_lookup (fib D) (slot_fib s i) (bswap32 dip))
      in if r1 \<noteq> 0 then Inr (NTB_LOAD_TO_P4_FAIL, rid, s\<lparr>hw_state := hw1\<rparr>)
         else if r2 \<noteq> 0 then Inr (NTB_LOAD_TO_P4_FAIL, rid, s\<lparr>hw_state := hw2\<rparr>)
         else Inr (0, rid, s\<lparr>hw_state := hw2\<rparr>))"
proof -
  obtain rid p n where r: "rte_fib_lookup (fib D) (slot_fib s i) (bswap32 dip) = rid" "mpath (fib_res_mem s rid) = [p]"
    "p \<noteq> 0" "nhop_heap s p = Some n" "nh_gateway n = gw" "nh_tunnel_info n = ti"
    "rid < rte_fbarray_len (fbarray D) (g_fib_res_array s)"
    using fib_lookup_view(2) [OF fi ri i v] by blast
  have ids: "vrf_ids_ok s" using ri by (simp add: route_inv_def)
  have dp: "i < length (g_ntb_vrfs s)" "vrf_id (dp (g_ntb_vrfs s ! i)) = int i + 1"
    using vrf_ids_ok_length [OF ids] vrf_ids_ok_nth [OF ids i] i by simp_all
  show ?thesis
    using r dp
    by (intro exI [of _ p] exI [of _ n])
      (auto simp: ntb_route_lookup_def Let_def shc_hal_route_entry_add_def shc_hal_nhop_entry_add_def fib_res_get_def
        slot_fib_def h1 [symmetric] NTB_LOAD_TO_P4_FAIL_val split: prod.split)
qed

text \<open>The lookup of a destination that no route covers: the blackhole has no path.\<close>

lemma route_lookup_miss:
  assumes fi: "fib_inv D fib_routes fib_default fam s" and ri: "route_inv D fb_used s" and i: "i < NTB_NR_VRF"
    and bh: "blackhole_ok s" and v: "lpm_view (route_view D s) fam i (bswap32 dip) 32 = None"
  shows "ntb_route_lookup D i sip dip 0 s = Inl NullDeref"
proof -
  have r: "rte_fib_lookup (fib D) (dp_fib (dp (g_ntb_vrfs s ! i))) (bswap32 dip) = nat (f_res_blackhole s)"
    using fib_lookup_view(1) [OF fi ri i v] by (simp add: slot_fib_def)
  have ids: "vrf_ids_ok s" using ri by (simp add: route_inv_def)
  have "i < length (g_ntb_vrfs s)" using vrf_ids_ok_length [OF ids] i by simp
  moreover have "nat (f_res_blackhole s) < rte_fbarray_len (fbarray D) (g_fib_res_array s)" "0 \<le> f_res_blackhole s"
    using ri by (simp_all add: route_inv_def rib_wf_def)
  ultimately show ?thesis
    using r bh by (simp add: ntb_route_lookup_def Let_def fib_res_get_def blackhole_ok_def
        rte_fbarray_get_def)
qed

end

end
