(* ===== verification/Ntb_Witness.thy ===== *)
theory Ntb_Witness
  imports Ntb_Lookup
begin

text \<open>
  Concrete states in the reference environment: a booted agent, the agent with one VRF, with a route
  in it and with a tunnel mapped to it. They are the inputs at which the properties are applied.
\<close>

abbreviation w_env :: "(ref_hash, ref_fbarray, ref_fib, hw) env" where
  "w_env \<equiv> ref_env False (\<lambda>_. True)"

abbreviation w_used :: "ref_fbarray \<Rightarrow> nat set" where
  "w_used \<equiv> \<lambda>b. set (snd b)"

abbreviation w_slots :: "ref_hash \<Rightarrow> (hkey \<times> nat) option list" where
  "w_slots \<equiv> \<lambda>t. slot_live (snd t)"

abbreviation w_inv :: "ref_state \<Rightarrow> bool" where
  "w_inv \<equiv> agent_inv w_env w_used ref_fib_routes ref_fib_default 2"

definition w_pfx :: ntb_rib_key where
  "w_pfx = \<lparr>rk_vrf_id = 1, rk_family = 2, rk_prefixlen = 24, rk_prefix4 = bswap32 0x0a000100\<rparr>"

definition w_nhop :: fib_nhop_encap_data where
  "w_nhop = \<lparr>en_gateway = 0xc0a80001, en_tunnel_info = \<lparr>ti_family = 2, ti_type = NTB_ENCAP_VXLAN,
     ti_u0 = 0x0a0a0a02, ti_u1 = 0x0a0a0a01, ti_u2 = 5000\<rparr>\<rparr>"

definition w_name :: string where
  "w_name = ''blue''"

text \<open>The state a request leaves, for requests that return.\<close>

definition after :: "(int \<times> 's) outcome \<Rightarrow> 's \<Rightarrow> 's" where
  "after r s = (case r of Inl _ \<Rightarrow> s | Inr (_, s') \<Rightarrow> s')"

lemma after_Inr [simp]: "after (Inr (r, s')) s = s'"
  by (simp add: after_def)

definition w_blue :: ref_state where
  "w_blue = after (ntb_vrf_add w_name ref_agent) ref_agent"

definition w_routed :: ref_state where
  "w_routed = after (ntb_route_nhop_insert w_env 0 w_pfx w_nhop RT_DEFAULT w_blue) w_blue"

definition w_mrouted :: ref_state where
  "w_mrouted = after (ntb_route_nhop_insert w_env 0 w_pfx w_nhop RT_MROUTE w_blue) w_blue"

definition w_tunnel :: ref_state where
  "w_tunnel = after (ntb_tunnel_map_vrf w_env w_name NTB_TUNNEL_VXLAN 5000 (tu_attribute ntb_tunnel_info_zero) w_blue) w_blue"

lemma ref_agent_sel [simp]:
  "g_ntb_vrfs ref_agent = map ref_vrf [0..<NTB_NR_VRF]" "g_fib_res_array ref_agent = (NTB_NR_FIB_RES_ALL + 1, [0])"
  "ntb_rib_hash_tbl ref_agent = (NTB_NR_ROUTES_ALL * 2, [])" "g_nhop_hash_tbl ref_agent = (NTB_NR_NHOP_ALL, [])"
  "ol_neigh_hash_tbl ref_agent = (MAX_VRF_GW_HASH_ENT * 6, [])" "vrf_hash_tbl ref_agent = (NTB_NR_TUNNEL_ALL * 8, [])"
  "nhop_heap ref_agent = Map.empty" "neigh_heap ref_agent = Map.empty" "tunnel_heap ref_agent = Map.empty"
  "next_addr ref_agent = 1" "hw_state ref_agent = hw_empty" "fake_mac ref_agent = default_mac"
  "g_ntb_vrf_n ref_agent = 0" "f_res_blackhole ref_agent = 0"
  by (simp_all add: ref_agent_def ref_boot_def)

lemma ref_agent_agent_inv: "w_inv ref_agent"
  using ref_agent_inv(1-3) [of False "\<lambda>_. True"] ref_agent_inv(4,5) by (simp add: agent_inv_def)

lemma w_name_ok [simp]: "c_name w_name" "length w_name < NTB_VRF_NAME_LEN"
  by (simp_all add: w_name_def c_name_def NTB_VRF_NAME_LEN_def)

lemma w_blue_run: "ntb_vrf_add w_name ref_agent = Inr (0, w_blue)"
  and w_blue_sel: "w_blue = ref_agent\<lparr>g_ntb_vrfs :=
    (map ref_vrf [0..<NTB_NR_VRF])[0 := vrf_install w_name default_mac (ref_vrf 0)], g_ntb_vrf_n := 1\<rparr>"
proof -
  have inv: "vrf_wf ref_agent" "\<And>n. vrf_view ref_agent n = None"
    using ref_agent_inv(4,9) by simp_all
  have no: "\<not> (\<exists>v \<in> set (g_ntb_vrfs ref_agent). vrf_named v w_name)"
    by (auto simp: vrf_named_def ref_vrf_def)
  obtain m where m: "NTB_NR_VRF = Suc m" by (metis NTB_NR_VRF_pos Suc_pred)
  have scan: "vrf_add_scan (g_ntb_vrfs ref_agent) 0 w_name (- 1) = Inr (False, 0)"
    using vrf_add_scan_spec(2) [of "g_ntb_vrfs ref_agent" w_name 0 "- 1"] inv(1) no
    by (simp add: m find_upt_Suc ref_vrf_def del: upt_Suc)
  have run: "ntb_vrf_add w_name ref_agent = Inr (0, ref_agent\<lparr>g_ntb_vrfs :=
    (map ref_vrf [0..<NTB_NR_VRF])[0 := vrf_install w_name default_mac (ref_vrf 0)], g_ntb_vrf_n := 1\<rparr>)"
    using scan by (simp add: ntb_vrf_add_def ntb_fake_mac_get_def)
  then show "w_blue = ref_agent\<lparr>g_ntb_vrfs :=
    (map ref_vrf [0..<NTB_NR_VRF])[0 := vrf_install w_name default_mac (ref_vrf 0)], g_ntb_vrf_n := 1\<rparr>"
    by (simp add: w_blue_def)
  with run show "ntb_vrf_add w_name ref_agent = Inr (0, w_blue)" by simp
qed

lemma w_blue_inv: "w_inv w_blue"
  using ref.agent_inv_vrf_add [OF ref_agent_agent_inv, of w_name] w_blue_run by simp

lemma w_blue_view: "vrf_view w_blue = [w_name \<mapsto> 0]" "route_view w_env w_blue = Map.empty"
proof -
  have a: "route_view w_env ref_agent = Map.empty" using ref_agent_inv(7) [of False "\<lambda>_. True"] by simp
  have "vrf_view w_blue = (vrf_view ref_agent)(w_name \<mapsto> 0)"
    by (rule vrf_add_new_wf(2) [where m = default_mac])
      (use ref_agent_inv(4,9) in \<open>simp_all add: w_blue_sel ref_vrf_def\<close>)
  then show "vrf_view w_blue = [w_name \<mapsto> 0]" using ref_agent_inv(9) by simp
  show "route_view w_env w_blue = Map.empty"
    using a by (simp add: route_view_def fun_eq_iff w_blue_sel rib_map_def ref_hash_api_def)
qed

lemma w_pfx_ok [simp]: "rk_vrf_id w_pfx = 1" "canonical 2 w_pfx" "pfx_in 0 w_pfx" "rk_prefixlen w_pfx = 24"
  "rk_prefix4 w_pfx = bswap32 0x0a000100"
  by (simp_all add: w_pfx_def canonical_def ip4_net_def pfx_in_def)

lemmas insert_defs = ntb_route_nhop_insert_def route_nhop_insert_new_def nhop_obj_create_def
  nhop_neigh_add_def ntb_neigh_add_def nhop_obj_ref_def fib_res_obj_create_def fib_res_id_alloc_def
  rt_prefix_obj_update_def rt_prefix_type_get_def fib_res_get_def rte_fbarray_get_def rte_zmalloc_def
  put_nhop_def put_neigh_def ntb_nhop_hash_key_def fib_nhop_new_def IP4_ADDR_IS_ZERO_def local_nhops_def
  fib_res_reset_def rib_res_nhop_ctor_def fib_res_md_set_def fib_res_unset_flags_def fib_res_set_flags_def
  store_res_def

lemmas size_defs = NTB_NR_ROUTES_ALL_def NTB_NR_NHOP_ALL_def NTB_NR_FIB_RES_ALL_def
  MAX_VRF_GW_HASH_ENT_def MAX_NHOPS_PER_RTOUE_def ROUTE_MAX_ECMP_def MROUTE_MAX_ECMP_def NTB_NR_TUNNEL_ALL_def

lemma w_routed_run:
  "ntb_route_nhop_insert w_env 0 w_pfx w_nhop RT_DEFAULT w_blue = Inr (0, w_routed)"
  "ntb_route_nhop_insert w_env 0 w_pfx w_nhop RT_MROUTE w_blue = Inr (0, w_mrouted)"
proof -
  have "\<exists>s'. ntb_route_nhop_insert w_env 0 w_pfx w_nhop RT_DEFAULT w_blue = Inr (0, s')"
    by (simp add: insert_defs size_defs Let_def ref_env_simps ref_vrf_def w_nhop_def w_blue_sel)
  then show "ntb_route_nhop_insert w_env 0 w_pfx w_nhop RT_DEFAULT w_blue = Inr (0, w_routed)"
    by (auto simp: w_routed_def)
  have "\<exists>s'. ntb_route_nhop_insert w_env 0 w_pfx w_nhop RT_MROUTE w_blue = Inr (0, s')"
    by (simp add: insert_defs size_defs Let_def ref_env_simps ref_vrf_def w_nhop_def w_blue_sel)
  then show "ntb_route_nhop_insert w_env 0 w_pfx w_nhop RT_MROUTE w_blue = Inr (0, w_mrouted)"
    by (auto simp: w_mrouted_def)
qed

lemma w_blue_route_inv: "route_inv w_env w_used w_blue" "rib_map w_env w_blue (RibKey w_pfx) = None"
  using w_blue_inv w_blue_view(2) ref.route_view_live [of False "\<lambda>_. True" w_blue w_pfx]
  by (simp_all add: agent_inv_def)

lemma w_routed_inv: "w_inv w_routed" "w_inv w_mrouted"
  using ref.insert_step [OF _ w_blue_inv, of 0 w_pfx w_nhop RT_DEFAULT]
    ref.insert_step [OF _ w_blue_inv, of 0 w_pfx w_nhop RT_MROUTE] w_routed_run w_blue_view(2) by auto

lemma w_routed_view:
  "route_view w_env w_routed = [w_pfx \<mapsto> (RT_DEFAULT, en_gateway w_nhop, en_tunnel_info w_nhop)]"
  "route_view w_env w_mrouted = [w_pfx \<mapsto> (RT_MROUTE, en_gateway w_nhop, en_tunnel_info w_nhop)]"
  using ref.route_insert_effect [OF _ w_blue_route_inv(1) _ _ _ w_blue_route_inv(2), of 0 RT_DEFAULT w_nhop]
    ref.route_insert_effect [OF _ w_blue_route_inv(1) _ _ _ w_blue_route_inv(2), of 0 RT_MROUTE w_nhop]
    w_routed_run w_blue_view(2) by auto

lemma w_tunnel_run:
  "ntb_tunnel_map_vrf w_env w_name NTB_TUNNEL_VXLAN 5000 (tu_attribute ntb_tunnel_info_zero) w_blue = Inr (0, w_tunnel)"
proof -
  have "ntb_vrf_lookup w_name w_blue = Inr (Some 0)"
    using vrf_lookup_view [of w_blue w_name] w_blue_inv w_blue_view(1) by (simp add: agent_inv_def)
  then have "\<exists>s'. ntb_tunnel_map_vrf w_env w_name NTB_TUNNEL_VXLAN 5000 (tu_attribute ntb_tunnel_info_zero) w_blue = Inr (0, s')"
    by (simp add: ntb_tunnel_map_vrf_def Let_def ref_env_simps rte_zmalloc_def put_tunnel_def size_defs w_blue_sel)
  then show ?thesis by (auto simp: w_tunnel_def)
qed

lemma w_tunnel_inv: "w_inv w_tunnel"
  using ref.tunnel_step [OF _ w_blue_inv, of w_name NTB_TUNNEL_VXLAN 5000 "tu_attribute ntb_tunnel_info_zero"] w_tunnel_run
  by simp

lemma w_routed_lpm:
  "lpm_view (route_view w_env w_routed) 2 0 0x0a000105 32 =
    Some (RT_DEFAULT, en_gateway w_nhop, en_tunnel_info w_nhop)"
  unfolding lpm_view_Some_iff
proof (intro exI [of _ 24] conjI allI impI)
  have "vrf_key 2 0 (ip4_net 0x0a000105 24) (of_nat 24) = w_pfx"
    by (simp add: vrf_key_eq_iff ip4_net_def) (simp add: w_pfx_def)
  then show "route_view w_env w_routed (vrf_key 2 0 (ip4_net 0x0a000105 24) (of_nat 24)) =
      Some (RT_DEFAULT, en_gateway w_nhop, en_tunnel_info w_nhop)" by (simp add: w_routed_view(1))
  fix d assume d: "24 < d \<and> d \<le> (32 :: nat)"
  have "vrf_key 2 0 (ip4_net 0x0a000105 d) (of_nat d) \<noteq> w_pfx"
  proof
    assume "vrf_key 2 0 (ip4_net 0x0a000105 d) (of_nat d) = w_pfx"
    then have "unat (of_nat d :: u8) = 24" by (simp add: vrf_key_eq_iff [of _ _ _ _ w_pfx])
    then show False using d by (simp add: unat_of_nat)
  qed
  then show "route_view w_env w_routed (vrf_key 2 0 (ip4_net 0x0a000105 d) (of_nat d)) = None"
    by (simp add: w_routed_view(1))
qed simp

text \<open>The routed agent with a tunnel mapped to its VRF.\<close>

definition w_full :: ref_state where
  "w_full = after (ntb_tunnel_map_vrf w_env w_name NTB_TUNNEL_VXLAN 5000 (tu_attribute ntb_tunnel_info_zero) w_routed) w_routed"

lemma w_routed_frame: "outer_frame w_blue w_routed"
  using ref.route_insert_effect [OF _ w_blue_route_inv(1) _ _ _ w_blue_route_inv(2), of 0 RT_DEFAULT w_nhop]
    w_routed_run by auto

lemma w_routed_neigh:
  "\<exists>e. neigh_map w_env w_routed (NeighKey 1 (en_gateway w_nhop)) = Some 2 \<and> neigh_heap w_routed 2 = Some e \<and> \<not> F_arp_valid e"
  unfolding w_routed_def
  by (simp add: insert_defs size_defs Let_def ref_env_simps ref_vrf_def w_nhop_def w_blue_sel neigh_map_def after_def
    ol_neigh_entry_zero_def)

lemma w_routed_parts:
  "vrf_hash_tbl w_routed = (NTB_NR_TUNNEL_ALL * 8, [])" "length (g_ntb_vrfs w_routed) = NTB_NR_VRF"
  "fake_mac w_routed = default_mac" "vrf_view w_routed = [w_name \<mapsto> 0]"
proof -
  have f: "vrf_names w_routed = vrf_names w_blue" "vrf_ids w_routed = vrf_ids w_blue"
    "tunnel_part w_routed = tunnel_part w_blue" "fake_mac w_routed = fake_mac w_blue"
    using w_routed_frame by (simp_all add: outer_frame_def)
  show "vrf_hash_tbl w_routed = (NTB_NR_TUNNEL_ALL * 8, [])" using f(3) by (simp add: tunnel_part_def w_blue_sel)
  show "fake_mac w_routed = default_mac" using f(4) by (simp add: w_blue_sel)
  show "length (g_ntb_vrfs w_routed) = NTB_NR_VRF"
    using w_routed_inv(1) by (simp add: agent_inv_def vrf_wf_def vrf_ids_ok_length)
  show "vrf_view w_routed = [w_name \<mapsto> 0]" using vrf_wf_cong(2) [OF f(1,2)] w_blue_view(1) by simp
qed

lemma w_full_run:
  "ntb_tunnel_map_vrf w_env w_name NTB_TUNNEL_VXLAN 5000 (tu_attribute ntb_tunnel_info_zero) w_routed = Inr (0, w_full)"
proof -
  have "ntb_vrf_lookup w_name w_routed = Inr (Some 0)"
    using vrf_lookup_view [of w_routed w_name] w_routed_inv(1) w_routed_parts(4) by (simp add: agent_inv_def)
  then have "\<exists>s'. ntb_tunnel_map_vrf w_env w_name NTB_TUNNEL_VXLAN 5000 (tu_attribute ntb_tunnel_info_zero) w_routed = Inr (0, s')"
    by (simp add: ntb_tunnel_map_vrf_def Let_def ref_env_simps rte_zmalloc_def put_tunnel_def size_defs w_routed_parts)
  then show ?thesis by (auto simp: w_full_def)
qed

lemma w_full_frame:
  "tunnel_frame w_routed w_full" "tunnel_view w_env w_full (NTB_TUNNEL_VXLAN, 5000) = Some 1"
proof -
  have w: "tunnel_wf w_env w_routed" "vrf_wf w_routed" "vrf_view w_routed w_name = Some 0"
    using w_routed_inv(1) w_routed_parts(4) by (simp_all add: agent_inv_def)
  have "tunnel_map w_env w_routed (TunnelKey NTB_TUNNEL_VXLAN 5000) = None"
    by (simp add: tunnel_map_def w_routed_parts(1) ref_hash_api_def)
  then have "tunnel_frame w_routed w_full \<and> tunnel_view w_env w_full (NTB_TUNNEL_VXLAN, 5000) = Some 1"
    using w_full_run
    by (cases rule: ref.tunnel_map_vrf_cases [OF _ w(1,2) w_name_ok(1) w(3) refl, where ty = NTB_TUNNEL_VXLAN
          and tid = 5000 and attr = "tu_attribute ntb_tunnel_info_zero", simplified, case_names same other fail new])
      (simp_all add: tunnel_view_def)
  then show "tunnel_frame w_routed w_full" "tunnel_view w_env w_full (NTB_TUNNEL_VXLAN, 5000) = Some 1" by blast+
qed

lemma w_full_inv: "w_inv w_full"
  using ref.tunnel_step [OF _ w_routed_inv(1), of w_name NTB_TUNNEL_VXLAN 5000 "tu_attribute ntb_tunnel_info_zero"]
    w_full_run by simp

lemma w_full_view: "route_view w_env w_full = route_view w_env w_routed" "fake_mac w_full = default_mac"
  "neigh_map w_env w_full = neigh_map w_env w_routed" "neigh_heap w_full = neigh_heap w_routed"
  using w_full_frame(1) w_routed_parts(3)
  by (auto simp: tunnel_frame_def route_part_def nhop_part_def neigh_part_def rib_map_def nhop_view_def neigh_map_def
      intro!: route_view_kept)

end
