(* ===== verification/Ntb_Route_Props.thy ===== *)
theory Ntb_Route_Props
  imports Ntb_Witness
begin

text \<open>
  The properties of the route component and of the control plane as a whole, stated over any
  environment that keeps the laws of the DPDK libraries, each with an application at a concrete
  state.
\<close>

subsection \<open>The control plane\<close>

text \<open>
  C1: in a build without assertions, every state the control plane can reach from a booted process
  by admissible requests satisfies the invariant of all tables: routes, forwarding tables, next hop
  and neighbour objects, VRF names and tunnels.
\<close>

theorem reachable_agent_inv:
  assumes "dpdk_iter_env D fb_used fib_routes fib_default hash_slots"
    and "\<not> assert_on D" and "reachable D fam s"
  shows "agent_inv D fb_used fib_routes fib_default fam s"
  by (rule dpdk_iter_env.reachable_inv [OF assms])

theorem reachable_agent_inv_witness:
  "\<exists>s. reachable w_env 2 s \<and> w_inv s"
proof -
  obtain s0 where s0: "tables_init w_env ref_boot = Inr (0, s0)"
    using ref_tables_init [of False "\<lambda>_. True"] by blast
  have r0: "reachable w_env 2 s0"
    by (rule reachable.init [OF ref_boot_boot _ s0]) (simp_all add: ref_fbarray_api_def)
  then obtain r s1 where s1: "ctl_run w_env (VrfAdd w_name) s0 = Some (Inr (r, s1))"
    using ref_iter.ctl_step [OF _ ref_iter.reachable_inv, of False "\<lambda>_. True" 2 s0 "VrfAdd w_name"] by auto
  have "reachable w_env 2 s1" by (rule reachable.step [OF r0 _ s1]) simp
  then show ?thesis
    using reachable_agent_inv [OF ref_iter_env, of False "\<lambda>_. True" 2 s1] by auto
qed

text \<open>
  C2: every admissible request on a state that satisfies the invariant returns: it runs into no
  null pointer, dangling pointer or out of bounds access, the cleanup loop of a VRF deletion ends,
  and the invariant holds afterwards, whatever the return code.
\<close>

theorem request_returns:
  assumes "dpdk_iter_env D fb_used fib_routes fib_default hash_slots" and "\<not> assert_on D"
    and "agent_inv D fb_used fib_routes fib_default fam s" and "ctl_ok D fam req s"
  shows "\<exists>r s'. ctl_run D req s = Some (Inr (r, s')) \<and> agent_inv D fb_used fib_routes fib_default fam s'"
  by (rule dpdk_iter_env.ctl_step [OF assms])

theorem request_returns_witness:
  "\<exists>r s'. ctl_run w_env (VrfDel w_name) w_routed = Some (Inr (r, s')) \<and> w_inv s'"
proof (rule request_returns [OF ref_iter_env _ w_routed_inv(1)])
  have "slot_rmap w_routed i = []" if "vrf_view w_routed w_name = Some i" for i
  proof -
    have f: "outer_frame w_blue w_routed"
      using ref.route_insert_effect [OF _ w_blue_route_inv(1) _ _ _ w_blue_route_inv(2), of 0 RT_DEFAULT w_nhop]
        w_routed_run(1) by auto
    have len: "length (g_ntb_vrfs w_blue) = NTB_NR_VRF" "length (g_ntb_vrfs w_routed) = NTB_NR_VRF"
      using w_blue_inv w_routed_inv(1) vrf_ids_ok_length by (auto simp: agent_inv_def route_inv_def)
    have e: "map (\<lambda>v. (tunnel_rmap (dp v), tunnel_cnt (dp v))) (g_ntb_vrfs w_routed) =
        map (\<lambda>v. (tunnel_rmap (dp v), tunnel_cnt (dp v))) (g_ntb_vrfs w_blue)"
      using f by (simp add: outer_frame_def tunnel_part_def)
    have "i = 0" using that f vrf_wf_cong(2) [of w_routed w_blue] w_blue_view(1)
      by (simp add: outer_frame_def)
    then show ?thesis
      using arg_cong [OF e, of "\<lambda>xs. xs ! 0"] len
      by (simp add: slot_rmap_def w_blue_sel vrf_install_def ntb_vrf_dp_ctor_def)
  qed
  then show "ctl_ok w_env 2 (VrfDel w_name) w_routed" by simp
qed simp_all

subsection \<open>Insertion\<close>



text \<open>
  A unicast route cannot be inserted over a unicast route: the call fails with
  \<^verbatim>\<open>NTB_ROUTE_NEXTHOP_ECMP_NOSPACE\<close> and changes nothing, also for the very same next hop, since the
  capacity test precedes the test for an equal next hop.
\<close>

theorem route_insert_twice:
  assumes env: "dpdk_env D fb_used fib_routes fib_default" and inv: "route_inv D fb_used s"
    and v: "route_view D s pfx = Some (RT_DEFAULT, gw, ti)"
  shows "ntb_route_nhop_insert D i pfx e RT_DEFAULT s = Inr (NTB_ROUTE_NEXTHOP_ECMP_NOSPACE, s)"
  using dpdk_env.insert_existing [OF env inv v] by simp

theorem route_insert_twice_witness:
  "ntb_route_nhop_insert w_env 0 w_pfx w_nhop RT_DEFAULT w_routed = Inr (NTB_ROUTE_NEXTHOP_ECMP_NOSPACE, w_routed)"
  using route_insert_twice [OF ref_dpdk_env] w_routed_inv(1) w_routed_view(1) by (simp add: agent_inv_def)

text \<open>
  A route of one type cannot be inserted over a route of the other type.
\<close>

theorem route_insert_type_conflict:
  assumes env: "dpdk_env D fb_used fib_routes fib_default" and inv: "route_inv D fb_used s"
    and v: "route_view D s pfx = Some (rt, gw, ti)" and ne: "rt \<noteq> rtype"
  shows "ntb_route_nhop_insert D i pfx e rtype s = Inr (NTB_IPV4_ROUTETYPE_NO_SAME, s)"
  using dpdk_env.insert_existing [OF env inv v] ne by simp

theorem route_insert_type_conflict_witness:
  "ntb_route_nhop_insert w_env 0 w_pfx w_nhop RT_MROUTE w_routed = Inr (NTB_IPV4_ROUTETYPE_NO_SAME, w_routed)"
  using route_insert_type_conflict [OF ref_dpdk_env] w_routed_inv(1) w_routed_view(1) by (simp add: agent_inv_def)

subsection \<open>Removal\<close>

text \<open>
  C6: deleting a route that exists refines the removal of its prefix from the route map: it
  succeeds, no other route changes, and the forwarding tables still agree.
\<close>

theorem route_delete_refines:
  assumes env: "dpdk_env D fb_used fib_routes fib_default" and off: "\<not> assert_on D"
    and inv: "route_inv D fb_used s" and i: "i < NTB_NR_VRF" "rk_vrf_id pfx = int i + 1"
    and v: "route_view D s pfx \<noteq> None"
  shows "\<exists>s'. ntb_route_delete D i pfx s = Inr (0, s') \<and> route_inv D fb_used s' \<and> outer_frame s s'
    \<and> route_view D s' = (route_view D s)(pfx := None)
    \<and> (\<forall>fam. fib_inv D fib_routes fib_default fam s \<longrightarrow> fib_inv D fib_routes fib_default fam s')"
proof -
  obtain rid where "rib_map D s (RibKey pfx) = Some rid" using dpdk_env.route_view_live [OF env inv, of pfx] v by auto
  from dpdk_env.route_delete_effect [OF env off inv i this] show ?thesis by blast
qed

theorem route_delete_refines_witness:
  "\<exists>s'. ntb_route_delete w_env 0 w_pfx w_routed = Inr (0, s') \<and> route_view w_env s' = Map.empty"
  using route_delete_refines [OF ref_dpdk_env _ _ _ _, of False "\<lambda>_. True" w_routed 0 w_pfx]
    w_routed_inv(1) w_routed_view(1) by (auto simp: agent_inv_def)

text \<open>
  Inserting a new route and deleting it again gives back the route map of the start.
\<close>

theorem route_insert_delete:
  assumes env: "dpdk_env D fb_used fib_routes fib_default" and off: "\<not> assert_on D"
    and inv: "route_inv D fb_used s" and i: "i < NTB_NR_VRF" "rk_vrf_id pfx = int i + 1"
    and rt: "rtype \<noteq> RT_MAX" and new: "route_view D s pfx = None"
    and ins: "ntb_route_nhop_insert D i pfx e rtype s = Inr (0, s1)"
  shows "\<exists>s2. ntb_route_delete D i pfx s1 = Inr (0, s2) \<and> route_inv D fb_used s2
    \<and> route_view D s2 = route_view D s"
proof -
  have k: "rib_map D s (RibKey pfx) = None" using dpdk_env.route_view_live [OF env inv] new by blast
  have s1: "route_inv D fb_used s1"
    "route_view D s1 = (route_view D s)(pfx \<mapsto> (rtype, en_gateway e, en_tunnel_info e))"
    using dpdk_env.route_insert_effect [OF env off inv i rt k, of e] ins by auto
  then obtain rid where r: "rib_map D s1 (RibKey pfx) = Some rid"
    using dpdk_env.route_view_live [OF env s1(1), of pfx] by auto
  have "((route_view D s)(pfx \<mapsto> x))(pfx := None) = route_view D s" for x using new by (simp add: fun_upd_idem_iff)
  then show ?thesis using dpdk_env.route_delete_effect [OF env off s1(1) i r] s1(2) by auto
qed

theorem route_insert_delete_witness:
  "\<exists>s2. ntb_route_delete w_env 0 w_pfx w_routed = Inr (0, s2) \<and> route_view w_env s2 = route_view w_env w_blue"
  using route_insert_delete [OF ref_dpdk_env _ w_blue_route_inv(1) _ _ _ _ w_routed_run(1)] w_blue_view(2) by auto

text \<open>
  C19: removal by next hop, on every branch. A route of the other type is refused; when the route of
  the prefix has the gateway and tunnel of the request, the call is exactly the deletion of the
  route; when it has another next hop, nothing changes and the call reports success.
\<close>

theorem nhop_delete_refines:
  assumes env: "dpdk_env D fb_used fib_routes fib_default" and off: "\<not> assert_on D"
    and inv: "route_inv D fb_used s" and v: "route_view D s pfx = Some (rt, gw, ti)"
  shows "ntb_route_nhop_delete D i pfx e rtype s =
    (if rt \<noteq> rtype then Inr (NTB_IPV4_ROUTETYPE_NO_SAME, s)
     else if (gw, ti) = (en_gateway e, en_tunnel_info e) then ntb_route_delete D i pfx s
     else Inr (0, s))"
  by (rule dpdk_env.nhop_delete_exact [OF env off inv v])

theorem nhop_delete_refines_witness:
  "ntb_route_nhop_delete w_env 0 w_pfx w_nhop RT_DEFAULT w_routed = ntb_route_delete w_env 0 w_pfx w_routed"
  using nhop_delete_refines [OF ref_dpdk_env _ _ w_routed_view(1) [THEN fun_cong, of w_pfx, simplified],
      of 0 w_nhop RT_DEFAULT] w_routed_inv(1) by (simp add: agent_inv_def)

text \<open>
  C7: the cleanup of a VRF terminates although it deletes from the table it iterates over, and
  leaves exactly the routes of the other VRFs.
\<close>

theorem route_cleanup_exact:
  assumes env: "dpdk_iter_env D fb_used fib_routes fib_default hash_slots" and off: "\<not> assert_on D"
    and i: "i < NTB_NR_VRF" and inv: "route_inv D fb_used s"
  shows "\<exists>s'. ntb_route_cleanup D i s = Some (Inr (0, s')) \<and> route_inv D fb_used s'
    \<and> route_view D s' = (\<lambda>key. if rk_vrf_id key = int i + 1 then None else route_view D s key)"
  using dpdk_iter_env.route_cleanup_effect [OF env off i inv] by blast

theorem route_cleanup_exact_witness:
  "(\<exists>s'. ntb_route_cleanup w_env 0 w_routed = Some (Inr (0, s')) \<and> route_view w_env s' = Map.empty)
    \<and> (\<exists>s'. ntb_route_cleanup w_env 1 w_routed = Some (Inr (0, s')) \<and> route_view w_env s' w_pfx \<noteq> None)"
proof -
  have inv: "route_inv w_env w_used w_routed" using w_routed_inv(1) by (simp add: agent_inv_def)
  have one: "1 < NTB_NR_VRF" by (simp add: NTB_NR_VRF_def)
  have "(\<lambda>key. if rk_vrf_id key = int 0 + 1 then None else route_view w_env w_routed key) = Map.empty"
    using w_routed_view(1) by (auto simp: fun_eq_iff)
  then have "\<exists>s'. ntb_route_cleanup w_env 0 w_routed = Some (Inr (0, s')) \<and> route_view w_env s' = Map.empty"
    using route_cleanup_exact [OF ref_iter_env _ _ inv, of 0] by auto
  moreover have "\<exists>s'. ntb_route_cleanup w_env 1 w_routed = Some (Inr (0, s')) \<and> route_view w_env s' w_pfx \<noteq> None"
    using route_cleanup_exact [OF ref_iter_env _ one inv] w_routed_view(1) by auto
  ultimately show ?thesis by blast
qed

subsection \<open>Lookup\<close>



text \<open>
  C11: the lookup of a destination that a route covers never faults. It loads two switch entries: the
  host route of (VRF, source, destination) with the object id of the next hop that the longest match
  names, and that next hop; nothing else of the agent changes.
\<close>

theorem route_lookup_loads:
  assumes env: "dpdk_env D fb_used fib_routes fib_default" and fi: "fib_inv D fib_routes fib_default fam s"
    and ri: "route_inv D fb_used s" and i: "i < NTB_NR_VRF"
    and v: "lpm_view (route_view D s) fam i (bswap32 dip) 32 = Some (rt, gw, ti)"
  shows "\<exists>p n. nhop_heap s p = Some n \<and> nh_gateway n = gw \<and> nh_tunnel_info n = ti \<and>
    ntb_route_lookup D i sip dip 0 s =
     (let (r1, hw1) = hal_route_entry_add (hal D) (hw_state s) \<lparr>hrk_vrf = of_int (int i + 1),
            hrk_ip_src_addr = bswap32 sip, hrk_ip_dst_addr = bswap32 dip\<rparr> (nh_oid n);
          (r2, hw2) = hal_nhop_entry_add (hal D) hw1 (nh_oid n) \<lparr>hnd_tunnel_key = 11, hnd_local = 0xD00001,
            hnd_remote = vxlan_remote ti, hnd_neigh_id = nh_neigh_oid n\<rparr>;
          rid = Some (rte_fib_lookup (fib D) (slot_fib s i) (bswap32 dip))
      in if r1 \<noteq> 0 then Inr (NTB_LOAD_TO_P4_FAIL, rid, s\<lparr>hw_state := hw1\<rparr>)
         else if r2 \<noteq> 0 then Inr (NTB_LOAD_TO_P4_FAIL, rid, s\<lparr>hw_state := hw2\<rparr>)
         else Inr (0, rid, s\<lparr>hw_state := hw2\<rparr>))"
  by (rule dpdk_env.route_lookup_hit [OF env fi ri i v refl])

theorem route_lookup_loads_witness:
  "\<exists>rid s'. ntb_route_lookup w_env 0 0 (bswap32 0x0a000105) 0 w_routed = Inr (0, rid, s')"
proof -
  have "fib_inv w_env ref_fib_routes ref_fib_default 2 w_routed" "route_inv w_env w_used w_routed"
    using w_routed_inv(1) by (simp_all add: agent_inv_def)
  from route_lookup_loads [OF ref_dpdk_env this _, of 0 "bswap32 0x0a000105" _ _ _ 0] w_routed_lpm
  show ?thesis by (auto simp: ref_hal_api_def)
qed

text \<open>
  C38: a destination that no route covers makes the lookup follow the null path of the blackhole
  result: the reject flag is only looked at by the caller, after the dereference.
\<close>

theorem route_lookup_no_route:
  assumes env: "dpdk_env D fb_used fib_routes fib_default"
    and inv: "agent_inv D fb_used fib_routes fib_default fam s" and i: "i < NTB_NR_VRF"
    and v: "lpm_view (route_view D s) fam i (bswap32 dip) 32 = None"
  shows "ntb_route_lookup D i sip dip 0 s = Inl NullDeref"
  using dpdk_env.route_lookup_miss [OF env _ _ i _ v] inv by (simp add: agent_inv_def)

theorem route_lookup_no_route_witness: "ntb_route_lookup w_env 0 1 2 0 w_blue = Inl NullDeref"
proof -
  have "route_view w_env w_blue = (\<lambda>_. None)" using w_blue_view(2) by simp
  then have "lpm_view (route_view w_env w_blue) 2 0 (bswap32 2) 32 = None" by (simp add: lpm_view_None_iff)
  then show ?thesis using route_lookup_no_route [OF ref_dpdk_env w_blue_inv, of 0 2 1] by simp
qed

subsection \<open>Reference counts\<close>


lemma w_routed_route_inv: "route_inv w_env w_used w_routed" "route_inv w_env w_used w_mrouted"
  using w_routed_inv by (simp_all add: agent_inv_def)

lemma w_routed_rib:
  obtains rid where "rib_map w_env w_routed (RibKey w_pfx) = Some rid"
  using ref.route_view_live [OF w_routed_route_inv(1), of w_pfx] w_routed_view(1) by auto


subsection \<open>Where the code breaks\<close>

text \<open>
  C37: a second next hop for a multicast route is written outside the path array. A multicast result
  announces eight paths (\<^verbatim>\<open>MROUTE_MAX_ECMP\<close>), the array has one element (\<^verbatim>\<open>ROUTE_MAX_ECMP\<close>): once the
  next hop object exists and a result is free, the copy into the new result writes at index 1.
\<close>

theorem mroute_second_nhop:
  assumes env: "dpdk_env D fb_used fib_routes fib_default" and off: "\<not> assert_on D"
    and inv: "route_inv D fb_used s" and i: "i < NTB_NR_VRF"
    and v: "route_view D s pfx = Some (RT_MROUTE, gw, ti)"
    and e: "gw \<noteq> en_gateway e" "ti_type ti = NTB_ENCAP_VXLAN"
    and nh: "nhop_obj_create D i e s = Inr (0, p, s1)"
    and free: "0 \<le> rte_fbarray_find_next_free (fbarray D) (g_fib_res_array s) 0"
  shows "ntb_route_nhop_insert D i pfx e RT_MROUTE s = Inl OutOfBounds"
proof -
  obtain rid where k: "rib_map D s (RibKey pfx) = Some rid" using dpdk_env.route_view_live [OF env inv, of pfx] v by auto
  obtain q where q: "mpath (fib_res_mem s rid) = [q]" using dpdk_env.route_path_live [OF env inv k] by blast
  have r: "rid < rte_fbarray_len (fbarray D) (g_fib_res_array s)" "mpath_cnt (fib_res_mem s rid) = 1"
    using inv k by (auto simp: route_inv_def rib_wf_def res_wf_def)
  have len: "i < length (g_ntb_vrfs s)" using i inv vrf_ids_ok_length [of s] by (simp add: route_inv_def)
  have "obj_frame s s1"
    using env off inv len
    by (cases rule: dpdk_env.nhop_obj_create_acquired [where e = e]) (use nh in \<open>auto simp: acquired_def\<close>)
  then have rp: "fib_res_mem s1 = fib_res_mem s" "g_fib_res_array s1 = g_fib_res_array s"
    by (simp_all add: obj_frame_def route_part_def)
  obtain x b where b: "rte_fbarray_set_used (fbarray D) (g_fib_res_array s)
      (nat (rte_fbarray_find_next_free (fbarray D) (g_fib_res_array s) 0)) = (x, b)" by fastforce
  note find = rte_fbarray.find_free [OF dpdk_env.axioms(2) [OF env] refl free]
  have bl: "rte_fbarray_len (fbarray D) b = rte_fbarray_len (fbarray D) (g_fib_res_array s)"
    using rte_fbarray.set_used [OF dpdk_env.axioms(2) [OF env] _ b] find by blast
  have "route_nhop_insert_new D i pfx e RT_MROUTE (Some rid) s = Inl OutOfBounds"
    using nh rp r q off free b bl find
    by (simp add: route_nhop_insert_new_def fib_res_get_def local_nhops_def MAX_NHOPS_PER_RTOUE_def
        ROUTE_MAX_ECMP_def MROUTE_MAX_ECMP_def fib_res_obj_create_def fib_res_id_alloc_def Let_def
        rte_fbarray_get_def fib_res_reset_def rib_res_nhop_ctor_def)
  then show ?thesis using dpdk_env.insert_existing [OF env inv v, of i e RT_MROUTE] k e by simp
qed

definition w_nhop2 :: fib_nhop_encap_data where
  "w_nhop2 = w_nhop\<lparr>en_gateway := 0xc0a80002\<rparr>"

theorem mroute_second_nhop_witness:
  "ntb_route_nhop_insert w_env 0 w_pfx w_nhop2 RT_MROUTE w_mrouted = Inl OutOfBounds"
proof -
  have "\<exists>p s1. nhop_obj_create w_env 0 w_nhop2 w_mrouted = Inr (0, p, s1)
      \<and> 0 \<le> rte_fbarray_find_next_free (fbarray w_env) (g_fib_res_array w_mrouted) 0"
    by (simp add: w_mrouted_def w_nhop2_def insert_defs size_defs Let_def ref_env_simps ref_vrf_def w_nhop_def w_blue_sel)
  then obtain p s1 where "nhop_obj_create w_env 0 w_nhop2 w_mrouted = Inr (0, p, s1)"
    "0 \<le> rte_fbarray_find_next_free (fbarray w_env) (g_fib_res_array w_mrouted) 0" by blast
  from mroute_second_nhop [OF ref_dpdk_env _ w_routed_route_inv(2) _ _ _ _ this] w_routed_view(2)
  show ?thesis by (simp add: w_nhop2_def w_nhop_def)
qed

text \<open>
  With assertions enabled, deleting a route panics unless its key sits at position 0 of the hash
  table: \<^verbatim>\<open>rt_prefix_obj_delete\<close> hands on the position that \<^verbatim>\<open>rte_hash_del_key\<close> returned, and
  \<^verbatim>\<open>ntb_route_delete\<close> asserts that it is 0.
\<close>

theorem route_delete_assert:
  assumes env: "dpdk_env D fb_used fib_routes fib_default" and on: "assert_on D"
    and inv: "route_inv D fb_used s" and i: "i < NTB_NR_VRF"
    and v: "route_view D s pfx \<noteq> None"
    and pos: "fst (rte_hash_del_key (hash D) (ntb_rib_hash_tbl s) (RibKey pfx)) \<noteq> 0"
  shows "ntb_route_delete D i pfx s = Inl AssertFailed"
proof -
  obtain rid where k: "rib_map D s (RibKey pfx) = Some rid"
    using dpdk_env.route_view_live [OF env inv, of pfx] v by auto
  obtain p n where p: "mpath (fib_res_mem s rid) = [p]" "nhop_heap s p = Some n" "p \<noteq> 0"
    using dpdk_env.route_path_live [OF env inv k] by blast
  have r: "rid < rte_fbarray_len (fbarray D) (g_fib_res_array s)" "mpath_cnt (fib_res_mem s rid) = 1"
    using inv k by (auto simp: route_inv_def rib_wf_def res_wf_def)
  have len: "i < length (g_ntb_vrfs s)" using i inv vrf_ids_ok_length [of s] by (simp add: route_inv_def)
  obtain ret t where t: "rte_hash_del_key (hash D) (ntb_rib_hash_tbl s) (RibKey pfx) = (ret, t)" by fastforce
  obtain r' f where f: "rte_fib_delete (fib D) (dp_fib (dp (g_ntb_vrfs s ! i))) (bswap32 (rk_prefix4 pfx))
      (rk_prefixlen pfx) = (r', f)" by fastforce
  show ?thesis
    using on k p r len t f pos
    by (simp add: ntb_route_delete_def rib_map_def fib_res_get_def Let_def local_nhops_def MAX_NHOPS_PER_RTOUE_def
        ROUTE_MAX_ECMP_def MROUTE_MAX_ECMP_def rt_prefix_obj_delete_def rt_prefix_type_get_def rte_fbarray_get_def)
qed

definition w_pfx2 :: ntb_rib_key where
  "w_pfx2 = w_pfx\<lparr>rk_prefix4 := bswap32 0x0a000200\<rparr>"

definition w_two :: ref_state where
  "w_two = after (ntb_route_nhop_insert w_env 0 w_pfx2 w_nhop RT_DEFAULT w_routed) w_routed"

lemma w_pfx2_ok [simp]: "rk_vrf_id w_pfx2 = 1" "canonical 2 w_pfx2" "w_pfx2 \<noteq> w_pfx" "rk_prefixlen w_pfx2 = 24"
  "rk_prefix4 w_pfx2 = bswap32 0x0a000200"
proof -
  have "rk_prefix4 w_pfx2 \<noteq> rk_prefix4 w_pfx" by (simp add: w_pfx2_def)
  then show "w_pfx2 \<noteq> w_pfx" by auto
qed (simp_all add: w_pfx2_def w_pfx_def canonical_def ip4_net_def)

lemma w_two_run: "ntb_route_nhop_insert w_env 0 w_pfx2 w_nhop RT_DEFAULT w_routed = Inr (0, w_two)"
  and w_two_pos: "fst (rte_hash_del_key (hash w_env) (ntb_rib_hash_tbl w_two) (RibKey w_pfx2)) = 1"
proof -
  have "\<exists>s'. ntb_route_nhop_insert w_env 0 w_pfx2 w_nhop RT_DEFAULT w_routed = Inr (0, s')"
    by (simp add: w_routed_def insert_defs size_defs Let_def ref_env_simps ref_vrf_def w_nhop_def w_blue_sel
        w_pfx2_ok(3) [symmetric])
  then show "ntb_route_nhop_insert w_env 0 w_pfx2 w_nhop RT_DEFAULT w_routed = Inr (0, w_two)"
    by (auto simp: w_two_def)
  show "fst (rte_hash_del_key (hash w_env) (ntb_rib_hash_tbl w_two) (RibKey w_pfx2)) = 1"
    by (simp add: w_two_def w_routed_def insert_defs size_defs Let_def ref_env_simps ref_vrf_def w_nhop_def w_blue_sel
        w_pfx2_ok(3) [symmetric])
qed

text \<open>The invariant does not depend on the assertions.\<close>

lemma route_inv_env:
  assumes "hash D' = hash D" and "fbarray D' = fbarray D"
  shows "route_inv D' u s = route_inv D u s" "route_view D' s = route_view D s"
proof -
  have m: "rib_map D' = rib_map D" "nhop_map D' = nhop_map D" "neigh_map D' = neigh_map D"
    using assms by (simp_all add: map_defs fun_eq_iff)
  have "nhop_users D' s = nhop_users D s" by (simp add: nhop_users_def fun_eq_iff m)
  then show "route_inv D' u s = route_inv D u s"
    by (simp add: route_inv_def rib_wf_def neigh_wf_def nhop_wf_def rib_counts_def m assms)
  show "route_view D' s = route_view D s" by (simp add: route_view_def fun_eq_iff m)
qed

theorem route_delete_assert_witness:
  "ntb_route_delete (ref_env True (\<lambda>_. True)) 0 w_pfx2 w_two = Inl AssertFailed"
proof -
  have k: "rib_map w_env w_routed (RibKey w_pfx2) = None"
    using ref.route_view_live [OF w_routed_route_inv(1), of w_pfx2] w_routed_view(1) by simp
  have "route_inv w_env w_used w_two" "route_view w_env w_two w_pfx2 \<noteq> None"
    using ref.route_insert_effect [OF _ w_routed_route_inv(1) _ _ _ k, of 0 RT_DEFAULT w_nhop] w_two_run by auto
  then have "route_inv (ref_env True (\<lambda>_. True)) w_used w_two" "route_view (ref_env True (\<lambda>_. True)) w_two w_pfx2 \<noteq> None"
    using route_inv_env [of "ref_env True (\<lambda>_. True)" w_env] by simp_all
  then show ?thesis using route_delete_assert [OF ref_dpdk_env, of True] w_two_pos by simp
qed

subsection \<open>Initialisation\<close>

text \<open>
  A successful initialisation of the tables leaves them empty and consistent: no route, tunnel or
  VRF, every counter 0, the blackhole result reserved, and all component invariants established.
\<close>

theorem tables_init_establishes:
  assumes env: "dpdk_env D fb_used fib_routes fib_default" and b: "boot s"
    and fb: "fst (rte_fbarray_init (fbarray D) (NTB_NR_FIB_RES_ALL + 1)) = 0"
    and i: "tables_init D s = Inr (r, s')" and r: "0 \<le> r"
  shows "agent_inv D fb_used fib_routes fib_default fam s' \<and> neigh_counted D s'
    \<and> route_view D s' = Map.empty \<and> tunnel_view D s' = Map.empty \<and> vrf_view s' = Map.empty"
  using dpdk_env.initialised_inv [OF env dpdk_env.tables_init_effect [OF env b i r fb]]
  by (simp add: agent_inv_def)

theorem tables_init_establishes_witness:
  "\<exists>s'. tables_init w_env ref_boot = Inr (0, s') \<and> w_inv s' \<and> vrf_view s' = Map.empty"
proof -
  obtain s' where "tables_init w_env ref_boot = Inr (0, s')"
    using ref_tables_init [of False "\<lambda>_. True"] by blast
  then show ?thesis
    using tables_init_establishes [OF ref_dpdk_env ref_boot_boot, of False "\<lambda>_. True" 0 s' 2]
    by (simp add: ref_fbarray_api_def)
qed

end
