(* ===== verification/Ntb_Vrf_Props.thy ===== *)
theory Ntb_Vrf_Props
  imports Ntb_Route_Props
begin

text \<open>
  The properties of the VRF table: creation, deletion and the settings refine operations on a map
  from names to entries; ids and entries correspond; and the two places where a bound is missing.
\<close>

text \<open>A 32-bit value read as a signed number.\<close>

lemma bit_31_nat: "m < 4294967296 \<Longrightarrow> bit (int m) 31 \<longleftrightarrow> \<not> m < 2147483648"
proof -
  assume "m < 4294967296"
  then have "m - 2147483648 < 2147483648" by linarith
  then have "m div 2147483648 = (if m < 2147483648 then 0 else 1)" by (simp add: le_div_geq)
  moreover have "bit (int m) 31 \<longleftrightarrow> odd (m div 2147483648)"
    using bit_of_nat_iff_bit [of m 31, where 'a = int] by (simp add: bit_iff_odd)
  ultimately show ?thesis by simp
qed

lemma signed_31_nat:
  assumes "m < 4294967296"
  shows "signed_take_bit 31 (int m) = (if m < 2 ^ 31 then int m else int m - 2 ^ 32)"
proof -
  have "take_bit 32 (int m) = int m" by (rule take_bit_int_eq_self) (use assms in simp_all)
  then show ?thesis
    using bit_31_nat [OF assms] by (simp add: signed_take_bit_eq_take_bit_minus)
qed

lemma sint_u32: "sint (x :: u32) = (if unat x < 2 ^ 31 then int (unat x) else int (unat x) - 2 ^ 32)"
  using signed_31_nat [OF unat_u32_less [of x]] by (simp add: sint_uint)

subsection \<open>Creation and lookup\<close>

text \<open>
  C20: creating a VRF refines an insertion into the map from names to entries, for names that fit the
  buffer: an existing name is left alone, a full table is reported, and otherwise the name maps to a
  free entry and the counter goes up by one.
\<close>

theorem vrf_add_refines:
  assumes wf: "vrf_wf s" and n: "c_name n" "length n < NTB_VRF_NAME_LEN"
  shows "\<exists>r s'. ntb_vrf_add n s = Inr (r, s') \<and> vrf_wf s' \<and>
    (if vrf_view s n \<noteq> None then r = 0 \<and> s' = s
     else if \<forall>i < length (g_ntb_vrfs s). valid (g_ntb_vrfs s ! i) then r = NTB_VRF_NOENT \<and> s' = s
     else r = 0 \<and> ntb_vrf_count s' = ntb_vrf_count s + 1 \<and>
       (\<exists>i < length (g_ntb_vrfs s). \<not> valid (g_ntb_vrfs s ! i) \<and> vrf_view s' = (vrf_view s)(n \<mapsto> i)))"
  using wf n(1)
proof (cases rule: ntb_vrf_add_cases)
  case (new i)
  then show ?thesis
    using vrf_add_new_wf [OF wf n new(1-3) refl, of "fake_mac s"] by (auto simp: ntb_vrf_count_def)
qed (use wf in auto)

theorem vrf_add_refines_witness:
  "\<exists>s'. ntb_vrf_add ''red'' w_blue = Inr (0, s') \<and> vrf_wf s' \<and> vrf_view s' ''red'' \<noteq> None"
proof -
  have wf: "vrf_wf w_blue" using w_blue_inv by (simp add: agent_inv_def)
  have "1 < NTB_NR_VRF" by (simp add: NTB_NR_VRF_def)
  then have free: "(\<forall>i < length (g_ntb_vrfs w_blue). valid (g_ntb_vrfs w_blue ! i)) = False"
    by (auto simp: w_blue_sel ref_vrf_def intro!: exI [of _ 1])
  have red: "c_name ''red''" "length ''red'' < NTB_VRF_NAME_LEN" "vrf_view w_blue ''red'' = None"
    using w_blue_view(1) by (simp_all add: c_name_def NTB_VRF_NAME_LEN_def w_name_def)
  show ?thesis using vrf_add_refines [OF wf red(1,2)] unfolding free red(3) by auto
qed

text \<open>
  Ids and entries correspond: the id that the lookup by name returns lies between 1 and 4096, and
  the lookup by that id finds the entry of the name again.
\<close>

theorem vrf_id_round_trip:
  assumes wf: "vrf_wf s" and n: "c_name n" and i: "vrf_view s n = Some i"
  shows "ntb_vrf_id_lookup n s = Inr (int i + 1) \<and> int i + 1 \<le> 4096
    \<and> ntb_vrf_get_by_id (of_int (int i + 1)) s = Inr (Some i)"
proof -
  have ids: "vrf_ids_ok s" using wf by (simp add: vrf_wf_def)
  note len = vrf_ids_ok_length [OF ids]
  have iv: "i < NTB_NR_VRF" "valid (g_ntb_vrfs s ! i)"
    using vrf_view_Some_iff [OF wf] i len by (auto simp: vrf_named_def)
  have "ntb_vrf_dp_get_by_id (of_int (int i + 1)) s = Inr (Some i)" using get_by_id_slot [OF iv(1) len] iv(2) by simp
  then have "ntb_vrf_get_by_id (of_int (int i + 1)) s = Inr (Some i)"
    by (auto simp: ntb_vrf_dp_get_by_id_def bindR_eq_Inr)
  then show ?thesis
    using vrf_lookup_view [OF wf n] i iv len vrf_ids_ok_nth [OF ids iv(1)]
    by (simp add: ntb_vrf_id_lookup_def NTB_NR_VRF_def)
qed

theorem vrf_id_round_trip_witness:
  "ntb_vrf_id_lookup w_name w_blue = Inr 1 \<and> ntb_vrf_get_by_id 1 w_blue = Inr (Some 0)"
  using vrf_id_round_trip [of w_blue w_name 0] w_blue_inv w_blue_view(1) by (simp add: agent_inv_def)

text \<open>
  The lookup by id, for every 32-bit id. Ids above 4096 are refused, but the index is signed and
  has no lower bound: id 0 and the ids above \<open>2 ^ 31\<close> read before the start of the VRF array.
\<close>

theorem vrf_get_by_id_total:
  assumes len: "length (g_ntb_vrfs s) = NTB_NR_VRF"
  shows "ntb_vrf_get_by_id v s =
    (if v = 0 \<or> 2 ^ 31 < unat v then Inl OutOfBounds
     else if 4096 < unat v then Inr None
     else Inr (if valid (g_ntb_vrfs s ! (unat v - 1)) then Some (unat v - 1) else None))"
proof -
  consider "v = 0" | "v \<noteq> 0" "2 ^ 31 < unat v" | "v \<noteq> 0" "unat v \<le> 2 ^ 31" by linarith
  then show ?thesis
  proof cases
    case 1
    then show ?thesis by (simp add: ntb_vrf_get_by_id_def)
  next
    case 2
    have u: "unat (v - 1) = unat v - 1" using unat_u32_pred [OF 2(1)] .
    have "sint (v - 1) < 0"
      using 2 u unat_u32_less [of v] unsigned_less [of v, where 'a = int] by (auto simp: sint_u32)
    then show ?thesis using 2 by (simp add: ntb_vrf_get_by_id_def Let_def)
  next
    case 3
    then obtain m where m: "unat v = Suc m" by (metis unat_eq_zero not0_implies_Suc)
    then have "unat (v - 1) = m" using unat_u32_pred [OF 3(1)] by simp
    then have "sint (v - 1) = int m" using 3 m by (simp add: sint_u32)
    then show ?thesis
      using 3 m len by (auto simp: ntb_vrf_get_by_id_def Let_def NTB_NR_VRF_def)
  qed
qed

theorem vrf_get_by_id_total_witness:
  "ntb_vrf_get_by_id 0 w_blue = Inl OutOfBounds \<and> ntb_vrf_get_by_id 1 w_blue = Inr (Some 0)
    \<and> ntb_vrf_get_by_id 5000 w_blue = Inr None"
proof -
  have "length (g_ntb_vrfs w_blue) = NTB_NR_VRF" by (simp add: w_blue_sel)
  from vrf_get_by_id_total [OF this] show ?thesis by (simp add: w_blue_sel)
qed

subsection \<open>Names that do not fit\<close>

text \<open>The search reaches the first entry on which the comparison does not answer "different".\<close>

lemma vrf_find_skip:
  "i \<le> length vs \<Longrightarrow> (\<And>j. j < i \<Longrightarrow> valid (vs ! j) \<Longrightarrow> strcmp_eq (vname (vs ! j)) n = Inr False) \<Longrightarrow>
    vrf_find vs k n = vrf_find (drop i vs) (k + i) n"
proof (induction vs arbitrary: i k)
  case Nil
  then show ?case by simp
next
  case (Cons v vs)
  show ?case
  proof (cases i)
    case 0
    then show ?thesis by simp
  next
    case (Suc m)
    have "vrf_find vs (Suc k) n = vrf_find (drop m vs) (Suc k + m) n"
    proof (rule Cons.IH)
      show "m \<le> length vs" using Cons.prems(1) Suc by simp
      show "strcmp_eq (vname (vs ! j)) n = Inr False" if "j < m" "valid (vs ! j)" for j
        using Cons.prems(2) [of "Suc j"] Suc that by simp
    qed
    then show ?thesis using Cons.prems(2) [of 0] Suc by simp
  qed
qed

text \<open>
  Nothing checks the length of a VRF name. A name of 64 characters or more is stored without its
  terminator, the creation reports success, and the next lookup of that name reads past the buffer.
\<close>

theorem vrf_long_name_overread:
  assumes wf: "vrf_wf s" and n: "c_name n" "NTB_VRF_NAME_LEN \<le> length n" and new: "vrf_view s n = None"
    and free: "\<exists>i < length (g_ntb_vrfs s). \<not> valid (g_ntb_vrfs s ! i)"
  shows "\<exists>s'. ntb_vrf_add n s = Inr (0, s') \<and> ntb_vrf_lookup n s' = Inl OutOfBounds"
  using wf n(1)
proof (cases rule: ntb_vrf_add_cases)
  case (new i)
  let ?s' = "s\<lparr>g_ntb_vrfs := (g_ntb_vrfs s)[i := vrf_install n (fake_mac s) (g_ntb_vrfs s ! i)],
    g_ntb_vrf_n := g_ntb_vrf_n s + 1\<rparr>"
  have diff: "strcmp_eq (vname (g_ntb_vrfs s ! j)) n = Inr False" if "j < length (g_ntb_vrfs s)" "valid (g_ntb_vrfs s ! j)" for j
  proof -
    have "CHR 0x00 \<in> set (vname (g_ntb_vrfs s ! j))" using wf that by (simp add: vrf_wf_def)
    moreover have "cstr (vname (g_ntb_vrfs s ! j)) \<noteq> n" using new(1) that by (auto simp: vrf_view_None_iff vrf_named_def)
    ultimately show ?thesis using strcmp_eq_cstr n(1) by simp
  qed
  have "vrf_find (g_ntb_vrfs ?s') 0 n = vrf_find (drop i (g_ntb_vrfs ?s')) (0 + i) n"
    using new(2) diff by (intro vrf_find_skip) (simp_all add: nth_list_update)
  also have "drop i (g_ntb_vrfs ?s') = vrf_install n (fake_mac s) (g_ntb_vrfs s ! i) # drop (Suc i) (g_ntb_vrfs s)"
    using new(2) by (simp add: drop_update_swap Cons_nth_drop_Suc [symmetric])
  also have "strncpy NTB_VRF_NAME_LEN n = take NTB_VRF_NAME_LEN n" using n(2) by (rule strncpy_long)
  then have "strcmp_eq (strncpy NTB_VRF_NAME_LEN n) n = Inl OutOfBounds"
    using strcmp_eq_overread [of "take NTB_VRF_NAME_LEN n" "drop NTB_VRF_NAME_LEN n"] by simp
  then have "vrf_find (vrf_install n (fake_mac s) (g_ntb_vrfs s ! i) # drop (Suc i) (g_ntb_vrfs s)) (0 + i) n = Inl OutOfBounds"
    by simp
  finally show ?thesis using new(4) by (simp add: ntb_vrf_lookup_def)
qed (use assms in auto)

theorem vrf_long_name_overread_witness:
  "\<exists>s'. ntb_vrf_add (replicate 64 (CHR ''a'')) w_blue = Inr (0, s')
    \<and> ntb_vrf_lookup (replicate 64 (CHR ''a'')) s' = Inl OutOfBounds"
proof (rule vrf_long_name_overread)
  show "vrf_wf w_blue" using w_blue_inv by (simp add: agent_inv_def)
  have "replicate 64 (CHR ''a'') \<noteq> w_name" using w_name_ok(2) by (metis length_replicate NTB_VRF_NAME_LEN_def less_irrefl)
  then show "vrf_view w_blue (replicate 64 (CHR ''a'')) = None" using w_blue_view(1) by simp
  have "1 < NTB_NR_VRF" by (simp add: NTB_NR_VRF_def)
  then show "\<exists>i < length (g_ntb_vrfs w_blue). \<not> valid (g_ntb_vrfs w_blue ! i)"
    by (auto simp: w_blue_sel ref_vrf_def intro!: exI [of _ 1])
qed (simp_all add: c_name_def NTB_VRF_NAME_LEN_def)

subsection \<open>Deletion\<close>

text \<open>
  C21: deleting a VRF that has no tunnels refines the removal of its name: it succeeds, takes away
  exactly the routes of the VRF, and keeps the invariant of all tables.
\<close>

theorem vrf_del_refines:
  assumes env: "dpdk_iter_env D fb_used fib_routes fib_default hash_slots" and off: "\<not> assert_on D"
    and inv: "agent_inv D fb_used fib_routes fib_default fam s"
    and n: "c_name n" and i: "vrf_view s n = Some i" and e: "slot_rmap s i = []"
  shows "\<exists>s'. ntb_vrf_del D n s = Some (Inr (0, s')) \<and> agent_inv D fb_used fib_routes fib_default fam s'
    \<and> vrf_view s' = (vrf_view s)(n := None)
    \<and> route_view D s' = (\<lambda>key. if rk_vrf_id key = int i + 1 then None else route_view D s key)"
  by (rule dpdk_iter_env.vrf_del_effect [OF env off inv n i e])

theorem vrf_del_refines_witness:
  "\<exists>s'. ntb_vrf_del w_env w_name w_blue = Some (Inr (0, s')) \<and> vrf_view s' = Map.empty"
proof -
  have "slot_rmap w_blue 0 = []" by (simp add: slot_rmap_def w_blue_sel vrf_install_def ntb_vrf_dp_ctor_def)
  from vrf_del_refines [OF ref_iter_env _ w_blue_inv _ _ this, of w_name] w_blue_view(1)
  show ?thesis by auto
qed

subsection \<open>Settings\<close>

text \<open>
  The settings of a VRF are read back as they were written: the internal address, and the
  router MAC, which can only be unset by naming it and then falls back to the agent's own.
\<close>

theorem vrf_settings_round_trip:
  assumes wf: "vrf_wf s" and n: "c_name n" and i: "vrf_view s n = Some i"
  shows "\<exists>s1 s2. ntb_vrf_intip_set n ip s = Inr (0, s1) \<and> ntb_vrf_intip_get n x s1 = Inr (0, ip)
    \<and> ntb_vrf_rmac_set n m s1 = Inr (0, s2) \<and> ntb_vrf_rmac_get n y s2 = Inr (0, m)
    \<and> ntb_vrf_rmac_unset n m' s2 = (if m' = m
        then Inr (0, upd_dp i (\<lambda>v. v\<lparr>route_mac := fake_mac s\<rparr>) s2) else Inr (NTB_COMM_INVAL_PARAM, s2))"
proof -
  have len: "i < length (g_ntb_vrfs s)" using vrf_view_Some_iff [OF wf] i by blast
  have look: "ntb_vrf_lookup n s' = Inr (Some i)" if "vrf_names s' = vrf_names s" "vrf_ids s' = vrf_ids s" for s' :: "('a, 'b, 'c, 'd) agent"
    using vrf_lookup_view [OF _ n, of s'] vrf_wf_cong [OF that] wf i by simp
  let ?s1 = "upd_dp i (\<lambda>v. v\<lparr>internal_ip := ip\<rparr>) s"
  let ?s2 = "upd_dp i (\<lambda>v. v\<lparr>route_mac := m\<rparr>) ?s1"
  have f1: "vrf_names ?s1 = vrf_names s" "vrf_ids ?s1 = vrf_ids s"
    unfolding part_defs comp_def by (simp_all add: map_upd_dp)
  have f2: "vrf_names ?s2 = vrf_names s" "vrf_ids ?s2 = vrf_ids s"
    unfolding part_defs comp_def by (simp_all add: map_upd_dp)
  show ?thesis
    using look [OF refl refl] look [OF f1] look [OF f2] len
    by (intro exI [of _ ?s1] exI [of _ ?s2])
      (simp add: ntb_vrf_intip_set_def ntb_vrf_intip_get_def ntb_vrf_rmac_set_def ntb_vrf_rmac_get_def
        ntb_vrf_rmac_unset_def ntb_fake_mac_get_def)
qed

theorem vrf_settings_round_trip_witness:
  "\<exists>s1. ntb_vrf_intip_set w_name 0x0a0a0a0a w_blue = Inr (0, s1) \<and> ntb_vrf_intip_get w_name 0 s1 = Inr (0, 0x0a0a0a0a)"
  using vrf_settings_round_trip [of w_blue w_name 0 "0x0a0a0a0a" 0] w_blue_inv w_blue_view(1)
  by (simp add: agent_inv_def) blast

end
