(* ===== verification/Ntb_Neigh_Props.thy ===== *)
theory Ntb_Neigh_Props
  imports Ntb_Vrf_Props
begin

text \<open>
  The properties of the neighbour table: it keeps the contract of a reference counted table, a static
  entry answers lookups with its MAC address, and two places where a counter or an entry is lost.
\<close>

context dpdk_env
begin

lemma nbr_refcounted:
  "refcounted (neigh_counted D) neigh_slot (neigh_refs D) (neigh_acquire D) (neigh_release D) (2 ^ 32 - 1)"
  by (rule nbr.refcounted_axioms)

end

subsection \<open>Reference counting\<close>

text \<open>
  The neighbour of a gateway that was acquired can be released, and all reference counts are
  then as before. The count must be below the largest value of its 32-bit counter.
\<close>

theorem neigh_acquire_release:
  assumes env: "dpdk_env D fb_used fib_routes fib_default" and c: "neigh_counted D s" and k: "neigh_slot k"
    and b: "neigh_refs D s k < 2 ^ 32 - 1" and a: "neigh_acquire D k s = Inr (r, s')" "0 \<le> r"
  shows "\<exists>s''. neigh_release D k s' = Inr (0, s'') \<and> neigh_counted D s''
    \<and> (\<forall>k'. neigh_slot k' \<longrightarrow> neigh_refs D s'' k' = neigh_refs D s k')"
  by (rule refcounted.acquire_release [OF dpdk_env.nbr_refcounted [OF env] c k b a])

lemma ref_agent_neigh:
  "neigh_counted w_env ref_agent" "neigh_refs w_env ref_agent k = 0" "neigh_slot (0, gw)"
  using ref_agent_inv(6) [of False "\<lambda>_. True"]
  by (simp_all add: neigh_refs_def neigh_map_def ref_hash_api_def neigh_slot_def)

lemma ref_agent_acquire: "\<exists>s'. neigh_acquire w_env (0, gw) ref_agent = Inr (0, s')"
  by (simp add: neigh_acquire_def ntb_neigh_add_def rte_zmalloc_def put_neigh_def Let_def ref_env_simps
      MAX_VRF_GW_HASH_ENT_def)

theorem neigh_acquire_release_witness:
  "\<exists>s' s''. neigh_acquire w_env (0, 7) ref_agent = Inr (0, s') \<and> neigh_release w_env (0, 7) s' = Inr (0, s'')
    \<and> neigh_refs w_env s'' (0, 7) = 0"
proof -
  obtain s' where "neigh_acquire w_env (0, 7) ref_agent = Inr (0, s')" using ref_agent_acquire by blast
  then show ?thesis
    using neigh_acquire_release [OF ref_dpdk_env ref_agent_neigh(1) ref_agent_neigh(3), of 7 0 s']
      ref_agent_neigh(2,3) by auto
qed



subsection \<open>Static entries\<close>

text \<open>
  A static neighbour answers the packet path's lookup with the MAC address it was given, loads
  it into the switch under the entry's object id, and the answer is the switch's.
\<close>

theorem static_neigh_round_trip:
  assumes env: "dpdk_env D fb_used fib_routes fib_default" and wf: "neigh_wf D s"
    and mac: "length hw_addr = 6" and add: "ol_neigh_add_static D vrfid gw hw_addr s = Inr (0, s1)"
  shows "\<exists>oid. ntb_neigh_lookup D vrfid gw x 0 s1 =
    (case hal_neigh_entry_add (hal D) (hw_state s1) oid hw_addr of
       (r, h) \<Rightarrow> Inr (if r \<noteq> 0 then NTB_LOAD_TO_P4_FAIL else 0, hw_addr, s1\<lparr>hw_state := h\<rparr>))"
proof -
  have rh: "rte_hash (hash D)" using env by (simp add: dpdk_env_def)
  let ?k = "NeighKey vrfid gw"
  obtain p n where p: "rte_hash_lookup_data (hash D) (ol_neigh_hash_tbl s1) ?k = Some p" "p \<noteq> 0"
    "neigh_heap s1 p = Some n" "F_arp_valid n" "take 6 (hh n) = hw_addr"
  proof (cases "neigh_map D s ?k")
    case (Some q)
    have "q \<noteq> 0" using wf Some by (auto simp: neigh_wf_def linked_def)
    then show ?thesis
      using add Some mac that [of q]
      by (auto simp: ol_neigh_add_static_def Let_def neigh_map_def put_neigh_def ol_neigh_set_static_def
          static_hh_def put_bytes_def bindR_eq_Inr load_eq_Inr)
  next
    case None
    have nz: "next_addr s \<noteq> 0" using wf by (simp add: neigh_wf_def linked_def)
    obtain r t where t: "rte_hash_add_key_data (hash D) (ol_neigh_hash_tbl s) ?k (next_addr s) = (r, t)" by fastforce
    have "0 \<le> r" "zmalloc_ok D (next_addr s)"
      using add None t by (auto simp: ol_neigh_add_static_def Let_def neigh_map_def rte_zmalloc_def put_neigh_def
        EFAULT_def NTB_COMM_NOMEM_val split: if_splits)
    then show ?thesis
      using add None mac t nz rte_hash.add_ok [OF rh t] that [of "next_addr s"]
      by (auto simp: ol_neigh_add_static_def Let_def neigh_map_def put_neigh_def ol_neigh_set_static_def rte_zmalloc_def
          static_hh_def put_bytes_def ol_neigh_entry_zero_def)
  qed
  show ?thesis
    using p by (intro exI [of _ "ne_oid n"])
      (auto simp: ntb_neigh_lookup_def Let_def shc_hal_neigh_entry_add_def NTB_LOAD_TO_P4_FAIL_val split: prod.split)
qed

definition w_mac :: "u8 list" where
  "w_mac = [1, 2, 3, 4, 5, 6]"

lemma w_static: "\<exists>s1. ol_neigh_add_static w_env 1 7 w_mac ref_agent = Inr (0, s1)"
  by (simp add: ol_neigh_add_static_def rte_zmalloc_def put_neigh_def Let_def ref_env_simps MAX_VRF_GW_HASH_ENT_def)

theorem static_neigh_round_trip_witness:
  "\<exists>s1 s2. ol_neigh_add_static w_env 1 7 w_mac ref_agent = Inr (0, s1)
    \<and> ntb_neigh_lookup w_env 1 7 [] 0 s1 = Inr (0, w_mac, s2)"
proof -
  obtain s1 where s1: "ol_neigh_add_static w_env 1 7 w_mac ref_agent = Inr (0, s1)" using w_static by blast
  have "neigh_wf w_env ref_agent" using ref_agent_neigh(1) by (simp add: neigh_counted_def)
  from static_neigh_round_trip [OF ref_dpdk_env this _ s1, of "[]"] s1 show ?thesis
    by (auto simp: w_mac_def ref_hal_api_def)
qed

text \<open>
  A static entry is not counted in the VRF's neighbour counter when it is created, but it is
  counted out when its last reference is released: the counter of a VRF without neighbours wraps to
  \<open>2 ^ 32 - 1\<close>.
\<close>

theorem static_neigh_count_wraps:
  assumes env: "dpdk_env D fb_used fib_routes fib_default" and wf: "neigh_wf D s" and ids: "vrf_ids_ok s"
    and i: "i < NTB_NR_VRF" and new: "neigh_map D s (slot_key (i, gw)) = None"
    and z: "neigh_cnt (dp (g_ntb_vrfs s ! i)) = 0"
    and add: "ol_neigh_add_static D (of_nat (i + 1)) gw hw_addr s = Inr (0, s1)"
  shows "\<exists>s2. ntb_neigh_del D i gw s1 = Inr (0, s2) \<and> unat (neigh_cnt (dp (g_ntb_vrfs s2 ! i))) = 2 ^ 32 - 1"
proof -
  have rh: "rte_hash (hash D)" using env by (simp add: dpdk_env_def)
  let ?k = "NeighKey (of_nat (i + 1)) gw"
  have nz: "next_addr s \<noteq> 0" using wf by (simp add: neigh_wf_def linked_def)
  have m: "rte_hash_lookup_data (hash D) (ol_neigh_hash_tbl s) ?k = None"
    using new by (simp add: neigh_map_def slot_key_def)
  obtain r t where t: "rte_hash_add_key_data (hash D) (ol_neigh_hash_tbl s) ?k (next_addr s) = (r, t)" by fastforce
  have ok: "0 \<le> r" "zmalloc_ok D (next_addr s)"
    using add m t by (auto simp: ol_neigh_add_static_def Let_def rte_zmalloc_def put_neigh_def
      EFAULT_def NTB_COMM_NOMEM_val split: if_splits)
  obtain n where s1: "ol_neigh_hash_tbl s1 = t" "neigh_heap s1 (next_addr s) = Some n" "refcnt n = 1"
    "g_ntb_vrfs s1 = g_ntb_vrfs s"
    using add m t ok nz
    by (auto simp: ol_neigh_add_static_def Let_def put_neigh_def ol_neigh_set_static_def rte_zmalloc_def
        ol_neigh_entry_zero_def)
  have l: "rte_hash_lookup_data (hash D) t (NeighKey (of_nat i + 1) gw) = Some (next_addr s)"
    using rte_hash.add_ok [OF rh t ok(1)] by (simp add: add.commute)
  have dp: "i < length (g_ntb_vrfs s)" "vrf_id (dp (g_ntb_vrfs s ! i)) = int i + 1"
    using vrf_ids_ok_length [OF ids] vrf_ids_ok_nth [OF ids i] i by simp_all
  show ?thesis
    using s1 l dp nz z
    by (simp add: ntb_neigh_del_def Let_def put_neigh_def free_neigh_def unsigned_minus_1_eq_mask mask_eq_exp_minus_1)
qed

theorem static_neigh_count_wraps_witness:
  "\<exists>s1 s2. ol_neigh_add_static w_env 1 7 w_mac ref_agent = Inr (0, s1) \<and> ntb_neigh_del w_env 0 7 s1 = Inr (0, s2)
    \<and> unat (neigh_cnt (dp (g_ntb_vrfs s2 ! 0))) = 2 ^ 32 - 1"
proof -
  obtain s1 where s1: "ol_neigh_add_static w_env 1 7 w_mac ref_agent = Inr (0, s1)" using w_static by blast
  have "neigh_wf w_env ref_agent" "vrf_ids_ok ref_agent" using ref_agent_neigh(1) by (simp_all add: neigh_counted_def)
  from static_neigh_count_wraps [OF ref_dpdk_env this, of 0 7 w_mac s1] s1 show ?thesis
    by (simp add: neigh_map_def ref_hash_api_def ref_vrf_def)
qed

subsection \<open>Neighbours of shared next hops\<close>


definition w_pfx3 :: ntb_rib_key where
  "w_pfx3 = w_pfx\<lparr>rk_vrf_id := 2\<rparr>"

text \<open>The next hop of the route in the first VRF, now used from the second VRF only.\<close>

definition w_shared :: ref_state where
  "w_shared = (let s = after (ntb_route_nhop_insert w_env 1 w_pfx3 w_nhop RT_DEFAULT w_routed) w_routed
     in after (ntb_route_delete w_env 0 w_pfx s) s)"

lemmas delete_defs = ntb_route_delete_def rt_prefix_obj_delete_def fib_res_obj_delete_def fib_res_id_free_def
  nhop_obj_delete_def free_nhop_def nhop_neigh_del_def ntb_neigh_del_def free_neigh_def

lemma w_pfx3_ok [simp]: "rk_vrf_id w_pfx3 = 2" "w_pfx3 \<noteq> w_pfx" "w_pfx \<noteq> w_pfx3" "rk_prefixlen w_pfx3 = 24"
  "rk_prefix4 w_pfx3 = bswap32 0x0a000100"
proof -
  have "rk_vrf_id w_pfx3 \<noteq> rk_vrf_id w_pfx" by (simp add: w_pfx3_def)
  then show "w_pfx3 \<noteq> w_pfx" "w_pfx \<noteq> w_pfx3" by metis+
qed (simp_all add: w_pfx3_def)

lemma w_shared_state:
  "\<exists>p n. p \<noteq> 0 \<and> nhop_heap w_shared p = Some n \<and> ref_count n = 1 \<and> nh_gateway n \<noteq> 0
    \<and> neigh_map w_env w_shared (slot_key (1, nh_gateway n)) = None
    \<and> neigh_map w_env w_shared (slot_key (0, nh_gateway n)) \<noteq> None"
proof -
  have one: "Suc 0 < NTB_NR_VRF" by (simp add: NTB_NR_VRF_def)
  show ?thesis
    by (simp add: w_shared_def w_routed_def insert_defs delete_defs size_defs Let_def ref_env_simps ref_vrf_def
        w_nhop_def w_blue_sel neigh_map_def slot_key_def one)
qed

lemma w_shared_ids: "vrf_ids_ok w_shared"
proof -
  have one: "Suc 0 < NTB_NR_VRF" by (simp add: NTB_NR_VRF_def)
  have "vrf_ids w_shared = vrf_ids w_blue"
  proof -
    have k: "rib_map w_env w_routed (RibKey w_pfx3) = None"
      using ref.route_view_live [OF w_routed_route_inv(1), of w_pfx3] w_routed_view(1) by simp
    obtain r s where s: "ntb_route_nhop_insert w_env 1 w_pfx3 w_nhop RT_DEFAULT w_routed = Inr (r, s)"
        "route_inv w_env w_used s" "outer_frame w_routed s"
        "route_view w_env s = (route_view w_env w_routed)(w_pfx3 \<mapsto> (RT_DEFAULT, en_gateway w_nhop, en_tunnel_info w_nhop))
         \<or> route_view w_env s = route_view w_env w_routed"
      using ref.route_insert_effect [OF _ w_routed_route_inv(1) _ _ _ k, of 1 RT_DEFAULT w_nhop] one
      by (auto simp: routes_kept_def split: if_splits)
    have "route_view w_env s w_pfx \<noteq> None" using s(4) w_routed_view(1) by auto
    then obtain rid where "rib_map w_env s (RibKey w_pfx) = Some rid" using ref.route_view_live [OF s(2), of w_pfx] by auto
    from ref.route_delete_effect [OF _ s(2) _ _ this, of 0]
    obtain s' where "ntb_route_delete w_env 0 w_pfx s = Inr (0, s')" "outer_frame s s'" by auto
    moreover have "outer_frame w_blue w_routed"
      using ref.route_insert_effect [OF _ w_blue_route_inv(1) _ _ _ w_blue_route_inv(2), of 0 RT_DEFAULT w_nhop]
        w_routed_run(1) by auto
    ultimately show ?thesis using s(1,3) by (simp add: w_shared_def outer_frame_def)
  qed
  then show ?thesis using w_blue_route_inv(1) by (simp add: route_inv_def vrf_ids_ok_def)
qed


end
