(* ===== verification/Ntb_Tunnel_Props.thy ===== *)
theory Ntb_Tunnel_Props
  imports Ntb_Neigh_Props
begin

text \<open>
  The properties of the tunnel map: mapping a tunnel refines an update of a map from tunnels to VRF
  ids, the older unmapping undoes it, and the current unmapping and the cleanup of a VRF leave table
  entries that point to freed objects.
\<close>

subsection \<open>Mapping\<close>

context dpdk_env
begin

lemma tunnel_map_effect:
  assumes off: "\<not> assert_on D" and tw: "tunnel_wf D s"
    and vw: "vrf_wf s" and n: "c_name n" and i: "vrf_view s n = Some i"
  shows "\<exists>r s'. ntb_tunnel_map_vrf D n ty tid attr s = Inr (r, s') \<and> tunnel_wf D s' \<and> tunnel_frame s s' \<and>
    (case tunnel_view D s (ty, tid) of
       Some v \<Rightarrow> s' = s \<and> r = (if v = int i + 1 then 0 else NTB_TUNNEL_INUSED)
     | None \<Rightarrow> if r < 0 then tunnel_view D s' = tunnel_view D s
               else r = 0 \<and> tunnel_view D s' = (tunnel_view D s)((ty, tid) \<mapsto> int i + 1))"
proof -
  have ids: "vrf_ids_ok s" using vw by (simp add: vrf_wf_def)
  have iv: "i < NTB_NR_VRF" "valid (g_ntb_vrfs s ! i)"
    using i vrf_view_Some_iff [OF vw] vrf_ids_ok_length [OF ids] by (auto simp: vrf_named_def)
  note l = tunnel_wf_linked [OF tw]
  have fr: "tunnel_frame s s" by (simp add: tunnel_frame_def)
  from off tw vw n i refl show ?thesis
  proof (cases rule: tunnel_map_vrf_cases [where ty = ty and tid = tid and attr = attr])
    case (same p t)
    then show ?thesis using tw fr by (simp add: tunnel_view_def)
  next
    case (other p t)
    then show ?thesis using tw fr by (simp add: tunnel_view_def)
  next
    case (fail ret s')
    have "tunnel_wf D s'"
      using tw fail linked_mono [of "tunnel_map D s" "tunnel_heap s" "next_addr s" "next_addr s'"]
      by (simp add: tunnel_wf_def slot_rmap_def tunnel_frame_def)
    moreover have "tunnel_view D s' = tunnel_view D s" by (rule ext) (simp add: tunnel_view_def fail(5,6) split: option.split)
    ultimately show ?thesis using fail(1-4) by (simp add: tunnel_view_def)
  next
    case (new t s')
    have "tunnel_wf D s'"
      by (rule tunnel_wf_new [OF tw vrf_ids_ok_length [OF ids] iv new(1) refl new(4-8)])
    moreover have "tunnel_view D s' = (tunnel_view D s)((ty, tid) \<mapsto> int i + 1)"
      using tunnel_view_new [OF l order.refl new(4,5)] new(6) by simp
    ultimately show ?thesis using new by (simp add: tunnel_view_def)
  qed
qed

end

text \<open>
  C22: mapping a tunnel to a VRF that exists refines an update of the map from tunnels to VRF ids. A
  tunnel that is mapped already is left alone, with an error when it belongs to another VRF; a
  failed request changes nothing a reader of the table can see.
\<close>

theorem tunnel_map_refines:
  assumes env: "dpdk_env D fb_used fib_routes fib_default" and off: "\<not> assert_on D" and tw: "tunnel_wf D s"
    and vw: "vrf_wf s" and n: "c_name n" and i: "vrf_view s n = Some i"
  shows "\<exists>r s'. ntb_tunnel_map_vrf D n ty tid attr s = Inr (r, s') \<and> tunnel_wf D s' \<and> tunnel_frame s s' \<and>
    (case tunnel_view D s (ty, tid) of
       Some v \<Rightarrow> s' = s \<and> r = (if v = int i + 1 then 0 else NTB_TUNNEL_INUSED)
     | None \<Rightarrow> if r < 0 then tunnel_view D s' = tunnel_view D s
               else r = 0 \<and> tunnel_view D s' = (tunnel_view D s)((ty, tid) \<mapsto> int i + 1))"
  by (rule dpdk_env.tunnel_map_effect [OF env off tw vw n i])

lemma w_tunnel_view:
  "tunnel_view w_env w_blue = Map.empty" "tunnel_view w_env w_tunnel = [(NTB_TUNNEL_VXLAN, 5000) \<mapsto> 1]"
  "vrf_view w_tunnel w_name = Some 0"
proof -
  have b: "vrf_wf w_blue" "tunnel_wf w_env w_blue" using w_blue_inv by (simp_all add: agent_inv_def)
  show v: "tunnel_view w_env w_blue = Map.empty"
    by (simp add: tunnel_view_def tunnel_map_def w_blue_sel ref_hash_api_def fun_eq_iff)
  have b0: "vrf_view w_blue w_name = Some 0" using w_blue_view(1) by simp
  have e: "tunnel_frame w_blue w_tunnel \<and> tunnel_view w_env w_tunnel = [(NTB_TUNNEL_VXLAN, 5000) \<mapsto> 1]"
    using ref.tunnel_map_effect [OF _ b(2,1) w_name_ok(1) b0, of NTB_TUNNEL_VXLAN 5000 "tu_attribute ntb_tunnel_info_zero"]
      w_tunnel_run v by simp
  then show "tunnel_view w_env w_tunnel = [(NTB_TUNNEL_VXLAN, 5000) \<mapsto> 1]" by blast
  show "vrf_view w_tunnel w_name = Some 0"
    using e vrf_wf_cong(2) [of w_tunnel w_blue] b0 by (simp add: tunnel_frame_def)
qed

theorem tunnel_map_refines_witness:
  "\<exists>s'. ntb_tunnel_map_vrf w_env w_name NTB_TUNNEL_VXLAN 5000 (tu_attribute ntb_tunnel_info_zero) w_tunnel = Inr (0, s')
    \<and> s' = w_tunnel"
proof -
  have w: "tunnel_wf w_env w_tunnel" "vrf_wf w_tunnel" using w_tunnel_inv by (simp_all add: agent_inv_def)
  from tunnel_map_refines [OF ref_dpdk_env _ w w_name_ok(1) w_tunnel_view(3), of NTB_TUNNEL_VXLAN 5000] w_tunnel_view(2)
  show ?thesis by auto
qed

subsection \<open>Unmapping\<close>

text \<open>
  The unmapping of the older agent undoes a mapping: it succeeds on every tunnel that is mapped,
  removes exactly that tunnel from the map, and keeps table, objects and lists consistent.
\<close>

theorem tunnel_unmap_bak_refines:
  assumes env: "dpdk_env D fb_used fib_routes fib_default" and off: "\<not> assert_on D" and tw: "tunnel_wf D s"
    and ids: "vrf_ids_ok s" and v: "tunnel_view D s (ty, tid) \<noteq> None"
  shows "\<exists>s'. ntb_tunnel_unmap_vrf_bak D ty tid s = Inr (0, s') \<and> tunnel_wf D s' \<and> tunnel_frame s s'
    \<and> tunnel_view D s' = (tunnel_view D s)((ty, tid) := None)"
proof -
  obtain p where "tunnel_map D s (TunnelKey ty tid) = Some p" using v by (auto simp: tunnel_view_def split: option.splits)
  then show ?thesis by (rule dpdk_env.unmap_bak_effect [OF env off tw ids])
qed

lemma w_tunnel_wf: "tunnel_wf w_env w_tunnel" "vrf_ids_ok w_tunnel"
  using w_tunnel_inv by (simp_all add: agent_inv_def route_inv_def)

theorem tunnel_unmap_bak_refines_witness:
  "\<exists>s'. ntb_tunnel_unmap_vrf_bak w_env NTB_TUNNEL_VXLAN 5000 w_tunnel = Inr (0, s') \<and> tunnel_view w_env s' = Map.empty"
  using tunnel_unmap_bak_refines [OF ref_dpdk_env _ w_tunnel_wf, of NTB_TUNNEL_VXLAN 5000] w_tunnel_view(2) by auto

text \<open>
  C39: the current unmapping frees the tunnel object but keeps the table entry, since the call that
  deleted it is commented out. It reports success, and every later use of the same tunnel (unmapping
  it again, looking it up, mapping it again) reads the freed object.
\<close>

theorem tunnel_unmap_use_after_free:
  assumes env: "dpdk_env D fb_used fib_routes fib_default" and off: "\<not> assert_on D" and tw: "tunnel_wf D s"
    and ids: "vrf_ids_ok s" and v: "tunnel_view D s (ty, tid) \<noteq> None"
  shows "\<exists>s'. ntb_tunnel_unmap_vrf D ty tid s = Inr (0, s')
    \<and> ntb_tunnel_unmap_vrf D ty tid s' = Inl UseAfterFree
    \<and> ntb_tunnel_map_vrf_lookup D ty tid 0 s' = Inl UseAfterFree
    \<and> (\<forall>n i attr. ntb_vrf_lookup n s' = Inr (Some i) \<and> i < length (g_ntb_vrfs s') \<longrightarrow>
         ntb_tunnel_map_vrf D n ty tid attr s' = Inl UseAfterFree)"
proof -
  obtain p where "tunnel_map D s (TunnelKey ty tid) = Some p" using v by (auto simp: tunnel_view_def split: option.splits)
  then obtain s' where s': "ntb_tunnel_unmap_vrf D ty tid s = Inr (0, s')"
    "tunnel_map D s' (TunnelKey ty tid) = Some p" "tunnel_heap s' p = None" "p \<noteq> 0"
    using dpdk_env.unmap_dangles [OF env off tw ids] by blast
  have "tunnel_heap (snd (shc_hal_tunnel_map_vrf_entry_del D ty tid s')) = tunnel_heap s'"
    by (auto simp: shc_hal_tunnel_map_vrf_entry_del_def Let_def split: prod.split)
  then show ?thesis
    using s' off
    by (intro exI [of _ s'])
      (simp add: ntb_tunnel_unmap_vrf_def ntb_tunnel_map_vrf_lookup_def ntb_tunnel_map_vrf_def tunnel_map_def Let_def)
qed

theorem tunnel_unmap_use_after_free_witness:
  "\<exists>s'. ntb_tunnel_unmap_vrf w_env NTB_TUNNEL_VXLAN 5000 w_tunnel = Inr (0, s')
    \<and> ntb_tunnel_map_vrf_lookup w_env NTB_TUNNEL_VXLAN 5000 0 s' = Inl UseAfterFree"
  using tunnel_unmap_use_after_free [OF ref_dpdk_env _ w_tunnel_wf, of NTB_TUNNEL_VXLAN 5000] w_tunnel_view(2) by auto

subsection \<open>Lookup\<close>

text \<open>
  The packet path's lookup of a mapped tunnel. In a build without assertions it finds the VRF the
  tunnel is mapped to and tells the switch; with assertions it panics exactly when the switch
  accepted the entry, because the assertion is inverted.
\<close>

theorem tunnel_lookup_result:
  assumes env: "dpdk_env D fb_used fib_routes fib_default" and tw: "tunnel_wf D s" and ids: "vrf_ids_ok s"
    and v: "tunnel_view D s (NTB_TUNNEL_VXLAN, tid) = Some vid"
    and h: "hal_tunnel_map_vrf_entry_add (hal D) (hw_state s) (TYPE_TUNNEL_TYPE_VXLAN, tid) (of_int vid) = (r, hw)"
  shows "ntb_tunnel_map_vrf_lookup D NTB_TUNNEL_VXLAN tid 0 s =
    (if assert_on D \<and> r = 0 then Inl AssertFailed
     else Inr (Some (nat (vid - 1)), s\<lparr>hw_state := hw\<rparr>))"
proof -
  obtain p where k: "tunnel_map D s (TunnelKey NTB_TUNNEL_VXLAN tid) = Some p"
    using v by (auto simp: tunnel_view_def split: option.splits)
  obtain t i where t: "tunnel_heap s p = Some t" "p \<noteq> 0" "i < NTB_NR_VRF" "tu_vrf_id t = int i + 1"
    "valid (g_ntb_vrfs s ! i)"
    using dpdk_env.tunnel_owner [OF env tw ids k] by metis
  have vid: "vid = int i + 1" using v k t by (simp add: tunnel_view_def)
  have g: "ntb_vrf_dp_get_by_id (of_int (int i + 1)) (s\<lparr>hw_state := hw\<rparr>) = Inr (Some i)"
    using get_by_id_slot [OF t(3), of "s\<lparr>hw_state := hw\<rparr>"] vrf_ids_ok_length [OF ids] t(5) by simp
  show ?thesis
    using k t h g vid
    by (simp add: ntb_tunnel_map_vrf_lookup_def tunnel_map_def shc_hal_tunnel_map_vrf_entry_add_def Let_def
        NTB_LOAD_TO_P4_FAIL_val)
qed

theorem tunnel_lookup_result_witness:
  "\<exists>s'. ntb_tunnel_map_vrf_lookup w_env NTB_TUNNEL_VXLAN 5000 0 w_tunnel = Inr (Some 0, s')"
proof -
  obtain r hw where h: "hal_tunnel_map_vrf_entry_add (hal w_env) (hw_state w_tunnel)
    (TYPE_TUNNEL_TYPE_VXLAN, 5000) (of_int 1) = (r, hw)" by fastforce
  have "tunnel_view w_env w_tunnel (NTB_TUNNEL_VXLAN, 5000) = Some 1" using w_tunnel_view(2) by simp
  from tunnel_lookup_result [OF ref_dpdk_env w_tunnel_wf this h] show ?thesis by simp
qed

subsection \<open>Cleanup\<close>

text \<open>The loop frees every tunnel of the list and touches nothing else of the table.\<close>

lemma tunnel_cleanup_loop_effect:
  "distinct ps \<Longrightarrow> set ps \<subseteq> dom (tunnel_heap s) \<Longrightarrow> 0 \<notin> set ps \<Longrightarrow>
    \<exists>s'. tunnel_cleanup_loop i ps s = Inr s' \<and> vrf_hash_tbl s' = vrf_hash_tbl s
      \<and> tunnel_heap s' = (\<lambda>p. if p \<in> set ps then None else tunnel_heap s p)"
proof (induction ps arbitrary: s)
  case Nil
  then show ?case by simp
next
  case (Cons p ps)
  let ?s1 = "upd_dp i (\<lambda>v. v\<lparr>tunnel_rmap := ps, tunnel_cnt := tunnel_cnt v - 1\<rparr>) (free_tunnel p s)"
  obtain t where t: "tunnel_heap s p = Some t" "p \<noteq> 0" using Cons.prems by auto
  obtain s' where s': "tunnel_cleanup_loop i ps ?s1 = Inr s'" "vrf_hash_tbl s' = vrf_hash_tbl ?s1"
    "tunnel_heap s' = (\<lambda>q. if q \<in> set ps then None else tunnel_heap ?s1 q)"
  proof -
    have "set ps \<subseteq> dom (tunnel_heap ?s1)" using Cons.prems by (auto simp: free_tunnel_def)
    then show ?thesis using Cons.IH [of ?s1] Cons.prems that by auto
  qed
  then show ?case using t by (auto simp: free_tunnel_def fun_eq_iff)
qed

text \<open>
  The cleanup of a VRF's tunnels, part of every deletion of a VRF, frees the tunnel objects and
  leaves all their table entries: afterwards the lookup of such a tunnel reads freed memory.
\<close>

theorem tunnel_cleanup_dangles:
  assumes env: "dpdk_env D fb_used fib_routes fib_default" and off: "\<not> assert_on D" and tw: "tunnel_wf D s"
    and ids: "vrf_ids_ok s" and i: "i < NTB_NR_VRF" and v: "tunnel_view D s (ty, tid) = Some (int i + 1)"
  shows "\<exists>s'. ntb_tunnel_map_cleanup i s = Inr (0, s') \<and> ntb_tunnel_map_vrf_lookup D ty tid 0 s' = Inl UseAfterFree"
proof -
  obtain p t where p: "tunnel_map D s (TunnelKey ty tid) = Some p" "tunnel_heap s p = Some t" "tu_vrf_id t = int i + 1"
    using v by (auto simp: tunnel_view_def split: option.splits)
  have p0: "p \<noteq> 0" using linked_load [OF dpdk_env.tunnel_wf_linked [OF env tw] p(1)] by blast
  have d: "distinct (slot_rmap s i)" using tw i by (simp add: tunnel_wf_def)
  note rm = dpdk_env.tunnel_wf_rmap [OF env tw i]
  obtain s' where s': "tunnel_cleanup_loop i (slot_rmap s i) s = Inr s'" "vrf_hash_tbl s' = vrf_hash_tbl s"
    "tunnel_heap s' = (\<lambda>p. if p \<in> set (slot_rmap s i) then None else tunnel_heap s p)"
    using tunnel_cleanup_loop_effect [OF d rm(1,2)] by blast
  have "tunnel_heap s' p = None" using s'(3) rm(3) [OF p(2,3)] by simp
  moreover have "ntb_tunnel_map_cleanup i s = Inr (0, s')"
    using s'(1) i vrf_ids_ok_length [OF ids] by (simp add: ntb_tunnel_map_cleanup_def slot_rmap_def)
  ultimately show ?thesis
    using p(1) p0 s'(2) off by (simp add: ntb_tunnel_map_vrf_lookup_def tunnel_map_def)
qed

theorem tunnel_cleanup_dangles_witness:
  "\<exists>s'. ntb_tunnel_map_cleanup 0 w_tunnel = Inr (0, s')
    \<and> ntb_tunnel_map_vrf_lookup w_env NTB_TUNNEL_VXLAN 5000 0 s' = Inl UseAfterFree"
  using tunnel_cleanup_dangles [OF ref_dpdk_env _ w_tunnel_wf, of 0 NTB_TUNNEL_VXLAN 5000] w_tunnel_view(2) by simp

end
