(* ===== verification/Ntb_Bpf.thy ===== *)
theory Ntb_Bpf
  imports Ntb_Prelude
begin

text \<open>
  The packet filter that \<^verbatim>\<open>udp_netio_init\<close> (\<^verbatim>\<open>agent/netio.c\<close>) attaches to the raw socket. The filter
  is a program in the language of \<^verbatim>\<open>linux/filter.h\<close>; its instructions are a datatype and its
  execution is an interpreter with the accumulator and the index register of that language. A load
  outside the packet ends the run and drops the packet.
\<close>

subsection \<open>Instructions\<close>

datatype sock_filter =
    LD_B_ABS u32
  | LD_H_ABS u32
  | LD_H_IND u32
  | LDX_B_MSH u32
  | JEQ_K u32 nat nat
  | JSET_K u32 nat nat
  | RET_K u32

definition be16 :: "u8 \<Rightarrow> u8 \<Rightarrow> u32" where
  "be16 h l = push_bit 8 (ucast h) OR ucast l"

definition load_b :: "u8 list \<Rightarrow> u32 \<Rightarrow> u32 option" where
  "load_b pkt off = (if unat off < length pkt then Some (ucast (pkt ! unat off)) else None)"

definition load_h :: "u8 list \<Rightarrow> u32 \<Rightarrow> u32 option" where
  "load_h pkt off = (if Suc (unat off) < length pkt
     then Some (be16 (pkt ! unat off) (pkt ! Suc (unat off))) else None)"

text \<open>
  One run. Jump offsets count from the next instruction, so every step moves forward. \<open>None\<close> is a
  run off the end of the program, which no program that the kernel accepts can do.
\<close>

function bpf_run :: "sock_filter list \<Rightarrow> u8 list \<Rightarrow> nat \<Rightarrow> u32 \<Rightarrow> u32 \<Rightarrow> u32 option" where
  "bpf_run prog pkt pc a x =
     (if pc < length prog then
        (case prog ! pc of
           LD_B_ABS k \<Rightarrow> (case load_b pkt k of
               None \<Rightarrow> Some 0 | Some v \<Rightarrow> bpf_run prog pkt (Suc pc) v x)
         | LD_H_ABS k \<Rightarrow> (case load_h pkt k of
               None \<Rightarrow> Some 0 | Some v \<Rightarrow> bpf_run prog pkt (Suc pc) v x)
         | LD_H_IND k \<Rightarrow> (case load_h pkt (x + k) of
               None \<Rightarrow> Some 0 | Some v \<Rightarrow> bpf_run prog pkt (Suc pc) v x)
         | LDX_B_MSH k \<Rightarrow> (case load_b pkt k of
               None \<Rightarrow> Some 0 | Some v \<Rightarrow> bpf_run prog pkt (Suc pc) a (4 * (v AND 0xf)))
         | JEQ_K k jt jf \<Rightarrow> bpf_run prog pkt (Suc pc + (if a = k then jt else jf)) a x
         | JSET_K k jt jf \<Rightarrow> bpf_run prog pkt (Suc pc + (if a AND k \<noteq> 0 then jt else jf)) a x
         | RET_K k \<Rightarrow> Some k)
      else None)"
  by pat_completeness auto
termination
  by (relation "measure (\<lambda>(prog, pkt, pc, a, x). length prog - pc)") auto

declare bpf_run.simps [simp del]

definition IPPROTO_UDP :: u32 where "IPPROTO_UDP = 17"

definition udp_insns :: "sock_filter list" where
  "udp_insns =
     [LD_B_ABS 9,
      JEQ_K IPPROTO_UDP 0 6,
      LD_H_ABS 6,
      JSET_K 0x1fff 4 0,
      LDX_B_MSH 0,
      LD_H_IND 2,
      JEQ_K 4789 0 1,
      RET_K 0x7fffffff,
      RET_K 0]"

subsection \<open>Programs that cannot run off their end\<close>

text \<open>What the kernel checks when a filter is attached: jumps stay inside, the last instruction returns.\<close>

fun insn_ok :: "nat \<Rightarrow> nat \<Rightarrow> sock_filter \<Rightarrow> bool" where
  "insn_ok n pc (RET_K k) = True"
| "insn_ok n pc (JEQ_K k jt jf) = (Suc pc + jt < n \<and> Suc pc + jf < n)"
| "insn_ok n pc (JSET_K k jt jf) = (Suc pc + jt < n \<and> Suc pc + jf < n)"
| "insn_ok n pc _ = (Suc pc < n)"

definition bpf_ok :: "sock_filter list \<Rightarrow> bool" where
  "bpf_ok prog \<longleftrightarrow> prog \<noteq> [] \<and> (\<forall>pc < length prog. insn_ok (length prog) pc (prog ! pc))"

lemma bpf_progress:
  assumes "\<forall>pc < length prog. insn_ok (length prog) pc (prog ! pc)" and "pc < length prog"
  shows "\<exists>r. bpf_run prog pkt pc a x = Some r \<and> (r = 0 \<or> RET_K r \<in> set prog)"
  using assms
proof (induction prog pkt pc a x rule: bpf_run.induct)
  case (1 prog pkt pc a x)
  note ok = "1.prems"(1) [rule_format, OF "1.prems"(2)]
  show ?case
  proof (cases "prog ! pc")
    case (LD_B_ABS k)
    then show ?thesis using "1.IH"(1) "1.prems" ok
      by (subst bpf_run.simps) (auto split: option.split)
  next
    case (LD_H_ABS k)
    then show ?thesis using "1.IH"(2) "1.prems" ok
      by (subst bpf_run.simps) (auto split: option.split)
  next
    case (LD_H_IND k)
    then show ?thesis using "1.IH"(3) "1.prems" ok
      by (subst bpf_run.simps) (auto split: option.split)
  next
    case (LDX_B_MSH k)
    then show ?thesis using "1.IH"(4) "1.prems" ok
      by (subst bpf_run.simps) (auto split: option.split)
  next
    case (JEQ_K k jt jf)
    then show ?thesis using "1.IH"(5) "1.prems" ok by (subst bpf_run.simps) simp
  next
    case (JSET_K k jt jf)
    then show ?thesis using "1.IH"(6) "1.prems" ok by (subst bpf_run.simps) simp
  next
    case (RET_K k)
    then show ?thesis using "1.prems" nth_mem [OF "1.prems"(2)] by (subst bpf_run.simps) simp
  qed
qed

lemma udp_insns_ok: "bpf_ok udp_insns"
  by (simp add: bpf_ok_def udp_insns_def less_Suc_eq)

subsection \<open>What the filter accepts\<close>

text \<open>The fields of an IPv4 packet, given from its first header byte on.\<close>

definition ip_proto :: "u8 list \<Rightarrow> u8" where
  "ip_proto pkt = pkt ! 9"

definition ip_frag_off :: "u8 list \<Rightarrow> u32" where
  "ip_frag_off pkt = be16 (pkt ! 6) (pkt ! 7) AND 0x1fff"

definition ip_hlen :: "u8 list \<Rightarrow> nat" where
  "ip_hlen pkt = 4 * unat (pkt ! 0 AND 0xf)"

definition udp_dport :: "u8 list \<Rightarrow> u32" where
  "udp_dport pkt = be16 (pkt ! (ip_hlen pkt + 2)) (pkt ! (ip_hlen pkt + 3))"

definition vxlan_frame :: "u8 list \<Rightarrow> bool" where
  "vxlan_frame pkt \<longleftrightarrow> 9 < length pkt \<and> ip_proto pkt = 17 \<and> ip_frag_off pkt = 0
     \<and> ip_hlen pkt + 3 < length pkt \<and> udp_dport pkt = 4789"

lemma and_0xf: "w AND 0xf = take_bit 4 w" for w :: "'a::len word"
  by (simp add: take_bit_eq_mask mask_eq_exp_minus_1)

lemma ihl_unat: "unat (b AND 0xf) = unat b mod 16" for b :: u8
  unfolding and_0xf by (simp only: unsigned_take_bit_eq) (simp add: take_bit_eq_mod)

lemma unat_ucast_u32: "unat (ucast b :: u32) = unat b" for b :: u8
proof -
  have "unat b < 2 ^ 8" using unsigned_less [of b] by simp
  then show ?thesis by (simp add: unsigned_ucast_eq take_bit_nat_eq_self)
qed

lemma msh_index: "unat (4 * ((ucast b :: u32) AND 0xf) + 2) = 4 * unat (b AND 0xf) + 2" for b :: u8
proof -
  have e: "unat ((ucast b :: u32) AND 0xf) = unat b mod 16"
    unfolding and_0xf by (simp only: unsigned_take_bit_eq) (simp add: take_bit_eq_mod unat_ucast_u32)
  have "unat b mod 16 < 16" by simp
  then show ?thesis by (simp add: ihl_unat unat_word_ariths e)
qed

lemma udp_insns_nth:
  "length udp_insns = 9" "udp_insns ! 0 = LD_B_ABS 9" "udp_insns ! Suc 0 = JEQ_K IPPROTO_UDP 0 6"
  "udp_insns ! 2 = LD_H_ABS 6" "udp_insns ! 3 = JSET_K 0x1fff 4 0" "udp_insns ! 4 = LDX_B_MSH 0"
  "udp_insns ! 5 = LD_H_IND 2" "udp_insns ! 6 = JEQ_K 4789 0 1" "udp_insns ! 7 = RET_K 0x7fffffff"
  "udp_insns ! 8 = RET_K 0"
  by (simp_all add: udp_insns_def)

text \<open>The filter from its last decision backwards.\<close>

lemma udp_run_port:
  "bpf_run udp_insns pkt 6 a x = Some (if a = 4789 then 0x7fffffff else 0)"
  by (subst bpf_run.simps) (simp add: bpf_run.simps [of _ _ 7] bpf_run.simps [of _ _ 8] udp_insns_nth)

lemma udp_run_header:
  assumes "pkt \<noteq> []"
  shows "bpf_run udp_insns pkt 4 a x =
    Some (if ip_hlen pkt + 3 < length pkt \<and> udp_dport pkt = 4789 then 0x7fffffff else 0)"
proof -
  have l: "load_b pkt 0 = Some (ucast (pkt ! 0))" using assms by (simp add: load_b_def)
  have "load_h pkt (4 * ((ucast (pkt ! 0) :: u32) AND 0xf) + 2) =
      (if ip_hlen pkt + 3 < length pkt then Some (udp_dport pkt) else None)"
    unfolding load_h_def msh_index
    by (simp add: ip_hlen_def udp_dport_def eval_nat_numeral)
  then show ?thesis
    by (simp add: bpf_run.simps [of _ _ 4] bpf_run.simps [of _ _ 5] udp_insns_nth l udp_run_port)
qed

lemma udp_run_frag:
  assumes "9 < length pkt"
  shows "bpf_run udp_insns pkt 2 a x =
    (if ip_frag_off pkt = 0 then bpf_run udp_insns pkt 4 (be16 (pkt ! 6) (pkt ! 7)) x else Some 0)"
proof -
  have "load_h pkt 6 = Some (be16 (pkt ! 6) (pkt ! 7))"
    using assms by (simp add: load_h_def)
  then show ?thesis
    by (simp add: bpf_run.simps [of _ _ 2] bpf_run.simps [of _ _ 3] bpf_run.simps [of _ _ 8]
        udp_insns_nth ip_frag_off_def)
qed

lemma udp_filter_result:
  "bpf_run udp_insns pkt 0 a x = Some (if vxlan_frame pkt then 0x7fffffff else 0)"
proof (cases "9 < length pkt")
  case True
  have "(ucast (pkt ! 9) :: u32) = IPPROTO_UDP \<longleftrightarrow> ip_proto pkt = 17"
    by (simp add: IPPROTO_UDP_def ip_proto_def word_unat_eq_iff unat_ucast_u32)
  moreover have "load_b pkt 9 = Some (ucast (pkt ! 9))" using True by (simp add: load_b_def)
  moreover have "pkt \<noteq> []" using True by auto
  ultimately show ?thesis using True
    by (simp add: bpf_run.simps [of _ _ 0] bpf_run.simps [of _ _ "Suc 0"] bpf_run.simps [of _ _ 8]
        udp_insns_nth udp_run_frag [unfolded numeral_2_eq_2] udp_run_header vxlan_frame_def)
next
  case False
  then show ?thesis
    by (simp add: bpf_run.simps [of _ _ 0] udp_insns_nth load_b_def vxlan_frame_def)
qed


text \<open>
  A program that passes the checks of the kernel returns on every packet, by one of its return
  instructions or by dropping the packet at a load outside it; it never runs off its end.
\<close>

theorem bpf_checked_returns:
  assumes "bpf_ok prog"
  shows "\<exists>r. bpf_run prog pkt 0 a x = Some r \<and> (r = 0 \<or> RET_K r \<in> set prog)"
  using bpf_progress [of prog 0] assms by (simp add: bpf_ok_def)

theorem bpf_checked_returns_witness:
  "\<exists>r. bpf_run udp_insns [] 0 0 0 = Some r \<and> (r = 0 \<or> RET_K r \<in> set udp_insns)"
  using bpf_checked_returns [OF udp_insns_ok] .

end
