(* ===== verification/Ntb_Netio.thy ===== *)
theory Ntb_Netio
  imports Ntb_Env Ntb_Bpf
begin

text \<open>
  Network I/O (\<^verbatim>\<open>agent/netio.c\<close>): the dataplane lock, the socket with its packet filter, and the
  events of the dataplane thread. The calls into the operating system and into the event library
  are recorded in the order they are made; their results come from an oracle \<open>os\<close>, which sees the
  calls made before.
\<close>

subsection \<open>The running context of a dataplane thread (ntb\_dp.h)\<close>

text \<open>Pointers are addresses (0 is \<^verbatim>\<open>NULL\<close>); the receive function is either set or null.\<close>

record ntb_pmd_ctx =
  ctx_mp :: addr
  msize :: u32
  pid :: int
  ev_base :: int
  timer_tv :: "int \<times> int"
  udp_sock :: int
  dp_locker :: bool
  ctx_netio_rx :: bool
  ip_pktid :: u16
  is_valid :: bool

definition ntb_pmd_ctx_zero :: ntb_pmd_ctx where
  "ntb_pmd_ctx_zero = \<lparr>ctx_mp = 0, msize = 0, pid = 0, ev_base = 0, timer_tv = (0, 0), udp_sock = 0,
     dp_locker = False, ctx_netio_rx = False, ip_pktid = 0, is_valid = False\<rparr>"

subsection \<open>Calls\<close>

datatype ev = UdpEvent | TimerEvent

datatype net_call =
    Event_base_new
  | Socket_udp
  | Set_hdrincl int
  | Attach_filter int "sock_filter list"
  | Event_assign ev int int
  | Event_add ev
  | Event_base_loop int

type_synonym net_log = "net_call list"
type_synonym os = "net_log \<Rightarrow> net_call \<Rightarrow> int"

definition sys :: "os \<Rightarrow> net_call \<Rightarrow> net_log \<Rightarrow> int \<times> net_log" where
  "sys os c log = (os log c, log @ [c])"

subsection \<open>The dataplane lock\<close>

text \<open>
  DPDK's reader-writer lock is a parameter: each operation gives the new lock, or \<open>None\<close> while the
  caller has to wait.
\<close>

record 'l rwlock_api =
  rte_rwlock_write_lock :: "'l \<Rightarrow> 'l option"
  rte_rwlock_write_unlock :: "'l \<Rightarrow> 'l option"
  rte_rwlock_read_lock :: "'l \<Rightarrow> 'l option"
  rte_rwlock_read_unlock :: "'l \<Rightarrow> 'l option"

definition ntb_netio_write_lock :: "'l rwlock_api \<Rightarrow> 'l \<Rightarrow> 'l option" where
  "ntb_netio_write_lock L ntb_dp_locker = rte_rwlock_write_lock L ntb_dp_locker"

definition ntb_netio_write_unlock :: "'l rwlock_api \<Rightarrow> 'l \<Rightarrow> 'l option" where
  "ntb_netio_write_unlock L ntb_dp_locker = rte_rwlock_write_unlock L ntb_dp_locker"

definition ntb_netio_read_lock :: "'l rwlock_api \<Rightarrow> 'l \<Rightarrow> 'l option" where
  "ntb_netio_read_lock L ntb_dp_locker = rte_rwlock_read_lock L ntb_dp_locker"

definition ntb_netio_read_unlock :: "'l rwlock_api \<Rightarrow> 'l \<Rightarrow> 'l option" where
  "ntb_netio_read_unlock L ntb_dp_locker = rte_rwlock_read_unlock L ntb_dp_locker"

subsection \<open>Event callbacks\<close>

text \<open>The event flags of the event library, and the two callbacks. The receive function and
  \<^verbatim>\<open>ntb_neigh_discover_timer\<close>, which is only declared, are arguments.\<close>

definition EV_READ :: int where "EV_READ = 2"
definition EV_WRITE :: int where "EV_WRITE = 4"

definition netio_cb ::
  "(int \<Rightarrow> ntb_pmd_ctx \<Rightarrow> 's \<Rightarrow> 's outcome) \<Rightarrow> int \<Rightarrow> int \<Rightarrow> ntb_pmd_ctx \<Rightarrow> 's \<Rightarrow> 's outcome" where
  "netio_cb rx sock which ctx s =
     (if which = EV_READ then (if ctx_netio_rx ctx then rx sock ctx s else Inr s)
      else if which = EV_WRITE then Inr s else Inr s)"

definition timer_cb ::
  "(ntb_pmd_ctx \<Rightarrow> 's \<Rightarrow> 's outcome) \<Rightarrow> os \<Rightarrow> ntb_pmd_ctx \<Rightarrow> net_log \<Rightarrow> 's \<Rightarrow> (net_log \<times> 's) outcome" where
  "timer_cb discover os ctx log s =
     bindR (discover ctx s) (\<lambda>s'. Inr (snd (sys os (Event_add TimerEvent) log), s'))"

subsection \<open>Initialisation\<close>

definition udp_netio_init ::
  "('t, 'b, 'f, 'h) env \<Rightarrow> os \<Rightarrow> ntb_pmd_ctx \<Rightarrow> net_log \<Rightarrow> (int \<times> ntb_pmd_ctx \<times> net_log) outcome" where
  "udp_netio_init D os ctx log =
     (case sys os Socket_udp log of (raw_sock, log1) \<Rightarrow>
      bindR (rte_assert D (raw_sock \<ge> 0)) (\<lambda>_.
      case sys os (Set_hdrincl raw_sock) log1 of (ret, log2) \<Rightarrow>
      bindR (rte_assert D (ret = 0)) (\<lambda>_.
      case sys os (Attach_filter raw_sock udp_insns) log2 of (ret, log3) \<Rightarrow>
      bindR (rte_assert D (ret = 0)) (\<lambda>_.
      let ctx1 = ctx\<lparr>udp_sock := raw_sock\<rparr> in
      bindR (rte_assert D (ev_base ctx1 \<noteq> 0)) (\<lambda>_.
      case sys os (Event_assign UdpEvent (ev_base ctx1) (udp_sock ctx1)) log3 of (ret, log4) \<Rightarrow>
      bindR (rte_assert D (ret = 0)) (\<lambda>_.
      case sys os (Event_add UdpEvent) log4 of (ret, log5) \<Rightarrow>
      bindR (rte_assert D (ret = 0)) (\<lambda>_. Inr (ret, ctx1, log5))))))))"

definition ntb_netio_init ::
  "('t, 'b, 'f, 'h) env \<Rightarrow> os \<Rightarrow> ntb_pmd_ctx \<Rightarrow> net_log \<Rightarrow> (int \<times> ntb_pmd_ctx \<times> net_log) outcome" where
  "ntb_netio_init D os ctx log =
     (let ctx1 = ctx\<lparr>dp_locker := True\<rparr> in
      case sys os Event_base_new log of (base, log1) \<Rightarrow>
      let ctx2 = ctx1\<lparr>ev_base := base\<rparr> in
      bindR (rte_assert D (ev_base ctx2 \<noteq> 0)) (\<lambda>_.
      bindR (udp_netio_init D os ctx2 log1) (\<lambda>(ret, ctx3, log2).
      bindR (rte_assert D (0 = ret)) (\<lambda>_.
      bindR (rte_assert D (0 = ret)) (\<lambda>_.
      case sys os (Event_assign TimerEvent (ev_base ctx3) (- 1)) log2 of (ret, log3) \<Rightarrow>
      bindR (rte_assert D (ret = 0)) (\<lambda>_.
      let ctx4 = ctx3\<lparr>timer_tv := (1, 0)\<rparr> in
      case sys os (Event_add TimerEvent) log3 of (ret, log4) \<Rightarrow>
      bindR (rte_assert D (ret = 0)) (\<lambda>_. Inr (0, ctx4, log4))))))))"

definition ntb_netio_deinit :: "ntb_pmd_ctx \<Rightarrow> int" where
  "ntb_netio_deinit ctx = 0"

definition ntb_netio_run :: "os \<Rightarrow> ntb_pmd_ctx \<Rightarrow> net_log \<Rightarrow> int \<times> net_log" where
  "ntb_netio_run os ctx log = sys os (Event_base_loop (ev_base ctx)) log"

subsection \<open>What the initialisation does\<close>

text \<open>
  The event base and the socket that the oracle hands out after the calls \<open>log\<close>, the calls of the
  initialisation, and that the results of all of them mean success.
\<close>

definition os_base :: "os \<Rightarrow> net_log \<Rightarrow> int" where
  "os_base os log = os log Event_base_new"

definition os_sock :: "os \<Rightarrow> net_log \<Rightarrow> int" where
  "os_sock os log = os (log @ [Event_base_new]) Socket_udp"

definition netio_calls :: "os \<Rightarrow> net_log \<Rightarrow> net_call list" where
  "netio_calls os log = (let base = os_base os log; fd = os_sock os log in
     [Event_base_new, Socket_udp, Set_hdrincl fd, Attach_filter fd udp_insns,
      Event_assign UdpEvent base fd, Event_add UdpEvent, Event_assign TimerEvent base (- 1),
      Event_add TimerEvent])"

fun call_ok :: "net_call \<Rightarrow> int \<Rightarrow> bool" where
  "call_ok Event_base_new r = (r \<noteq> 0)"
| "call_ok Socket_udp r = (r \<ge> 0)"
| "call_ok _ r = (r = 0)"

fun calls_ok :: "os \<Rightarrow> net_log \<Rightarrow> net_call list \<Rightarrow> bool" where
  "calls_ok os log [] = True"
| "calls_ok os log (c # cs) = (call_ok c (os log c) \<and> calls_ok os (log @ [c]) cs)"

text \<open>
  The initialisation makes exactly the calls of \<open>netio_calls\<close>, in this order, so the filter is
  attached before the socket's read event is added. With assertions it comes back only if every
  call succeeded. Without assertions it makes the same calls and reports success whatever they
  return, so the socket can be read without its filter.
\<close>

theorem netio_init_calls:
  "ntb_netio_init D os ctx log =
    (if assert_on D \<and> \<not> calls_ok os log (netio_calls os log) then Inl AssertFailed
     else Inr (0, ctx\<lparr>dp_locker := True, ev_base := os_base os log, udp_sock := os_sock os log,
         timer_tv := (1, 0)\<rparr>, log @ netio_calls os log))"
  by (simp add: ntb_netio_init_def udp_netio_init_def sys_def netio_calls_def os_base_def os_sock_def Let_def)

end
