(* ===== verification/Shc_Ip.thy ===== *)
theory Shc_Ip
  imports Ntb_Prelude
begin

unbundle bit_operations_syntax

text \<open>
  The address classes of the common library: \<^verbatim>\<open>IpAddress\<close> (\<^verbatim>\<open>common/ipaddress.h\<close>,
  \<^verbatim>\<open>common/ipaddress.cpp\<close>) and \<^verbatim>\<open>IpPrefix\<close> (\<^verbatim>\<open>common/ipprefix.h\<close>, \<^verbatim>\<open>common/ipprefix.cpp\<close>). The
  conversions between addresses and text of the C library, \<^verbatim>\<open>inet_pton\<close> and \<^verbatim>\<open>inet_ntop\<close>, are
  parameters with their documented behaviour as a locale; \<^verbatim>\<open>std::stoi\<close> and \<^verbatim>\<open>std::to_string\<close>
  are defined.
\<close>

subsection \<open>Numbers and text\<close>

definition digit :: "nat \<Rightarrow> char" where
  "digit d = char_of (48 + d)"

fun show_nat :: "nat \<Rightarrow> string" where
  "show_nat n = (if n < 10 then [digit n] else show_nat (n div 10) @ [digit (n mod 10)])"

definition to_string_int :: "int \<Rightarrow> string" where
  "to_string_int i = (if i < 0 then CHR ''-'' # show_nat (nat (- i)) else show_nat (nat i))"

definition isdigit :: "char \<Rightarrow> bool" where
  "isdigit c \<longleftrightarrow> 48 \<le> (of_char c :: nat) \<and> (of_char c :: nat) \<le> 57"

definition isspace :: "char \<Rightarrow> bool" where
  "isspace c \<longleftrightarrow> (of_char c :: nat) = 32 \<or> 9 \<le> (of_char c :: nat) \<and> (of_char c :: nat) \<le> 13"

definition digits_val :: "string \<Rightarrow> nat" where
  "digits_val s = foldl (\<lambda>a c. 10 * a + (of_char c - 48)) 0 s"

text \<open>
  \<^verbatim>\<open>std::stoi\<close>: leading white space, a sign, and the longest run of digits; \<open>None\<close> stands for the two
  exceptions it throws (no digits, or a value outside \<^verbatim>\<open>int\<close>), both derived from \<^verbatim>\<open>std::logic_error\<close>.
\<close>

definition stoi :: "string \<Rightarrow> int option" where
  "stoi s =
     (let t = dropWhile isspace s;
          neg = (t \<noteq> [] \<and> hd t = CHR ''-'');
          u = (if t \<noteq> [] \<and> (hd t = CHR ''-'' \<or> hd t = CHR ''+'') then tl t else t);
          ds = takeWhile isdigit u;
          v = (if neg then - int (digits_val ds) else int (digits_val ds))
      in if ds = [] then None else if - (2 ^ 31) \<le> v \<and> v < 2 ^ 31 then Some v else None)"

declare show_nat.simps [simp del]

lemma of_char_digit [simp]: "d < 10 \<Longrightarrow> (of_char (digit d) :: nat) = 48 + d"
  by (simp add: digit_def of_char_of)

lemma digit_isdigit [simp]: "d < 10 \<Longrightarrow> isdigit (digit d)"
  by (simp add: isdigit_def)

lemma show_nat_digits: "c \<in> set (show_nat n) \<Longrightarrow> isdigit c"
  by (induction n rule: show_nat.induct) (subst (asm) (2) show_nat.simps, auto split: if_splits)

lemma show_nat_ne [simp]: "show_nat n \<noteq> []"
  by (subst show_nat.simps) simp

lemma digits_val_show: "digits_val (show_nat n) = n"
proof (induction n rule: show_nat.induct)
  case (1 n)
  then show ?case
    by (subst show_nat.simps) (auto simp: digits_val_def)
qed

lemma isdigit_not_space: "isdigit c \<Longrightarrow> \<not> isspace c"
  by (auto simp: isdigit_def isspace_def)

lemma isdigit_not_sign: "isdigit c \<Longrightarrow> c \<noteq> CHR ''-'' \<and> c \<noteq> CHR ''+'' \<and> c \<noteq> CHR ''/'' \<and> c \<noteq> CHR '':''"
  by (auto simp: isdigit_def)

lemma stoi_to_string:
  assumes "0 \<le> i" and "i < 2 ^ 31"
  shows "stoi (to_string_int i) = Some i"
proof -
  define s where "s = show_nat (nat i)"
  have d: "\<forall>c \<in> set s. isdigit c" by (auto simp: s_def dest: show_nat_digits)
  have ne: "s \<noteq> []" by (simp add: s_def)
  then have h: "isdigit (hd s)" using d by simp
  have "dropWhile isspace s = s" using h ne isdigit_not_space by (cases s) auto
  moreover have tw: "takeWhile isdigit s = s" using d by (simp add: takeWhile_eq_all_conv)
  moreover have "digits_val s = nat i" by (simp add: s_def digits_val_show)
  moreover have "hd s \<noteq> CHR ''-''" "hd s \<noteq> CHR ''+''" using isdigit_not_sign [OF h] by auto
  ultimately show ?thesis using assms ne
    by (simp add: stoi_def to_string_int_def s_def [symmetric] Let_def tw)
qed

subsection \<open>IpAddress\<close>

text \<open>
  The union holds the member that was written last; the classes read the member that the family
  selects. An IPv4 address is kept in network byte order, as the bytes lie in memory.
\<close>

datatype ip_union = Ipv4_addr u32 | Ipv6_addr "u8 list"

record ip_addr_t =
  family :: u8
  ip_addr :: ip_union

definition AF_INET :: u8 where "AF_INET = 2"
definition AF_INET6 :: u8 where "AF_INET6 = 10"

text \<open>
  The other member of the union, for completeness: the first four bytes as a little-endian word, and
  the four bytes of the word followed by bytes nobody has written (read as 0).
\<close>

fun getV4Addr_u :: "ip_union \<Rightarrow> u32" where
  "getV4Addr_u (Ipv4_addr w) = w"
| "getV4Addr_u (Ipv6_addr bs) = ucast (bs ! 0) OR push_bit 8 (ucast (bs ! 1))
     OR push_bit 16 (ucast (bs ! 2)) OR push_bit 24 (ucast (bs ! 3))"

fun getV6Addr_u :: "ip_union \<Rightarrow> u8 list" where
  "getV6Addr_u (Ipv6_addr bs) = bs"
| "getV6Addr_u (Ipv4_addr w) = [ucast w, ucast (drop_bit 8 w), ucast (drop_bit 16 w), ucast (drop_bit 24 w)]
     @ replicate 12 0"

definition getV4Addr :: "ip_addr_t \<Rightarrow> u32" where
  "getV4Addr a = getV4Addr_u (ip_addr a)"

definition getV6Addr :: "ip_addr_t \<Rightarrow> u8 list" where
  "getV6Addr a = getV6Addr_u (ip_addr a)"

definition isV4 :: "ip_addr_t \<Rightarrow> bool" where
  "isV4 a \<longleftrightarrow> family a = AF_INET"

definition isZero :: "ip_addr_t \<Rightarrow> bool" where
  "isZero a \<longleftrightarrow> family a = AF_INET \<and> getV4Addr a = 0
     \<or> family a = AF_INET6 \<and> getV6Addr a = replicate 16 0"

definition isIpv6LinkLocal :: "ip_addr_t \<Rightarrow> bool" where
  "isIpv6LinkLocal a \<longleftrightarrow> family a = AF_INET6
     \<and> getV4Addr_u (Ipv6_addr (getV6Addr a)) AND bswap32 0xffc00000 = bswap32 0xfe800000"

text \<open>\<^verbatim>\<open>memcmp\<close> of two byte strings of the same length.\<close>

fun memcmp :: "u8 list \<Rightarrow> u8 list \<Rightarrow> int" where
  "memcmp (x # xs) (y # ys) = (if x < y then - 1 else if y < x then 1 else memcmp xs ys)"
| "memcmp _ _ = 0"

definition ip_less :: "ip_addr_t \<Rightarrow> ip_addr_t \<Rightarrow> bool" where
  "ip_less a b \<longleftrightarrow>
     (if family a \<noteq> family b then family a < family b
      else if family a = AF_INET then bswap32 (getV4Addr a) < bswap32 (getV4Addr b)
      else memcmp (getV6Addr a) (getV6Addr b) < 0)"

definition ip_eq :: "ip_addr_t \<Rightarrow> ip_addr_t \<Rightarrow> bool" where
  "ip_eq a b \<longleftrightarrow> family a = family b
     \<and> (family a = AF_INET \<and> getV4Addr a = getV4Addr b
        \<or> family a = AF_INET6 \<and> memcmp (getV6Addr a) (getV6Addr b) = 0)"

text \<open>The conversions of the C library; \<^verbatim>\<open>inet_pton\<close> gives \<open>None\<close> when it does not return 1.\<close>

record inet_api =
  inet_pton :: "u8 \<Rightarrow> string \<Rightarrow> ip_union option"
  inet_ntop :: "u8 \<Rightarrow> ip_union \<Rightarrow> string option"

definition IpAddress_u32 :: "u32 \<Rightarrow> ip_addr_t" where
  "IpAddress_u32 ip = \<lparr>family = AF_INET, ip_addr = Ipv4_addr ip\<rparr>"

definition IpAddress_str :: "inet_api \<Rightarrow> string \<Rightarrow> ip_addr_t outcome" where
  "IpAddress_str I ipStr =
     (let fam = (if CHR '':'' \<in> set ipStr then AF_INET6 else AF_INET) in
      case inet_pton I fam ipStr of
        None \<Rightarrow> Inl InvalidArgument
      | Some u \<Rightarrow> Inr \<lparr>family = fam, ip_addr = u\<rparr>)"

text \<open>A null result of \<^verbatim>\<open>inet_ntop\<close> would construct a string from a null pointer.\<close>

definition ip_to_string :: "inet_api \<Rightarrow> ip_addr_t \<Rightarrow> string outcome" where
  "ip_to_string I a = (case inet_ntop I (family a) (ip_addr a) of
     None \<Rightarrow> Inl NullDeref | Some s \<Rightarrow> Inr s)"

datatype AddrScope = GLOBAL_SCOPE | LINK_SCOPE | HOST_SCOPE

definition getAddrScope :: "inet_api \<Rightarrow> ip_addr_t \<Rightarrow> AddrScope outcome" where
  "getAddrScope I a =
     bindR (IpAddress_str I ''169.254.0.0'') (\<lambda>link4.
     bindR (IpAddress_str I ''FE80::0'') (\<lambda>link6.
     bindR (IpAddress_str I ''127.0.0.1'') (\<lambda>host4.
     bindR (IpAddress_str I ''::1'') (\<lambda>host6.
     Inr (if isV4 a then
            (let ip1 = bswap32 (getV4Addr a); ip2 = bswap32 (getV4Addr link4) in
             if ip1 AND 0xffff0000 = ip2 then LINK_SCOPE
             else if ip_eq a host4 then HOST_SCOPE else GLOBAL_SCOPE)
          else
            (let ip1 = getV6Addr a; ip2 = getV6Addr link6 in
             if ip1 ! 0 = ip2 ! 0 \<and> ip1 ! 1 AND 0xc0 = ip2 ! 1 then LINK_SCOPE
             else if ip_eq a host6 then HOST_SCOPE else GLOBAL_SCOPE))))))"

subsection \<open>IpPrefix\<close>

record ip_prefix =
  m_ip :: ip_addr_t
  m_mask :: int

definition prefix_isValid :: "ip_prefix \<Rightarrow> bool" where
  "prefix_isValid p \<longleftrightarrow> \<not> m_mask p < 0
     \<and> (if family (m_ip p) = AF_INET then \<not> m_mask p > 32
        else if family (m_ip p) = AF_INET6 then \<not> m_mask p > 128 else False)"

definition IpPrefix_str :: "inet_api \<Rightarrow> string \<Rightarrow> ip_prefix outcome" where
  "IpPrefix_str I s =
     (let ipStr = takeWhile (\<lambda>c. c \<noteq> CHR ''/'') s in
      bindR (if ipStr = [] then Inr (IpAddress_u32 0) else IpAddress_str I ipStr) (\<lambda>ip.
      if CHR ''/'' \<notin> set s then Inr \<lparr>m_ip = ip, m_mask = (if isV4 ip then 32 else 128)\<rparr>
      else case stoi (drop (Suc (length ipStr)) s) of
        None \<Rightarrow> Inl InvalidArgument
      | Some m \<Rightarrow> (let p = \<lparr>m_ip = ip, m_mask = m\<rparr> in
          if prefix_isValid p then Inr p else Inl InvalidArgument)))"

definition IpPrefix_u32 :: "u32 \<Rightarrow> int \<Rightarrow> ip_prefix outcome" where
  "IpPrefix_u32 a m = (let p = \<lparr>m_ip = IpAddress_u32 a, m_mask = m\<rparr> in
     if prefix_isValid p then Inr p else Inl InvalidArgument)"

definition prefix_to_string :: "inet_api \<Rightarrow> ip_prefix \<Rightarrow> string outcome" where
  "prefix_to_string I p = bindR (ip_to_string I (m_ip p)) (\<lambda>s.
     Inr (s @ CHR ''/'' # to_string_int (m_mask p)))"

text \<open>
  The mask. \<open>v4_mask\<close> shifts in 64 bits and cuts to 32; \<open>v6_mask\<close> is the byte array that the two
  \<^verbatim>\<open>memset\<close> calls and the middle byte fill.
\<close>

definition v4_mask :: "int \<Rightarrow> u32" where
  "v4_mask m = bswap32 (ucast ((push_bit (nat (32 - m)) 0xFFFFFFFF :: u64) AND 0xFFFFFFFF))"

definition v6_mask :: "nat \<Rightarrow> u8 list" where
  "v6_mask m = (let mid = m div 8; bits = m mod 8 in
     replicate mid 0xFF @ (if mid < 16 then ucast (push_bit (8 - bits) (0xFF :: u32)) # replicate (16 - mid - 1) 0
       else []))"

definition getMask :: "ip_prefix \<Rightarrow> ip_addr_t outcome" where
  "getMask p =
     (if family (m_ip p) = AF_INET then Inr (IpAddress_u32 (v4_mask (m_mask p)))
      else if family (m_ip p) = AF_INET6 then
        (if m_mask p \<ge> 0 \<and> m_mask p \<le> 128
         then Inr \<lparr>family = AF_INET6, ip_addr = Ipv6_addr (v6_mask (nat (m_mask p)))\<rparr>
         else Inl AssertFailed)
      else Inl LogicError)"

definition getMaskLength :: "ip_prefix \<Rightarrow> int" where
  "getMaskLength p = m_mask p"

definition isDefaultRoute :: "ip_prefix \<Rightarrow> bool" where
  "isDefaultRoute p \<longleftrightarrow> m_mask p = 0"

definition getBroadcastIp :: "ip_prefix \<Rightarrow> ip_addr_t outcome" where
  "getBroadcastIp p =
     (if family (m_ip p) = AF_INET then
        bindR (getMask p) (\<lambda>m. Inr (IpAddress_u32 (getV4Addr (m_ip p) OR NOT (getV4Addr m))))
      else if family (m_ip p) = AF_INET6 then
        bindR (getMask p) (\<lambda>m. Inr \<lparr>family = AF_INET6,
          ip_addr = Ipv6_addr (map2 (\<lambda>x y. x OR NOT y) (getV6Addr (m_ip p)) (getV6Addr m))\<rparr>)
      else Inl LogicError)"

definition isAddressInSubnet :: "ip_prefix \<Rightarrow> ip_addr_t \<Rightarrow> bool outcome" where
  "isAddressInSubnet p a =
     (if family (m_ip p) \<noteq> family a then Inr False
      else if family (m_ip p) = AF_INET then
        bindR (getMask p) (\<lambda>m. Inr (getV4Addr (m_ip p) AND getV4Addr m = getV4Addr a AND getV4Addr m))
      else if family (m_ip p) = AF_INET6 then
        bindR (getMask p) (\<lambda>m. Inr (map2 (AND) (getV6Addr (m_ip p)) (getV6Addr m)
          = map2 (AND) (getV6Addr a) (getV6Addr m)))
      else Inl LogicError)"

text \<open>An IPv6 subnet is built through its text.\<close>

definition getSubnet :: "inet_api \<Rightarrow> ip_prefix \<Rightarrow> ip_prefix outcome" where
  "getSubnet I p =
     (if family (m_ip p) = AF_INET then
        bindR (getMask p) (\<lambda>m. IpPrefix_u32 (getV4Addr (m_ip p) AND getV4Addr m) (m_mask p))
      else if family (m_ip p) = AF_INET6 then
        bindR (getMask p) (\<lambda>m.
          case inet_ntop I AF_INET6 (Ipv6_addr (map2 (AND) (getV6Addr (m_ip p)) (getV6Addr m))) of
            None \<Rightarrow> Inl NullDeref
          | Some ipStr \<Rightarrow> IpPrefix_str I (ipStr @ CHR ''/'' # to_string_int (m_mask p)))
      else Inl LogicError)"

definition prefix_less :: "ip_prefix \<Rightarrow> ip_prefix \<Rightarrow> bool" where
  "prefix_less p q \<longleftrightarrow> (if m_mask p \<noteq> m_mask q then m_mask p < m_mask q else ip_less (m_ip p) (m_ip q))"

definition prefix_eq :: "ip_prefix \<Rightarrow> ip_prefix \<Rightarrow> bool" where
  "prefix_eq p q \<longleftrightarrow> ip_eq (m_ip p) (m_ip q) \<and> m_mask p = m_mask q"

subsection \<open>Well-formed addresses and the order on them\<close>

definition ip_wf :: "ip_addr_t \<Rightarrow> bool" where
  "ip_wf a \<longleftrightarrow> (case ip_addr a of Ipv4_addr w \<Rightarrow> family a = AF_INET
     | Ipv6_addr bs \<Rightarrow> family a = AF_INET6 \<and> length bs = 16)"

definition prefix_wf :: "ip_prefix \<Rightarrow> bool" where
  "prefix_wf p \<longleftrightarrow> ip_wf (m_ip p) \<and> prefix_isValid p"

lemma AF_distinct [simp]: "AF_INET \<noteq> AF_INET6" "AF_INET6 \<noteq> AF_INET"
  by (simp_all add: AF_INET_def AF_INET6_def)

lemma ip_wf_cases [consumes 1, case_names v4 v6]:
  assumes "ip_wf a"
  obtains w where "a = \<lparr>family = AF_INET, ip_addr = Ipv4_addr w\<rparr>"
  | bs where "length bs = 16" and "a = \<lparr>family = AF_INET6, ip_addr = Ipv6_addr bs\<rparr>"
  using assms by (cases a) (auto simp: ip_wf_def split: ip_union.splits)

lemma memcmp_anti: "length xs = length ys \<Longrightarrow> memcmp ys xs = - memcmp xs ys"
  by (induction xs ys rule: list_induct2) auto

lemma memcmp_0_iff: "length xs = length ys \<Longrightarrow> memcmp xs ys = 0 \<longleftrightarrow> xs = ys"
  by (induction xs ys rule: list_induct2) (auto simp: not_less_iff_gr_or_eq)

lemma ip_eq_iff: "ip_wf a \<Longrightarrow> ip_wf b \<Longrightarrow> ip_eq a b \<longleftrightarrow> a = b"
  by (elim ip_wf_cases) (auto simp: ip_eq_def getV4Addr_def getV6Addr_def memcmp_0_iff)

text \<open>Two keys that neither order puts first are the same key, so a \<^verbatim>\<open>std::map\<close> over them is a map.\<close>

lemma ip_less_total:
  assumes "ip_wf a" and "ip_wf b"
  shows "\<not> ip_less a b \<and> \<not> ip_less b a \<longleftrightarrow> a = b"
proof (cases "family a = family b")
  case True
  then show ?thesis using assms
  proof (elim ip_wf_cases)
    fix w v
    assume "a = \<lparr>family = AF_INET, ip_addr = Ipv4_addr w\<rparr>" "b = \<lparr>family = AF_INET, ip_addr = Ipv4_addr v\<rparr>"
    moreover have "bswap32 w < bswap32 v \<or> bswap32 v < bswap32 w \<or> w = v"
      using less_linear [of "bswap32 w" "bswap32 v"] by auto
    ultimately show ?thesis by (auto simp: ip_less_def getV4Addr_def)
  next
    fix bs cs :: "u8 list"
    assume l: "length bs = 16" "length cs = 16" and
      ab: "a = \<lparr>family = AF_INET6, ip_addr = Ipv6_addr bs\<rparr>" "b = \<lparr>family = AF_INET6, ip_addr = Ipv6_addr cs\<rparr>"
    have "memcmp cs bs = - memcmp bs cs" "memcmp bs cs = 0 \<longleftrightarrow> bs = cs"
      using l memcmp_anti [of bs cs] memcmp_0_iff [of bs cs] by auto
    then show ?thesis using ab by (auto simp: ip_less_def getV6Addr_def)
  qed auto
next
  case False
  then show ?thesis by (auto simp: ip_less_def)
qed

lemma prefix_less_total:
  "prefix_wf p \<Longrightarrow> prefix_wf q \<Longrightarrow> \<not> prefix_less p q \<and> \<not> prefix_less q p \<longleftrightarrow> p = q"
  using ip_less_total [of "m_ip p" "m_ip q"]
  by (cases p; cases q) (auto simp: prefix_less_def prefix_wf_def split: if_splits)

subsection \<open>Subnets\<close>

text \<open>The network part of an address.\<close>

definition net_of :: "ip_addr_t \<Rightarrow> int \<Rightarrow> ip_addr_t" where
  "net_of a m = a\<lparr>ip_addr := (case ip_addr a of
       Ipv4_addr w \<Rightarrow> Ipv4_addr (w AND v4_mask m)
     | Ipv6_addr bs \<Rightarrow> Ipv6_addr (map2 (AND) bs (v6_mask (nat m))))\<rparr>"

definition subnet :: "ip_prefix \<Rightarrow> ip_prefix" where
  "subnet p = p\<lparr>m_ip := net_of (m_ip p) (m_mask p)\<rparr>"

lemma subnet_sel [simp]: "m_mask (subnet p) = m_mask p" "family (m_ip (subnet p)) = family (m_ip p)"
  by (simp_all add: subnet_def net_of_def)

lemma length_v6_mask: "m \<le> 128 \<Longrightarrow> length (v6_mask m) = 16"
  by (auto simp: v6_mask_def Let_def)

lemma map2_and_idem: "length xs = length ms \<Longrightarrow>
    map2 (AND) (map2 (AND) xs ms) ms = map2 (AND) xs (ms :: u8 list)"
  by (induction xs ms rule: list_induct2) (auto simp: and.assoc)

lemma prefix_wf_mask: "prefix_wf p \<Longrightarrow> 0 \<le> m_mask p \<and> m_mask p \<le> (if isV4 (m_ip p) then 32 else 128)"
  by (auto simp: prefix_wf_def prefix_isValid_def isV4_def split: if_splits)

lemma subnet_wf: "prefix_wf p \<Longrightarrow> prefix_wf (subnet p)"
  using prefix_wf_mask [of p] length_v6_mask [of "nat (m_mask p)"]
  by (auto simp: prefix_wf_def subnet_def net_of_def ip_wf_def isV4_def prefix_isValid_def
      split: ip_union.splits if_splits)

lemma net_of_idem: "prefix_wf p \<Longrightarrow> net_of (net_of (m_ip p) (m_mask p)) (m_mask p) = net_of (m_ip p) (m_mask p)"
  using prefix_wf_mask [of p] length_v6_mask [of "nat (m_mask p)"]
  by (auto simp: net_of_def prefix_wf_def ip_wf_def isV4_def and.assoc map2_and_idem split: ip_union.splits)

lemma subnet_idem [simp]: "prefix_wf p \<Longrightarrow> subnet (subnet p) = subnet p"
  by (simp add: subnet_def net_of_idem)

lemma isAddressInSubnet_iff:
  assumes "prefix_wf p" and "ip_wf a"
  shows "isAddressInSubnet p a =
    Inr (family (m_ip p) = family a \<and> net_of (m_ip p) (m_mask p) = net_of a (m_mask p))"
proof -
  have "ip_wf (m_ip p)" using assms by (simp add: prefix_wf_def)
  then show ?thesis using assms prefix_wf_mask [of p]
    by (elim ip_wf_cases) (auto simp: isAddressInSubnet_def getMask_def net_of_def IpAddress_u32_def
        getV4Addr_def getV6Addr_def isV4_def)
qed

text \<open>Mask and broadcast address of a valid prefix; the broadcast address lies in the subnet.\<close>

lemma broadcast_bytes:
  "length xs = length ms \<Longrightarrow> map2 (AND) (map2 (\<lambda>x y. x OR NOT y) xs ms) ms = map2 (AND) xs (ms :: u8 list)"
  by (induction xs ms rule: list_induct2) (auto simp: bit_eq_iff bit_simps)

lemma getMask_wf:
  assumes "prefix_wf p"
  shows "\<exists>m b. getMask p = Inr m \<and> ip_wf m \<and> getBroadcastIp p = Inr b \<and> ip_wf b \<and> family b = family (m_ip p)
    \<and> net_of b (m_mask p) = net_of (m_ip p) (m_mask p)"
proof -
  have "ip_wf (m_ip p)" using assms by (simp add: prefix_wf_def)
  then show ?thesis
  proof (cases rule: ip_wf_cases)
    case (v4 w)
    have "(w OR NOT k) AND k = w AND k" for k :: u32 by (auto simp: bit_eq_iff bit_simps)
    then show ?thesis using v4
      by (simp add: getMask_def getBroadcastIp_def IpAddress_u32_def getV4Addr_def ip_wf_def net_of_def)
  next
    case (v6 bs)
    have m: "0 \<le> m_mask p" "m_mask p \<le> 128" using prefix_wf_mask [OF assms] v6 by (simp_all add: isV4_def)
    then have "length (v6_mask (nat (m_mask p))) = 16" by (simp add: length_v6_mask)
    then show ?thesis using v6 m
      by (simp add: getMask_def getBroadcastIp_def getV6Addr_def ip_wf_def net_of_def broadcast_bytes)
  qed
qed

subsection \<open>Text\<close>

text \<open>
  What the classes rely on in \<^verbatim>\<open>inet_ntop\<close> and \<^verbatim>\<open>inet_pton\<close>: an address is printed, its text is read
  back as the same address, an IPv4 text has no colon and an IPv6 text has one, and neither has a slash
  or a comma; what is read has the size of its family.
\<close>

locale inet =
  fixes I :: inet_api
  assumes ntop4: "\<exists>s. inet_ntop I AF_INET (Ipv4_addr w) = Some s \<and> inet_pton I AF_INET s = Some (Ipv4_addr w)
      \<and> s \<noteq> [] \<and> CHR '':'' \<notin> set s \<and> CHR ''/'' \<notin> set s \<and> CHR '','' \<notin> set s"
    and ntop6: "length bs = 16 \<Longrightarrow> \<exists>s. inet_ntop I AF_INET6 (Ipv6_addr bs) = Some s
      \<and> inet_pton I AF_INET6 s = Some (Ipv6_addr bs) \<and> CHR '':'' \<in> set s
      \<and> CHR ''/'' \<notin> set s \<and> CHR '','' \<notin> set s"
    and pton4: "inet_pton I AF_INET s = Some u \<Longrightarrow> \<exists>w. u = Ipv4_addr w"
    and pton6: "inet_pton I AF_INET6 s = Some u \<Longrightarrow> \<exists>bs. u = Ipv6_addr bs \<and> length bs = 16"
begin

text \<open>Everything that can be parsed is well formed.\<close>

lemma IpAddress_str_wf: "IpAddress_str I s = Inr a \<Longrightarrow> ip_wf a"
  by (auto simp: IpAddress_str_def ip_wf_def Let_def split: option.splits if_splits dest: pton4 pton6)

lemma IpPrefix_str_wf: "IpPrefix_str I s = Inr p \<Longrightarrow> prefix_wf p"
  by (auto simp: IpPrefix_str_def Let_def bindR_eq_Inr prefix_wf_def prefix_isValid_def isV4_def IpAddress_u32_def
      ip_wf_def [of "\<lparr>family = _, ip_addr = Ipv4_addr _\<rparr>"] split: if_splits option.splits ip_union.splits
      dest!: IpAddress_str_wf) (auto simp: ip_wf_def split: ip_union.splits)

lemma ip_string:
  assumes "ip_wf a"
  obtains s where "ip_to_string I a = Inr s" and "IpAddress_str I s = Inr a"
    and "s \<noteq> []" and "CHR ''/'' \<notin> set s" and "CHR '','' \<notin> set s"
  using assms
proof (cases rule: ip_wf_cases)
  case (v4 w)
  then show thesis using ntop4 [of w] that by (auto simp: ip_to_string_def IpAddress_str_def)
next
  case (v6 bs)
  then show thesis using ntop6 [of bs] that by (fastforce simp: ip_to_string_def IpAddress_str_def)
qed

lemma prefix_parse:
  assumes p: "prefix_wf p" and s: "ip_to_string I (m_ip p) = Inr s"
  shows "IpPrefix_str I (s @ CHR ''/'' # to_string_int (m_mask p)) = Inr p"
proof -
  have a: "ip_wf (m_ip p)" using p by (simp add: prefix_wf_def)
  obtain t where t: "ip_to_string I (m_ip p) = Inr t" "IpAddress_str I t = Inr (m_ip p)" "t \<noteq> []"
    "CHR ''/'' \<notin> set t" using ip_string [OF a] by metis
  have "t = s" using t(1) s by simp
  moreover have "takeWhile (\<lambda>c. c \<noteq> CHR ''/'') (t @ CHR ''/'' # u) = t" for u
    using t(4) by (simp add: takeWhile_append takeWhile_eq_all_conv)
  moreover have "stoi (to_string_int (m_mask p)) = Some (m_mask p)"
    using prefix_wf_mask [OF p] by (intro stoi_to_string) (auto split: if_splits)
  ultimately show ?thesis using t p by (cases p) (simp add: IpPrefix_str_def prefix_wf_def)
qed

lemma prefix_string_round_trip:
  assumes "prefix_wf p"
  shows "\<exists>s. prefix_to_string I p = Inr s \<and> IpPrefix_str I s = Inr p"
proof -
  obtain s where s: "ip_to_string I (m_ip p) = Inr s"
    using ip_string assms by (metis prefix_wf_def)
  then show ?thesis using prefix_parse [OF assms s] by (simp add: prefix_to_string_def)
qed

lemma getSubnet_eq:
  assumes p: "prefix_wf p"
  shows "getSubnet I p = Inr (subnet p)"
proof -
  have wf: "ip_wf (m_ip p)" using p by (simp add: prefix_wf_def)
  then show ?thesis
  proof (cases rule: ip_wf_cases)
    case (v4 w)
    then show ?thesis using p
      by (cases p) (auto simp: getSubnet_def getMask_def subnet_def net_of_def IpPrefix_u32_def
          IpAddress_u32_def getV4Addr_def prefix_wf_def prefix_isValid_def)
  next
    case (v6 bs)
    define q where "q = subnet p"
    have q: "prefix_wf q" using p by (simp add: q_def subnet_wf)
    have m: "m_ip q = \<lparr>family = AF_INET6, ip_addr = Ipv6_addr (map2 (AND) bs (v6_mask (nat (m_mask p))))\<rparr>"
      using v6 by (simp add: q_def subnet_def net_of_def)
    obtain s where s: "ip_to_string I (m_ip q) = Inr s" using ip_string q by (metis prefix_wf_def)
    then have "inet_ntop I AF_INET6 (Ipv6_addr (map2 (AND) bs (v6_mask (nat (m_mask p))))) = Some s"
      by (simp add: ip_to_string_def m split: option.splits)
    then show ?thesis
      using v6 prefix_wf_mask [OF p] prefix_parse [OF q s]
      by (auto simp: getSubnet_def getMask_def getV6Addr_def q_def isV4_def)
  qed
qed

end

end
