(* ===== verification/Ntb_Pmd.thy ===== *)
theory Ntb_Pmd
  imports Ntb_Lookup Ntb_Netio Shc_Ip
begin

text \<open>
  The packet path and the dataplane threads (\<^verbatim>\<open>zdw_agent/pmd.c\<close> with the lookups of the same copy of
  the agent; \<^verbatim>\<open>agent/pmd.c\<close> has the same text but calls the lookups of \<^verbatim>\<open>agent/route.c\<close> with too few
  arguments). A received VXLAN frame is unwrapped, its VRF, route and neighbour are looked up, and
  the values for the switch are left in \<open>key_value_info\<close>.
\<close>

subsection \<open>Packet buffers\<close>

text \<open>
  DPDK's packet buffers are a parameter: a pointer into a buffer is an address, 0 is \<^verbatim>\<open>NULL\<close>.
  Reads and writes go through addresses, so headers that were cut off stay readable.
\<close>

record 'm mbuf_api =
  rte_pktmbuf_mtod :: "'m \<Rightarrow> addr"
  rte_pktmbuf_adj :: "'m \<Rightarrow> nat \<Rightarrow> addr \<times> 'm"
  rte_pktmbuf_prepend :: "'m \<Rightarrow> nat \<Rightarrow> addr \<times> 'm"
  mbuf_read :: "'m \<Rightarrow> addr \<Rightarrow> nat \<Rightarrow> u8 list outcome"
  mbuf_write :: "'m \<Rightarrow> addr \<Rightarrow> u8 list \<Rightarrow> 'm outcome"
  set_pkt_len :: "'m \<Rightarrow> int \<Rightarrow> 'm"

definition ld_bytes :: "'m mbuf_api \<Rightarrow> 'm \<Rightarrow> addr \<Rightarrow> nat \<Rightarrow> nat \<Rightarrow> u8 list outcome" where
  "ld_bytes M m p off n = (if p = 0 then Inl NullDeref else mbuf_read M m (p + off) n)"

definition st_bytes :: "'m mbuf_api \<Rightarrow> 'm \<Rightarrow> addr \<Rightarrow> nat \<Rightarrow> u8 list \<Rightarrow> 'm outcome" where
  "st_bytes M m p off bs = (if p = 0 then Inl NullDeref else mbuf_write M m (p + off) bs)"

text \<open>Loads of 8, 16 and 32 bits on a little-endian host; the 16-bit loads are all byte-swapped.\<close>

definition ld_u8 :: "'m mbuf_api \<Rightarrow> 'm \<Rightarrow> addr \<Rightarrow> nat \<Rightarrow> u8 outcome" where
  "ld_u8 M m p off = bindR (ld_bytes M m p off 1) (\<lambda>bs. Inr (bs ! 0))"

definition ld_be16 :: "'m mbuf_api \<Rightarrow> 'm \<Rightarrow> addr \<Rightarrow> nat \<Rightarrow> u32 outcome" where
  "ld_be16 M m p off = bindR (ld_bytes M m p off 2) (\<lambda>bs. Inr (be16 (bs ! 0) (bs ! 1)))"

definition le32 :: "u8 list \<Rightarrow> u32" where
  "le32 bs = ucast (bs ! 0) OR push_bit 8 (ucast (bs ! 1)) OR push_bit 16 (ucast (bs ! 2))
     OR push_bit 24 (ucast (bs ! 3))"

definition ld_u32 :: "'m mbuf_api \<Rightarrow> 'm \<Rightarrow> addr \<Rightarrow> nat \<Rightarrow> u32 outcome" where
  "ld_u32 M m p off = bindR (ld_bytes M m p off 4) (\<lambda>bs. Inr (le32 bs))"

subsection \<open>State of the packet path\<close>

record key_value =
  kv_vrf_id :: int
  kv_vni :: u32
  kv_inner_src_ip :: u32
  kv_inner_dst_ip :: u32
  kv_next_hop :: u64
  kv_vni_encp :: u32
  kv_outer_src_mac :: "u8 list"
  kv_outer_dst_mac :: "u8 list"
  kv_outer_src_ip :: u32
  kv_outer_dst_ip :: u32
  kv_inner_src_mac :: "u8 list"
  kv_inner_dst_mac :: "u8 list"

definition outer_fake_smac :: "u8 list" where
  "outer_fake_smac = [0x11, 0x22, 0x33, 0x44, 0x55, 0x66]"

definition outer_fake_dmac :: "u8 list" where
  "outer_fake_dmac = [0x11, 0x22, 0x33, 0x44, 0x55, 0x67]"

record ntb_mbuf_metadata =
  in_tunnel_info :: ip_tunnel_info
  md_vrf_dp :: "nat option"

definition ntb_mbuf_metadata_zero :: ntb_mbuf_metadata where
  "ntb_mbuf_metadata_zero =
     \<lparr>in_tunnel_info = \<lparr>ti_family = 0, ti_type = NTB_ENCAP_INVALID, ti_u0 = 0, ti_u1 = 0, ti_u2 = 0\<rparr>,
      md_vrf_dp = None\<rparr>"

text \<open>A packet: its buffer, its metadata, and two members of \<^verbatim>\<open>rte_mbuf\<close> that the code uses.\<close>

record 'm packet =
  pk_mbuf :: 'm
  pk_md :: ntb_mbuf_metadata
  outer_l3_len :: nat
  hash_rss :: u32

text \<open>
  The globals: the result, the thread's statistics (\<open>None\<close> while \<^verbatim>\<open>cur_thr_stats\<close> is null), the
  calls of \<^verbatim>\<open>neigh_probe_xmit\<close>, which is only declared, and whether the event loop was told to stop.
\<close>

record pmd_state =
  key_value_info :: key_value
  cur_thr_stats :: "(nat \<Rightarrow> u64) option"
  probe_calls :: "(int \<times> u32) list"
  loopbreak :: bool

definition stat_inc ::
  "('t, 'b, 'f, 'h) env \<Rightarrow> string \<Rightarrow> pmd_state \<Rightarrow> pmd_state outcome" where
  "stat_inc D ev p =
     bindR (rte_assert D (swf_evt ev < PACKET_MAX)) (\<lambda>_.
     case cur_thr_stats p of None \<Rightarrow> Inl NullDeref
     | Some st \<Rightarrow> Inr (p\<lparr>cur_thr_stats := Some (SWF_EVT_STAT_INC (swf_evt ev) st)\<rparr>))"

subsection \<open>Lookups of the same copy of the agent\<close>

definition ntb_route_lookup_zdw ::
  "('t, 'b, 'f, 'h) env \<Rightarrow> nat option \<Rightarrow> u32 \<Rightarrow> ('t, 'b, 'f, 'h) agent \<Rightarrow> (int \<times> nat option) outcome" where
  "ntb_route_lookup_zdw D vrf_dp dip0 s =
     (case vrf_dp of None \<Rightarrow> Inl NullDeref
      | Some i \<Rightarrow> bindR (get_dp s i) (\<lambda>v.
          let dip = bswap32 dip0;
              next_hop = rte_fib_lookup (fib D) (dp_fib v) dip
          in Inr (0, fib_res_get D s (int next_hop))))"

text \<open>\<open>None\<close> in the result: the MAC address was not written.\<close>

definition ntb_neigh_lookup_zdw ::
  "('t, 'b, 'f, 'h) env \<Rightarrow> u32 \<Rightarrow> u32 \<Rightarrow> ('t, 'b, 'f, 'h) agent \<Rightarrow> (int \<times> u8 list option) outcome" where
  "ntb_neigh_lookup_zdw D vrfid gw s =
     (case rte_hash_lookup_data (hash D) (ol_neigh_hash_tbl s) (NeighKey vrfid gw) of
        None \<Rightarrow> Inr (- ENOENT, None)
      | Some p \<Rightarrow> bindR (load (neigh_heap s) p) (\<lambda>nhop.
          if \<not> F_arp_valid nhop then Inr (- 1, None) else Inr (0, Some (take 6 (hh nhop)))))"

subsection \<open>Encapsulation\<close>

definition ip_tunnel_inner_ether_need :: "ip_tunnel_info \<Rightarrow> bool" where
  "ip_tunnel_inner_ether_need t =
     (case ti_type t of NTB_ENCAP_VXLAN \<Rightarrow> True | NTB_ENCAP_TGRE \<Rightarrow> False | _ \<Rightarrow> False)"

text \<open>Ethernet header 14, VXLAN and UDP header 8 each, IPv4 header 20, GRE header 4 bytes.\<close>

definition ip_tunnel_encap_size :: "ip_tunnel_info \<Rightarrow> nat" where
  "ip_tunnel_encap_size t =
     (case ti_type t of NTB_ENCAP_VXLAN \<Rightarrow> 14 + 8 + 8 + 20 | NTB_ENCAP_TGRE \<Rightarrow> 4 + 20 | _ \<Rightarrow> 0)"

text \<open>
  The inner Ethernet header, built the same way for both kinds of routes. The result is \<open>False\<close>
  when the caller returns early: there is no headroom, or the neighbour is not known yet.
\<close>

definition build_inner_ether ::
  "('t, 'b, 'f, 'h) env \<Rightarrow> 'm mbuf_api \<Rightarrow> ('t, 'b, 'f, 'h) agent \<Rightarrow> nat \<Rightarrow> fib_nhop \<Rightarrow>
   'm packet \<Rightarrow> pmd_state \<Rightarrow> (bool \<times> addr \<times> 'm packet \<times> pmd_state) outcome" where
  "build_inner_ether D M s i n pkt p =
     (case rte_pktmbuf_prepend M (pk_mbuf pkt) 14 of (ethhdr, m) \<Rightarrow>
      let pkt = pkt\<lparr>pk_mbuf := m\<rparr> in
      if ethhdr = 0 then
        bindR (stat_inc D ''VXLAN_TX_MBUF_PREPARE_NOSPACE'' p) (\<lambda>p. Inr (False, ethhdr, pkt, p))
      else
        bindR (get_dp s i) (\<lambda>v.
        bindR (if nh_gateway n \<noteq> 0 then ntb_neigh_lookup_zdw D (of_int (vrf_id v)) (nh_gateway n) s
               else Inr (0, Some (ntb_def_gw_mac_get s))) (\<lambda>(ret, d_addr).
        if ret < 0 then
          bindR (stat_inc D ''OVERLAY_IP_FORWARD_NOARP'' p) (\<lambda>p.
            Inr (False, ethhdr, pkt, p\<lparr>probe_calls := probe_calls p @ [(vrf_id v, nh_gateway n)]\<rparr>))
        else
          bindR (case d_addr of None \<Rightarrow> Inr m | Some mac \<Rightarrow> st_bytes M m ethhdr 0 (take 6 mac)) (\<lambda>m.
          bindR (st_bytes M m ethhdr 6 (take 6 (ntb_fake_mac_get s))) (\<lambda>m.
            Inr (True, ethhdr, pkt\<lparr>pk_mbuf := m\<rparr>, p))))))"

definition ip_forward ::
  "('t, 'b, 'f, 'h) env \<Rightarrow> 'm mbuf_api \<Rightarrow> ('t, 'b, 'f, 'h) agent \<Rightarrow> nat \<Rightarrow> fib_res \<Rightarrow>
   'm packet \<Rightarrow> pmd_state \<Rightarrow> ('m packet \<times> pmd_state) outcome" where
  "ip_forward D M s i f_res pkt p =
     (let nhsel = fib_res_select_mpath f_res (sint (hash_rss pkt)) in
      bindR (read_at (mpath f_res) nhsel) (\<lambda>q.
      bindR (load (nhop_heap s) q) (\<lambda>n.
      let t = nh_tunnel_info n in
      if ip_tunnel_inner_ether_need t then
        bindR (build_inner_ether D M s i n pkt p) (\<lambda>(ok, ethhdr, pkt, p).
        if \<not> ok then Inr (pkt, p)
        else
          bindR (ld_bytes M (pk_mbuf pkt) ethhdr 0 6) (\<lambda>d_addr.
          bindR (ld_bytes M (pk_mbuf pkt) ethhdr 6 6) (\<lambda>s_addr.
            Inr (pkt, p\<lparr>key_value_info := (key_value_info p)
              \<lparr>kv_inner_dst_mac := d_addr, kv_inner_src_mac := s_addr,
               kv_vni_encp := bswap32 (push_bit 8 (vxlan_vni t)),
               kv_outer_src_ip := vxlan_local t, kv_outer_dst_ip := vxlan_remote t,
               kv_outer_dst_mac := outer_fake_dmac, kv_outer_src_mac := outer_fake_smac\<rparr>\<rparr>))))
      else Inr (pkt, p))))"

fun ip_forward_m ::
  "('t, 'b, 'f, 'h) env \<Rightarrow> 'm mbuf_api \<Rightarrow> ('t, 'b, 'f, 'h) agent \<Rightarrow> nat \<Rightarrow> fib_res \<Rightarrow> nat list \<Rightarrow>
   'm packet \<Rightarrow> pmd_state \<Rightarrow> ('m packet \<times> pmd_state) outcome" where
  "ip_forward_m D M s i f_res [] pkt p = Inr (pkt, p)"
| "ip_forward_m D M s i f_res (nhsel # sels) pkt p =
     bindR (read_at (mpath f_res) nhsel) (\<lambda>q.
     bindR (load (nhop_heap s) q) (\<lambda>n.
     if ip_tunnel_inner_ether_need (nh_tunnel_info n) then
       bindR (build_inner_ether D M s i n pkt p) (\<lambda>(ok, ethhdr, pkt, p).
       if \<not> ok then Inr (pkt, p) else ip_forward_m D M s i f_res sels pkt p)
     else ip_forward_m D M s i f_res sels pkt p))"

subsection \<open>Receiving\<close>

definition ol_ip_rcv ::
  "('t, 'b, 'f, 'h) env \<Rightarrow> 'm mbuf_api \<Rightarrow> ('t, 'b, 'f, 'h) agent \<Rightarrow>
   'm packet \<Rightarrow> pmd_state \<Rightarrow> ('m packet \<times> pmd_state) outcome" where
  "ol_ip_rcv D M s pkt p =
     (let vrf_dp = md_vrf_dp (pk_md pkt) in
      bindR (rte_assert D (vrf_dp \<noteq> None)) (\<lambda>_.
      let iphdr = rte_pktmbuf_mtod M (pk_mbuf pkt) in
      bindR (ld_u32 M (pk_mbuf pkt) iphdr 16) (\<lambda>dst_addr.
      bindR (ntb_route_lookup_zdw D vrf_dp dst_addr s) (\<lambda>(ret, fr).
      if ret \<noteq> 0 then Inr (pkt, p)
      else
        bindR (load_res s fr) (\<lambda>f_res.
        if fib_res_is_reject f_res then Inr (pkt, p)
        else
          (case vrf_dp of None \<Rightarrow> Inl NullDeref
           | Some i \<Rightarrow>
               if fib_res_is_mroute f_res
               then ip_forward_m D M s i f_res [0..<unat (mpath_cnt f_res)] pkt p
               else ip_forward D M s i f_res pkt p))))))"

definition ol_ether_rcv ::
  "('t, 'b, 'f, 'h) env \<Rightarrow> 'm mbuf_api \<Rightarrow> ('t, 'b, 'f, 'h) agent \<Rightarrow>
   'm packet \<Rightarrow> pmd_state \<Rightarrow> ('m packet \<times> pmd_state) outcome" where
  "ol_ether_rcv D M s pkt p =
     ol_ip_rcv D M s (pkt\<lparr>pk_mbuf := snd (rte_pktmbuf_adj M (pk_mbuf pkt) 14)\<rparr>) p"

definition RTE_ETHER_TYPE_IPV4 :: u32 where "RTE_ETHER_TYPE_IPV4 = 0x0800"

definition overlay_pkt_rcv ::
  "('t, 'b, 'f, 'h) env \<Rightarrow> 'm mbuf_api \<Rightarrow> ('t, 'b, 'f, 'h) agent \<Rightarrow>
   'm packet \<Rightarrow> pmd_state \<Rightarrow> ('m packet \<times> pmd_state) outcome" where
  "overlay_pkt_rcv D M s pkt p =
     bindR (ld_be16 M (pk_mbuf pkt) (rte_pktmbuf_mtod M (pk_mbuf pkt)) 12) (\<lambda>ether_type.
     if ether_type = RTE_ETHER_TYPE_IPV4 then ol_ether_rcv D M s pkt p else Inr (pkt, p))"

definition RTE_VXLAN_DEFAULT_PORT :: u32 where "RTE_VXLAN_DEFAULT_PORT = 4789"

definition vxlan_tunnel_rcv ::
  "('t, 'b, 'f, 'h) env \<Rightarrow> 'm mbuf_api \<Rightarrow> ('t, 'b, 'f, 'h) agent \<Rightarrow>
   'm packet \<Rightarrow> pmd_state \<Rightarrow> ('m packet \<times> pmd_state) outcome" where
  "vxlan_tunnel_rcv D M s pkt p =
     (let iphdr = rte_pktmbuf_mtod M (pk_mbuf pkt) in
      bindR (ld_u8 M (pk_mbuf pkt) iphdr 0) (\<lambda>version_ihl.
      let l3 = 4 * unat (version_ihl AND 0xf); pkt = pkt\<lparr>outer_l3_len := l3\<rparr> in
      case rte_pktmbuf_adj M (pk_mbuf pkt) l3 of (udphdr, m1) \<Rightarrow>
      bindR (ld_be16 M m1 udphdr 2) (\<lambda>dst_port.
      if dst_port \<noteq> RTE_VXLAN_DEFAULT_PORT then Inr (pkt\<lparr>pk_mbuf := m1\<rparr>, p)
      else
        case rte_pktmbuf_adj M m1 8 of (vxlanhdr, m2) \<Rightarrow>
        bindR (ld_u32 M m2 vxlanhdr 4) (\<lambda>vx_vni.
        let vni = drop_bit 8 (bswap32 vx_vni) in
        bindR (ntb_tunnel_map_vrf_lookup_bak D NTB_TUNNEL_VXLAN vni s) (\<lambda>vrf_dp.
        if vrf_dp = None then Inr (pkt\<lparr>pk_mbuf := m2\<rparr>, p)
        else
          bindR (ld_u32 M m2 iphdr 16) (\<lambda>dst_addr.
          bindR (ld_u32 M m2 iphdr 12) (\<lambda>src_addr.
          bindR (ld_u8 M m2 iphdr 1) (\<lambda>type_of_service.
          let md = \<lparr>in_tunnel_info = (in_tunnel_info (pk_md pkt))
                \<lparr>ti_type := NTB_ENCAP_VXLAN, ti_u0 := dst_addr, ti_u1 := src_addr,
                 ti_u2 := take_bit 24 vni OR push_bit 24 (ucast (drop_bit 2 type_of_service))\<rparr>,
                md_vrf_dp = vrf_dp\<rparr>;
              m3 = snd (rte_pktmbuf_adj M m2 8)
          in overlay_pkt_rcv D M s (pkt\<lparr>pk_mbuf := m3, pk_md := md\<rparr>) p))))))))"

definition tunnel_rcv ::
  "('t, 'b, 'f, 'h) env \<Rightarrow> 'm mbuf_api \<Rightarrow> ('t, 'b, 'f, 'h) agent \<Rightarrow>
   'm packet \<Rightarrow> pmd_state \<Rightarrow> ('m packet \<times> pmd_state) outcome" where
  "tunnel_rcv D M s pkt p =
     (let iphdr = rte_pktmbuf_mtod M (pk_mbuf pkt) in
      bindR (ld_u8 M (pk_mbuf pkt) iphdr 0) (\<lambda>version_ihl.
      let pkt = pkt\<lparr>outer_l3_len := 4 * unat (version_ihl AND 0xf)\<rparr> in
      bindR (ld_u8 M (pk_mbuf pkt) iphdr 9) (\<lambda>next_proto_id.
      if ucast next_proto_id = IPPROTO_UDP then vxlan_tunnel_rcv D M s pkt p else Inr (pkt, p))))"

text \<open>
  One read event. \<open>alloc\<close> is the buffer that the pool hands out, with whatever it held before;
  \<open>recv\<close> fills it and gives the number of bytes. A failed receive stops the event loop but goes on
  with the packet. A lock that is not free is waited for, which does not return here.
\<close>

definition netio_rx ::
  "('t, 'b, 'f, 'h) env \<Rightarrow> 'm mbuf_api \<Rightarrow> 'l rwlock_api \<Rightarrow> 'm packet option \<Rightarrow> ('m \<Rightarrow> int \<times> 'm) \<Rightarrow>
   ntb_pmd_ctx \<Rightarrow> ('t, 'b, 'f, 'h) agent \<Rightarrow> 'l \<Rightarrow> pmd_state \<Rightarrow> ('l \<times> pmd_state) outcome" where
  "netio_rx D M L alloc recv ctx s lock p =
     (case alloc of None \<Rightarrow> Inr (lock, p)
      | Some mbuf \<Rightarrow>
          (case recv (pk_mbuf mbuf) of (nbytes, m) \<Rightarrow>
           let mbuf = mbuf\<lparr>pk_md := ntb_mbuf_metadata_zero, pk_mbuf := set_pkt_len M m nbytes\<rparr>;
               p = (if nbytes < 0 then p\<lparr>loopbreak := True\<rparr> else p)
           in if \<not> dp_locker ctx then Inl NullDeref
           else case rte_rwlock_read_lock L lock of None \<Rightarrow> Inl Deadlock
           | Some lock \<Rightarrow>
               bindR (tunnel_rcv D M s mbuf p) (\<lambda>(mbuf, p).
               case rte_rwlock_read_unlock L lock of None \<Rightarrow> Inl Deadlock
               | Some lock \<Rightarrow> Inr (lock, p))))"

subsection \<open>Threads\<close>

definition NTB_PMD_THR_MAX :: nat where "NTB_PMD_THR_MAX = 8"

datatype pmd_thr_stat = PTS_INIT | PTS_RUNNING | PTS_IDEL

text \<open>\<^verbatim>\<open>ntb_pmd_ctxs\<close> is a list of \<open>NTB_PMD_THR_MAX\<close> slots.\<close>

fun ntb_pmd_thread_walk ::
  "(ntb_pmd_ctx \<Rightarrow> 's \<Rightarrow> (int \<times> 's) outcome) \<Rightarrow> ntb_pmd_ctx option list \<Rightarrow> 's \<Rightarrow> (int \<times> 's) outcome" where
  "ntb_pmd_thread_walk cb [] s = Inr (0, s)"
| "ntb_pmd_thread_walk cb (None # cs) s = ntb_pmd_thread_walk cb cs s"
| "ntb_pmd_thread_walk cb (Some c # cs) s =
     bindR (cb c s) (\<lambda>(r, s). if r < 0 then Inr (0, s) else ntb_pmd_thread_walk cb cs s)"

fun free_pid :: "ntb_pmd_ctx option list \<Rightarrow> nat" where
  "free_pid [] = 0"
| "free_pid (None # cs) = 0"
| "free_pid (Some c # cs) = Suc (free_pid cs)"

definition ntb_pmd_ctx_create ::
  "bool \<Rightarrow> ntb_pmd_ctx option list \<Rightarrow> ntb_pmd_ctx option \<times> ntb_pmd_ctx option list" where
  "ntb_pmd_ctx_create calloc_ok ctxs =
     (let i = free_pid ctxs in
      if i \<ge> length ctxs then (None, ctxs)
      else if \<not> calloc_ok then (None, ctxs)
      else let pmd_ctx = ntb_pmd_ctx_zero\<lparr>pid := int i\<rparr> in (Some pmd_ctx, ctxs[i := Some pmd_ctx]))"

definition ntb_dp_mbuf_init ::
  "('t, 'b, 'f, 'h) env \<Rightarrow> addr \<Rightarrow> ntb_pmd_ctx \<Rightarrow> (int \<times> ntb_pmd_ctx) outcome" where
  "ntb_dp_mbuf_init D mbuf_pool ctx =
     bindR (rte_assert D (mbuf_pool \<noteq> 0)) (\<lambda>_. Inr (0, ctx\<lparr>ctx_mp := mbuf_pool\<rparr>))"

definition ntb_dp_mbuf_deinit :: "ntb_pmd_ctx \<Rightarrow> int" where
  "ntb_dp_mbuf_deinit ctx = 0"

text \<open>The arguments of the EAL; the memory size is printed into 16 bytes.\<close>

definition eal_args :: "string \<Rightarrow> string list" where
  "eal_args msz = [''swf'', ''--no-huge'', ''-m'', msz, ''--syslog'', ''syslog'']"

definition ntb_dp_eal_init ::
  "(string list \<Rightarrow> int) \<Rightarrow> ntb_pmd_ctx \<Rightarrow> int outcome" where
  "ntb_dp_eal_init rte_eal_init ctx =
     (let msz = (if msize ctx \<noteq> 0 then take 15 (to_string_int (sint (msize ctx))) else ''2048'') in
      if pid ctx \<noteq> 0 then Inr 0
      else if rte_eal_init (eal_args msz) < 0 then Inl ProcessExit
      else Inr 0)"

text \<open>\<^verbatim>\<open>rte_eal_cleanup\<close> is the parameter \<open>cleanup\<close>.\<close>

definition ntb_dp_eal_deinit :: "int \<Rightarrow> ntb_pmd_ctx \<Rightarrow> int" where
  "ntb_dp_eal_deinit cleanup ctx = cleanup"

record dp_params =
  dp_eal_init :: "string list \<Rightarrow> int"
  dp_eal_cleanup :: int
  dp_mbuf_pool :: addr
  dp_os :: os

definition ntb_dp_init ::
  "('t, 'b, 'f, 'h) env \<Rightarrow> dp_params \<Rightarrow> ntb_pmd_ctx \<Rightarrow> net_log \<Rightarrow> ('t, 'b, 'f, 'h) agent \<Rightarrow>
   (int \<times> ntb_pmd_ctx \<times> net_log \<times> ('t, 'b, 'f, 'h) agent) outcome" where
  "ntb_dp_init D P ctx log s =
     bindR (ntb_dp_eal_init (dp_eal_init P) ctx) (\<lambda>r.
     if r < 0 then Inl ProcessExit else
     bindR (ntb_dp_mbuf_init D (dp_mbuf_pool P) ctx) (\<lambda>(r, ctx).
     if r < 0 then Inl ProcessExit else
     bindR (tables_init D s) (\<lambda>(r, s).
     bindR (ntb_netio_init D (dp_os P) ctx log) (\<lambda>(r, ctx, log).
     if r < 0 then Inl ProcessExit else Inr (0, ctx, log, s)))))"

definition ntb_dp_deinit :: "dp_params \<Rightarrow> ntb_pmd_ctx \<Rightarrow> ('t, 'b, 'f, 'h) agent \<Rightarrow> int outcome" where
  "ntb_dp_deinit P ctx s =
     (if ntb_netio_deinit ctx < 0 then Inl ProcessExit
      else if ntb_neigh_deinit < 0 then Inl ProcessExit
      else if ntb_tunnel_map_vrf_deinit < 0 then Inl ProcessExit
      else if ntb_vrf_deinit < 0 then Inl ProcessExit
      else if ntb_dp_mbuf_deinit ctx < 0 then Inl ProcessExit
      else if ntb_dp_eal_deinit (dp_eal_cleanup P) ctx < 0 then Inl ProcessExit
      else Inr 0)"

record ('t, 'b, 'f, 'h) pmd_proc =
  ntb_pmd_ctxs :: "ntb_pmd_ctx option list"
  ntb_pmd_thr_stat :: pmd_thr_stat
  proc_log :: net_log
  proc_agent :: "('t, 'b, 'f, 'h) agent"

definition ntb_pmd_thr_stat_set ::
  "pmd_thr_stat \<Rightarrow> ('t, 'b, 'f, 'h) pmd_proc \<Rightarrow> ('t, 'b, 'f, 'h) pmd_proc" where
  "ntb_pmd_thr_stat_set st q = q\<lparr>ntb_pmd_thr_stat := st\<rparr>"

text \<open>
  The thread: \<open>prepare\<close> and \<open>post\<close> are the optional callbacks of its arguments, \<open>serve\<close> is what the
  event loop does until it returns.
\<close>

definition ntb_pmd_thread ::
  "('t, 'b, 'f, 'h) env \<Rightarrow> dp_params \<Rightarrow> bool \<Rightarrow>
   (('t, 'b, 'f, 'h) pmd_proc \<Rightarrow> ('t, 'b, 'f, 'h) pmd_proc) option \<Rightarrow>
   (('t, 'b, 'f, 'h) pmd_proc \<Rightarrow> ('t, 'b, 'f, 'h) pmd_proc) option \<Rightarrow>
   (ntb_pmd_ctx \<Rightarrow> ('t, 'b, 'f, 'h) pmd_proc \<Rightarrow> ('t, 'b, 'f, 'h) pmd_proc outcome) \<Rightarrow>
   ('t, 'b, 'f, 'h) pmd_proc \<Rightarrow> ('t, 'b, 'f, 'h) pmd_proc outcome" where
  "ntb_pmd_thread D P calloc_ok prepare post serve q =
     (case ntb_pmd_ctx_create calloc_ok (ntb_pmd_ctxs q) of (None, ctxs) \<Rightarrow> Inl ProcessExit
      | (Some ctx, ctxs) \<Rightarrow>
          let ctx = ctx\<lparr>ctx_netio_rx := True\<rparr> in
          bindR (ntb_dp_init D P ctx (proc_log q) (proc_agent q)) (\<lambda>(r, ctx, log, s).
          if r < 0 then Inl ProcessExit
          else
            let q = q\<lparr>ntb_pmd_ctxs := ctxs[nat (pid ctx) := Some ctx], proc_log := log, proc_agent := s\<rparr>;
                q = ntb_pmd_thr_stat_set PTS_RUNNING q;
                q = (case prepare of None \<Rightarrow> q | Some f \<Rightarrow> f q);
                q = q\<lparr>proc_log := snd (ntb_netio_run (dp_os P) ctx (proc_log q))\<rparr>
            in bindR (serve ctx q) (\<lambda>q.
               bindR (ntb_dp_deinit P ctx (proc_agent q)) (\<lambda>_.
                 Inr (case post of None \<Rightarrow> q | Some f \<Rightarrow> f q)))))"

definition ntb_api_ntb_pmd_thread_ready_get :: "('t, 'b, 'f, 'h) pmd_proc \<Rightarrow> bool" where
  "ntb_api_ntb_pmd_thread_ready_get q \<longleftrightarrow> ntb_pmd_thr_stat q = PTS_RUNNING"

end
