(* ===== verification/Ntb_Pmd_Path.thy ===== *)
theory Ntb_Pmd_Path
  imports Ntb_Pmd
begin

text \<open>
  The contract of the packet buffers, the packet path step by step under it, and its lookups on
  consistent tables.
\<close>

subsection \<open>Fields of a frame\<close>

text \<open>A frame as the socket delivers it, from its outer IPv4 header on.\<close>

definition frame_vni :: "u8 list \<Rightarrow> u32" where
  "frame_vni f = drop_bit 8 (bswap32 (le32 (take 4 (drop (ip_hlen f + 12) f))))"

definition frame_ether_type :: "u8 list \<Rightarrow> u32" where
  "frame_ether_type f = be16 (f ! (ip_hlen f + 28)) (f ! (ip_hlen f + 29))"

definition frame_inner_dst :: "u8 list \<Rightarrow> u32" where
  "frame_inner_dst f = le32 (take 4 (drop (ip_hlen f + 46) f))"

definition frame_md :: "u8 list \<Rightarrow> ntb_mbuf_metadata \<Rightarrow> nat option \<Rightarrow> ntb_mbuf_metadata" where
  "frame_md f md vrf = \<lparr>in_tunnel_info = (in_tunnel_info md)
     \<lparr>ti_type := NTB_ENCAP_VXLAN, ti_u0 := le32 (take 4 (drop 16 f)), ti_u1 := le32 (take 4 (drop 12 f)),
      ti_u2 := take_bit 24 (frame_vni f) OR push_bit 24 (ucast (drop_bit 2 (f ! 1)))\<rparr>, md_vrf_dp = vrf\<rparr>"

text \<open>Long enough for all headers that the packet path reads.\<close>

definition frame_complete :: "u8 list \<Rightarrow> bool" where
  "frame_complete f \<longleftrightarrow> 20 \<le> ip_hlen f \<and> ip_hlen f + 50 \<le> length f"

lemma frame_complete_inner: "frame_complete f \<Longrightarrow> 20 \<le> length f - (ip_hlen f + 30)"
  unfolding frame_complete_def by linarith

subsection \<open>The contract of the packet buffers\<close>

text \<open>
  \<open>ok\<close> is a buffer whose lengths are consistent, \<open>dat\<close> its data and \<open>room\<close> its headroom. A pointer to
  the start of the data plus an offset inside the data can be read and written; cutting bytes off
  changes no memory and turns them into headroom.
\<close>

locale rte_mbuf =
  fixes M :: "'m mbuf_api" and ok :: "'m \<Rightarrow> bool" and dat :: "'m \<Rightarrow> u8 list" and room :: "'m \<Rightarrow> nat"
  assumes mtod_nz: "ok m \<Longrightarrow> rte_pktmbuf_mtod M m \<noteq> 0"
    and read_data: "ok m \<Longrightarrow> i + n \<le> length (dat m) \<Longrightarrow>
      mbuf_read M m (rte_pktmbuf_mtod M m + i) n = Inr (take n (drop i (dat m)))"
    and adj_ok: "ok m \<Longrightarrow> n \<le> length (dat m) \<Longrightarrow> rte_pktmbuf_adj M m n = (a, m') \<Longrightarrow>
      a = rte_pktmbuf_mtod M m + n \<and> ok m' \<and> rte_pktmbuf_mtod M m' = rte_pktmbuf_mtod M m + n \<and>
      dat m' = drop n (dat m) \<and> room m' = room m + n \<and> mbuf_read M m' = mbuf_read M m"
    and adj_short: "ok m \<Longrightarrow> length (dat m) < n \<Longrightarrow> rte_pktmbuf_adj M m n = (0, m)"
    and prepend_ok: "ok m \<Longrightarrow> n \<le> room m \<Longrightarrow> rte_pktmbuf_prepend M m n = (a, m') \<Longrightarrow>
      a \<noteq> 0 \<and> ok m' \<and> rte_pktmbuf_mtod M m' = a \<and> (\<exists>xs. length xs = n \<and> dat m' = xs @ dat m)"
    and prepend_full: "ok m \<Longrightarrow> room m < n \<Longrightarrow> rte_pktmbuf_prepend M m n = (0, m)"
    and write_data: "ok m \<Longrightarrow> i + length bs \<le> length (dat m) \<Longrightarrow>
      mbuf_write M m (rte_pktmbuf_mtod M m + i) bs = Inr m' \<Longrightarrow>
      ok m' \<and> rte_pktmbuf_mtod M m' = rte_pktmbuf_mtod M m \<and> dat m' = put_bytes i bs (dat m)"
    and write_in: "ok m \<Longrightarrow> i + length bs \<le> length (dat m) \<Longrightarrow>
      \<exists>m'. mbuf_write M m (rte_pktmbuf_mtod M m + i) bs = Inr m'"
begin

lemma ld_bytes_data:
  "ok m \<Longrightarrow> i + n \<le> length (dat m) \<Longrightarrow>
    ld_bytes M m (rte_pktmbuf_mtod M m) i n = Inr (take n (drop i (dat m)))"
  by (simp add: ld_bytes_def mtod_nz read_data)

lemma ld_u8_data:
  "ok m \<Longrightarrow> i < length (dat m) \<Longrightarrow> ld_u8 M m (rte_pktmbuf_mtod M m) i = Inr (dat m ! i)"
  by (simp add: ld_u8_def ld_bytes_data)

lemma ld_be16_data:
  "ok m \<Longrightarrow> Suc i < length (dat m) \<Longrightarrow>
    ld_be16 M m (rte_pktmbuf_mtod M m) i = Inr (be16 (dat m ! i) (dat m ! Suc i))"
  by (simp add: ld_be16_def ld_bytes_data nth_drop)

lemma ld_u32_data:
  "ok m \<Longrightarrow> i + 4 \<le> length (dat m) \<Longrightarrow>
    ld_u32 M m (rte_pktmbuf_mtod M m) i = Inr (le32 (take 4 (drop i (dat m))))"
  by (simp add: ld_u32_def ld_bytes_data)

text \<open>Headers that were cut off stay readable through the old pointer.\<close>

lemma ld_old:
  assumes "mbuf_read M m' = mbuf_read M m"
  shows "ld_bytes M m' = ld_bytes M m" and "ld_u8 M m' = ld_u8 M m" and "ld_u32 M m' = ld_u32 M m"
    and "ld_be16 M m' = ld_be16 M m"
  using assms by (simp_all add: ld_bytes_def ld_u8_def ld_u32_def ld_be16_def fun_eq_iff)

definition cut :: "'m \<Rightarrow> nat \<Rightarrow> 'm" where
  "cut m n = snd (rte_pktmbuf_adj M m n)"

lemma cut:
  assumes "ok m" and "n \<le> length (dat m)"
  shows "rte_pktmbuf_adj M m n = (rte_pktmbuf_mtod M (cut m n), cut m n)" and "ok (cut m n)"
    and "dat (cut m n) = drop n (dat m)" and "room (cut m n) = room m + n"
    and "mbuf_read M (cut m n) = mbuf_read M m"
  using adj_ok [OF assms] by (cases "rte_pktmbuf_adj M m n"; simp add: cut_def)+

lemma st_bytes_ex:
  assumes "ok m" and "i + length bs \<le> length (dat m)"
  shows "\<exists>m'. st_bytes M m (rte_pktmbuf_mtod M m) i bs = Inr m' \<and> ok m' \<and>
    rte_pktmbuf_mtod M m' = rte_pktmbuf_mtod M m \<and> dat m' = put_bytes i bs (dat m)"
  using write_in [OF assms] write_data [OF assms] mtod_nz [OF assms(1)] by (auto simp: st_bytes_def)

subsection \<open>Unwrapping\<close>

lemma tunnel_rcv_proto:
  assumes m: "ok (pk_mbuf pkt)" and f: "dat (pk_mbuf pkt) = f" and len: "9 < length f"
  shows "tunnel_rcv D M s pkt p =
    (if ip_proto f = 17 then vxlan_tunnel_rcv D M s (pkt\<lparr>outer_l3_len := ip_hlen f\<rparr>) p
     else Inr (pkt\<lparr>outer_l3_len := ip_hlen f\<rparr>, p))"
proof -
  have "(ucast (f ! 9) :: u32) = IPPROTO_UDP \<longleftrightarrow> ip_proto f = 17"
    by (simp add: IPPROTO_UDP_def ip_proto_def word_unat_eq_iff unat_ucast_u32)
  moreover have "f \<noteq> []" using len by auto
  ultimately show ?thesis
    using m f len by (simp add: tunnel_rcv_def ld_u8_data ip_hlen_def)
qed

text \<open>The filter lets a UDP header of 4 to 7 bytes through; the VXLAN header is then taken at a null pointer.\<close>

lemma vxlan_rcv_short:
  assumes m: "ok (pk_mbuf pkt)" and f: "dat (pk_mbuf pkt) = f"
    and v: "vxlan_frame f" and short: "length f < ip_hlen f + 8"
  shows "vxlan_tunnel_rcv D M s pkt p = Inl NullDeref"
proof -
  let ?m = "pk_mbuf pkt"
  let ?h = "ip_hlen f"
  have len: "?h + 3 < length f" "f \<noteq> []" using v by (auto simp: vxlan_frame_def)
  then have "?h \<le> length (dat ?m)" using f by simp
  note m1 = cut [OF m this, unfolded f]
  have port: "ld_be16 M (cut ?m ?h) (rte_pktmbuf_mtod M (cut ?m ?h)) 2 = Inr (udp_dport f)"
    using ld_be16_data [OF m1(2), of 2] m1(3) len by (simp add: udp_dport_def)
  have null: "rte_pktmbuf_adj M (cut ?m ?h) 8 = (0, cut ?m ?h)"
    using m1(2,3) short by (intro adj_short) auto
  have ihl: "ld_u8 M ?m (rte_pktmbuf_mtod M ?m) 0 = Inr (f ! 0)" using m f len by (simp add: ld_u8_data)
  have "udp_dport f = RTE_VXLAN_DEFAULT_PORT"
    using v by (simp add: vxlan_frame_def RTE_VXLAN_DEFAULT_PORT_def)
  then show ?thesis
    using ihl m1(1) port null
    by (simp add: vxlan_tunnel_rcv_def Let_def ip_hlen_def ld_u32_def ld_bytes_def)
qed

text \<open>The buffer of the inner packet, after all headers of a complete frame are cut off.\<close>

definition inner :: "'m \<Rightarrow> 'm" where
  "inner m = cut (cut (cut (cut m (ip_hlen (dat m))) 8) 8) 14"

lemma cuts:
  assumes m: "ok m" and c: "frame_complete (dat m)"
  defines "h \<equiv> ip_hlen (dat m)"
  defines "m1 \<equiv> cut m h"
  defines "m2 \<equiv> cut m1 8"
  defines "m3 \<equiv> cut m2 8"
  shows "rte_pktmbuf_adj M m h = (rte_pktmbuf_mtod M m1, m1)"
    and "rte_pktmbuf_adj M m1 8 = (rte_pktmbuf_mtod M m2, m2)" and "rte_pktmbuf_adj M m2 8 = (rte_pktmbuf_mtod M m3, m3)"
    and "rte_pktmbuf_adj M m3 14 = (rte_pktmbuf_mtod M (inner m), inner m)"
    and "ok m1" and "ok m2" and "ok m3" and "ok (inner m)" and "dat m1 = drop h (dat m)"
    and "dat m2 = drop (h + 8) (dat m)" and "dat m3 = drop (h + 16) (dat m)"
    and "dat (inner m) = drop (h + 30) (dat m)" and "mbuf_read M m2 = mbuf_read M m" and "14 \<le> room (inner m)"
proof -
  have len: "h + 50 \<le> length (dat m)" using c by (simp add: frame_complete_def h_def)
  have "h \<le> length (dat m)" using len by simp
  note m1 = cut [OF m this, folded m1_def]
  have "8 \<le> length (dat m1)" using m1(3) len by simp
  note m2 = cut [OF m1(2) this, folded m2_def]
  have "8 \<le> length (dat m2)" using m2(3) m1(3) len by simp
  note m3 = cut [OF m2(2) this, folded m3_def]
  have "14 \<le> length (dat m3)" using m3(3) m2(3) m1(3) len by simp
  note m4 = cut [OF m3(2) this]
  have i: "inner m = cut m3 14" by (simp add: inner_def m3_def m2_def m1_def h_def)
  show "rte_pktmbuf_adj M m h = (rte_pktmbuf_mtod M m1, m1)" "rte_pktmbuf_adj M m1 8 = (rte_pktmbuf_mtod M m2, m2)"
    "rte_pktmbuf_adj M m2 8 = (rte_pktmbuf_mtod M m3, m3)" "ok m1" "ok m2" "ok m3" "dat m1 = drop h (dat m)"
    by (fact m1 m2 m3)+
  show "rte_pktmbuf_adj M m3 14 = (rte_pktmbuf_mtod M (inner m), inner m)" "ok (inner m)" "14 \<le> room (inner m)"
    using m4 by (simp_all add: i)
  show "dat m2 = drop (h + 8) (dat m)" "dat m3 = drop (h + 16) (dat m)" "dat (inner m) = drop (h + 30) (dat m)"
    using m1(3) m2(3) m3(3) m4(3) by (simp_all add: i add.commute)
  show "mbuf_read M m2 = mbuf_read M m" using m1(5) m2(5) by simp
qed

text \<open>All headers together: what a complete frame comes down to.\<close>

lemma tunnel_rcv_complete:
  assumes m: "ok (pk_mbuf pkt)" and f: "dat (pk_mbuf pkt) = f" and c: "frame_complete f"
  shows "\<exists>Q. tunnel_rcv D M s pkt p =
     (if ip_proto f = 17 \<and> udp_dport f = 4789 then
        bindR (ntb_tunnel_map_vrf_lookup_bak D NTB_TUNNEL_VXLAN (frame_vni f) s) (\<lambda>v.
          if v \<noteq> None \<and> frame_ether_type f = RTE_ETHER_TYPE_IPV4 then
            ol_ip_rcv D M s (pkt\<lparr>outer_l3_len := ip_hlen f, pk_md := frame_md f (pk_md pkt) v,
              pk_mbuf := inner (pk_mbuf pkt)\<rparr>) p
          else Inr (Q v, p))
      else Inr (Q None, p))"
proof -
  let ?m = "pk_mbuf pkt"
  let ?h = "ip_hlen f"
  have len: "20 \<le> ?h" "?h + 50 \<le> length f" using c by (simp_all add: frame_complete_def)
  have ne: "f \<noteq> []" "9 < length f" using len by auto
  have "frame_complete (dat ?m)" using c f by simp
  note cs = cuts [OF m this, unfolded f]
  have ihl: "ld_u8 M ?m (rte_pktmbuf_mtod M ?m) 0 = Inr (f ! 0)" using m f ne by (simp add: ld_u8_data)
  have port: "ld_be16 M (cut ?m ?h) (rte_pktmbuf_mtod M (cut ?m ?h)) 2 = Inr (udp_dport f)"
    using ld_be16_data [OF cs(5), of 2] cs(9) len by (simp add: udp_dport_def)
  have vni: "ld_u32 M (cut (cut ?m ?h) 8) (rte_pktmbuf_mtod M (cut (cut ?m ?h) 8)) 4 =
      Inr (le32 (take 4 (drop (?h + 12) f)))"
    using ld_u32_data [OF cs(6), of 4] cs(10) len by (simp add: add.commute)
  have old: "ld_u32 M (cut (cut ?m ?h) 8) (rte_pktmbuf_mtod M ?m) 16 = Inr (le32 (take 4 (drop 16 f)))"
    "ld_u32 M (cut (cut ?m ?h) 8) (rte_pktmbuf_mtod M ?m) 12 = Inr (le32 (take 4 (drop 12 f)))"
    "ld_u8 M (cut (cut ?m ?h) 8) (rte_pktmbuf_mtod M ?m) 1 = Inr (f ! 1)"
    using ld_old [OF cs(13)] m f len by (simp_all add: ld_u32_data ld_u8_data)
  have et: "ld_be16 M (cut (cut (cut ?m ?h) 8) 8) (rte_pktmbuf_mtod M (cut (cut (cut ?m ?h) 8) 8)) 12 =
      Inr (frame_ether_type f)"
    using ld_be16_data [OF cs(7), of 12] cs(11) len by (simp add: frame_ether_type_def add.commute)
  define Q where "Q = (\<lambda>v. if ip_proto f \<noteq> 17 then pkt\<lparr>outer_l3_len := ?h\<rparr>
    else if udp_dport f \<noteq> 4789 then pkt\<lparr>outer_l3_len := ?h, pk_mbuf := cut ?m ?h\<rparr>
    else if v = None then pkt\<lparr>outer_l3_len := ?h, pk_mbuf := cut (cut ?m ?h) 8\<rparr>
    else pkt\<lparr>outer_l3_len := ?h, pk_mbuf := cut (cut (cut ?m ?h) 8) 8, pk_md := frame_md f (pk_md pkt) v\<rparr>)"
  have over: "overlay_pkt_rcv D M s (pkt\<lparr>outer_l3_len := ?h, pk_mbuf := cut (cut (cut ?m ?h) 8) 8,
        pk_md := frame_md f (pk_md pkt) v\<rparr>) p =
      (if frame_ether_type f = RTE_ETHER_TYPE_IPV4 then ol_ip_rcv D M s (pkt\<lparr>outer_l3_len := ?h,
         pk_md := frame_md f (pk_md pkt) v, pk_mbuf := inner ?m\<rparr>) p
       else Inr (pkt\<lparr>outer_l3_len := ?h, pk_mbuf := cut (cut (cut ?m ?h) 8) 8,
         pk_md := frame_md f (pk_md pkt) v\<rparr>, p))" for v
    using et cs(4) by (simp add: overlay_pkt_rcv_def ol_ether_rcv_def)
  have "vxlan_tunnel_rcv D M s (pkt\<lparr>outer_l3_len := ?h\<rparr>) p =
      (if udp_dport f \<noteq> 4789 then Inr (pkt\<lparr>outer_l3_len := ?h, pk_mbuf := cut ?m ?h\<rparr>, p)
       else bindR (ntb_tunnel_map_vrf_lookup_bak D NTB_TUNNEL_VXLAN (frame_vni f) s) (\<lambda>v.
         if v = None then Inr (pkt\<lparr>outer_l3_len := ?h, pk_mbuf := cut (cut ?m ?h) 8\<rparr>, p)
         else overlay_pkt_rcv D M s (pkt\<lparr>outer_l3_len := ?h, pk_mbuf := cut (cut (cut ?m ?h) 8) 8,
           pk_md := frame_md f (pk_md pkt) v\<rparr>) p))"
    using ihl cs(1,2,3) port vni old
    by (simp add: vxlan_tunnel_rcv_def Let_def ip_hlen_def RTE_VXLAN_DEFAULT_PORT_def frame_vni_def
        frame_md_def cong: if_cong)
  then have "tunnel_rcv D M s pkt p =
     (if ip_proto f = 17 \<and> udp_dport f = 4789 then
        bindR (ntb_tunnel_map_vrf_lookup_bak D NTB_TUNNEL_VXLAN (frame_vni f) s) (\<lambda>v.
          if v \<noteq> None \<and> frame_ether_type f = RTE_ETHER_TYPE_IPV4 then
            ol_ip_rcv D M s (pkt\<lparr>outer_l3_len := ip_hlen f, pk_md := frame_md f (pk_md pkt) v,
              pk_mbuf := inner (pk_mbuf pkt)\<rparr>) p
          else Inr (Q v, p))
      else Inr (Q None, p))"
    using tunnel_rcv_proto [OF m f ne(2), of D s p]
    by (auto simp: over Q_def intro!: arg_cong [where f = "bindR _"] ext)
  then show ?thesis by (rule exI [where x = Q])
qed

text \<open>The inner Ethernet header, when the address of the next hop is known.\<close>

lemma build_known:
  assumes m: "ok (pk_mbuf pkt)" and room: "14 \<le> room (pk_mbuf pkt)" and v: "get_dp s i = Inr v"
    and mac: "(if nh_gateway n \<noteq> 0 then ntb_neigh_lookup_zdw D (of_int (vrf_id v)) (nh_gateway n) s
               else Inr (0, Some (ntb_def_gw_mac_get s))) = Inr (0, Some mac)"
  shows "\<exists>m' xs. build_inner_ether D M s i n pkt p = Inr (True, rte_pktmbuf_mtod M m', pkt\<lparr>pk_mbuf := m'\<rparr>, p) \<and>
    ok m' \<and> 14 \<le> length xs \<and> dat m' = put_bytes 6 (take 6 (fake_mac s)) (put_bytes 0 (take 6 mac) xs)"
proof -
  obtain a m1 where pre: "rte_pktmbuf_prepend M (pk_mbuf pkt) 14 = (a, m1)" by force
  obtain xs where m1: "a \<noteq> 0" "ok m1" "rte_pktmbuf_mtod M m1 = a" "length xs = 14" "dat m1 = xs @ dat (pk_mbuf pkt)"
    using prepend_ok [OF m room pre] by blast
  have l0: "0 + length (take 6 mac) \<le> length (dat m1)" using m1(4,5) by simp
  obtain m2 where m2: "st_bytes M m1 (rte_pktmbuf_mtod M m1) 0 (take 6 mac) = Inr m2" "ok m2"
    "rte_pktmbuf_mtod M m2 = rte_pktmbuf_mtod M m1" "dat m2 = put_bytes 0 (take 6 mac) (dat m1)"
    using st_bytes_ex [OF m1(2) l0] by blast
  have l2: "6 + length (take 6 (fake_mac s)) \<le> length (dat m2)" using l0 m2(4) m1(4,5) by simp
  obtain m3 where m3: "st_bytes M m2 (rte_pktmbuf_mtod M m2) 6 (take 6 (fake_mac s)) = Inr m3" "ok m3"
    "rte_pktmbuf_mtod M m3 = rte_pktmbuf_mtod M m2" "dat m3 = put_bytes 6 (take 6 (fake_mac s)) (dat m2)"
    using st_bytes_ex [OF m2(2) l2] by blast
  have "build_inner_ether D M s i n pkt p = Inr (True, rte_pktmbuf_mtod M m3, pkt\<lparr>pk_mbuf := m3\<rparr>, p)"
    using pre m1(1,3) v mac m2(1,3) m3(1,3)
    by (simp add: build_inner_ether_def Let_def ntb_fake_mac_get_def)
  moreover have "14 \<le> length (dat m1)" using m1(4,5) by simp
  ultimately show ?thesis using m3(2) m3(4) [unfolded m2(4)] by blast
qed

text \<open>When it is not known, the packet is counted and a probe is sent.\<close>

lemma build_unknown:
  assumes m: "ok (pk_mbuf pkt)" and room: "14 \<le> room (pk_mbuf pkt)" and v: "get_dp s i = Inr v"
    and gw: "nh_gateway n \<noteq> 0"
    and mac: "ntb_neigh_lookup_zdw D (of_int (vrf_id v)) (nh_gateway n) s = Inr (ret, None)" "ret < 0"
  shows "\<exists>a m1. build_inner_ether D M s i n pkt p =
    bindR (stat_inc D ''OVERLAY_IP_FORWARD_NOARP'' p) (\<lambda>p. Inr (False, a, pkt\<lparr>pk_mbuf := m1\<rparr>,
      p\<lparr>probe_calls := probe_calls p @ [(vrf_id v, nh_gateway n)]\<rparr>))"
proof -
  obtain a m1 where pre: "rte_pktmbuf_prepend M (pk_mbuf pkt) 14 = (a, m1)" by force
  have "a \<noteq> 0" using prepend_ok [OF m room pre] by blast
  then show ?thesis using pre v mac gw
    by (intro exI [of _ a] exI [of _ m1]) (simp add: build_inner_ether_def Let_def)
qed

lemma put_bytes_macs:
  assumes "length a = 6" and "length b = 6" and "14 \<le> length xs"
  shows "take 6 (put_bytes 6 b (put_bytes 0 a xs)) = a"
    and "take 6 (drop 6 (put_bytes 6 b (put_bytes 0 a xs))) = b"
  using assms by (simp_all add: put_bytes_def)

end

subsection \<open>The lookups on consistent tables\<close>

text \<open>The MAC address of a gateway in the VRF at an index, if it is known.\<close>

definition next_mac :: "('t, 'b, 'f, 'h) env \<Rightarrow> ('t, 'b, 'f, 'h) agent \<Rightarrow> nat \<Rightarrow> u32 \<Rightarrow> u8 list option" where
  "next_mac D s i gw =
     (if gw = 0 then Some (def_gw_mac s)
      else case neigh_map D s (NeighKey (of_nat (i + 1)) gw) of None \<Rightarrow> None
        | Some q \<Rightarrow> (case neigh_heap s q of None \<Rightarrow> None
            | Some e \<Rightarrow> if F_arp_valid e then Some (take 6 (hh e)) else None))"

lemma next_mac_lookup:
  assumes wf: "neigh_wf D s" and gw: "gw \<noteq> 0"
  shows "(\<exists>mac. next_mac D s i gw = Some mac \<and>
      ntb_neigh_lookup_zdw D (of_nat (i + 1)) gw s = Inr (0, Some mac)) \<or>
    (\<exists>ret. next_mac D s i gw = None \<and> ntb_neigh_lookup_zdw D (of_nat (i + 1)) gw s = Inr (ret, None) \<and> ret < 0)"
proof (cases "neigh_map D s (NeighKey (of_nat (i + 1)) gw)")
  case None
  then show ?thesis using gw by (simp add: next_mac_def ntb_neigh_lookup_zdw_def neigh_map_def ENOENT_def)
next
  case (Some q)
  have "linked (neigh_map D s) (neigh_heap s) (next_addr s)" using wf by (simp add: neigh_wf_def)
  from linked_load [OF this Some] obtain e where "neigh_heap s q = Some e" "q \<noteq> 0" by blast
  then show ?thesis using Some gw by (simp add: next_mac_def ntb_neigh_lookup_zdw_def neigh_map_def)
qed

lemma tunnel_lookup_zdw:
  assumes wf: "tunnel_wf D s" and ids: "vrf_ids_ok s"
  shows "tunnel_view D s (ty, tid) = None \<Longrightarrow> ntb_tunnel_map_vrf_lookup_bak D ty tid s = Inr None"
    and "tunnel_view D s (ty, tid) = Some x \<Longrightarrow>
      \<exists>i < NTB_NR_VRF. x = int i + 1 \<and> ntb_tunnel_map_vrf_lookup_bak D ty tid s = Inr (Some i)"
proof -
  have l: "linked (tunnel_map D s) (tunnel_heap s) (next_addr s)" using wf by (simp add: tunnel_wf_def)
  have len: "length (g_ntb_vrfs s) = NTB_NR_VRF" using vrf_ids_ok_length [OF ids] by simp
  show "ntb_tunnel_map_vrf_lookup_bak D ty tid s = Inr None" if "tunnel_view D s (ty, tid) = None"
  proof (cases "tunnel_map D s (TunnelKey ty tid)")
    case None
    then show ?thesis by (simp add: ntb_tunnel_map_vrf_lookup_bak_def tunnel_map_def)
  next
    case (Some q)
    then show ?thesis using linked_load [OF l Some] that by (auto simp: tunnel_view_def)
  qed
  show "\<exists>i < NTB_NR_VRF. x = int i + 1 \<and> ntb_tunnel_map_vrf_lookup_bak D ty tid s = Inr (Some i)"
    if view: "tunnel_view D s (ty, tid) = Some x"
  proof -
    obtain q t where q: "tunnel_map D s (TunnelKey ty tid) = Some q" "tunnel_heap s q = Some t" "tu_vrf_id t = x"
      using view by (cases "tunnel_map D s (TunnelKey ty tid)") (auto simp: tunnel_view_def)
    obtain i where i: "i < NTB_NR_VRF" "tu_vrf_id t = int i + 1" "valid (g_ntb_vrfs s ! i)"
      using wf q(2) unfolding tunnel_wf_def by blast
    have "q \<noteq> 0" using linked_load [OF l q(1)] by blast
    then show ?thesis
      using q i get_by_id_slot [OF i(1) len]
      by (auto simp: ntb_tunnel_map_vrf_lookup_bak_def tunnel_map_def simp del: of_int_add)
  qed
qed

context dpdk_env
begin

lemma route_lookup_zdw:
  fixes dst :: u32
  assumes inv: "agent_inv D fb_used fib_routes fib_default fam s" and i: "i < NTB_NR_VRF"
  defines "view \<equiv> lpm_view (route_view D s) fam i (bswap32 dst) 32"
  obtains rid where "ntb_route_lookup_zdw D (Some i) dst s = Inr (0, Some rid)"
    and "view = None \<Longrightarrow> fib_res_is_reject (fib_res_mem s rid)"
    and "\<And>rt gw ti. view = Some (rt, gw, ti) \<Longrightarrow> res_wf (fib_res_mem s rid) \<and>
      fib_res_rtype_get (fib_res_mem s rid) = rt \<and>
      (\<exists>q n. mpath (fib_res_mem s rid) = [q] \<and> q \<noteq> 0 \<and> nhop_heap s q = Some n \<and> nh_gateway n = gw \<and> nh_tunnel_info n = ti)"
proof -
  have fi: "fib_inv D fib_routes fib_default fam s" and ri: "route_inv D fb_used s" and bh: "blackhole_ok s"
    using inv by (simp_all add: agent_inv_def)
  have ids: "vrf_ids_ok s" and rw: "rib_wf D fb_used s" using ri by (simp_all add: route_inv_def)
  let ?rid = "rte_fib_lookup (fib D) (slot_fib s i) (bswap32 dst)"
  have dp: "get_dp s i = Inr (dp (g_ntb_vrfs s ! i))" using vrf_ids_ok_length [OF ids] i by simp
  note lv = lpm_from_view [OF fi ri i order.refl, of "bswap32 dst"]
  have dflt: "fib_default (slot_fib s i) = nat (f_res_blackhole s)"
    using fi i by (simp add: fib_inv_def slot_fib_def)
  have bound: "?rid < rte_fbarray_len (fbarray D) (g_fib_res_array s)"
    using rw lv dflt by (auto simp: rib_wf_def fib_lookup split: option.splits)
  have "ntb_route_lookup_zdw D (Some i) dst s = Inr (0, Some ?rid)"
    using dp bound by (simp add: ntb_route_lookup_zdw_def Let_def fib_res_get_def slot_fib_def)
  moreover have "fib_res_is_reject (fib_res_mem s ?rid)" if "view = None"
    using fib_lookup_view(1) [OF fi ri i] that bh by (simp add: view_def blackhole_ok_def Let_def)
  moreover have "res_wf (fib_res_mem s ?rid) \<and> fib_res_rtype_get (fib_res_mem s ?rid) = rt \<and>
      (\<exists>q n. mpath (fib_res_mem s ?rid) = [q] \<and> q \<noteq> 0 \<and> nhop_heap s q = Some n \<and> nh_gateway n = gw \<and> nh_tunnel_info n = ti)"
    if v: "view = Some (rt, gw, ti)" for rt gw ti
  proof -
    have "\<exists>key. rib_map D s (RibKey key) = Some ?rid"
      using lv v by (auto simp: view_def fib_lookup split: option.splits)
    then have "res_wf (fib_res_mem s ?rid)" using rw by (auto simp: rib_wf_def)
    then show ?thesis using fib_lookup_view(2) [OF fi ri i, of "bswap32 dst"] v by (fastforce simp: view_def)
  qed
  ultimately show thesis by (rule that)
qed

end

text \<open>The inner packet on consistent tables: dropped without a route, forwarded on the one path otherwise.\<close>

lemma ol_ip_rcv_route:
  assumes mb: "rte_mbuf M ok dat room" and env: "dpdk_env D fb_used fib_routes fib_default"
    and inv: "agent_inv D fb_used fib_routes fib_default fam s" and i: "i < NTB_NR_VRF"
    and m: "ok (pk_mbuf pkt)" "20 \<le> length (dat (pk_mbuf pkt))" and md: "md_vrf_dp (pk_md pkt) = Some i"
    and dst: "dst = le32 (take 4 (drop 16 (dat (pk_mbuf pkt))))"
  shows "lpm_view (route_view D s) fam i (bswap32 dst) 32 = None \<Longrightarrow> ol_ip_rcv D M s pkt p = Inr (pkt, p)"
    and "lpm_view (route_view D s) fam i (bswap32 dst) 32 = Some (rt, gw, ti) \<Longrightarrow>
      \<exists>r q n. res_wf r \<and> mpath r = [q] \<and> q \<noteq> 0 \<and> nhop_heap s q = Some n \<and> nh_gateway n = gw \<and>
        nh_tunnel_info n = ti \<and> ol_ip_rcv D M s pkt p =
          (if rt = RT_MROUTE then ip_forward_m D M s i r [0] pkt p else ip_forward D M s i r pkt p)"
proof -
  have ld: "ld_u32 M (pk_mbuf pkt) (rte_pktmbuf_mtod M (pk_mbuf pkt)) 16 = Inr dst"
    using rte_mbuf.ld_u32_data [OF mb m(1), of 16] m(2) dst by simp
  obtain rid where rid: "ntb_route_lookup_zdw D (Some i) dst s = Inr (0, Some rid)"
    and miss: "lpm_view (route_view D s) fam i (bswap32 dst) 32 = None \<Longrightarrow> fib_res_is_reject (fib_res_mem s rid)"
    and hit: "\<And>rt gw ti. lpm_view (route_view D s) fam i (bswap32 dst) 32 = Some (rt, gw, ti) \<Longrightarrow>
      res_wf (fib_res_mem s rid) \<and> fib_res_rtype_get (fib_res_mem s rid) = rt \<and>
      (\<exists>q n. mpath (fib_res_mem s rid) = [q] \<and> q \<noteq> 0 \<and> nhop_heap s q = Some n \<and> nh_gateway n = gw \<and> nh_tunnel_info n = ti)"
    using dpdk_env.route_lookup_zdw [OF env inv i, of dst] by blast
  note eq = ol_ip_rcv_def [of D M s pkt p, unfolded md ld Let_def bindR_Inr rid]
  show "ol_ip_rcv D M s pkt p = Inr (pkt, p)" if "lpm_view (route_view D s) fam i (bswap32 dst) 32 = None"
    using miss [OF that] by (simp add: eq ld rid)
  show "\<exists>r q n. res_wf r \<and> mpath r = [q] \<and> q \<noteq> 0 \<and> nhop_heap s q = Some n \<and> nh_gateway n = gw \<and>
        nh_tunnel_info n = ti \<and> ol_ip_rcv D M s pkt p =
          (if rt = RT_MROUTE then ip_forward_m D M s i r [0] pkt p else ip_forward D M s i r pkt p)"
    if "lpm_view (route_view D s) fam i (bswap32 dst) 32 = Some (rt, gw, ti)"
  proof -
    let ?r = "fib_res_mem s rid"
    have r: "res_wf ?r" "fib_res_rtype_get ?r = rt" and
      ex: "\<exists>q n. mpath ?r = [q] \<and> q \<noteq> 0 \<and> nhop_heap s q = Some n \<and> nh_gateway n = gw \<and> nh_tunnel_info n = ti"
      using hit [OF that] by simp_all
    have "fib_res_is_mroute ?r \<longleftrightarrow> rt = RT_MROUTE" "\<not> fib_res_is_reject ?r" "mpath_cnt ?r = 1"
      using r by (auto simp: fib_res_rtype_get_def fib_res_is_mroute_def res_wf_def)
    then have "ol_ip_rcv D M s pkt p =
        (if rt = RT_MROUTE then ip_forward_m D M s i ?r [0] pkt p else ip_forward D M s i ?r pkt p)"
      by (simp add: eq ld rid)
    with r(1) ex show ?thesis by blast
  qed
qed

lemma select_single: "res_wf r \<Longrightarrow> fib_res_select_mpath r h = 0"
  by (simp add: fib_res_select_mpath_def res_wf_def)

lemma inner_ether_need_vxlan: "ip_tunnel_inner_ether_need t \<longleftrightarrow> ti_type t = NTB_ENCAP_VXLAN"
  by (simp add: ip_tunnel_inner_ether_need_def split: ntb_encap_type.splits)

text \<open>What the switch is to be programmed with for a next hop.\<close>

definition encap_values :: "ip_tunnel_info \<Rightarrow> u8 list \<Rightarrow> u8 list \<Rightarrow> key_value \<Rightarrow> key_value" where
  "encap_values ti dmac smac kv = kv
     \<lparr>kv_inner_dst_mac := dmac, kv_inner_src_mac := smac, kv_vni_encp := bswap32 (push_bit 8 (vxlan_vni ti)),
      kv_outer_src_ip := vxlan_local ti, kv_outer_dst_ip := vxlan_remote ti,
      kv_outer_dst_mac := outer_fake_dmac, kv_outer_src_mac := outer_fake_smac\<rparr>"

lemma get_dp_slot:
  assumes "vrf_ids_ok s" and "i < NTB_NR_VRF"
  shows "\<exists>v. get_dp s i = Inr v \<and> vrf_id v = int i + 1"
  using vrf_ids_ok_length [OF assms(1)] vrf_ids_ok_nth [OF assms] assms(2) by simp

text \<open>Both ways to build the inner header, in terms of the tables.\<close>

lemma build_inner_cases:
  assumes mb: "rte_mbuf M ok dat room" and m: "ok (pk_mbuf pkt)" "14 \<le> room (pk_mbuf pkt)"
    and ids: "vrf_ids_ok s" and nw: "neigh_wf D s" and i: "i < NTB_NR_VRF"
  shows "next_mac D s i (nh_gateway n) = Some mac \<Longrightarrow>
      \<exists>m' xs. build_inner_ether D M s i n pkt p = Inr (True, rte_pktmbuf_mtod M m', pkt\<lparr>pk_mbuf := m'\<rparr>, p) \<and>
        ok m' \<and> 14 \<le> length xs \<and> dat m' = put_bytes 6 (take 6 (fake_mac s)) (put_bytes 0 (take 6 mac) xs)"
    and "next_mac D s i (nh_gateway n) = None \<Longrightarrow>
      \<exists>a m1. build_inner_ether D M s i n pkt p = bindR (stat_inc D ''OVERLAY_IP_FORWARD_NOARP'' p)
        (\<lambda>p. Inr (False, a, pkt\<lparr>pk_mbuf := m1\<rparr>,
          p\<lparr>probe_calls := probe_calls p @ [(int i + 1, nh_gateway n)]\<rparr>))"
proof -
  obtain v where v: "get_dp s i = Inr v" "vrf_id v = int i + 1" using get_dp_slot [OF ids i] by blast
  have key: "(of_int (vrf_id v) :: u32) = of_nat (i + 1)" using v(2) by simp
  show "\<exists>m' xs. build_inner_ether D M s i n pkt p = Inr (True, rte_pktmbuf_mtod M m', pkt\<lparr>pk_mbuf := m'\<rparr>, p) \<and>
        ok m' \<and> 14 \<le> length xs \<and> dat m' = put_bytes 6 (take 6 (fake_mac s)) (put_bytes 0 (take 6 mac) xs)"
    if mac: "next_mac D s i (nh_gateway n) = Some mac"
  proof (rule rte_mbuf.build_known [OF mb m v(1)])
    show "(if nh_gateway n \<noteq> 0 then ntb_neigh_lookup_zdw D (of_int (vrf_id v)) (nh_gateway n) s
        else Inr (0, Some (ntb_def_gw_mac_get s))) = Inr (0, Some mac)"
      using mac next_mac_lookup [OF nw, of "nh_gateway n" i]
      by (auto simp: key next_mac_def ntb_def_gw_mac_get_def)
  qed
  show "\<exists>a m1. build_inner_ether D M s i n pkt p = bindR (stat_inc D ''OVERLAY_IP_FORWARD_NOARP'' p)
        (\<lambda>p. Inr (False, a, pkt\<lparr>pk_mbuf := m1\<rparr>,
          p\<lparr>probe_calls := probe_calls p @ [(int i + 1, nh_gateway n)]\<rparr>))"
    if mac: "next_mac D s i (nh_gateway n) = None"
  proof -
    have gw: "nh_gateway n \<noteq> 0" using mac by (auto simp: next_mac_def)
    then obtain ret where "ntb_neigh_lookup_zdw D (of_int (vrf_id v)) (nh_gateway n) s = Inr (ret, None)" "ret < 0"
      using mac next_mac_lookup [OF nw gw, of i] by (auto simp: key)
    from rte_mbuf.build_unknown [OF mb m v(1) gw this] show ?thesis unfolding v(2) .
  qed
qed

lemma noarp_valid: "swf_evt ''OVERLAY_IP_FORWARD_NOARP'' < PACKET_MAX"
  by code_simp

end
