(* ===== verification/Ntb_Pmd_Props.thy ===== *)
theory Ntb_Pmd_Props
  imports Ntb_Pmd_Path Ntb_Witness
begin

text \<open>
  Properties of the packet path, for every packet buffer library that keeps the contract
  \<open>rte_mbuf\<close>, and a reference buffer that shows that the contract can be kept.
\<close>

subsection \<open>Forwarding\<close>

lemma forward_known:
  assumes mb: "rte_mbuf M ok dat room" and m: "ok (pk_mbuf pkt)" "14 \<le> room (pk_mbuf pkt)"
    and ids: "vrf_ids_ok s" and nw: "neigh_wf D s" and i: "i < NTB_NR_VRF"
    and r: "res_wf r" "mpath r = [q]" "q \<noteq> 0" "nhop_heap s q = Some n"
    and ti: "ti_type (nh_tunnel_info n) = NTB_ENCAP_VXLAN"
    and mac: "next_mac D s i (nh_gateway n) = Some mac"
  shows "\<exists>m' d_mac s_mac. ip_forward D M s i r pkt p = Inr (pkt\<lparr>pk_mbuf := m'\<rparr>,
      p\<lparr>key_value_info := encap_values (nh_tunnel_info n) d_mac s_mac (key_value_info p)\<rparr>) \<and>
    (length mac = 6 \<and> length (fake_mac s) = 6 \<longrightarrow> d_mac = mac \<and> s_mac = fake_mac s)"
proof -
  obtain m' xs where b: "build_inner_ether D M s i n pkt p = Inr (True, rte_pktmbuf_mtod M m', pkt\<lparr>pk_mbuf := m'\<rparr>, p)"
    "ok m'" "14 \<le> length xs" "dat m' = put_bytes 6 (take 6 (fake_mac s)) (put_bytes 0 (take 6 mac) xs)"
    using build_inner_cases(1) [OF mb m ids nw i mac] by blast
  have len: "14 \<le> length (dat m')" using b(3,4) by simp
  have ld: "ld_bytes M m' (rte_pktmbuf_mtod M m') 0 6 = Inr (take 6 (dat m'))"
    "ld_bytes M m' (rte_pktmbuf_mtod M m') 6 6 = Inr (take 6 (drop 6 (dat m')))"
    using rte_mbuf.ld_bytes_data [OF mb b(2), of 0 6] rte_mbuf.ld_bytes_data [OF mb b(2), of 6 6] len by simp_all
  have "ip_forward D M s i r pkt p = Inr (pkt\<lparr>pk_mbuf := m'\<rparr>, p\<lparr>key_value_info :=
      encap_values (nh_tunnel_info n) (take 6 (dat m')) (take 6 (drop 6 (dat m'))) (key_value_info p)\<rparr>)"
    using b(1) ld r by (simp add: ip_forward_def select_single inner_ether_need_vxlan ti Let_def encap_values_def)
  moreover have "take 6 (dat m') = mac \<and> take 6 (drop 6 (dat m')) = fake_mac s"
    if "length mac = 6 \<and> length (fake_mac s) = 6"
    using rte_mbuf.put_bytes_macs [OF mb, of mac "fake_mac s" xs] that b(3,4) by simp
  ultimately show ?thesis by blast
qed

text \<open>The state after a packet whose next hop has no address yet.\<close>

definition probed :: "nat \<Rightarrow> u32 \<Rightarrow> (nat \<Rightarrow> u64) \<Rightarrow> pmd_state \<Rightarrow> pmd_state" where
  "probed i gw st p = p\<lparr>cur_thr_stats := Some (SWF_EVT_STAT_INC (swf_evt ''OVERLAY_IP_FORWARD_NOARP'') st),
     probe_calls := probe_calls p @ [(int i + 1, gw)]\<rparr>"

lemma build_unknown_stats:
  assumes mb: "rte_mbuf M ok dat room" and m: "ok (pk_mbuf pkt)" "14 \<le> room (pk_mbuf pkt)"
    and ids: "vrf_ids_ok s" and nw: "neigh_wf D s" and i: "i < NTB_NR_VRF"
    and mac: "next_mac D s i (nh_gateway n) = None"
  shows "\<exists>a m1. build_inner_ether D M s i n pkt p = (case cur_thr_stats p of None \<Rightarrow> Inl NullDeref
    | Some st \<Rightarrow> Inr (False, a, pkt\<lparr>pk_mbuf := m1\<rparr>, probed i (nh_gateway n) st p))"
  using build_inner_cases(2) [OF mb m ids nw i mac, of p]
  by (cases "cur_thr_stats p") (auto simp: stat_inc_def noarp_valid probed_def)

lemma forward_unknown:
  assumes mb: "rte_mbuf M ok dat room" and m: "ok (pk_mbuf pkt)" "14 \<le> room (pk_mbuf pkt)"
    and ids: "vrf_ids_ok s" and nw: "neigh_wf D s" and i: "i < NTB_NR_VRF"
    and r: "res_wf r" "mpath r = [q]" "q \<noteq> 0" "nhop_heap s q = Some n"
    and ti: "ti_type (nh_tunnel_info n) = NTB_ENCAP_VXLAN"
    and mac: "next_mac D s i (nh_gateway n) = None"
  shows "\<exists>m1. ip_forward D M s i r pkt p = (case cur_thr_stats p of None \<Rightarrow> Inl NullDeref
    | Some st \<Rightarrow> Inr (pkt\<lparr>pk_mbuf := m1\<rparr>, probed i (nh_gateway n) st p))"
proof -
  obtain a m1 where "build_inner_ether D M s i n pkt p = (case cur_thr_stats p of None \<Rightarrow> Inl NullDeref
      | Some st \<Rightarrow> Inr (False, a, pkt\<lparr>pk_mbuf := m1\<rparr>, probed i (nh_gateway n) st p))"
    using build_unknown_stats [OF mb m ids nw i mac, of p] by blast
  then show ?thesis
    by (intro exI [of _ m1])
      (simp add: ip_forward_def select_single r inner_ether_need_vxlan ti Let_def split: option.splits)
qed

text \<open>Neither kind of route faults when the statistics are set up, and they stay set up.\<close>

lemma forward_returns:
  assumes mb: "rte_mbuf M ok dat room" and m: "ok (pk_mbuf pkt)" "14 \<le> room (pk_mbuf pkt)"
    and ids: "vrf_ids_ok s" and nw: "neigh_wf D s" and i: "i < NTB_NR_VRF"
    and r: "res_wf r" "mpath r = [q]" "q \<noteq> 0" "nhop_heap s q = Some n" and st: "cur_thr_stats p = Some st"
  shows "\<exists>x p'. ip_forward D M s i r pkt p = Inr (x, p') \<and> cur_thr_stats p' \<noteq> None"
    and "\<exists>x p'. ip_forward_m D M s i r [0] pkt p = Inr (x, p') \<and> cur_thr_stats p' \<noteq> None"
proof -
  have "\<exists>c a x p'. build_inner_ether D M s i n pkt p = Inr (c, a, x, p') \<and> cur_thr_stats p' \<noteq> None"
    using build_inner_cases(1) [OF mb m ids nw i, of n] build_unknown_stats [OF mb m ids nw i, of n p] st
    by (cases "next_mac D s i (nh_gateway n)") (fastforce simp: probed_def)+
  then show "\<exists>x p'. ip_forward_m D M s i r [0] pkt p = Inr (x, p') \<and> cur_thr_stats p' \<noteq> None" using r st by auto
  show "\<exists>x p'. ip_forward D M s i r pkt p = Inr (x, p') \<and> cur_thr_stats p' \<noteq> None"
  proof (cases "ti_type (nh_tunnel_info n) = NTB_ENCAP_VXLAN")
    case True
    show ?thesis
      using forward_known [OF mb m ids nw i r True, of _ p] forward_unknown [OF mb m ids nw i r True, of p] st
      by (cases "next_mac D s i (nh_gateway n)") (fastforce simp: probed_def)+
  next
    case False
    then show ?thesis using r st by (simp add: ip_forward_def select_single inner_ether_need_vxlan Let_def)
  qed
qed

text \<open>
  No frame that is long enough for its headers can make the packet path fault. On tables that
  satisfy the invariant and with the statistics of the thread set up, every frame with an outer IPv4
  header of at least 20 bytes and 50 bytes behind it (UDP, VXLAN, inner Ethernet and inner IPv4
  header) is handled to its end, whatever it holds: other protocols and ports, unknown tunnels,
  destinations without a route, unknown neighbours, unicast and multicast routes.
\<close>

lemma tunnel_rcv_returns:
  assumes mb: "rte_mbuf M ok dat room" and env: "dpdk_env D fb_used fib_routes fib_default"
    and inv: "agent_inv D fb_used fib_routes fib_default fam s" and st: "cur_thr_stats p = Some st"
    and m: "ok (pk_mbuf pkt)" and c: "frame_complete (dat (pk_mbuf pkt))"
  shows "\<exists>pkt' p'. tunnel_rcv D M s pkt p = Inr (pkt', p') \<and> cur_thr_stats p' \<noteq> None"
proof -
  let ?f = "dat (pk_mbuf pkt)"
  let ?P = "\<lambda>v. pkt\<lparr>outer_l3_len := ip_hlen ?f, pk_md := frame_md ?f (pk_md pkt) v,
    pk_mbuf := rte_mbuf.inner M dat (pk_mbuf pkt)\<rparr>"
  have ri: "route_inv D fb_used s" and tw: "tunnel_wf D s" using inv by (simp_all add: agent_inv_def)
  have ids: "vrf_ids_ok s" and nw: "neigh_wf D s" using ri by (simp_all add: route_inv_def)
  note cs = rte_mbuf.cuts [OF mb m c]
  have len: "20 \<le> length (dat (rte_mbuf.inner M dat (pk_mbuf pkt)))"
    using cs(12) frame_complete_inner [OF c] by simp
  have ip: "\<exists>x p'. ol_ip_rcv D M s (?P (Some i)) p = Inr (x, p') \<and> cur_thr_stats p' \<noteq> None" if i: "i < NTB_NR_VRF" for i
  proof -
    let ?dst = "le32 (take 4 (drop 16 (dat (pk_mbuf (?P (Some i))))))"
    note route = ol_ip_rcv_route [OF mb env inv i, where pkt = "?P (Some i)" and dst = ?dst and p = p]
    show ?thesis
    proof (cases "lpm_view (route_view D s) fam i (bswap32 ?dst) 32")
      case None
      then show ?thesis using route(1) cs(8) len st by (simp add: frame_md_def)
    next
      case (Some x)
      obtain rt gw ti where x: "x = (rt, gw, ti)" by (cases x)
      obtain r q n where r: "res_wf r" "mpath r = [q]" "q \<noteq> 0" "nhop_heap s q = Some n"
        and eq: "ol_ip_rcv D M s (?P (Some i)) p = (if rt = RT_MROUTE
          then ip_forward_m D M s i r [0] (?P (Some i)) p else ip_forward D M s i r (?P (Some i)) p)"
        using route(2) [where rt = rt and gw = gw and ti = ti] Some x cs(8) len by (auto simp: frame_md_def)
      show ?thesis
        using forward_returns [OF mb _ _ ids nw i r st, of "?P (Some i)"] cs(8,14) by (simp add: eq)
    qed
  qed
  obtain v where v: "ntb_tunnel_map_vrf_lookup_bak D NTB_TUNNEL_VXLAN (frame_vni ?f) s = Inr v"
    "\<And>i. v = Some i \<Longrightarrow> i < NTB_NR_VRF"
    using tunnel_lookup_zdw [OF tw ids, of NTB_TUNNEL_VXLAN "frame_vni ?f"]
    by (cases "tunnel_view D s (NTB_TUNNEL_VXLAN, frame_vni ?f)") auto
  show ?thesis
    using rte_mbuf.tunnel_rcv_complete [OF mb m refl c, of D s p] v ip st by (cases v) (auto split: if_splits)
qed

subsection \<open>A reference buffer\<close>

text \<open>A buffer at address 4096: its bytes, the offset of the data and their length.\<close>

record ref_mbuf =
  rm_buf :: "u8 list"
  rm_off :: nat
  rm_len :: nat

definition ref_mbuf_ok :: "ref_mbuf \<Rightarrow> bool" where
  "ref_mbuf_ok m \<longleftrightarrow> rm_off m + rm_len m \<le> length (rm_buf m)"

definition ref_mbuf_dat :: "ref_mbuf \<Rightarrow> u8 list" where
  "ref_mbuf_dat m = take (rm_len m) (drop (rm_off m) (rm_buf m))"

definition ref_mbuf_api :: "ref_mbuf mbuf_api" where
  "ref_mbuf_api = \<lparr>
     rte_pktmbuf_mtod = (\<lambda>m. 4096 + rm_off m),
     rte_pktmbuf_adj = (\<lambda>m n. if n \<le> rm_len m
       then (4096 + rm_off m + n, m\<lparr>rm_off := rm_off m + n, rm_len := rm_len m - n\<rparr>) else (0, m)),
     rte_pktmbuf_prepend = (\<lambda>m n. if n \<le> rm_off m
       then (4096 + rm_off m - n, m\<lparr>rm_off := rm_off m - n, rm_len := rm_len m + n\<rparr>) else (0, m)),
     mbuf_read = (\<lambda>m a n. if 4096 \<le> a \<and> a + n \<le> 4096 + length (rm_buf m)
       then Inr (take n (drop (a - 4096) (rm_buf m))) else Inl OutOfBounds),
     mbuf_write = (\<lambda>m a bs. if 4096 \<le> a \<and> a + length bs \<le> 4096 + length (rm_buf m)
       then Inr (m\<lparr>rm_buf := put_bytes (a - 4096) bs (rm_buf m)\<rparr>) else Inl OutOfBounds),
     set_pkt_len = (\<lambda>m n. m\<lparr>rm_len := nat (n mod 65536)\<rparr>)\<rparr>"

lemma put_bytes_window:
  assumes "i + length bs \<le> n" and "d + n \<le> length buf"
  shows "take n (drop d (put_bytes (d + i) bs buf)) = put_bytes i bs (take n (drop d buf))"
proof -
  have "drop d (put_bytes (d + i) bs buf) = take i (drop d buf) @ bs @ drop (i + length bs) (drop d buf)"
    using assms by (simp add: put_bytes_def drop_take add.commute add.left_commute)
  moreover have "take n (take i (drop d buf) @ bs @ drop (i + length bs) (drop d buf)) =
      take i (drop d buf) @ bs @ take (n - (i + length bs)) (drop (i + length bs) (drop d buf))"
    using assms by simp
  ultimately show ?thesis using assms by (simp add: put_bytes_def drop_take min_def)
qed

lemma ref_mbuf_len [simp]: "ref_mbuf_ok m \<Longrightarrow> length (ref_mbuf_dat m) = rm_len m"
  by (simp add: ref_mbuf_ok_def ref_mbuf_dat_def)

interpretation ref_mbuf: rte_mbuf ref_mbuf_api ref_mbuf_ok ref_mbuf_dat rm_off
proof (unfold_locales, goal_cases)
  case (3 m n a m')
  then show ?case
    by (auto simp: ref_mbuf_api_def ref_mbuf_ok_def ref_mbuf_dat_def drop_take add.commute fun_eq_iff)
next
  case (2 m i n)
  then have "i + n \<le> rm_len m" "rm_off m + rm_len m \<le> length (rm_buf m)" by (simp_all add: ref_mbuf_ok_def)
  then show ?case by (simp add: ref_mbuf_api_def ref_mbuf_dat_def drop_take add.commute)
next
  case (5 m n a m')
  then show ?case
    by (auto simp: ref_mbuf_api_def ref_mbuf_ok_def ref_mbuf_dat_def
        intro!: exI [of _ "take n (drop (rm_off m - n) (rm_buf m))"])
      (simp add: add.commute [of "rm_len m" n] take_add)
next
  case (7 m i bs m')
  then show ?case
    by (auto simp: ref_mbuf_api_def ref_mbuf_ok_def ref_mbuf_dat_def put_bytes_window)
qed (auto simp: ref_mbuf_api_def ref_mbuf_ok_def ref_mbuf_dat_def drop_take)

subsection \<open>A concrete frame\<close>

text \<open>
  A VXLAN frame of VNI 5000 to 10.0.1.5, and the first 24 bytes of one, in a buffer of the reference
  library with the usual headroom.
\<close>

definition w_frame :: "u8 list" where
  "w_frame = [0x45, 0, 0, 70, 0, 0, 0, 0, 64, 17, 0, 0, 10, 10, 10, 1, 10, 10, 10, 2,
     0x80, 0, 0x12, 0xb5, 0, 50, 0, 0, 8, 0, 0, 0, 0, 0x13, 0x88, 0]
     @ replicate 12 0 @ [8, 0, 0x45, 0, 0, 20, 0, 0, 0, 0, 64, 6, 0, 0, 10, 0, 2, 7, 10, 0, 1, 5]"

definition w_packet :: "u8 list \<Rightarrow> ref_mbuf packet" where
  "w_packet f = \<lparr>pk_mbuf = \<lparr>rm_buf = replicate 128 0 @ f, rm_off = 128, rm_len = length f\<rparr>,
     pk_md = ntb_mbuf_metadata_zero, outer_l3_len = 0, hash_rss = 0\<rparr>"

definition w_values :: key_value where
  "w_values = \<lparr>kv_vrf_id = 0, kv_vni = 0, kv_inner_src_ip = 0, kv_inner_dst_ip = 0, kv_next_hop = 0, kv_vni_encp = 0,
     kv_outer_src_mac = [], kv_outer_dst_mac = [], kv_outer_src_ip = 0, kv_outer_dst_ip = 0,
     kv_inner_src_mac = [], kv_inner_dst_mac = []\<rparr>"

definition w_pmd :: "(nat \<Rightarrow> u64) option \<Rightarrow> pmd_state" where
  "w_pmd st = \<lparr>key_value_info = w_values, cur_thr_stats = st, probe_calls = [], loopbreak = False\<rparr>"

lemma w_packet_ok [simp]: "ref_mbuf_ok (pk_mbuf (w_packet f))" "ref_mbuf_dat (pk_mbuf (w_packet f)) = f"
  by (simp_all add: w_packet_def ref_mbuf_ok_def ref_mbuf_dat_def)

lemma w_pmd_sel [simp]: "cur_thr_stats (w_pmd st) = st"
  by (simp add: w_pmd_def)

lemma w_frame_len: "length w_frame = 70"
  by (simp add: w_frame_def)

lemma w_frame_fields:
  "ip_hlen w_frame = 20" "ip_proto w_frame = 17" "udp_dport w_frame = 4789" "frame_vni w_frame = 5000"
  "frame_ether_type w_frame = RTE_ETHER_TYPE_IPV4" "bswap32 (frame_inner_dst w_frame) = 0x0a000105"
  by code_simp+

lemma w_frame_complete: "frame_complete w_frame"
  by (simp add: frame_complete_def w_frame_fields w_frame_len)

lemma w_full_next_mac: "next_mac w_env w_full 0 (en_gateway w_nhop) = None"
  using w_routed_neigh by (auto simp: next_mac_def w_full_view) (simp add: w_nhop_def)

subsection \<open>The properties\<close>

text \<open>
  C9: a VXLAN frame whose destination has a unicast route is turned into the values for the switch:
  the MAC address of the next hop (the default gateway's if it has none), the agent's own MAC
  address, the VNI of the next hop shifted into the VXLAN header format, and the tunnel end points.
  When the address of the next hop is not known yet, the packet is counted and a probe is sent, but
  the counter is reached through \<^verbatim>\<open>cur_thr_stats\<close>, which this agent never sets: the thread crashes.
\<close>

theorem vxlan_forward:
  assumes mb: "rte_mbuf M ok dat room" and env: "dpdk_env D fb_used fib_routes fib_default"
    and inv: "agent_inv D fb_used fib_routes fib_default fam s" and i: "i < NTB_NR_VRF"
    and m: "ok (pk_mbuf pkt)" and f: "dat (pk_mbuf pkt) = f" and c: "frame_complete f"
    and vx: "ip_proto f = 17" "udp_dport f = 4789" "frame_ether_type f = RTE_ETHER_TYPE_IPV4"
    and tun: "tunnel_view D s (NTB_TUNNEL_VXLAN, frame_vni f) = Some (int i + 1)"
    and route: "lpm_view (route_view D s) fam i (bswap32 (frame_inner_dst f)) 32 = Some (RT_DEFAULT, gw, ti)"
    and ti: "ti_type ti = NTB_ENCAP_VXLAN"
    and macs: "length (fake_mac s) = 6" "\<And>mac. next_mac D s i gw = Some mac \<Longrightarrow> length mac = 6"
  shows "\<exists>pkt'. tunnel_rcv D M s pkt p =
    (case next_mac D s i gw of
       Some mac \<Rightarrow> Inr (pkt', p\<lparr>key_value_info := encap_values ti mac (fake_mac s) (key_value_info p)\<rparr>)
     | None \<Rightarrow> (case cur_thr_stats p of None \<Rightarrow> Inl NullDeref | Some st \<Rightarrow> Inr (pkt', probed i gw st p)))"
proof -
  define P where "P = pkt\<lparr>outer_l3_len := ip_hlen f, pk_md := frame_md f (pk_md pkt) (Some i),
    pk_mbuf := rte_mbuf.inner M dat (pk_mbuf pkt)\<rparr>"
  have ri: "route_inv D fb_used s" and tw: "tunnel_wf D s" using inv by (simp_all add: agent_inv_def)
  have ids: "vrf_ids_ok s" and nw: "neigh_wf D s" using ri by (simp_all add: route_inv_def)
  have "frame_complete (dat (pk_mbuf pkt))" using c f by simp
  note cs = rte_mbuf.cuts [OF mb m this, unfolded f]
  have P: "ok (pk_mbuf P)" "14 \<le> room (pk_mbuf P)" "20 \<le> length (dat (pk_mbuf P))" "md_vrf_dp (pk_md P) = Some i"
    "frame_inner_dst f = le32 (take 4 (drop 16 (dat (pk_mbuf P))))"
    using cs(8,12,14) frame_complete_inner [OF c]
    by (simp_all add: P_def frame_md_def frame_inner_dst_def add.commute)
  have "ntb_tunnel_map_vrf_lookup_bak D NTB_TUNNEL_VXLAN (frame_vni f) s = Inr (Some i)"
    using tunnel_lookup_zdw(2) [OF tw ids tun] by auto
  then have rcv: "tunnel_rcv D M s pkt p = ol_ip_rcv D M s P p"
    using rte_mbuf.tunnel_rcv_complete [OF mb m f c, of D s p] vx by (auto simp: P_def)
  obtain r q n where r: "res_wf r" "mpath r = [q]" "q \<noteq> 0" "nhop_heap s q = Some n"
    and n: "nh_gateway n = gw" "nh_tunnel_info n = ti" and fwd: "ol_ip_rcv D M s P p = ip_forward D M s i r P p"
    using ol_ip_rcv_route(2) [OF mb env inv i P(1,3,4,5) route, of p] by auto
  show ?thesis
  proof (cases "next_mac D s i gw")
    case None
    show ?thesis
      using forward_unknown [OF mb P(1,2) ids nw i r, of p] n ti None
      by (auto simp: rcv fwd)
  next
    case (Some mac)
    show ?thesis
      using forward_known [OF mb P(1,2) ids nw i r, of mac p] n ti Some macs(1) macs(2) [OF Some]
      by (auto simp: rcv fwd)
  qed
qed

theorem vxlan_forward_witness:
  "(\<exists>pkt'. tunnel_rcv w_env ref_mbuf_api w_full (w_packet w_frame) (w_pmd (Some (\<lambda>_. 0))) =
     Inr (pkt', probed 0 0xc0a80001 (\<lambda>_. 0) (w_pmd (Some (\<lambda>_. 0))))) \<and>
   tunnel_rcv w_env ref_mbuf_api w_full (w_packet w_frame) (w_pmd None) = Inl NullDeref"
proof -
  have "\<exists>pkt'. tunnel_rcv w_env ref_mbuf_api w_full (w_packet w_frame) (w_pmd st) =
      (case st of None \<Rightarrow> Inl NullDeref | Some st' \<Rightarrow> Inr (pkt', probed 0 (en_gateway w_nhop) st' (w_pmd st)))" for st
    using vxlan_forward [OF ref_mbuf.rte_mbuf_axioms ref_dpdk_env w_full_inv, of 0 "w_packet w_frame" w_frame
        "en_gateway w_nhop" "en_tunnel_info w_nhop" "w_pmd st"] w_frame_complete w_frame_fields w_full_frame(2)
      w_routed_lpm w_full_view(1,2) w_full_next_mac
    by (simp add: default_mac_def) (simp add: w_nhop_def)
  from this [of "Some (\<lambda>_. 0)"] this [of None] show ?thesis by (simp add: w_nhop_def)
qed

text \<open>
  C35: a datagram that the socket filter accepts can still crash the agent. The filter only needs the
  first four bytes of the UDP header; when fewer than eight are there, the VXLAN header is read
  through the null pointer that DPDK returns for a cut that is too long.
\<close>

theorem short_datagram_crashes:
  assumes mb: "rte_mbuf M ok dat room" and m: "ok (pk_mbuf pkt)"
    and filter: "bpf_run udp_insns (dat (pk_mbuf pkt)) 0 0 0 \<noteq> Some 0"
    and short: "length (dat (pk_mbuf pkt)) < ip_hlen (dat (pk_mbuf pkt)) + 8"
  shows "tunnel_rcv D M s pkt p = Inl NullDeref"
proof -
  let ?f = "dat (pk_mbuf pkt)"
  have v: "vxlan_frame ?f" using filter by (simp add: udp_filter_result split: if_splits)
  then have "9 < length ?f" "ip_proto ?f = 17" by (simp_all add: vxlan_frame_def)
  then show ?thesis
    using rte_mbuf.tunnel_rcv_proto [OF mb m refl, of D s p]
      rte_mbuf.vxlan_rcv_short [OF mb _ _ v short, of "pkt\<lparr>outer_l3_len := ip_hlen ?f\<rparr>" D s p] m
    by simp
qed

theorem short_datagram_crashes_witness:
  "tunnel_rcv w_env ref_mbuf_api w_full (w_packet (take 24 w_frame)) (w_pmd (Some (\<lambda>_. 0))) = Inl NullDeref"
proof -
  have "vxlan_frame (take 24 w_frame)" "length (take 24 w_frame) < ip_hlen (take 24 w_frame) + 8" by code_simp+
  then show ?thesis
    using short_datagram_crashes [OF ref_mbuf.rte_mbuf_axioms, of "w_packet (take 24 w_frame)"]
    by (simp add: udp_filter_result)
qed

end
