(* ===== verification/Ntb_Zdw.thy ===== *)
theory Ntb_Zdw
  imports Ntb_Control
begin

text \<open>
  The older agent of \<^verbatim>\<open>agent/zdw_agent\<close>, the one the packet path of \<^verbatim>\<open>zdw_agent/pmd.c\<close> belongs to. Its
  control plane is the current one with the calls of the HAL commented out; the functions in which
  this changes the code have the suffix \<open>_zdw\<close>, all others are the same text as the current ones.
  The older agent is shown equal to the current one over a HAL that never allocates a neighbour id.
\<close>

subsection \<open>Functions that differ\<close>

text \<open>
  The call that assigned \<^verbatim>\<open>ret\<close> before the test is commented out, so the test reads the code of the
  failed lookup, which is \<^verbatim>\<open>-ENOENT\<close>.
\<close>

definition ntb_neigh_add_zdw ::
  "('t, 'b, 'f, 'h) env \<Rightarrow> nat \<Rightarrow> u32 \<Rightarrow> u32 \<Rightarrow> ('t, 'b, 'f, 'h) agent
    \<Rightarrow> (int \<times> u32 \<times> ('t, 'b, 'f, 'h) agent) outcome" where
  "ntb_neigh_add_zdw D i gw oid_ret s = bindR (get_dp s i) (\<lambda>v.
     let key = NeighKey (of_int (vrf_id v)) gw in
     case rte_hash_lookup_data (hash D) (ol_neigh_hash_tbl s) key of
       Some p \<Rightarrow> bindR (load (neigh_heap s) p) (\<lambda>n.
         Inr (0, ne_oid n, put_neigh p (n\<lparr>refcnt := refcnt n + 1\<rparr>) s))
     | None \<Rightarrow> let ret = - ENOENT in (case rte_zmalloc D s of
           (None, s1) \<Rightarrow> Inr (- ENOMEM, oid_ret, s1)
         | (Some p, s1) \<Rightarrow>
             let n = ol_neigh_entry_zero\<lparr>refcnt := 1, F_fast_arp := True, F_entry_valid := True\<rparr>;
                 s2 = put_neigh p n s1
             in case rte_hash_add_key_data (hash D) (ol_neigh_hash_tbl s2) key p of (r, t) \<Rightarrow>
               let s3 = s2\<lparr>ol_neigh_hash_tbl := t\<rparr> in
               if r < 0 then Inr (- EFAULT, oid_ret, free_neigh p s3)
               else if ret < 0 then
                 let s4 = s3\<lparr>ol_neigh_hash_tbl :=
                   snd (rte_hash_del_key (hash D) (ol_neigh_hash_tbl s3) key)\<rparr>
                 in Inr (ret, oid_ret, free_neigh p s4)
               else
                 let s4 = upd_dp i (\<lambda>v. v\<lparr>neigh_cnt := neigh_cnt v + 1\<rparr>) s3
                 in Inr (0, ne_oid n, s4\<lparr>ol_neigh_count := ol_neigh_count s4 + 1\<rparr>)))"

definition nhop_neigh_add_zdw ::
  "('t, 'b, 'f, 'h) env \<Rightarrow> nat \<Rightarrow> fib_nhop \<Rightarrow> ('t, 'b, 'f, 'h) agent
    \<Rightarrow> (int \<times> u32 \<times> ('t, 'b, 'f, 'h) agent) outcome" where
  "nhop_neigh_add_zdw D i n s =
     (if \<not> IP4_ADDR_IS_ZERO (nh_gateway n) then ntb_neigh_add_zdw D i (nh_gateway n) 0 s
      else Inr (0, nh_neigh_oid n, s))"

text \<open>No object id is allocated: \<^verbatim>\<open>nh_oid\<close> keeps its initial 0 and \<^verbatim>\<open>ret\<close> the code of the neighbour.\<close>

definition nhop_obj_create_zdw ::
  "('t, 'b, 'f, 'h) env \<Rightarrow> nat \<Rightarrow> fib_nhop_encap_data \<Rightarrow> ('t, 'b, 'f, 'h) agent
    \<Rightarrow> (int \<times> addr \<times> ('t, 'b, 'f, 'h) agent) outcome" where
  "nhop_obj_create_zdw D i e s =
     (let nhop_key = ntb_nhop_hash_key e in
      case rte_hash_lookup_data (hash D) (g_nhop_hash_tbl s) nhop_key of
        Some p \<Rightarrow> bindR (rte_assert D (p \<noteq> 0)) (\<lambda>_. nhop_obj_ref p 0 s)
      | None \<Rightarrow> (case rte_zmalloc D s of
            (None, s1) \<Rightarrow> Inr (NTB_COMM_NOMEM, 0, s1)
          | (Some p, s1) \<Rightarrow>
              let n = fib_nhop_new e; s2 = put_nhop p n s1 in
              case rte_hash_add_key_data (hash D) (g_nhop_hash_tbl s2) nhop_key p of (r, t) \<Rightarrow>
                let s3 = s2\<lparr>g_nhop_hash_tbl := t\<rparr> in
                if r < 0 then nhop_rollback5 p (- EFAULT) s3
                else
                  bindR (nhop_neigh_add_zdw D i n s3) (\<lambda>(ret, neigh_oid, s4).
                  if ret < 0 then nhop_rollback4 D nhop_key p ret s4
                  else
                    let s5 = put_nhop p (n\<lparr>nh_neigh_oid := neigh_oid\<rparr>) s4 in
                    if ret < 0
                    then nhop_rollback3 D i (nh_gateway n) nhop_key p NTB_ROUTE_NH_ALLOC_OID_FAIL s5
                    else nhop_obj_ref p ret
                      (put_nhop p (n\<lparr>nh_neigh_oid := neigh_oid, nh_oid := 0\<rparr>) s5))))"

definition route_nhop_insert_new_zdw ::
  "('t, 'b, 'f, 'h) env \<Rightarrow> nat \<Rightarrow> ntb_rib_key \<Rightarrow> fib_nhop_encap_data \<Rightarrow> rib_type \<Rightarrow> nat option
    \<Rightarrow> ('t, 'b, 'f, 'h) agent \<Rightarrow> (int \<times> ('t, 'b, 'f, 'h) agent) outcome" where
  "route_nhop_insert_new_zdw D i pfx e rtype old s =
     (let f_res_id = (case old of None \<Rightarrow> - 1 | Some rid \<Rightarrow> int rid) in
      bindR (nhop_obj_create_zdw D i e s) (\<lambda>(ret, nhop_new, s1).
      if ret < 0 then Inr (ret, s1)
      else
        bindR (case old of
            None \<Rightarrow> bindR (write_at local_nhops 0 nhop_new) (\<lambda>ns. Inr (1, ns))
          | Some rid \<Rightarrow> bindR (load_res s1 (fib_res_get D s1 (int rid))) (\<lambda>f_res.
              let cnt = unat (mpath_cnt f_res) in
              bindR (mpath_copy (mpath f_res) [0..<cnt] local_nhops) (\<lambda>ns0.
              bindR (write_at ns0 cnt nhop_new) (\<lambda>ns. Inr (Suc cnt, ns))))) (\<lambda>(num, f_nhops).
        bindR (fib_res_obj_create D f_nhops num old rtype s1) (\<lambda>(f_res_id_new, s2).
        if f_res_id_new < 0 then insert_rollback2 D i nhop_new f_res_id_new s2
        else
          bindR (rt_prefix_obj_update D i pfx f_res_id f_res_id_new s2) (\<lambda>(ret, s3).
          if ret < 0 then insert_rollback1 D i nhop_new f_res_id_new ret s3
          else case old of
            None \<Rightarrow> Inr (ret, s3)
          | Some rid \<Rightarrow> bindR (fib_res_obj_delete D (int rid) s3) (\<lambda>(ret, s4).
              bindR (rte_assert D (ret = 0)) (\<lambda>_. Inr (ret, s4))))))))"

definition ntb_route_nhop_insert_zdw ::
  "('t, 'b, 'f, 'h) env \<Rightarrow> nat \<Rightarrow> ntb_rib_key \<Rightarrow> fib_nhop_encap_data \<Rightarrow> rib_type
    \<Rightarrow> ('t, 'b, 'f, 'h) agent \<Rightarrow> (int \<times> ('t, 'b, 'f, 'h) agent) outcome" where
  "ntb_route_nhop_insert_zdw D i pfx e rtype s =
     (case rte_hash_lookup_data (hash D) (ntb_rib_hash_tbl s) (RibKey pfx) of
        None \<Rightarrow> route_nhop_insert_new_zdw D i pfx e rtype None s
      | Some rid \<Rightarrow> bindR (load_res s (fib_res_get D s (int rid))) (\<lambda>f_res.
          if fib_res_rtype_get f_res \<noteq> rtype then Inr (NTB_IPV4_ROUTETYPE_NO_SAME, s)
          else if fib_res_mpath_nospace f_res then Inr (NTB_ROUTE_NEXTHOP_ECMP_NOSPACE, s)
          else bindR (mpath_has_equal (nhop_heap s) (mpath f_res) e [0..<unat (mpath_cnt f_res)])
            (\<lambda>eq. if eq then Inr (0, s)
                  else route_nhop_insert_new_zdw D i pfx e rtype (Some rid) s)))"

text \<open>The requests of the management interface on this agent.\<close>

definition ctl_run_zdw ::
  "('t, 'b, 'f, 'h) env \<Rightarrow> ctl_op \<Rightarrow> ('t, 'b, 'f, 'h) agent
    \<Rightarrow> (int \<times> ('t, 'b, 'f, 'h) agent) outcome option" where
  "ctl_run_zdw D req s = (case req of
     VrfAdd n \<Rightarrow> Some (ntb_vrf_add n s)
   | VrfDel n \<Rightarrow> ntb_vrf_del D n s
   | IntipSet n ip \<Rightarrow> Some (ntb_vrf_intip_set n ip s)
   | RmacSet n m \<Rightarrow> Some (ntb_vrf_rmac_set n m s)
   | RmacUnset n m \<Rightarrow> Some (ntb_vrf_rmac_unset n m s)
   | RouteInsert i pfx e rt \<Rightarrow> Some (ntb_route_nhop_insert_zdw D i pfx e rt s)
   | RouteDelete i pfx \<Rightarrow> Some (ntb_route_delete D i pfx s)
   | NhopDelete i pfx e rt \<Rightarrow> Some (ntb_route_nhop_delete D i pfx e rt s)
   | NeighAdd i gw \<Rightarrow> Some (bindR (ntb_neigh_add_zdw D i gw 0 s) (\<lambda>(r, _, s'). Inr (r, s')))
   | NeighDel i gw \<Rightarrow> Some (ntb_neigh_del D i gw s)
   | TunnelMap n ty tid attr \<Rightarrow> Some (ntb_tunnel_map_vrf D n ty tid attr s))"

subsection \<open>A HAL that allocates no neighbour ids\<close>

definition mute_hal :: "'h hal_api \<Rightarrow> 'h hal_api" where
  "mute_hal h = h\<lparr>hal_nhop_alloc_oid := (\<lambda>w old. (0, old, w)),
     hal_neigh_alloc_oid := (\<lambda>w old. (- ENOENT, old, w))\<rparr>"

definition mute :: "('t, 'b, 'f, 'h) env \<Rightarrow> ('t, 'b, 'f, 'h) env" where
  "mute D = D\<lparr>hal := mute_hal (hal D)\<rparr>"

lemma mute_sel [simp]:
  "assert_on (mute D) = assert_on D" "zmalloc_ok (mute D) = zmalloc_ok D" "hash (mute D) = hash D"
  "fbarray (mute D) = fbarray D" "fib (mute D) = fib D"
  "hal_nhop_alloc_oid (hal (mute D)) w old = (0, old, w)"
  "hal_neigh_alloc_oid (hal (mute D)) w old = (- ENOENT, old, w)"
  by (simp_all add: mute_def mute_hal_def)

subsection \<open>The functions that never call the HAL\<close>

named_theorems mute_simps

lemma mute_base [mute_simps]:
  "rte_assert (mute D) = rte_assert D" "rte_zmalloc (mute D) = rte_zmalloc D"
  "rte_fbarray_get (mute D) = rte_fbarray_get D"
  unfolding fun_eq_iff rte_assert_def rte_zmalloc_def rte_fbarray_get_def mute_sel mute_simps by simp_all

lemma mute_neigh_del [mute_simps]: "ntb_neigh_del (mute D) = ntb_neigh_del D"
  unfolding fun_eq_iff ntb_neigh_del_def mute_sel mute_simps by simp_all

lemma mute_res [mute_simps]:
  "fib_res_get (mute D) = fib_res_get D" "fib_res_id_alloc (mute D) = fib_res_id_alloc D"
  "fib_res_md_set (mute D) = fib_res_md_set D" "fib_res_id_free (mute D) = fib_res_id_free D"
  unfolding fun_eq_iff fib_res_get_def fib_res_id_alloc_def fib_res_md_set_def fib_res_id_free_def mute_sel mute_simps by simp_all

lemma mute_obj [mute_simps]:
  "rt_prefix_type_get (mute D) = rt_prefix_type_get D" "fib_res_obj_create (mute D) = fib_res_obj_create D"
  "fib_res_obj_delete (mute D) = fib_res_obj_delete D"
  unfolding fun_eq_iff rt_prefix_type_get_def fib_res_obj_create_def fib_res_obj_delete_def mute_sel mute_simps by simp_all

lemma mute_prefix [mute_simps]:
  "rt_prefix_obj_update (mute D) = rt_prefix_obj_update D" "rt_prefix_obj_delete (mute D) = rt_prefix_obj_delete D"
  unfolding fun_eq_iff rt_prefix_obj_update_def rt_prefix_obj_delete_def mute_sel mute_simps by simp_all

lemma mute_nhop [mute_simps]:
  "nhop_rollback4 (mute D) = nhop_rollback4 D" "nhop_neigh_del (mute D) = nhop_neigh_del D"
  unfolding fun_eq_iff nhop_rollback4_def nhop_neigh_del_def mute_sel mute_simps by simp_all

lemma mute_nhop_delete [mute_simps]:
  "nhop_obj_delete (mute D) = nhop_obj_delete D"
  unfolding fun_eq_iff nhop_obj_delete_def mute_sel mute_simps by simp_all

lemma mute_rollback [mute_simps]:
  "insert_rollback2 (mute D) = insert_rollback2 D" "insert_rollback1 (mute D) = insert_rollback1 D"
  unfolding fun_eq_iff insert_rollback2_def insert_rollback1_def mute_sel mute_simps by simp_all

lemma mute_delete_all [mute_simps]: "nhop_delete_all (mute D) i ns js s = nhop_delete_all D i ns js s"
  by (induction js arbitrary: s) (simp_all add: mute_simps)

lemma mute_delete [mute_simps]:
  "ntb_route_delete (mute D) = ntb_route_delete D" "ntb_route_nhop_delete (mute D) = ntb_route_nhop_delete D"
  unfolding fun_eq_iff ntb_route_delete_def ntb_route_nhop_delete_def mute_sel mute_simps by simp_all

lemma mute_tunnel [mute_simps]: "ntb_tunnel_map_vrf (mute D) = ntb_tunnel_map_vrf D"
  unfolding fun_eq_iff ntb_tunnel_map_vrf_def mute_sel mute_simps by simp_all

lemma cleanup_loop_cong:
  "ntb_route_cleanup_loop D i iter s = Some y \<Longrightarrow>
    hash D' = hash D \<longrightarrow> ntb_route_delete D' = ntb_route_delete D \<longrightarrow> ntb_route_cleanup_loop D' i iter s = Some y"
proof (rule ntb_route_cleanup_loop.raw_induct [where P = "\<lambda>D i iter s y. hash D' = hash D \<longrightarrow>
      ntb_route_delete D' = ntb_route_delete D \<longrightarrow> ntb_route_cleanup_loop D' i iter s = Some y", rotated],
    assumption, intro impI)
  fix D i iter s y and loop :: "('a, 'b, 'c, 'd) env \<Rightarrow> _"
  assume "\<And>D i iter s y. loop D i iter s = Some y \<Longrightarrow> hash D' = hash D \<longrightarrow>
      ntb_route_delete D' = ntb_route_delete D \<longrightarrow> ntb_route_cleanup_loop D' i iter s = Some y"
    and same: "hash D' = hash D" "ntb_route_delete D' = ntb_route_delete D"
    and "(case rte_hash_iterate (hash D) (ntb_rib_hash_tbl s) iter of
        None \<Rightarrow> Some (Inr s)
      | Some (k, _, iter') \<Rightarrow> (case bindR (get_dp s i) (\<lambda>v.
            case k of RibKey rk \<Rightarrow>
                if vrf_id v = rk_vrf_id rk then bindR (ntb_route_delete D i rk s) (\<lambda>(_, s'). Inr s')
                else Inr s
            | _ \<Rightarrow> Inr s) of
          Inl f \<Rightarrow> Some (Inl f)
        | Inr s' \<Rightarrow> loop D i iter' s')) = Some y"
  then show "ntb_route_cleanup_loop D' i iter s = Some y"
    unfolding ntb_route_cleanup_loop.simps [of D' i iter s] same by (auto split: option.splits sum.splits)
qed

lemma mute_cleanup [mute_simps]: "ntb_route_cleanup (mute D) = ntb_route_cleanup D"
proof -
  have "ntb_route_cleanup_loop (mute D) i n s = ntb_route_cleanup_loop D i n s" for i n s
    using cleanup_loop_cong [of D i n s _ "mute D"] cleanup_loop_cong [of "mute D" i n s _ D]
    by (cases "ntb_route_cleanup_loop D i n s"; cases "ntb_route_cleanup_loop (mute D) i n s")
      (simp_all add: mute_simps)
  then show ?thesis by (simp add: fun_eq_iff ntb_route_cleanup_def)
qed

lemma mute_vrf_del [mute_simps]: "ntb_vrf_del (mute D) = ntb_vrf_del D"
  unfolding fun_eq_iff ntb_vrf_del_def ntb_vrf_dp_dtor_def mute_sel mute_simps by simp

lemma mute_init [mute_simps]:
  "ntb_vrf_route_init (mute D) = ntb_vrf_route_init D" "ntb_nhop_init (mute D) = ntb_nhop_init D"
  "ntb_tunnel_map_vrf_init (mute D) = ntb_tunnel_map_vrf_init D" "ntb_neigh_init (mute D) = ntb_neigh_init D"
  unfolding fun_eq_iff ntb_vrf_route_init_def ntb_nhop_init_def ntb_tunnel_map_vrf_init_def ntb_neigh_init_def
    mute_sel mute_simps by simp_all

lemma mute_init_loop [mute_simps]: "vrf_init_loop (mute D) bh js t s = vrf_init_loop D bh js t s"
  by (induction js arbitrary: t s) (simp_all add: mute_simps)

lemma mute_tables_init [mute_simps]: "tables_init (mute D) = tables_init D"
  unfolding fun_eq_iff tables_init_def ntb_vrf_init_def mute_sel mute_simps by simp

subsection \<open>The equivalence\<close>

lemma neigh_add_zdw_eq: "ntb_neigh_add_zdw D i gw old s = ntb_neigh_add (mute D) i gw old s"
  unfolding ntb_neigh_add_zdw_def ntb_neigh_add_def mute_sel mute_simps
  by (auto simp: Let_def put_neigh_def free_neigh_def ol_neigh_entry_zero_def ENOENT_def
      intro!: arg_cong [where f = "bindR _"] ext split: option.split prod.split)

lemma neigh_add_ret: "ntb_neigh_add D i gw old s = Inr (r, oid, s') \<Longrightarrow> \<not> r < 0 \<Longrightarrow> r = 0"
  by (auto simp: ntb_neigh_add_def bindR_eq_Inr ENOMEM_def EFAULT_def Let_def
      split: option.splits prod.splits if_splits)

lemma nhop_neigh_add_zdw_eq: "nhop_neigh_add_zdw D i n s = nhop_neigh_add (mute D) i n s"
  by (simp add: nhop_neigh_add_zdw_def nhop_neigh_add_def neigh_add_zdw_eq)

lemma nhop_neigh_add_ret: "nhop_neigh_add D i n s = Inr (r, oid, s') \<Longrightarrow> \<not> r < 0 \<Longrightarrow> r = 0"
  by (auto simp: nhop_neigh_add_def neigh_add_ret split: if_splits)

lemma nhop_obj_create_zdw_eq: "nhop_obj_create_zdw D i e s = nhop_obj_create (mute D) i e s"
  unfolding nhop_obj_create_zdw_def nhop_obj_create_def mute_simps
  by (auto simp: Let_def nhop_neigh_add_zdw_eq put_nhop_def dest: nhop_neigh_add_ret
      intro!: bindR_cong split: option.split prod.split)

lemma route_insert_zdw_eq: "ntb_route_nhop_insert_zdw D i pfx e rt s = ntb_route_nhop_insert (mute D) i pfx e rt s"
proof -
  have new: "route_nhop_insert_new_zdw D i pfx e rt old s = route_nhop_insert_new (mute D) i pfx e rt old s" for old
    unfolding route_nhop_insert_new_zdw_def route_nhop_insert_new_def nhop_obj_create_zdw_eq mute_simps ..
  show ?thesis
    unfolding ntb_route_nhop_insert_zdw_def ntb_route_nhop_insert_def new mute_sel mute_simps ..
qed

lemma ctl_run_zdw_eq: "ctl_run_zdw D req s = ctl_run (mute D) req s"
  by (cases req) (simp_all add: ctl_run_zdw_def ctl_run_def route_insert_zdw_eq neigh_add_zdw_eq
      neigh_acquire_def neigh_release_def mute_simps)


subsection \<open>The invariant of the tables\<close>

lemma mute_views [mute_simps]:
  "rib_map (mute D) = rib_map D" "nhop_map (mute D) = nhop_map D" "neigh_map (mute D) = neigh_map D"
  "tunnel_map (mute D) = tunnel_map D"
  by (simp_all add: fun_eq_iff rib_map_def nhop_map_def neigh_map_def tunnel_map_def)

lemma mute_wf [mute_simps]:
  "neigh_wf (mute D) = neigh_wf D" "rib_wf (mute D) = rib_wf D" "nhop_wf (mute D) = nhop_wf D"
  "rib_counts (mute D) = rib_counts D" "nhop_users (mute D) = nhop_users D" "fib_inv (mute D) = fib_inv D"
  "tunnel_wf (mute D) = tunnel_wf D" "route_view (mute D) = route_view D"
  by (simp_all add: fun_eq_iff neigh_wf_def rib_wf_def nhop_wf_def rib_counts_def nhop_users_def fib_inv_def
      tunnel_wf_def route_view_def mute_simps)

lemma mute_inv [mute_simps]: "agent_inv (mute D) = agent_inv D"
  by (simp add: fun_eq_iff agent_inv_def route_inv_def mute_simps)

lemma mute_ctl_ok [mute_simps]: "ctl_ok (mute D) fam req s = ctl_ok D fam req s"
  by (cases req) (simp_all add: mute_simps)

lemma mute_env:
  assumes "dpdk_iter_env D fb_used fib_routes fib_default hash_slots"
  shows "dpdk_iter_env (mute D) fb_used fib_routes fib_default hash_slots"
  using assms by (simp add: dpdk_iter_env_def dpdk_env_def)

text \<open>Every admissible request returns on the older agent as well, and keeps the invariant.\<close>

lemma ctl_step_zdw:
  assumes "dpdk_iter_env D fb_used fib_routes fib_default hash_slots" and "\<not> assert_on D"
    and "agent_inv D fb_used fib_routes fib_default fam s" and "ctl_ok D fam req s"
  shows "\<exists>r s'. ctl_run_zdw D req s = Some (Inr (r, s')) \<and> agent_inv D fb_used fib_routes fib_default fam s'"
  using dpdk_iter_env.ctl_step [OF mute_env [OF assms(1)], of fam s req] assms(2-)
  by (simp add: mute_simps ctl_run_zdw_eq)

end
