(* ===== verification/Ntb_Zdw_Neigh.thy ===== *)
theory Ntb_Zdw_Neigh
  imports Ntb_Zdw
begin

text \<open>
  What the older agent never adds to its tables: no request adds a neighbour, and none adds a next
  hop with a gateway. All operations but the insertion are shown to add nothing at all (\<open>quiet\<close>).
\<close>

text \<open>No neighbour is added, and no next hop with a gateway that none had before.\<close>

definition quiet :: "('t, 'b, 'f, 'h) env \<Rightarrow> ('t, 'b, 'f, 'h) agent \<Rightarrow> ('t, 'b, 'f, 'h) agent \<Rightarrow> bool" where
  "quiet D s s' \<longleftrightarrow> dom (neigh_map D s') \<subseteq> dom (neigh_map D s)
    \<and> (\<forall>n' \<in> ran (nhop_heap s'). \<exists>n \<in> ran (nhop_heap s). nh_gateway n' = nh_gateway n)"

lemma quiet_refl [simp, intro]: "quiet D s s"
  by (auto simp: quiet_def)

lemma quiet_trans [trans]: "quiet D s s' \<Longrightarrow> quiet D s' s'' \<Longrightarrow> quiet D s s''"
  unfolding quiet_def by (metis subset_trans)

lemma quiet_same:
  "ol_neigh_hash_tbl s' = ol_neigh_hash_tbl s \<Longrightarrow> nhop_heap s' = nhop_heap s \<Longrightarrow> quiet D s s'"
  by (auto simp: quiet_def neigh_map_def)

named_theorems quiet_intros

lemma quiet_chain:
  assumes "ends_in (\<lambda>(r, s'). quiet D s s') m" and "quiet D s0 s" and "\<And>r s'. quiet D s0 s' \<Longrightarrow> P (r, s')"
  shows "ends_in P m"
  using assms quiet_trans unfolding ends_in_def by fast

lemma quiet_res_create [quiet_intros]:
  "ends_in (\<lambda>(r, s'). quiet D s s') (fib_res_obj_create D ns num old rt s)"
  by (auto simp: fib_res_obj_create_def fib_res_id_alloc_def Let_def store_res_def
      intro!: ends_inI quiet_same split: prod.split)

lemma quiet_res_delete [quiet_intros]: "ends_in (\<lambda>(r, s'). quiet D s s') (fib_res_obj_delete D rid s)"
  by (auto simp: fib_res_obj_delete_def fib_res_id_free_def Let_def intro!: ends_inI quiet_same split: prod.split)

lemma quiet_prefix_update [quiet_intros]: "ends_in (\<lambda>(r, s'). quiet D s s') (rt_prefix_obj_update D i pfx a b s)"
  by (auto simp: rt_prefix_obj_update_def Let_def upd_dp_def intro!: ends_inI quiet_same split: prod.split)

lemma quiet_prefix_delete [quiet_intros]: "ends_in (\<lambda>(r, s'). quiet D s s') (rt_prefix_obj_delete D i pfx a s)"
  by (auto simp: rt_prefix_obj_delete_def Let_def upd_dp_def intro!: ends_inI quiet_same split: prod.split)

text \<open>The state of an agent that never learnt a neighbour.\<close>

definition no_gateway :: "('t, 'b, 'f, 'h) env \<Rightarrow> ('t, 'b, 'f, 'h) agent \<Rightarrow> bool" where
  "no_gateway D s \<longleftrightarrow> neigh_map D s = Map.empty \<and> (\<forall>n \<in> ran (nhop_heap s). nh_gateway n = 0)"

lemma no_gateway_quiet: "no_gateway D s \<Longrightarrow> quiet D s s' \<Longrightarrow> no_gateway D s'"
  by (auto simp: no_gateway_def quiet_def)

context dpdk_env
begin

lemma quiet_neigh_del [quiet_intros]: "ends_in (\<lambda>(r, s'). quiet D s s') (ntb_neigh_del D i gw s)"
  by (auto simp: ntb_neigh_del_def Let_def quiet_def neigh_map_def put_neigh_def free_neigh_def
      upd_dp_def del_lookup [OF surjective_pairing] intro!: ends_inI split: option.split)

lemma quiet_put_nhop: "nhop_heap s p = Some n \<Longrightarrow> nh_gateway n' = nh_gateway n \<Longrightarrow> quiet D s (put_nhop p n' s)"
  by (auto simp: quiet_def neigh_map_def put_nhop_def ran_def split: if_splits)

lemma quiet_free_nhop: "quiet D s (free_nhop p s)"
  by (auto simp: quiet_def neigh_map_def free_nhop_def ran_def)

lemma load_InrD: "load h p = Inr x \<Longrightarrow> h p = Some x"
  by (auto simp: load_def split: option.splits if_splits)

lemma quiet_nhop_neigh_del: "ends_in (\<lambda>(r, s'). quiet D s s') (nhop_neigh_del D i n r s)"
  using quiet_neigh_del [of s i "nh_gateway n"] by (auto simp: nhop_neigh_del_def ends_in_def bindR_eq_Inr split: if_splits)

lemma quiet_nhop_delete [quiet_intros]: "ends_in (\<lambda>(r, s'). quiet D s s') (nhop_obj_delete D i p s)"
proof -
  have "quiet D s (free_nhop p s3)"
    if "nhop_heap s p = Some n0" "nhop_neigh_del D i (n0\<lparr>ref_count := ref_count n0 - 1\<rparr>) r
      ((put_nhop p (n0\<lparr>ref_count := ref_count n0 - 1\<rparr>) s)\<lparr>g_nhop_hash_tbl := t\<rparr>) = Inr (r', s3)" for n0 r t r' s3
  proof -
    have "quiet D s (put_nhop p (n0\<lparr>ref_count := ref_count n0 - 1\<rparr>) s)" by (rule quiet_put_nhop [OF that(1)]) simp
    also have "quiet D \<dots> ((put_nhop p (n0\<lparr>ref_count := ref_count n0 - 1\<rparr>) s)\<lparr>g_nhop_hash_tbl := t\<rparr>)"
      by (rule quiet_same) simp_all
    also have "quiet D \<dots> s3" using ends_inD [OF quiet_nhop_neigh_del that(2)] by simp
    also have "quiet D s3 (free_nhop p s3)" by (rule quiet_free_nhop)
    finally show ?thesis .
  qed
  then show ?thesis
    by (auto simp: nhop_obj_delete_def Let_def intro!: ends_inI quiet_put_nhop dest: load_InrD split: prod.split)
qed

lemma quiet_delete_all: "ends_in (quiet D s) (nhop_delete_all D i ns js s)"
proof (induction js arbitrary: s)
  case (Cons j js)
  then show ?case
    using quiet_nhop_delete by (auto simp: ends_in_def bindR_eq_Inr split: if_splits) (blast intro: quiet_trans)+
qed simp

lemma quiet_route_delete [quiet_intros]: "ends_in (\<lambda>(r, s'). quiet D s s') (ntb_route_delete D i pfx s)"
  using quiet_prefix_delete [of D s i pfx] quiet_res_delete [of D] quiet_delete_all
  by (auto simp: ntb_route_delete_def ends_in_def bindR_eq_Inr Let_def split: option.splits if_splits)
    (blast intro: quiet_trans)+

lemma quiet_nhop_route_delete [quiet_intros]:
  "ends_in (\<lambda>(r, s'). quiet D s s') (ntb_route_nhop_delete D i pfx e rt s)"
proof -
  note st = quiet_intros [THEN quiet_chain [where ?s0.0 = s]]
  note rd = ends_inI [of "load_res s p" for s p] ends_inI [of "mpath_index ms p js" for ms p js]
    ends_inI [of "mpath_copy_others ms p js n ns" for ms p js n ns] ends_inI [of "read_at ms n" for ms n]
  show ?thesis by (auto simp: ntb_route_nhop_delete_def Let_def intro!: st rd split: option.split)
qed

lemma quiet_cleanup_loop:
  "ntb_route_cleanup_loop E i iter s = Some y \<Longrightarrow> E = D \<longrightarrow> ends_in (quiet D s) y"
proof (rule ntb_route_cleanup_loop.raw_induct [where P = "\<lambda>E i iter s y. E = D \<longrightarrow> ends_in (quiet D s) y", rotated],
    assumption, intro impI)
  fix E :: "('t, 'b, 'f, 'h) env" and i iter y and s :: "('t, 'b, 'f, 'h) agent" and loop
  let ?round = "\<lambda>k. bindR (get_dp s i) (\<lambda>v. case k of RibKey rk \<Rightarrow>
      if vrf_id v = rk_vrf_id rk then bindR (ntb_route_delete E i rk s) (\<lambda>(_, s'). Inr s') else Inr s
    | _ \<Rightarrow> Inr s)"
  assume ih: "\<And>E i iter s y. loop E i iter s = Some y \<Longrightarrow> E = D \<longrightarrow> ends_in (quiet D s) y" and E: "E = D"
    and body: "(case rte_hash_iterate (hash E) (ntb_rib_hash_tbl s) iter of None \<Rightarrow> Some (Inr s)
      | Some (k, _, iter') \<Rightarrow> (case ?round k of Inl f \<Rightarrow> Some (Inl f) | Inr s' \<Rightarrow> loop E i iter' s')) = Some y"
  show "ends_in (quiet D s) y"
  proof (cases "rte_hash_iterate (hash E) (ntb_rib_hash_tbl s) iter")
    case None
    then show ?thesis using body by auto
  next
    case (Some x)
    then obtain k v iter' where x: "x = (k, v, iter')" by (cases x) auto
    have round: "ends_in (quiet D s) (?round k)"
      using quiet_route_delete [of s i] by (cases k) (auto simp: E ends_in_def bindR_eq_Inr split: if_splits)
    show ?thesis
    proof (cases "?round k")
      case (Inl f)
      then have "y = Inl f" using body Some x by simp
      then show ?thesis by simp
    next
      case (Inr s')
      then have "loop E i iter' s' = Some y" using body Some x by simp
      then show ?thesis using ih E ends_inD [OF round Inr] by (blast intro: ends_in_mono quiet_trans)
    qed
  qed
qed

lemma quiet_tunnel_cleanup: "ends_in (quiet D s) (tunnel_cleanup_loop i ps s)"
proof (induction ps arbitrary: s)
  case (Cons p ps)
  have "quiet D s (upd_dp i (\<lambda>v. v\<lparr>tunnel_rmap := ps, tunnel_cnt := tunnel_cnt v - 1\<rparr>) (free_tunnel p s))"
    by (rule quiet_same) (simp_all add: upd_dp_def free_tunnel_def)
  then show ?case using Cons by (auto intro!: ends_inI dest: ends_inD quiet_trans)
qed simp

lemma quiet_dtor:
  assumes "ntb_vrf_dp_dtor D i s = Some m"
  shows "ends_in (\<lambda>(r, s'). quiet D s s') m"
proof -
  obtain c where c: "ntb_route_cleanup_loop D i 0 s = Some c"
    and m: "m = bindR (bindR c (\<lambda>s'. Inr (0 :: int, s'))) (\<lambda>(_, s1). bindR (ntb_tunnel_map_cleanup i s1) (\<lambda>(_, s2).
      Inr (0, upd_dp i (\<lambda>v. v\<lparr>internal_ip := 0\<rparr>) s2)))"
    using assms by (auto simp: ntb_vrf_dp_dtor_def ntb_route_cleanup_def)
  have ip: "quiet D s2 (upd_dp i (\<lambda>v. v\<lparr>internal_ip := 0\<rparr>) s2)" for s2
    by (rule quiet_same) (simp_all add: upd_dp_def)
  have "ends_in (\<lambda>(r, s'). quiet D s1 s') (ntb_tunnel_map_cleanup i s1)" for s1
    using quiet_tunnel_cleanup by (auto simp: ntb_tunnel_map_cleanup_def intro!: ends_inI dest: ends_inD)
  from quiet_chain [OF this, where ?s0.0 = s] show ?thesis
    using quiet_cleanup_loop [OF c] quiet_trans [OF _ ip] by (auto simp: m elim!: ends_in_mono)
qed

lemma quiet_vrf_del:
  assumes "ntb_vrf_del D n s = Some (Inr (r, s'))"
  shows "quiet D s s'"
proof (cases "vrf_find (g_ntb_vrfs s) 0 n")
  case (Inr found)
  show ?thesis
  proof (cases found)
    case (Some i)
    then obtain m where m: "ntb_vrf_dp_dtor D i s = Some m" using assms Inr by (auto simp: ntb_vrf_del_def)
    have "quiet D s (s1\<lparr>g_ntb_vrfs := vs, g_ntb_vrf_n := c\<rparr>)" if "m = Inr (x, s1)" for x s1 vs c
      using ends_inD [OF quiet_dtor [OF m] that] quiet_trans quiet_same [of "s1\<lparr>g_ntb_vrfs := vs, g_ntb_vrf_n := c\<rparr>" s1]
      by fastforce
    then show ?thesis using assms Inr Some m by (auto simp: ntb_vrf_del_def bindR_eq_Inr Let_def split: if_splits)
  qed (use assms Inr in \<open>simp add: ntb_vrf_del_def\<close>)
qed (use assms in \<open>simp add: ntb_vrf_del_def\<close>)

text \<open>A new neighbour is taken back at once, and the call fails.\<close>

lemma neigh_add_zdw_fails:
  assumes "neigh_map D s = Map.empty"
  shows "ends_in (\<lambda>(r, oid, s'). r < 0 \<and> neigh_map D s' = Map.empty \<and> nhop_heap s' = nhop_heap s)
    (ntb_neigh_add_zdw D i gw old s)"
proof -
  have k: "rte_hash_lookup_data (hash D) (ol_neigh_hash_tbl s) = Map.empty"
    using assms by (simp add: neigh_map_def)
  have "rte_hash_lookup_data (hash D) (snd (rte_hash_del_key (hash D) t k')) = Map.empty"
    if "rte_hash_add_key_data (hash D) (ol_neigh_hash_tbl s) k' p = (r, t)" "\<not> r < 0" for k' p r t
    using add_del_lookup [OF _ that(1) _ surjective_pairing] that(2) k by simp
  then show ?thesis
    using add_fail k by (auto simp: ntb_neigh_add_zdw_def Let_def rte_zmalloc_def neigh_map_def put_neigh_def free_neigh_def
        ENOENT_def ENOMEM_def EFAULT_def intro!: ends_inI split: prod.split)
qed

text \<open>So the next hop of a gateway is never created: the steps after the allocation, then the whole.\<close>

lemma nhop_build_zdw_no_gateway:
  fixes e :: fib_nhop_encap_data and p q :: addr and t :: 't
  assumes ng: "no_gateway D s"
  defines "s3 \<equiv> (put_nhop p (fib_nhop_new e) (s\<lparr>next_addr := q\<rparr>))\<lparr>g_nhop_hash_tbl := t\<rparr>"
  shows "ends_in (\<lambda>(r, p, s'). no_gateway D s' \<and> (en_gateway e \<noteq> 0 \<longrightarrow> r < 0))
    (bindR (nhop_neigh_add_zdw D i (fib_nhop_new e) s3) (\<lambda>(ret, neigh_oid, s4).
      if ret < 0 then nhop_rollback4 D k p ret s4
      else if ret < 0 then nhop_rollback3 D i (nh_gateway (fib_nhop_new e)) k p NTB_ROUTE_NH_ALLOC_OID_FAIL
        (put_nhop p ((fib_nhop_new e)\<lparr>nh_neigh_oid := neigh_oid\<rparr>) s4)
      else nhop_obj_ref p ret (put_nhop p ((fib_nhop_new e)\<lparr>nh_neigh_oid := neigh_oid, nh_oid := 0\<rparr>)
        (put_nhop p ((fib_nhop_new e)\<lparr>nh_neigh_oid := neigh_oid\<rparr>) s4))))"
proof (cases "en_gateway e = 0")
  case True
  then have eq: "nhop_neigh_add_zdw D i (fib_nhop_new e) s3 = Inr (0, nh_neigh_oid (fib_nhop_new e), s3)"
    by (simp add: nhop_neigh_add_zdw_def fib_nhop_new_def IP4_ADDR_IS_ZERO_def)
  show ?thesis
    using ng True unfolding eq
    by (auto simp: s3_def nhop_obj_ref_def put_nhop_def fib_nhop_new_def no_gateway_def neigh_map_def ran_def
        intro!: ends_inI dest!: load_InrD)
next
  case False
  then have eq: "nhop_neigh_add_zdw D i (fib_nhop_new e) s3 = ntb_neigh_add_zdw D i (en_gateway e) 0 s3"
    by (simp add: nhop_neigh_add_zdw_def fib_nhop_new_def IP4_ADDR_IS_ZERO_def)
  have "no_gateway D (s'\<lparr>g_nhop_hash_tbl := t', nhop_heap := (nhop_heap s)(p := None)\<rparr>)"
    if "neigh_map D s' = Map.empty" for s' t'
    using ng that by (auto simp: no_gateway_def neigh_map_def ran_def)
  then have roll: "ends_in (\<lambda>(r, p, s'). no_gateway D s' \<and> r < 0) (nhop_rollback4 D k p r s')"
    if "r < 0" "neigh_map D s' = Map.empty" "nhop_heap s' = nhop_heap s3" for r s'
    using that by (simp add: nhop_rollback4_def nhop_rollback5_def free_nhop_def put_nhop_def s3_def)
  have empty: "neigh_map D s3 = Map.empty" using ng by (simp add: s3_def no_gateway_def neigh_map_def put_nhop_def)
  show ?thesis
    unfolding eq ends_in_simps
    by (rule ends_in_mono [OF neigh_add_zdw_fails [OF empty]]) (use roll in \<open>fastforce elim!: ends_in_mono\<close>)
qed

lemma nhop_create_zdw_no_gateway:
  assumes ng: "no_gateway D s" and wf: "nhop_wf D refs s"
  shows "ends_in (\<lambda>(r, p, s'). no_gateway D s' \<and> (en_gateway e \<noteq> 0 \<longrightarrow> r < 0)) (nhop_obj_create_zdw D i e s)"
proof (cases "nhop_map D s (ntb_nhop_hash_key e)")
  case (Some p)
  have "linked (nhop_map D s) (nhop_heap s) (next_addr s)" using wf by (simp add: nhop_wf_def)
  from linked_load [OF this Some] obtain n where n: "nhop_heap s p = Some n" "p \<noteq> 0" by blast
  then have "en_gateway e = nh_gateway n" using wf Some by (auto simp: nhop_wf_def ntb_nhop_hash_key_def)
  moreover have "nh_gateway n = 0" using ng n by (auto simp: no_gateway_def ran_def)
  moreover have "no_gateway D (put_nhop p (n\<lparr>ref_count := ref_count n + 1\<rparr>) s)"
    using no_gateway_quiet [OF ng quiet_put_nhop [OF n(1)]] by simp
  ultimately show ?thesis
    using Some n by (simp add: nhop_obj_create_zdw_def nhop_map_def nhop_obj_ref_def)
next
  case None
  let ?s2 = "put_nhop (next_addr s) (fib_nhop_new e) (s\<lparr>next_addr := Suc (next_addr s)\<rparr>)"
  have "no_gateway D (s\<lparr>next_addr := Suc (next_addr s)\<rparr>)"
    "no_gateway D (free_nhop (next_addr s) (?s2\<lparr>g_nhop_hash_tbl := t\<rparr>))" for t
    using ng by (auto simp: no_gateway_def neigh_map_def free_nhop_def put_nhop_def ran_def)
  moreover obtain r t where "rte_hash_add_key_data (hash D) (g_nhop_hash_tbl ?s2) (ntb_nhop_hash_key e) (next_addr s) = (r, t)"
    by force
  ultimately show ?thesis
    using None nhop_build_zdw_no_gateway [OF ng, where e = e and t = t and p = "next_addr s" and q = "Suc (next_addr s)" and k = "ntb_nhop_hash_key e"]
    unfolding nhop_obj_create_zdw_def Let_def
    by (simp add: nhop_map_def rte_zmalloc_def nhop_rollback5_def NTB_COMM_NOMEM_val EFAULT_def)
qed

text \<open>The insertion, and with it all requests.\<close>

lemma quiet_insert_rollbacks [quiet_intros]:
  "ends_in (\<lambda>(r, s'). quiet D s s') (insert_rollback2 D i p ret s)"
  "ends_in (\<lambda>(r, s'). quiet D s s') (insert_rollback1 D i p rid ret s)"
proof -
  note st = quiet_intros [THEN quiet_chain [where ?s0.0 = s]]
  show "ends_in (\<lambda>(r, s'). quiet D s s') (insert_rollback2 D i p ret s)"
    by (auto simp: insert_rollback2_def intro!: st)
  show "ends_in (\<lambda>(r, s'). quiet D s s') (insert_rollback1 D i p rid ret s)"
    by (auto simp: insert_rollback1_def insert_rollback2_def intro!: st)
qed

lemma insert_zdw_no_gateway:
  assumes ng: "no_gateway D s" and inv: "route_inv D fb_used s" and k: "rib_map D s (RibKey pfx) = None"
  shows "ends_in (\<lambda>(r, s'). no_gateway D s' \<and> (en_gateway e \<noteq> 0 \<longrightarrow> r < 0))
    (ntb_route_nhop_insert_zdw D i pfx e rt s)"
proof -
  define rest where "rest = (\<lambda>p s1. bindR (bindR (write_at local_nhops 0 p) (\<lambda>ns. Inr (1, ns))) (\<lambda>(num, f_nhops).
    bindR (fib_res_obj_create D f_nhops num None rt s1) (\<lambda>(f_res_id_new, s2).
    if f_res_id_new < 0 then insert_rollback2 D i p f_res_id_new s2
    else bindR (rt_prefix_obj_update D i pfx (- 1) f_res_id_new s2) (\<lambda>(ret, s3).
      if ret < 0 then insert_rollback1 D i p f_res_id_new ret s3 else Inr (ret, s3)))))"
  have eq: "ntb_route_nhop_insert_zdw D i pfx e rt s = bindR (nhop_obj_create_zdw D i e s)
      (\<lambda>(ret, p, s1). if ret < 0 then Inr (ret, s1) else rest p s1)"
    using k unfolding ntb_route_nhop_insert_zdw_def route_nhop_insert_new_zdw_def Let_def rib_map_def rest_def
    by (simp only: option.case)
  have "ends_in (\<lambda>(r, s'). quiet D s1 s') (rest p s1)" for p s1
  proof -
    note st = quiet_intros [THEN quiet_chain [where ?s0.0 = s1]]
    show ?thesis by (auto simp: rest_def intro!: st ends_inI [of "write_at ns n p" for ns n p])
  qed
  then have rest: "ends_in (\<lambda>(r, s'). no_gateway D s') (rest p s1)" if "no_gateway D s1" for p s1
    using no_gateway_quiet [OF that] by (fastforce elim!: ends_in_mono)
  have "nhop_wf D (nhop_users D s) s" using inv by (simp add: route_inv_def)
  from nhop_create_zdw_no_gateway [OF ng this, of e i] show ?thesis
    using rest unfolding eq by (auto elim!: ends_in_mono split: if_splits)
qed

lemma insert_zdw_existing:
  assumes inv: "route_inv D fb_used s" and k: "rib_map D s (RibKey pfx) \<noteq> None"
    and rt: "rt \<noteq> RT_MAX" "rt = RT_MROUTE \<longrightarrow> route_view D s pfx = None"
  shows "\<exists>r < 0. ntb_route_nhop_insert_zdw D i pfx e rt s = Inr (r, s)"
proof -
  have env: "dpdk_env (mute D) fb_used fib_routes fib_default" using dpdk_env_axioms by (simp add: dpdk_env_def)
  obtain rt' gw ti where v: "route_view D s pfx = Some (rt', gw, ti)"
    using route_view_live [OF inv, of pfx] k by auto
  then have "rt = RT_DEFAULT" using rt by (cases rt) auto
  moreover have "route_inv (mute D) fb_used s" "route_view (mute D) s pfx = Some (rt', gw, ti)"
    using inv v by (simp_all add: route_inv_def mute_simps)
  from dpdk_env.insert_existing [OF env this, of i e rt] have "ntb_route_nhop_insert_zdw D i pfx e rt s =
      Inr (if rt' \<noteq> rt then NTB_IPV4_ROUTETYPE_NO_SAME else NTB_ROUTE_NEXTHOP_ECMP_NOSPACE, s)"
    using calculation by (simp add: route_insert_zdw_eq)
  ultimately show ?thesis by (simp add: ntb_codes)
qed

lemma route_request_no_gateway:
  assumes "no_gateway D s" and "agent_inv D fb_used fib_routes fib_default fam s"
    and "ctl_ok D fam (RouteInsert i pfx e rt) s"
  shows "ends_in (\<lambda>(r, s'). no_gateway D s' \<and> (en_gateway e \<noteq> 0 \<longrightarrow> r < 0))
    (ntb_route_nhop_insert_zdw D i pfx e rt s)"
proof (cases "rib_map D s (RibKey pfx)")
  case None
  then show ?thesis using insert_zdw_no_gateway assms by (simp add: agent_inv_def)
next
  case (Some rid)
  then show ?thesis using insert_zdw_existing [of s pfx rt i e] assms by (auto simp: agent_inv_def)
qed

lemma quiet_vrf_ops:
  "ends_in (\<lambda>(r, s'). quiet D s s') (ntb_vrf_add n s)"
  "ends_in (\<lambda>(r, s'). quiet D s s') (ntb_vrf_intip_set n ip s)"
  "ends_in (\<lambda>(r, s'). quiet D s s') (ntb_vrf_rmac_set n m s)"
  "ends_in (\<lambda>(r, s'). quiet D s s') (ntb_vrf_rmac_unset n m s)"
  "ends_in (\<lambda>(r, s'). quiet D s s') (ntb_tunnel_map_vrf D n ty tid attr s)"
  by (auto simp: ntb_vrf_add_def ntb_vrf_intip_set_def ntb_vrf_rmac_set_def ntb_vrf_rmac_unset_def
      ntb_tunnel_map_vrf_def rte_zmalloc_def put_tunnel_def free_tunnel_def upd_dp_def Let_def
      intro!: ends_inI quiet_same split: option.split prod.split)

lemma ctl_run_zdw_no_gateway:
  assumes ng: "no_gateway D s" and inv: "agent_inv D fb_used fib_routes fib_default fam s"
    and ok: "ctl_ok D fam req s" and run: "ctl_run_zdw D req s = Some (Inr (r, s'))"
  shows "no_gateway D s'"
proof -
  have "no_gateway D s'" if "m = Inr (r, s')" "ends_in (\<lambda>(r, s'). quiet D s s') m" for m
    using ends_inD [OF that(2,1)] no_gateway_quiet [OF ng] by simp
  note q = this [OF _ quiet_vrf_ops(1)] this [OF _ quiet_vrf_ops(2)] this [OF _ quiet_vrf_ops(3)]
    this [OF _ quiet_vrf_ops(4)] this [OF _ quiet_vrf_ops(5)] this [OF _ quiet_route_delete]
    this [OF _ quiet_nhop_route_delete] this [OF _ quiet_neigh_del]
  show ?thesis
  proof (cases req)
    case (VrfDel n)
    then show ?thesis using run no_gateway_quiet [OF ng] quiet_vrf_del by (simp add: ctl_run_zdw_def)
  next
    case (RouteInsert i pfx e rt)
    then show ?thesis
      using run ends_inD [OF route_request_no_gateway [OF ng inv]] ok by (fastforce simp: ctl_run_zdw_def)
  next
    case (NeighAdd i gw)
    then show ?thesis
      using run ng ends_inD [OF neigh_add_zdw_fails, of s i gw 0]
      by (fastforce simp: ctl_run_zdw_def no_gateway_def bindR_eq_Inr)
  qed (use run q in \<open>simp_all add: ctl_run_zdw_def\<close>)
qed

end

end
