(* ===== verification/Ntb_Gateway.thy ===== *)
theory Ntb_Gateway
  imports Ntb_Pmd_Props Ntb_Route_Props Ntb_Zdw_Neigh
begin

text \<open>
  The agent of \<^verbatim>\<open>agent/zdw_agent\<close> as a whole: requests of its control plane and packets in any order,
  under the dataplane lock of \<^verbatim>\<open>netio.c\<close>. A request holds the lock for writing (\<^verbatim>\<open>ntb_netio_write_lock\<close>), the receive
  handler of \<^verbatim>\<open>pmd.c\<close> holds it for reading.
\<close>

subsection \<open>The contract of the lock\<close>

text \<open>A free lock can be taken for reading or writing; given back, it is free again.\<close>

locale rwlock =
  fixes L :: "'l rwlock_api" and free :: "'l \<Rightarrow> bool"
  assumes read_free: "free l \<Longrightarrow> \<exists>l1 l2. rte_rwlock_read_lock L l = Some l1 \<and> rte_rwlock_read_unlock L l1 = Some l2 \<and> free l2"
    and write_free: "free l \<Longrightarrow> \<exists>l1 l2. rte_rwlock_write_lock L l = Some l1 \<and> rte_rwlock_write_unlock L l1 = Some l2 \<and> free l2"
begin

lemma write_section:
  assumes "free l"
  shows "\<exists>l1 l2. ntb_netio_write_lock L l = Some l1 \<and> ntb_netio_write_unlock L l1 = Some l2 \<and> free l2"
  using write_free [OF assms] by (simp add: ntb_netio_write_lock_def ntb_netio_write_unlock_def)

text \<open>The receive handler comes back with a free lock when the packet path returns.\<close>

lemma netio_rx_section:
  assumes free: "free l" and ctx: "dp_locker ctx"
    and path: "\<And>pkt n m. alloc = Some pkt \<Longrightarrow> recv (pk_mbuf pkt) = (n, m) \<Longrightarrow>
      \<exists>x p'. tunnel_rcv D M s (pkt\<lparr>pk_md := ntb_mbuf_metadata_zero, pk_mbuf := set_pkt_len M m n\<rparr>)
        (if n < 0 then p\<lparr>loopbreak := True\<rparr> else p) = Inr (x, p') \<and> Q p'" and skip: "Q p"
  shows "\<exists>l' p'. netio_rx D M L alloc recv ctx s l p = Inr (l', p') \<and> free l' \<and> Q p'"
proof (cases alloc)
  case None
  then show ?thesis using free skip by (simp add: netio_rx_def)
next
  case (Some pkt)
  obtain n m where r: "recv (pk_mbuf pkt) = (n, m)" by force
  obtain l1 l2 where "rte_rwlock_read_lock L l = Some l1" "rte_rwlock_read_unlock L l1 = Some l2" "free l2"
    using read_free [OF free] by blast
  with path [OF Some r] show ?thesis using ctx by (auto simp: netio_rx_def Some r Let_def)
qed

end

subsection \<open>Runs\<close>

text \<open>
  What arrives: the pool hands out a buffer or none, and the received bytes form a frame with all
  headers. \<open>gateway\<close> holds of the tables, the lock and the globals of the packet thread after any
  interleaving of admissible requests and such packets.
\<close>

definition delivered ::
  "'m mbuf_api \<Rightarrow> ('m \<Rightarrow> bool) \<Rightarrow> ('m \<Rightarrow> u8 list) \<Rightarrow> 'm packet option \<Rightarrow> ('m \<Rightarrow> int \<times> 'm) \<Rightarrow> bool" where
  "delivered M ok dat alloc recv \<longleftrightarrow> (case alloc of None \<Rightarrow> True
     | Some pkt \<Rightarrow> (case recv (pk_mbuf pkt) of (n, m) \<Rightarrow>
         0 \<le> n \<and> ok (set_pkt_len M m n) \<and> frame_complete (dat (set_pkt_len M m n))))"

inductive gateway ::
  "('t, 'b, 'f, 'h) env \<Rightarrow> 'm mbuf_api \<Rightarrow> ('m \<Rightarrow> bool) \<Rightarrow> ('m \<Rightarrow> u8 list) \<Rightarrow> 'l rwlock_api \<Rightarrow> ('l \<Rightarrow> bool) \<Rightarrow>
   u8 \<Rightarrow> ntb_pmd_ctx \<Rightarrow> ('t, 'b, 'f, 'h) agent \<Rightarrow> 'l \<Rightarrow> pmd_state \<Rightarrow> bool"
  for D M ok dat L free fam ctx where
  start: "boot s \<Longrightarrow> fst (rte_fbarray_init (fbarray D) (NTB_NR_FIB_RES_ALL + 1)) = 0 \<Longrightarrow>
    tables_init D s = Inr (r, s') \<Longrightarrow> 0 \<le> r \<Longrightarrow> free l \<Longrightarrow> cur_thr_stats p \<noteq> None \<Longrightarrow>
    gateway D M ok dat L free fam ctx s' l p"
| request: "gateway D M ok dat L free fam ctx s l p \<Longrightarrow> ctl_ok D fam req s \<Longrightarrow>
    ntb_netio_write_lock L l = Some l1 \<Longrightarrow> ctl_run_zdw D req s = Some (Inr (r, s')) \<Longrightarrow>
    ntb_netio_write_unlock L l1 = Some l2 \<Longrightarrow> gateway D M ok dat L free fam ctx s' l2 p"
| packet: "gateway D M ok dat L free fam ctx s l p \<Longrightarrow> delivered M ok dat alloc recv \<Longrightarrow>
    netio_rx D M L alloc recv ctx s l p = Inr (l', p') \<Longrightarrow> gateway D M ok dat L free fam ctx s l' p'"

text \<open>
  The start of a run needs the statistics of the thread. The first copy of the agent
  (\<^verbatim>\<open>agent-bak/pmd.c\<close>) sets them to the zeroed counters of the new context; the copy that followed
  has the assignment commented out.
\<close>

definition ntb_pmd_ctx_create_bak ::
  "bool \<Rightarrow> ntb_pmd_ctx option list \<Rightarrow> pmd_state \<Rightarrow> ntb_pmd_ctx option \<times> ntb_pmd_ctx option list \<times> pmd_state" where
  "ntb_pmd_ctx_create_bak calloc_ok ctxs p =
     (let i = free_pid ctxs in
      if i \<ge> length ctxs then (None, ctxs, p)
      else if \<not> calloc_ok then (None, ctxs, p)
      else let pmd_ctx = ntb_pmd_ctx_zero\<lparr>pid := int i\<rparr>; p = p\<lparr>cur_thr_stats := Some (\<lambda>_. 0)\<rparr>
           in (Some pmd_ctx, ctxs[i := Some pmd_ctx], p))"

lemma gateway_starts_bak:
  assumes "ntb_pmd_ctx_create_bak calloc_ok ctxs p = (Some c, ctxs', p')"
    and "boot s" and "fst (rte_fbarray_init (fbarray D) (NTB_NR_FIB_RES_ALL + 1)) = 0"
    and "tables_init D s = Inr (r, s')" and "0 \<le> r" and "free l"
  shows "gateway D M ok dat L free fam ctx s' l p'"
proof (rule gateway.start)
  show "cur_thr_stats p' \<noteq> None"
    using assms(1) by (auto simp: ntb_pmd_ctx_create_bak_def Let_def split: if_splits)
qed (fact assms(2-6))+

lemma packet_section:
  assumes mb: "rte_mbuf M ok dat room" and env: "dpdk_env D fb_used fib_routes fib_default"
    and rw: "rwlock L free" and ctx: "dp_locker ctx" and inv: "agent_inv D fb_used fib_routes fib_default fam s"
    and free: "free l" and st: "cur_thr_stats p \<noteq> None" and d: "delivered M ok dat alloc recv"
  shows "\<exists>l' p'. netio_rx D M L alloc recv ctx s l p = Inr (l', p') \<and> free l' \<and> cur_thr_stats p' \<noteq> None"
proof (rule rwlock.netio_rx_section [OF rw free ctx])
  fix pkt n m
  assume "alloc = Some pkt" and "recv (pk_mbuf pkt) = (n, m)"
  then have n: "0 \<le> n" "ok (set_pkt_len M m n)" "frame_complete (dat (set_pkt_len M m n))"
    using d by (simp_all add: delivered_def)
  obtain c where "cur_thr_stats p = Some c" using st by blast
  from tunnel_rcv_returns [OF mb env inv this, of "pkt\<lparr>pk_md := ntb_mbuf_metadata_zero, pk_mbuf := set_pkt_len M m n\<rparr>"] n
  show "\<exists>x p'. tunnel_rcv D M s (pkt\<lparr>pk_md := ntb_mbuf_metadata_zero, pk_mbuf := set_pkt_len M m n\<rparr>)
      (if n < 0 then p\<lparr>loopbreak := True\<rparr> else p) = Inr (x, p') \<and> cur_thr_stats p' \<noteq> None" by simp
qed (fact st)

lemma gateway_inv:
  assumes it: "dpdk_iter_env D fb_used fib_routes fib_default hash_slots" and off: "\<not> assert_on D"
    and mb: "rte_mbuf M ok dat room" and rw: "rwlock L free" and ctx: "dp_locker ctx"
    and g: "gateway D M ok dat L free fam ctx s l p"
  shows "agent_inv D fb_used fib_routes fib_default fam s \<and> free l \<and> cur_thr_stats p \<noteq> None"
  using g
proof (induction rule: gateway.induct)
  case (start s r s' l p)
  then have "reachable D fam s'" by (intro reachable.init)
  then show ?case using dpdk_iter_env.reachable_inv [OF it off] start by blast
next
  case (request s l p req l1 r s' l2)
  then show ?case
    using ctl_step_zdw [OF it off, of fam s req] rwlock.write_section [OF rw, of l] by auto
next
  case (packet s l p alloc recv l' p')
  then show ?case
    using packet_section [OF mb dpdk_iter_env.axioms(1) [OF it] rw ctx, of fam s l p alloc recv] by auto
qed

subsection \<open>The property\<close>


text \<open>DPDK's lock is a counter: the number of readers, or -1 while it is held for writing.\<close>

definition ref_rwlock :: "int rwlock_api" where
  "ref_rwlock = \<lparr>rte_rwlock_write_lock = (\<lambda>c. if c = 0 then Some (- 1) else None),
     rte_rwlock_write_unlock = (\<lambda>c. Some (c + 1)),
     rte_rwlock_read_lock = (\<lambda>c. if c \<ge> 0 then Some (c + 1) else None),
     rte_rwlock_read_unlock = (\<lambda>c. Some (c - 1))\<rparr>"

interpretation ref_lock: rwlock ref_rwlock "\<lambda>c. c = 0"
  by unfold_locales (simp_all add: ref_rwlock_def)

definition w_ctx :: ntb_pmd_ctx where
  "w_ctx = ntb_pmd_ctx_zero\<lparr>dp_locker := True\<rparr>"

definition w_recv :: "ref_mbuf \<Rightarrow> int \<times> ref_mbuf" where
  "w_recv m = (70, m\<lparr>rm_buf := replicate 128 0 @ w_frame, rm_off := 128\<rparr>)"

lemma w_delivered: "delivered ref_mbuf_api ref_mbuf_ok ref_mbuf_dat (Some (w_packet [])) w_recv"
  by (simp add: delivered_def w_recv_def ref_mbuf_api_def ref_mbuf_ok_def ref_mbuf_dat_def w_frame_len w_frame_complete)


subsection \<open>No route through a gateway\<close>

lemma gateway_no_gateway:
  assumes it: "dpdk_iter_env D fb_used fib_routes fib_default hash_slots" and off: "\<not> assert_on D"
    and mb: "rte_mbuf M ok dat room" and rw: "rwlock L free" and ctx: "dp_locker ctx"
    and g: "gateway D M ok dat L free fam ctx s l p"
  shows "no_gateway D s"
  using g
proof (induction rule: gateway.induct)
  case (start s r s' l p)
  then have "initialised D fb_used fib_routes fib_default s'"
    using dpdk_env.tables_init_effect [OF dpdk_iter_env.axioms(1) [OF it]] by blast
  then show ?case by (simp add: no_gateway_def initialised_def)
next
  case (request s l p req l1 r s' l2)
  have "agent_inv D fb_used fib_routes fib_default fam s" using gateway_inv [OF it off mb rw ctx request(1)] by blast
  then show ?case
    using dpdk_env.ctl_run_zdw_no_gateway [OF dpdk_iter_env.axioms(1) [OF it] request.IH] request by blast
qed

lemma no_gateway_view:
  assumes "no_gateway D s" and "route_view D s key = Some (rt, gw, ti)"
  shows "gw = 0"
  using assms by (auto simp: no_gateway_def route_view_def nhop_view_def ran_def split: option.splits list.splits)

text \<open>
  C10: the older agent can never be given a route through a gateway. After any run, its neighbour
  table is empty and every route it holds has the gateway 0; inserting any other route that the
  interface admits returns a negative code and leaves the routes as they were. The call that allocated
  the id of a new neighbour is commented out, so the test after it reads the code of the lookup that
  did not find the neighbour, and the neighbour is taken back.
\<close>

theorem zdw_gateway_routes_refused:
  assumes it: "dpdk_iter_env D fb_used fib_routes fib_default hash_slots" and off: "\<not> assert_on D"
    and mb: "rte_mbuf M ok dat room" and rw: "rwlock L free" and ctx: "dp_locker ctx"
    and g: "gateway D M ok dat L free fam ctx s l p"
    and req: "ctl_ok D fam (RouteInsert i pfx e rt) s" and gw: "en_gateway e \<noteq> 0"
  shows "neigh_map D s = Map.empty \<and> (\<forall>key rt gw ti. route_view D s key = Some (rt, gw, ti) \<longrightarrow> gw = 0) \<and>
    (\<exists>r s'. ntb_route_nhop_insert_zdw D i pfx e rt s = Inr (r, s') \<and> r < 0 \<and> route_view D s' = route_view D s)"
proof -
  note env = dpdk_iter_env.axioms(1) [OF it]
  have inv: "agent_inv D fb_used fib_routes fib_default fam s" using gateway_inv [OF it off mb rw ctx g] by blast
  have ng: "no_gateway D s" by (rule gateway_no_gateway [OF it off mb rw ctx g])
  obtain r s' where run: "ntb_route_nhop_insert_zdw D i pfx e rt s = Inr (r, s')"
    using ctl_step_zdw [OF it off inv req] by (auto simp: ctl_run_zdw_def)
  then have r: "r < 0" using dpdk_env.route_request_no_gateway [OF env ng inv req] gw by (simp add: ends_in_def)
  have "route_view D s' = route_view D s"
  proof (cases "rib_map D s (RibKey pfx)")
    case None
    have "dpdk_env (mute D) fb_used fib_routes fib_default" using env by (simp add: dpdk_env_def)
    from dpdk_env.route_insert_effect [OF this, of s i pfx rt e] show ?thesis
      using None inv req run r off by (simp add: route_insert_zdw_eq agent_inv_def route_inv_def mute_simps pfx_in_def
          routes_kept_def)
  next
    case (Some rid)
    then show ?thesis using dpdk_env.insert_zdw_existing [OF env, of s pfx rt i e] inv req run by (auto simp: agent_inv_def)
  qed
  then show ?thesis using ng run r no_gateway_view [OF ng] by (auto simp: no_gateway_def)
qed

theorem zdw_gateway_routes_refused_witness:
  "\<exists>s r s'. neigh_map w_env s = Map.empty \<and>
     ntb_route_nhop_insert_zdw w_env 0 w_pfx w_nhop RT_DEFAULT s = Inr (r, s') \<and> r < 0 \<and>
     route_view w_env s' = route_view w_env s"
proof -
  obtain s where s: "tables_init w_env ref_boot = Inr (0, s)" using ref_tables_init [of False "\<lambda>_. True"] by blast
  have "gateway w_env ref_mbuf_api ref_mbuf_ok ref_mbuf_dat ref_rwlock (\<lambda>c. c = 0) 2 w_ctx s 0 (w_pmd (Some (\<lambda>_. 0)))"
    by (rule gateway.start [OF ref_boot_boot _ s]) (simp_all add: ref_fbarray_api_def)
  from zdw_gateway_routes_refused [OF ref_iter_env _ ref_mbuf.rte_mbuf_axioms ref_lock.rwlock_axioms _ this,
      of 0 w_pfx w_nhop RT_DEFAULT]
  show ?thesis by (auto simp: w_ctx_def pfx_in_def w_nhop_def NTB_NR_VRF_def)
qed

end
