(* ===== verification/Ntb_Entry_Api.thy ===== *)
theory Ntb_Entry_Api
  imports Ntb_Lookup
begin

text \<open>
  Rule download (\<^verbatim>\<open>agent/entry_api.c\<close>): one call that is meant to load the tunnel, the route, the next
  hop and the neighbour of a flow into the switch.
\<close>

text \<open>
  The initialiser of the union names three members of the same word; the last one, 0, is the one
  that stays.
\<close>

definition rule_tunnel_id :: "u32 \<Rightarrow> ntb_tunnel_id" where
  "rule_tunnel_id vni = last [vni, 0, 0]"

text \<open>
  The MAC address is written through a pointer that was never set, as soon as \<^verbatim>\<open>ntb_neigh_lookup\<close>
  finds a complete entry.
\<close>

definition neigh_lookup_copies ::
  "('t, 'b, 'f, 'h) env \<Rightarrow> u32 \<Rightarrow> u32 \<Rightarrow> ('t, 'b, 'f, 'h) agent \<Rightarrow> bool outcome" where
  "neigh_lookup_copies D vrfid gw s =
     (case rte_hash_lookup_data (hash D) (ol_neigh_hash_tbl s) (NeighKey vrfid gw) of
        None \<Rightarrow> Inr False
      | Some p \<Rightarrow> bindR (load (neigh_heap s) p) (\<lambda>n. Inr (F_arp_valid n)))"

definition shc_swTohw_rule ::
  "('t, 'b, 'f, 'h) env \<Rightarrow> u32 \<Rightarrow> u32 \<Rightarrow> u32 \<Rightarrow> int \<Rightarrow> ('t, 'b, 'f, 'h) agent
    \<Rightarrow> (int \<times> ('t, 'b, 'f, 'h) agent) outcome" where
  "shc_swTohw_rule D vni ip_src_addr ip_dst_addr flag_of_add_del s =
     bindR (ntb_tunnel_map_vrf_lookup D NTB_TUNNEL_VXLAN (rule_tunnel_id vni) flag_of_add_del s)
     (\<lambda>(vrf_dp, s1).
     bindR (rte_assert D (vrf_dp \<noteq> None)) (\<lambda>_.
     case vrf_dp of None \<Rightarrow> Inl NullDeref
     | Some i \<Rightarrow>
         bindR (ntb_route_lookup D i ip_src_addr ip_dst_addr flag_of_add_del s1) (\<lambda>(ret, f_res, s2).
         if ret < 0 then Inr (ret, s2)
         else
           bindR (get_dp s2 i) (\<lambda>v.
           bindR (load_res s2 f_res) (\<lambda>r.
           bindR (read_at (mpath r) 0) (\<lambda>q.
           bindR (load (nhop_heap s2) q) (\<lambda>n.
           bindR (neigh_lookup_copies D (of_int (vrf_id v)) (nh_gateway n) s2) (\<lambda>copies.
           if copies then Inl UninitPointer
           else
             bindR (ntb_neigh_lookup D (of_int (vrf_id v)) (nh_gateway n) [] flag_of_add_del s2)
             (\<lambda>(ret, _, s3). if ret < 0 then Inr (ret, s3) else Inr (0, s3))))))))))"

text \<open>Without a complete entry the neighbour lookup fails.\<close>

lemma neigh_lookup_incomplete:
  assumes "neigh_lookup_copies D vrfid gw s = Inr False"
    and "ntb_neigh_lookup D vrfid gw hw flag s = Inr (ret, hw', s')"
  shows "ret < 0"
  using assms
  by (auto simp: neigh_lookup_copies_def ntb_neigh_lookup_def ENOENT_def bindR_eq_Inr
      split: option.splits)

text \<open>
  C34: a rule can never be downloaded. Whatever the tables hold, with and without assertions, the
  call does not depend on the VNI it is given (it always asks for tunnel 0), and it either faults or
  returns a negative code: where the MAC address of the next hop is known, it is written through an
  uninitialised pointer.
\<close>

theorem rule_download_fails:
  "shc_swTohw_rule D vni sip dip flag s = shc_swTohw_rule D vni' sip dip flag s \<and>
   ((\<exists>f. shc_swTohw_rule D vni sip dip flag s = Inl f) \<or>
    (\<exists>ret s'. shc_swTohw_rule D vni sip dip flag s = Inr (ret, s') \<and> ret < 0))"
proof
  show "shc_swTohw_rule D vni sip dip flag s = shc_swTohw_rule D vni' sip dip flag s"
    by (simp add: shc_swTohw_rule_def rule_tunnel_id_def)
  have "ret < 0" if "shc_swTohw_rule D vni sip dip flag s = Inr (ret, s')" for ret s'
    using that unfolding shc_swTohw_rule_def
    by (auto simp: bindR_eq_Inr split: option.splits if_splits dest: neigh_lookup_incomplete)
  then show "(\<exists>f. shc_swTohw_rule D vni sip dip flag s = Inl f) \<or>
    (\<exists>ret s'. shc_swTohw_rule D vni sip dip flag s = Inr (ret, s') \<and> ret < 0)"
    by (cases "shc_swTohw_rule D vni sip dip flag s") auto
qed

end
