(* ===== verification/Ntb_Main.thy ===== *)
theory Ntb_Main
  imports Ntb_Prelude
begin

text \<open>
  Start of the process (\<^verbatim>\<open>src/agent/main.c\<close>, and \<^verbatim>\<open>zdw_agent/main.c\<close> with the suffix \<open>_zdw\<close>): the options, the start of the switch daemon library and
  the end of the main thread. What \<^verbatim>\<open>getopt_long\<close> recognises in the command line is given as a list of
  its results; the library, the kernel and the thread calls are the parameter \<open>host\<close>, and the calls
  with an effect outside the process are recorded in order.
\<close>

subsection \<open>State\<close>

datatype cli_modes = no_interactive_cli | interactive_ucli | interactive_bfshell

record switchd_ctx =
  install_dir :: "string option"
  conf_file :: "string option"
  kernel_pkt :: bool
  running_in_background :: bool
  dev_sts_thread :: bool
  dev_sts_port :: int
  tmr_t_id :: nat
  dma_t_id :: nat
  int_t_id :: nat
  pkt_t_id :: nat
  port_fsm_t_id :: nat
  drusim_t_id :: nat
  agent_t_id :: "nat list"

record main_state =
  switchd :: switchd_ctx
  requested_cli_mode :: cli_modes
  bf_tmr_thr_core :: int

text \<open>The results of \<^verbatim>\<open>getopt_long\<close> with their \<^verbatim>\<open>optarg\<close>; an unknown or incomplete option gives \<^verbatim>\<open>'?'\<close>.\<close>

datatype getopt_result = OPT_SDEINSTALLDIR string | OPT_P4CONFFILE string | OPT_BFSHELL | OPT_P4KERNELPKT
  | OPT_BFTMRCORE string | OPT_HELP | OPT_UNKNOWN

datatype main_call = Call_lib_init switchd_ctx | Call_setaffinity nat int | Call_drv_shell | Call_bfshell
  | Call_pipe | Call_join nat

record host =
  geteuid :: nat
  bf_switchd_lib_init :: "switchd_ctx \<Rightarrow> int \<times> switchd_ctx"
  pthread_setaffinity_np :: "nat \<Rightarrow> int \<Rightarrow> int"
  pipe_ret :: int

text \<open>\<open>Inl\<close> is the status of \<^verbatim>\<open>exit\<close>, with the calls made before.\<close>

type_synonym 'a exits = "(int \<times> main_call list) + 'a"

definition EXIT_FAILURE :: int where "EXIT_FAILURE = 1"

subsection \<open>Options\<close>

text \<open>\<^verbatim>\<open>atoi\<close> of the C library: \<^verbatim>\<open>strtol\<close>, saturated at 64 bits, cut to 32.\<close>

definition is_space :: "char \<Rightarrow> bool" where
  "is_space c \<longleftrightarrow> c = CHR '' '' \<or> (9 \<le> (of_char c :: nat) \<and> (of_char c :: nat) \<le> 13)"

definition is_digit :: "char \<Rightarrow> bool" where
  "is_digit c \<longleftrightarrow> 48 \<le> (of_char c :: nat) \<and> (of_char c :: nat) \<le> 57"

definition dec_val :: "string \<Rightarrow> int" where
  "dec_val ds = foldl (\<lambda>v c. v * 10 + (of_char c - 48)) 0 ds"

definition strtol10 :: "string \<Rightarrow> int" where
  "strtol10 s =
     (let s = dropWhile is_space s;
          neg = (s \<noteq> [] \<and> hd s = CHR ''-'');
          s = (if s \<noteq> [] \<and> (hd s = CHR ''-'' \<or> hd s = CHR ''+'') then tl s else s);
          v = dec_val (takeWhile is_digit s)
      in max (- (2 ^ 63)) (min (2 ^ 63 - 1) (if neg then - v else v)))"

definition atoi :: "string \<Rightarrow> int" where
  "atoi s = sint (word_of_int (strtol10 s) :: 32 word)"

fun parse_loop :: "getopt_result list \<Rightarrow> main_state \<Rightarrow> int + main_state" where
  "parse_loop [] m = Inr m"
| "parse_loop (OPT_SDEINSTALLDIR optarg # os) m =
     parse_loop os (m\<lparr>switchd := (switchd m)\<lparr>install_dir := Some optarg\<rparr>\<rparr>)"
| "parse_loop (OPT_P4CONFFILE optarg # os) m =
     parse_loop os (m\<lparr>switchd := (switchd m)\<lparr>conf_file := Some optarg\<rparr>\<rparr>)"
| "parse_loop (OPT_BFSHELL # os) m = parse_loop os (m\<lparr>requested_cli_mode := interactive_bfshell\<rparr>)"
| "parse_loop (OPT_P4KERNELPKT # os) m =
     parse_loop os (m\<lparr>switchd := (switchd m)\<lparr>kernel_pkt := True\<rparr>\<rparr>)"
| "parse_loop (OPT_BFTMRCORE optarg # os) m = parse_loop os (m\<lparr>bf_tmr_thr_core := atoi optarg\<rparr>)"
| "parse_loop (OPT_HELP # os) m = Inl 0"
| "parse_loop (OPT_UNKNOWN # os) m = Inl 1"

definition parse_options :: "getopt_result list \<Rightarrow> main_state \<Rightarrow> int + main_state" where
  "parse_options os m =
     (case parse_loop os m of Inl code \<Rightarrow> Inl code
      | Inr m \<Rightarrow>
          if install_dir (switchd m) = None then Inl 0
          else if conf_file (switchd m) = None then Inl 0
          else Inr m)"

subsection \<open>Start of the switch daemon\<close>

text \<open>The query of the platform is commented out: \<^verbatim>\<open>is_sw_model\<close> is always true.\<close>

definition is_sw_model :: bool where "is_sw_model \<longleftrightarrow> True"

definition bf_tmr_thr_cpu_affinity_set :: "host \<Rightarrow> main_state \<Rightarrow> main_call list \<Rightarrow> main_call list exits" where
  "bf_tmr_thr_cpu_affinity_set H m calls =
     (if \<not> is_sw_model then
        let calls = calls @ [Call_setaffinity (tmr_t_id (switchd m)) (bf_tmr_thr_core m)] in
        if pthread_setaffinity_np H (tmr_t_id (switchd m)) (bf_tmr_thr_core m) \<noteq> 0
        then Inl (EXIT_FAILURE, calls) else Inr calls
      else Inr calls)"

definition bf_switchd_lib_init_post :: "host \<Rightarrow> main_state \<Rightarrow> main_call list \<Rightarrow> main_call list exits" where
  "bf_switchd_lib_init_post H m calls = bf_tmr_thr_cpu_affinity_set H m calls"

definition bf_switchd_init :: "host \<Rightarrow> main_state \<Rightarrow> (main_state \<times> main_call list) exits" where
  "bf_switchd_init H m =
     (if geteuid H \<noteq> 0 then Inl (EXIT_FAILURE, [])
      else
        let c = (switchd m)\<lparr>running_in_background := False, dev_sts_thread := True, dev_sts_port := 7777\<rparr>
        in case bf_switchd_lib_init H c of (status, c') \<Rightarrow>
           if status \<noteq> 0 then Inl (EXIT_FAILURE, [Call_lib_init c])
           else let m = m\<lparr>switchd := c'\<rparr> in
             case bf_switchd_lib_init_post H m [Call_lib_init c] of Inl x \<Rightarrow> Inl x
             | Inr calls \<Rightarrow> Inr (m, calls))"

subsection \<open>End of the main thread\<close>

definition run_cli_or_cleanup :: "main_state \<Rightarrow> main_call list" where
  "run_cli_or_cleanup m =
     (if requested_cli_mode m = interactive_ucli then [Call_drv_shell]
      else if requested_cli_mode m = interactive_bfshell then [Call_bfshell] else [])
     @ (if requested_cli_mode m \<noteq> no_interactive_cli then
          (let c = switchd m in
           map Call_join [tmr_t_id c, dma_t_id c, int_t_id c, pkt_t_id c, port_fsm_t_id c, drusim_t_id c]
           @ map Call_join (filter (\<lambda>t. t \<noteq> 0) (agent_t_id c)))
        else [])"

text \<open>The pmd thread is not started: its creation and the wait for it are commented out.\<close>

definition agent_main :: "host \<Rightarrow> getopt_result list \<Rightarrow> main_state \<Rightarrow> int \<times> main_call list" where
  "agent_main H os m =
     (case parse_options os m of Inl code \<Rightarrow> (code, [])
      | Inr m \<Rightarrow>
          (case bf_switchd_init H m of Inl (code, calls) \<Rightarrow> (code, calls)
           | Inr (m, calls) \<Rightarrow>
               if pipe_ret H \<noteq> 0 then (EXIT_FAILURE, calls @ [Call_pipe])
               else (0, calls @ [Call_pipe] @ run_cli_or_cleanup m)))"

text \<open>The static initial values.\<close>

definition switchd_ctx_zero :: switchd_ctx where
  "switchd_ctx_zero = \<lparr>install_dir = None, conf_file = None, kernel_pkt = False, running_in_background = False,
     dev_sts_thread = False, dev_sts_port = 0, tmr_t_id = 0, dma_t_id = 0, int_t_id = 0, pkt_t_id = 0,
     port_fsm_t_id = 0, drusim_t_id = 0, agent_t_id = []\<rparr>"

definition main_init :: main_state where
  "main_init = \<lparr>switchd = switchd_ctx_zero, requested_cli_mode = no_interactive_cli, bf_tmr_thr_core = 2\<rparr>"

subsection \<open>What the options mean\<close>

text \<open>The last occurrence of an option counts; the first help request or unknown option ends the process.\<close>

definition dirs_of :: "getopt_result list \<Rightarrow> string list" where
  "dirs_of os = concat (map (\<lambda>x. case x of OPT_SDEINSTALLDIR a \<Rightarrow> [a] | _ \<Rightarrow> []) os)"

definition confs_of :: "getopt_result list \<Rightarrow> string list" where
  "confs_of os = concat (map (\<lambda>x. case x of OPT_P4CONFFILE a \<Rightarrow> [a] | _ \<Rightarrow> []) os)"

definition cores_of :: "getopt_result list \<Rightarrow> string list" where
  "cores_of os = concat (map (\<lambda>x. case x of OPT_BFTMRCORE a \<Rightarrow> [a] | _ \<Rightarrow> []) os)"

definition last_of :: "'a list \<Rightarrow> 'a \<Rightarrow> 'a" where
  "last_of xs d = (if xs = [] then d else last xs)"

definition apply_options :: "getopt_result list \<Rightarrow> main_state \<Rightarrow> main_state" where
  "apply_options os m = m
     \<lparr>switchd := (switchd m)\<lparr>install_dir := last_of (map Some (dirs_of os)) (install_dir (switchd m)),
        conf_file := last_of (map Some (confs_of os)) (conf_file (switchd m)),
        kernel_pkt := (kernel_pkt (switchd m) \<or> OPT_P4KERNELPKT \<in> set os)\<rparr>,
      requested_cli_mode := (if OPT_BFSHELL \<in> set os then interactive_bfshell else requested_cli_mode m),
      bf_tmr_thr_core := last_of (map atoi (cores_of os)) (bf_tmr_thr_core m)\<rparr>"

definition stops :: "getopt_result \<Rightarrow> bool" where
  "stops x \<longleftrightarrow> x = OPT_HELP \<or> x = OPT_UNKNOWN"

lemma last_of_Cons [simp]: "last_of (x # xs) d = last_of xs x"
  by (simp add: last_of_def)

lemma last_of_Nil [simp]: "last_of [] d = d"
  by (simp add: last_of_def)

lemma options_of_Cons [simp]:
  "dirs_of (x # os) = (case x of OPT_SDEINSTALLDIR a \<Rightarrow> a # dirs_of os | _ \<Rightarrow> dirs_of os)"
  "confs_of (x # os) = (case x of OPT_P4CONFFILE a \<Rightarrow> a # confs_of os | _ \<Rightarrow> confs_of os)"
  "cores_of (x # os) = (case x of OPT_BFTMRCORE a \<Rightarrow> a # cores_of os | _ \<Rightarrow> cores_of os)"
  "dirs_of [] = []" "confs_of [] = []" "cores_of [] = []"
  by (simp_all add: dirs_of_def confs_of_def cores_of_def split: getopt_result.split)

lemma parse_loop_spec:
  "parse_loop os m = (case find stops os of Some x \<Rightarrow> Inl (if x = OPT_HELP then 0 else 1)
    | None \<Rightarrow> Inr (apply_options os m))"
proof (induction os arbitrary: m)
  case (Cons x os)
  show ?case by (cases x) (simp_all add: Cons.IH stops_def apply_options_def split: option.split)
qed (simp add: apply_options_def)

subsection \<open>The property\<close>

text \<open>
  C33: the switch daemon library is started only by root and only when both mandatory options were
  given, once, with the last values of the options, in the foreground and with the status thread on
  port 7777. Otherwise the process ends before, with status 0 when a mandatory option is missing.
\<close>

theorem startup_guards:
  "agent_main H os main_init =
     (case find stops os of
        Some x \<Rightarrow> (if x = OPT_HELP then 0 else 1, [])
      | None \<Rightarrow>
          if dirs_of os = [] \<or> confs_of os = [] then (0, [])
          else if geteuid H \<noteq> 0 then (1, [])
          else
            let c = switchd_ctx_zero\<lparr>install_dir := Some (last (dirs_of os)), conf_file := Some (last (confs_of os)),
                      kernel_pkt := (OPT_P4KERNELPKT \<in> set os), dev_sts_thread := True, dev_sts_port := 7777\<rparr>;
                (status, c') = bf_switchd_lib_init H c
            in if status \<noteq> 0 then (1, [Call_lib_init c])
               else if pipe_ret H \<noteq> 0 then (1, [Call_lib_init c, Call_pipe])
               else (0, Call_lib_init c # Call_pipe # (if OPT_BFSHELL \<in> set os then
                   Call_bfshell # map Call_join ([tmr_t_id c', dma_t_id c', int_t_id c', pkt_t_id c', port_fsm_t_id c',
                     drusim_t_id c'] @ filter (\<lambda>t. t \<noteq> 0) (agent_t_id c')) else [])))"
proof (cases "find stops os")
  case None
  have opts: "last_of (map Some xs) None = (if xs = [] then None else Some (last xs))" for xs :: "string list"
    by (simp add: last_of_def last_map)
  have c: "install_dir (switchd (apply_options os main_init)) = None \<longleftrightarrow> dirs_of os = []"
    "conf_file (switchd (apply_options os main_init)) = None \<longleftrightarrow> confs_of os = []"
    by (simp_all add: apply_options_def main_init_def switchd_ctx_zero_def opts)
  have parse: "parse_options os main_init =
      (if dirs_of os = [] \<or> confs_of os = [] then Inl 0 else Inr (apply_options os main_init))"
    by (simp add: parse_options_def parse_loop_spec None c)
  show ?thesis
    unfolding agent_main_def parse
    by (simp add: None bf_switchd_init_def EXIT_FAILURE_def bf_switchd_lib_init_post_def
        bf_tmr_thr_cpu_affinity_set_def is_sw_model_def run_cli_or_cleanup_def apply_options_def main_init_def
        switchd_ctx_zero_def opts Let_def split: prod.split)
qed (simp add: agent_main_def parse_options_def parse_loop_spec)

subsection \<open>The start of the older agent\<close>

text \<open>
  \<^verbatim>\<open>zdw_agent/main.c\<close>: there is no shell, so \<^verbatim>\<open>OPT_BFSHELL\<close> would end in the default case; the library
  runs in the background and its timer thread is bound to a core.
\<close>

fun parse_loop_zdw :: "getopt_result list \<Rightarrow> main_state \<Rightarrow> int + main_state" where
  "parse_loop_zdw [] m = Inr m"
| "parse_loop_zdw (OPT_SDEINSTALLDIR optarg # os) m =
     parse_loop_zdw os (m\<lparr>switchd := (switchd m)\<lparr>install_dir := Some optarg\<rparr>\<rparr>)"
| "parse_loop_zdw (OPT_P4CONFFILE optarg # os) m =
     parse_loop_zdw os (m\<lparr>switchd := (switchd m)\<lparr>conf_file := Some optarg\<rparr>\<rparr>)"
| "parse_loop_zdw (OPT_P4KERNELPKT # os) m =
     parse_loop_zdw os (m\<lparr>switchd := (switchd m)\<lparr>kernel_pkt := True\<rparr>\<rparr>)"
| "parse_loop_zdw (OPT_BFTMRCORE optarg # os) m = parse_loop_zdw os (m\<lparr>bf_tmr_thr_core := atoi optarg\<rparr>)"
| "parse_loop_zdw (OPT_HELP # os) m = Inl 0"
| "parse_loop_zdw (OPT_UNKNOWN # os) m = Inl 1"
| "parse_loop_zdw (OPT_BFSHELL # os) m = Inl 0"

definition parse_options_zdw :: "getopt_result list \<Rightarrow> main_state \<Rightarrow> int + main_state" where
  "parse_options_zdw os m =
     (case parse_loop_zdw os m of Inl code \<Rightarrow> Inl code
      | Inr m \<Rightarrow>
          if install_dir (switchd m) = None then Inl 0
          else if conf_file (switchd m) = None then Inl 0
          else Inr m)"

definition bf_tmr_thr_cpu_affinity_set_zdw :: "host \<Rightarrow> main_state \<Rightarrow> main_call list \<Rightarrow> main_call list exits" where
  "bf_tmr_thr_cpu_affinity_set_zdw H m calls =
     (let calls = calls @ [Call_setaffinity (tmr_t_id (switchd m)) (bf_tmr_thr_core m)] in
      if pthread_setaffinity_np H (tmr_t_id (switchd m)) (bf_tmr_thr_core m) \<noteq> 0
      then Inl (EXIT_FAILURE, calls) else Inr calls)"

definition bf_switchd_init_zdw :: "host \<Rightarrow> main_state \<Rightarrow> (main_state \<times> main_call list) exits" where
  "bf_switchd_init_zdw H m =
     (if geteuid H \<noteq> 0 then Inl (EXIT_FAILURE, [])
      else
        let c = (switchd m)\<lparr>running_in_background := True, dev_sts_thread := True, dev_sts_port := 7777\<rparr>
        in case bf_switchd_lib_init H c of (status, c') \<Rightarrow>
           if status \<noteq> 0 then Inl (EXIT_FAILURE, [Call_lib_init c])
           else let m = m\<lparr>switchd := c'\<rparr> in
             case bf_tmr_thr_cpu_affinity_set_zdw H m [Call_lib_init c] of Inl x \<Rightarrow> Inl x
             | Inr calls \<Rightarrow> Inr (m, calls))"

definition agent_main_zdw :: "host \<Rightarrow> getopt_result list \<Rightarrow> main_state \<Rightarrow> int \<times> main_call list" where
  "agent_main_zdw H os m =
     (case parse_options_zdw os m of Inl code \<Rightarrow> (code, [])
      | Inr m \<Rightarrow>
          (case bf_switchd_init_zdw H m of Inl (code, calls) \<Rightarrow> (code, calls)
           | Inr (m, calls) \<Rightarrow>
               if pipe_ret H \<noteq> 0 then (EXIT_FAILURE, calls @ [Call_pipe]) else (0, calls @ [Call_pipe])))"

lemma parse_loop_zdw_eq:
  assumes "OPT_BFSHELL \<notin> set os"
  shows "parse_loop_zdw os m = parse_loop os m"
  using assms
proof (induction os arbitrary: m)
  case (Cons x os)
  then show ?case by (cases x) auto
qed simp

text \<open>
  Without a shell request both agents accept the same options; the older one ends right after the
  pipe, and unlike the current one it fails when the timer thread cannot be bound to its core.
\<close>

theorem startup_older_agent:
  assumes "OPT_BFSHELL \<notin> set os"
  shows "agent_main_zdw H os m =
    (case parse_options os m of Inl code \<Rightarrow> (code, [])
     | Inr m \<Rightarrow>
        if geteuid H \<noteq> 0 then (1, [])
        else
          let c = (switchd m)\<lparr>running_in_background := True, dev_sts_thread := True, dev_sts_port := 7777\<rparr>;
              (status, c') = bf_switchd_lib_init H c;
              pin = Call_setaffinity (tmr_t_id c') (bf_tmr_thr_core m)
          in if status \<noteq> 0 then (1, [Call_lib_init c])
             else if pthread_setaffinity_np H (tmr_t_id c') (bf_tmr_thr_core m) \<noteq> 0 then (1, [Call_lib_init c, pin])
             else (if pipe_ret H = 0 then 0 else 1, [Call_lib_init c, pin, Call_pipe]))"
proof -
  have "parse_options_zdw os m = parse_options os m"
    by (simp add: parse_options_zdw_def parse_options_def parse_loop_zdw_eq [OF assms])
  then show ?thesis
    by (simp add: agent_main_zdw_def bf_switchd_init_zdw_def bf_tmr_thr_cpu_affinity_set_zdw_def EXIT_FAILURE_def
        Let_def split: sum.split prod.split)
qed

end
