(* ===== verification/Shc_Hal.thy ===== *)
theory Shc_Hal
  imports Ntb_Prelude Complex_Main
begin

text \<open>
  The route table of the switch (\<^verbatim>\<open>platform/drivers\<close>: \<^verbatim>\<open>hal_types.h\<close>,
  \<^verbatim>\<open>hal_table_type.h\<close>, \<^verbatim>\<open>base_table.hpp\<close>, \<^verbatim>\<open>route.hpp\<close>,
  \<^verbatim>\<open>route.cpp\<close>, \<^verbatim>\<open>hal_table_api.cpp\<close>, \<^verbatim>\<open>hal_utils.hpp\<close> and
  \<^verbatim>\<open>utils/object_id.cpp\<close>).

  The runtime library of the switch vendor is a parameter, the record \<open>bfrt_api\<close>: it acts on the
  hardware and on the counters that the patched driver exports. \<^verbatim>\<open>bf_sys_assert\<close> is active in
  every build and aborts the process.
\<close>

subsection \<open>Status codes (hal\_types.h)\<close>

text \<open>
  The status strings of the vendor (\<^verbatim>\<open>BF_STATUS_VALUES\<close>) are the parameter \<open>bf\<close>; their number is
  \<^verbatim>\<open>BF_STS_MAX\<close>. The codes of the HAL follow them.
\<close>

type_synonym hal_status_t = int

definition hal_status_values :: "string list" where
  "hal_status_values =
     [''HAL STATUS FIRST TEST'', ''GENERAL FAILURE(hal)'', ''Already exists(hal)'',
      ''Not enough space(hal)'', ''Invalid arguments(hal)'', ''Not currently supported(hal)'',
      ''Object not found(hal)'']"

definition HAL_NO_SPACE :: "string list \<Rightarrow> hal_status_t" where
  "HAL_NO_SPACE bf = int (length bf) + 3"

definition HAL_STS_MAX :: "string list \<Rightarrow> hal_status_t" where
  "HAL_STS_MAX bf = int (length bf) + 7"

definition hal_err_strings :: "string list \<Rightarrow> string list" where
  "hal_err_strings bf = bf @ hal_status_values @ [''Unknown error'']"

definition hal_err_str :: "string list \<Rightarrow> hal_status_t \<Rightarrow> string outcome" where
  "hal_err_str bf sts =
     (if HAL_STS_MAX bf \<le> sts \<or> 0 > sts then read_at (hal_err_strings bf) (nat (HAL_STS_MAX bf))
      else read_at (hal_err_strings bf) (nat sts))"

text \<open>\<^verbatim>\<open>~\<close> on a two's complement int.\<close>

definition hal_status_to_string :: "string list \<Rightarrow> hal_status_t \<Rightarrow> string outcome" where
  "hal_status_to_string bf hal_status =
     (let hal_status = (if hal_status < 0 then - hal_status - 1 else hal_status)
      in hal_err_str bf hal_status)"

lemma hal_err_str_total:
  "hal_err_str bf sts =
     Inr (hal_err_strings bf ! (if 0 \<le> sts \<and> sts < HAL_STS_MAX bf then nat sts
                                else length bf + 7))"
  by (auto simp: hal_err_str_def HAL_STS_MAX_def hal_err_strings_def hal_status_values_def
      read_at_def nat_add_distrib)

subsection \<open>Driver variables and the vendor's runtime\<close>

record 'h driver =
  hw :: 'h
  direct_replace :: bool
  yxj_entry_index :: u32
  entry_in_table_c :: u32
  entry_aged_c :: u32
  aged_replace :: bool
  aged_replace_flag :: bool
  index_repalce_action :: bool
  driver_cuckoo_hash_get :: "u32 list"
  cuckoo_hash_get_flag :: bool

record bf_rt_target =
  dev_id :: u32
  pipe_id :: u32
  direction :: u32
  prsr_id :: u32

text \<open>
  Handles of the runtime (info, table, learn object, session) are addresses. Key, data, attribute
  and learn objects have types of their own; a getter of a learn or key object that fails leaves
  the variable of the caller as it is, which is the result \<open>None\<close>.
\<close>

record ('h, 'k, 'd, 'l, 'a) bfrt_api =
  bfRtInfoGet :: "u32 \<Rightarrow> string \<Rightarrow> int \<times> addr"
  sessionCreate :: "addr"
  bfrtTableFromNameGet :: "addr \<Rightarrow> string \<Rightarrow> int \<times> addr"
  bfrtLearnFromNameGet :: "addr \<Rightarrow> string \<Rightarrow> int \<times> addr"
  keyFieldIdGet :: "addr \<Rightarrow> string \<Rightarrow> int \<times> u32"
  actionIdGet :: "addr \<Rightarrow> string \<Rightarrow> int \<times> u32"
  dataFieldIdGet :: "addr \<Rightarrow> string \<Rightarrow> u32 \<Rightarrow> int \<times> u32"
  learnFieldIdGet :: "addr \<Rightarrow> string \<Rightarrow> int \<times> u32"
  flag_from_hw :: "u64 \<Rightarrow> u64"
  bf_tableSizeGet :: "addr \<Rightarrow> bf_rt_target \<Rightarrow> u64 \<Rightarrow> 'h driver \<Rightarrow> int \<times> u64 \<times> 'h driver"
  keyAllocate :: "addr \<Rightarrow> int \<times> 'k"
  dataAllocate :: "addr \<Rightarrow> int \<times> 'd"
  keyReset :: "addr \<Rightarrow> 'k \<Rightarrow> 'k"
  dataReset :: "addr \<Rightarrow> u32 option \<Rightarrow> 'd \<Rightarrow> 'd"
  key_setValue :: "u32 \<Rightarrow> u64 \<Rightarrow> 'k \<Rightarrow> int \<times> 'k"
  key_getValue :: "u32 \<Rightarrow> 'k \<Rightarrow> u64 option"
  data_setValue :: "u32 \<Rightarrow> u64 \<Rightarrow> 'd \<Rightarrow> int \<times> 'd"
  data_getValue :: "u32 \<Rightarrow> 'd \<Rightarrow> int \<times> u64"
  data_actionIdGet :: "'d \<Rightarrow> int \<times> u32"
  learn_getValue :: "u32 \<Rightarrow> 'l \<Rightarrow> u64 option"
  bf_tableEntryAdd :: "addr \<Rightarrow> bf_rt_target \<Rightarrow> u64 \<Rightarrow> 'k \<Rightarrow> 'd \<Rightarrow> 'h driver \<Rightarrow> int \<times> 'h driver"
  bf_tableEntryMod :: "addr \<Rightarrow> bf_rt_target \<Rightarrow> u64 \<Rightarrow> 'k \<Rightarrow> 'd \<Rightarrow> 'h driver \<Rightarrow> int \<times> 'h driver"
  bf_tableEntryGet :: "addr \<Rightarrow> bf_rt_target \<Rightarrow> u64 \<Rightarrow> 'k \<Rightarrow> 'd \<Rightarrow> 'h driver \<Rightarrow> int \<times> 'd \<times> 'h driver"
  bf_tableEntryDel :: "addr \<Rightarrow> bf_rt_target \<Rightarrow> u64 \<Rightarrow> 'k \<Rightarrow> 'h driver \<Rightarrow> int \<times> 'h driver"
  bf_tableUsageGet :: "addr \<Rightarrow> bf_rt_target \<Rightarrow> u64 \<Rightarrow> u32 \<Rightarrow> 'h driver \<Rightarrow> int \<times> u32 \<times> 'h driver"
  bfRtLearnCallbackRegister :: "addr \<Rightarrow> bf_rt_target \<Rightarrow> 'h driver \<Rightarrow> int \<times> 'h driver"
  bfRtLearnNotifyAck :: "addr \<Rightarrow> addr \<Rightarrow> addr \<Rightarrow> 'h driver \<Rightarrow> int \<times> 'h driver"
  attributeAllocate :: "addr \<Rightarrow> int \<times> 'a"
  idleTableNotifyModeSet :: "bool \<Rightarrow> bool \<Rightarrow> u32 \<Rightarrow> u32 \<Rightarrow> u32 \<Rightarrow> 'a \<Rightarrow> int \<times> 'a"
  tableAttributesSet :: "addr \<Rightarrow> bf_rt_target \<Rightarrow> u32 \<Rightarrow> 'a \<Rightarrow> 'h driver \<Rightarrow> int \<times> 'h driver"
  sessionCompleteOperations :: "addr \<Rightarrow> 'h driver \<Rightarrow> int \<times> 'h driver"
  beginTransaction :: "addr \<Rightarrow> bool \<Rightarrow> 'h driver \<Rightarrow> int \<times> 'h driver"
  commitTransaction :: "addr \<Rightarrow> bool \<Rightarrow> 'h driver \<Rightarrow> int \<times> 'h driver"
  abortTransaction :: "addr \<Rightarrow> 'h driver \<Rightarrow> int \<times> 'h driver"

definition BF_SUCCESS :: int where "BF_SUCCESS = 0"

definition bf_sys_assert :: "bool \<Rightarrow> unit outcome" where
  "bf_sys_assert b = (if b then Inr () else Inl AssertFailed)"

text \<open>A call whose status is asserted to be success.\<close>

definition asserted :: "int \<times> 'b \<Rightarrow> 'b outcome" where
  "asserted sx = bindR (bf_sys_assert (fst sx = BF_SUCCESS)) (\<lambda>_. Inr (snd sx))"

lemma asserted_pair [simp]: "asserted (st, x) = (if st = 0 then Inr x else Inl AssertFailed)"
  by (simp add: asserted_def bf_sys_assert_def BF_SUCCESS_def)

lemma asserted_eq_Inr: "asserted sx = Inr x \<longleftrightarrow> sx = (0, x)"
  by (cases sx) auto

subsection \<open>Sessions (hal\_utils.hpp)\<close>

definition session_complete ::
  "('h, 'k, 'd, 'l, 'a) bfrt_api \<Rightarrow> addr \<Rightarrow> 'h driver \<Rightarrow> int \<times> 'h driver" where
  "session_complete api session v =
     (let (bf_status, v) = sessionCompleteOperations api session v
      in if bf_status \<noteq> BF_SUCCESS then (bf_status, v) else (bf_status, v))"

definition transaction_start ::
  "('h, 'k, 'd, 'l, 'a) bfrt_api \<Rightarrow> addr \<Rightarrow> 'h driver \<Rightarrow> int \<times> 'h driver" where
  "transaction_start api session v =
     (let (bf_status, v) = beginTransaction api session True v
      in if bf_status \<noteq> BF_SUCCESS then (bf_status, v) else (bf_status, v))"

definition transaction_commit ::
  "('h, 'k, 'd, 'l, 'a) bfrt_api \<Rightarrow> addr \<Rightarrow> 'h driver \<Rightarrow> int \<times> 'h driver" where
  "transaction_commit api session v =
     (let (bf_status, v) = commitTransaction api session True v
      in if bf_status \<noteq> BF_SUCCESS then (bf_status, v) else session_complete api session v)"

definition transaction_abort ::
  "('h, 'k, 'd, 'l, 'a) bfrt_api \<Rightarrow> addr \<Rightarrow> 'h driver \<Rightarrow> int \<times> 'h driver" where
  "transaction_abort api session v =
     (let (bf_status, v) = abortTransaction api session v
      in if bf_status \<noteq> BF_SUCCESS then (bf_status, v) else session_complete api session v)"

subsection \<open>The object of the route table (route.hpp, base\_table.hpp)\<close>

record hal_route_key =
  ip_src_addr :: u32
  ip_dst_addr :: u32

record hal_route_data =
  nhop_id :: u32

text \<open>Private members lose their trailing underscore; \<^verbatim>\<open>size_\<close> is \<open>table_size\<close>
  and \<^verbatim>\<open>session_\<close> is \<open>rt_session\<close>.\<close>

record ('k, 'd) Route =
  table_mutex :: bool
  entry_ttl :: u64
  bfrtTableKey :: 'k
  bfrtTableData :: 'd
  ip_src_field_id :: u32
  ip_dst_field_id :: u32
  set_route_for_nexthop_action_id :: u32
  set_route_for_miss_action_id :: u32
  set_route_for_nexthop_action_nhop_id_id :: u32
  set_route_for_nexthop_action_ttl_id :: u32
  dev_tgt :: bf_rt_target
  rt_session :: addr
  table_ptr :: addr
  table_size :: u64

text \<open>
  Locking a mutex that the caller already holds is undefined (in practice the thread blocks
  forever), and so is unlocking one that is not held.
\<close>

definition tableMutexLock :: "('k, 'd) Route \<Rightarrow> ('k, 'd) Route outcome" where
  "tableMutexLock r = (if table_mutex r then Inl Deadlock else Inr (r\<lparr>table_mutex := True\<rparr>))"

definition tableMutexUnlock :: "('k, 'd) Route \<Rightarrow> ('k, 'd) Route outcome" where
  "tableMutexUnlock r = (if table_mutex r then Inr (r\<lparr>table_mutex := False\<rparr>) else Inl Deadlock)"

subsection \<open>Methods of the route table (route.cpp)\<close>

definition KeySetUp ::
  "('h, 'k, 'd, 'l, 'a) bfrt_api \<Rightarrow> ('k, 'd) Route \<Rightarrow> hal_route_key \<Rightarrow> 'k \<Rightarrow> 'k outcome" where
  "KeySetUp api r key table_key =
     bindR (asserted (key_setValue api (ip_src_field_id r) (ucast (ip_src_addr key)) table_key))
       (\<lambda>table_key.
         asserted (key_setValue api (ip_dst_field_id r) (ucast (ip_dst_addr key)) table_key))"

definition DataSetUp ::
  "('h, 'k, 'd, 'l, 'a) bfrt_api \<Rightarrow> ('k, 'd) Route \<Rightarrow> hal_route_data \<Rightarrow> 'd \<Rightarrow> 'd outcome" where
  "DataSetUp api r data table_data =
     bindR (asserted (data_setValue api (set_route_for_nexthop_action_nhop_id_id r)
              (ucast (nhop_id data)) table_data))
       (\<lambda>table_data.
         asserted (data_setValue api (set_route_for_nexthop_action_ttl_id r) (entry_ttl r)
                     table_data))"

text \<open>
  The constructor copies only two of the four members of the target; \<open>junk\<close> is what the other two
  hold in the freshly allocated object.
\<close>

definition Route_new ::
  "('h, 'k, 'd, 'l, 'a) bfrt_api \<Rightarrow> bf_rt_target \<Rightarrow> addr \<Rightarrow> bf_rt_target \<Rightarrow> addr \<Rightarrow> 'h driver \<Rightarrow>
   (('k, 'd) Route \<times> 'h driver) outcome" where
  "Route_new api junk bfrtInfo d_tgt common_session v =
     (let tgt = junk\<lparr>dev_id := dev_id d_tgt, pipe_id := pipe_id d_tgt\<rparr> in
      bindR (asserted (bfrtTableFromNameGet api bfrtInfo ''pipe.ShcIngress.route_tbl'')) (\<lambda>tbl.
      bindR (asserted (keyFieldIdGet api tbl ''ig_md.src_addr'')) (\<lambda>src_id.
      bindR (asserted (keyFieldIdGet api tbl ''ig_md.dst_addr'')) (\<lambda>dst_id.
      bindR (asserted (actionIdGet api tbl ''ShcIngress.route_for_nexthop'')) (\<lambda>nhop_act.
      bindR (asserted (actionIdGet api tbl ''ShcIngress.route_for_miss'')) (\<lambda>miss_act.
      bindR (asserted (dataFieldIdGet api tbl ''nhop_id'' nhop_act)) (\<lambda>nhop_fld.
      bindR (asserted (dataFieldIdGet api tbl ''$ENTRY_TTL'' nhop_act)) (\<lambda>ttl_fld.
      bindR (asserted (bf_tableSizeGet api tbl tgt (flag_from_hw api 0) v)) (\<lambda>(t_size, v).
      bindR (asserted (keyAllocate api tbl)) (\<lambda>k.
      bindR (asserted (dataAllocate api tbl)) (\<lambda>d.
        Inr (\<lparr>table_mutex = False, entry_ttl = 5000, bfrtTableKey = k, bfrtTableData = d,
              ip_src_field_id = src_id, ip_dst_field_id = dst_id,
              set_route_for_nexthop_action_id = nhop_act,
              set_route_for_miss_action_id = miss_act,
              set_route_for_nexthop_action_nhop_id_id = nhop_fld,
              set_route_for_nexthop_action_ttl_id = ttl_fld,
              dev_tgt = tgt, rt_session = common_session, table_ptr = tbl,
              table_size = ucast (ucast t_size :: u32)\<rparr>, v))))))))))))"

definition tableEntryAddModify ::
  "('h, 'k, 'd, 'l, 'a) bfrt_api \<Rightarrow> hal_route_key \<Rightarrow> hal_route_data \<Rightarrow> bool \<Rightarrow>
   ('k, 'd) Route \<Rightarrow> 'h driver \<Rightarrow> (hal_status_t \<times> ('k, 'd) Route \<times> 'h driver) outcome" where
  "tableEntryAddModify api key data is_add r v =
     (let k = keyReset api (table_ptr r) (bfrtTableKey r);
          d = dataReset api (table_ptr r) (Some (set_route_for_nexthop_action_id r))
                (bfrtTableData r)
      in bindR (DataSetUp api r data d) (\<lambda>d.
         bindR (KeySetUp api r key k) (\<lambda>k.
           let r = r\<lparr>bfrtTableKey := k, bfrtTableData := d\<rparr>;
               flags = 0;
               (status, v) =
                 (if is_add then bf_tableEntryAdd api (table_ptr r) (dev_tgt r) flags k d v
                  else bf_tableEntryMod api (table_ptr r) (dev_tgt r) flags k d v)
           in Inr (status, r, v))))"

text \<open>
  \<^verbatim>\<open>data->nhop_id = -1\<close> on a failed read. The id of the action is read but not looked at.
\<close>

definition tableEntryGet ::
  "('h, 'k, 'd, 'l, 'a) bfrt_api \<Rightarrow> hal_route_key \<Rightarrow> hal_route_data \<Rightarrow>
   ('k, 'd) Route \<Rightarrow> 'h driver \<Rightarrow>
   (hal_status_t \<times> hal_route_data \<times> ('k, 'd) Route \<times> 'h driver) outcome" where
  "tableEntryGet api key data r v =
     (let k = keyReset api (table_ptr r) (bfrtTableKey r);
          d = dataReset api (table_ptr r) None (bfrtTableData r)
      in bindR (KeySetUp api r key k) (\<lambda>k.
         let flags = flag_from_hw api 0;
             (status, d, v) = bf_tableEntryGet api (table_ptr r) (dev_tgt r) flags k d v;
             r = r\<lparr>bfrtTableKey := k, bfrtTableData := d\<rparr>
         in if status \<noteq> BF_SUCCESS then Inr (status, data\<lparr>nhop_id := - 1\<rparr>, r, v)
            else bindR (asserted (data_actionIdGet api d)) (\<lambda>action_id.
                 bindR (asserted (data_getValue api (set_route_for_nexthop_action_nhop_id_id r) d))
                   (\<lambda>tmp. Inr (BF_SUCCESS, data\<lparr>nhop_id := ucast tmp\<rparr>, r, v)))))"

definition tableEntryDel ::
  "('h, 'k, 'd, 'l, 'a) bfrt_api \<Rightarrow> hal_route_key \<Rightarrow> bool \<Rightarrow>
   ('k, 'd) Route \<Rightarrow> 'h driver \<Rightarrow> (hal_status_t \<times> ('k, 'd) Route \<times> 'h driver) outcome" where
  "tableEntryDel api key aged_flag r v =
     (let k = keyReset api (table_ptr r) (bfrtTableKey r)
      in bindR (KeySetUp api r key k) (\<lambda>k.
         let r = r\<lparr>bfrtTableKey := k\<rparr>;
             flags = (if aged_flag then 100 else 0);
             (status, v) = bf_tableEntryDel api (table_ptr r) (dev_tgt r) flags k v
         in Inr (status, r, v)))"

definition tableUsageGet ::
  "('h, 'k, 'd, 'l, 'a) bfrt_api \<Rightarrow> u32 \<Rightarrow> ('k, 'd) Route \<Rightarrow> 'h driver \<Rightarrow>
   hal_status_t \<times> u32 \<times> 'h driver" where
  "tableUsageGet api entry_count r v =
     bf_tableUsageGet api (table_ptr r) (dev_tgt r) (flag_from_hw api 0) entry_count v"

definition tableSizeGet :: "('k, 'd) Route \<Rightarrow> hal_status_t \<times> u32" where
  "tableSizeGet r = (BF_SUCCESS, ucast (table_size r))"

subsection \<open>Balancing the time to live\<close>

text \<open>
  \<^verbatim>\<open>(float)n\<close> for an unsigned 32-bit \<open>n\<close> rounds to 24 significant bits, ties to even. The
  division by 65536 is exact, and the comparisons are between doubles: 0.85 and 0.15 stand for the
  doubles next to them.
\<close>

fun float_exp :: "nat \<Rightarrow> nat" where
  "float_exp n = (if n < 2 ^ 24 then 0 else Suc (float_exp (n div 2)))"

declare float_exp.simps [simp del]

definition float_round :: "nat \<Rightarrow> nat" where
  "float_round n =
     (let e = float_exp n; q = n div 2 ^ e; r = n mod 2 ^ e
      in (if 2 * r > 2 ^ e \<or> 2 * r = 2 ^ e \<and> odd q then Suc q else q) * 2 ^ e)"

definition double_0_85 :: rat where "double_0_85 = 7656119366529843 / 2 ^ 53"
definition double_0_15 :: rat where "double_0_15 = 5404319552844595 / 2 ^ 55"

definition float_share :: "u32 \<Rightarrow> rat" where
  "float_share n = of_nat (float_round (unat n)) / 65536"

definition aging_ttl_balance ::
  "('k, 'd) Route \<Rightarrow> 'h driver \<Rightarrow> ('k, 'd) Route \<times> 'h driver" where
  "aging_ttl_balance r v =
     (let entry_share = float_share (entry_in_table_c v);
          v = (if entry_share > double_0_85 then v\<lparr>aged_replace := True\<rparr> else v);
          avaliable_share = float_share (65536 - entry_in_table_c v + entry_aged_c v)
      in if aged_replace v then
           if avaliable_share < double_0_15 then
             if entry_ttl r > 60 then (r\<lparr>entry_ttl := entry_ttl r - 5\<rparr>, v) else (r, v)
           else (r\<lparr>entry_ttl := entry_ttl r + 1\<rparr>, v)
         else (r, v))"

subsection \<open>The C interface (hal\_table\_api.cpp)\<close>

text \<open>
  The state of the HAL: the driver, the one route table (\<open>None\<close> is \<^verbatim>\<open>nullptr\<close>), and the globals
  of \<^verbatim>\<open>hal_init.cpp\<close>, \<^verbatim>\<open>shc_digest.cpp\<close> and \<^verbatim>\<open>shc_aging.cpp\<close>.
\<close>

record ('h, 'k, 'd, 'a) hal =
  drv :: "'h driver"
  route_table :: "('k, 'd) Route option"
  g_bfrtInfo :: addr
  g_session :: addr
  g_dev_tgt :: bf_rt_target
  learn_src :: u64
  learn_dst :: u64
  ac_count :: u64
  total_insert :: u32
  learn_src_ip_digest_field_id :: u32
  learn_dst_ip_digest_field_id :: u32
  learn_ac_count_field_id :: u32
  learn_obj :: addr
  total_aged :: u32
  aging_ip_src :: u64
  aging_ip_dst :: u64
  aging_ip_src_field_id :: u32
  aging_ip_dst_field_id :: u32
  aging_route :: addr
  attr :: "'a option"
  aging_dev_tgt :: bf_rt_target

definition deref_table :: "('h, 'k, 'd, 'a) hal \<Rightarrow> ('k, 'd) Route outcome" where
  "deref_table s = (case route_table s of None \<Rightarrow> Inl NullDeref | Some r \<Rightarrow> Inr r)"

text \<open>Every function of the interface holds the mutex of the table around one method.\<close>

definition locked_call ::
  "(('k, 'd) Route \<Rightarrow> 'h driver \<Rightarrow> ('b \<times> ('k, 'd) Route \<times> 'h driver) outcome) \<Rightarrow>
   ('h, 'k, 'd, 'a) hal \<Rightarrow> ('b \<times> ('h, 'k, 'd, 'a) hal) outcome" where
  "locked_call f s =
     bindR (deref_table s) (\<lambda>r.
     bindR (tableMutexLock r) (\<lambda>r.
     bindR (f r (drv s)) (\<lambda>(x, r, v).
     bindR (tableMutexUnlock r) (\<lambda>r.
       Inr (x, s\<lparr>route_table := Some r, drv := v\<rparr>)))))"

definition hal_route_entry_add ::
  "('h, 'k, 'd, 'l, 'a) bfrt_api \<Rightarrow> hal_route_key \<Rightarrow> hal_route_data \<Rightarrow>
   ('h, 'k, 'd, 'a) hal \<Rightarrow> (hal_status_t \<times> ('h, 'k, 'd, 'a) hal) outcome" where
  "hal_route_entry_add api key data = locked_call (tableEntryAddModify api key data True)"

definition hal_route_entry_mod ::
  "('h, 'k, 'd, 'l, 'a) bfrt_api \<Rightarrow> hal_route_key \<Rightarrow> hal_route_data \<Rightarrow>
   ('h, 'k, 'd, 'a) hal \<Rightarrow> (hal_status_t \<times> ('h, 'k, 'd, 'a) hal) outcome" where
  "hal_route_entry_mod api key data = locked_call (tableEntryAddModify api key data False)"

definition hal_route_entry_del ::
  "('h, 'k, 'd, 'l, 'a) bfrt_api \<Rightarrow> hal_route_key \<Rightarrow> bool \<Rightarrow>
   ('h, 'k, 'd, 'a) hal \<Rightarrow> (hal_status_t \<times> ('h, 'k, 'd, 'a) hal) outcome" where
  "hal_route_entry_del api key aged_flag = locked_call (tableEntryDel api key aged_flag)"

definition hal_route_entry_get ::
  "('h, 'k, 'd, 'l, 'a) bfrt_api \<Rightarrow> hal_route_key \<Rightarrow> hal_route_data \<Rightarrow>
   ('h, 'k, 'd, 'a) hal \<Rightarrow> ((hal_status_t \<times> hal_route_data) \<times> ('h, 'k, 'd, 'a) hal) outcome" where
  "hal_route_entry_get api key data = locked_call (\<lambda>r v.
     bindR (tableEntryGet api key data r v) (\<lambda>(status, data, r, v). Inr ((status, data), r, v)))"

definition hal_route_table_usage_get ::
  "('h, 'k, 'd, 'l, 'a) bfrt_api \<Rightarrow> u32 \<Rightarrow>
   ('h, 'k, 'd, 'a) hal \<Rightarrow> ((hal_status_t \<times> u32) \<times> ('h, 'k, 'd, 'a) hal) outcome" where
  "hal_route_table_usage_get api entry_count = locked_call (\<lambda>r v.
     let (status, n, v) = tableUsageGet api entry_count r v in Inr ((status, n), r, v))"

definition hal_route_table_size_get ::
  "('h, 'k, 'd, 'a) hal \<Rightarrow> ((hal_status_t \<times> u32) \<times> ('h, 'k, 'd, 'a) hal) outcome" where
  "hal_route_table_size_get = locked_call (\<lambda>r v. Inr (tableSizeGet r, r, v))"

definition hal_route_aging_ttl_balance ::
  "('h, 'k, 'd, 'a) hal \<Rightarrow> (unit \<times> ('h, 'k, 'd, 'a) hal) outcome" where
  "hal_route_aging_ttl_balance = locked_call (\<lambda>r v. Inr ((), aging_ttl_balance r v))"

subsection \<open>Object ids (utils/object\_id.cpp)\<close>

text \<open>The allocator of the vendor is a parameter: \<open>allocate\<close> gives \<open>-1\<close> when it has no id.\<close>

record 'g id_api =
  id_allocate :: "'g \<Rightarrow> int \<times> 'g"
  id_release :: "'g \<Rightarrow> u32 \<Rightarrow> 'g"

record 'g OjectID =
  id_generator :: 'g
  oid_size :: u32
  offset :: u32
  count :: u32

definition Alloc ::
  "string list \<Rightarrow> 'g id_api \<Rightarrow> 'g OjectID \<Rightarrow> (hal_status_t \<times> u32 option \<times> 'g OjectID)" where
  "Alloc bf api ob =
     (let (i, g) = id_allocate api (id_generator ob);
          ob = ob\<lparr>id_generator := g\<rparr>
      in if i = -1 \<or> i > sint (oid_size ob) then (HAL_NO_SPACE bf, None, ob)
         else (0, Some (word_of_int i + offset ob), ob\<lparr>count := count ob + 1\<rparr>))"

definition ClearOffset :: "'g OjectID \<Rightarrow> u32 \<Rightarrow> u32" where
  "ClearOffset ob oid = oid - offset ob"

definition Free :: "'g id_api \<Rightarrow> u32 \<Rightarrow> 'g OjectID \<Rightarrow> hal_status_t \<times> 'g OjectID" where
  "Free api oid ob =
     (0, ob\<lparr>id_generator := id_release api (id_generator ob) (oid - offset ob),
           count := count ob - 1\<rparr>)"

definition GetUsage :: "'g OjectID \<Rightarrow> u32" where "GetUsage ob = count ob"
definition GetSize :: "'g OjectID \<Rightarrow> u32" where "GetSize ob = oid_size ob"
definition GetLeft :: "'g OjectID \<Rightarrow> u32" where "GetLeft ob = oid_size ob - count ob"

lemma alloc_free_usage:
  assumes "Alloc bf api ob = (0, Some oid, ob')"
  shows "ClearOffset ob' oid = word_of_int (fst (id_allocate api (id_generator ob)))"
    and "GetUsage (snd (Free api oid ob')) = GetUsage ob"
    and "GetUsage ob' + GetLeft ob' = GetSize ob'"
  using assms
  by (auto simp: Alloc_def Free_def GetUsage_def GetLeft_def GetSize_def ClearOffset_def Let_def
      split: prod.splits if_splits)

end
