(* ===== verification/Ntb_Nhop_Ids.thy ===== *)
theory Ntb_Nhop_Ids
  imports Ntb_Witness Shc_Hal
begin

text \<open>
  The object ids of the next hops. The first copy of the agent (\<^verbatim>\<open>agent/agent-bak\<close>) gives the id of a
  next hop back when it deletes the next hop; the current agent has the call commented out. The
  operations of the first copy that differ are here, the allocator is the object id class of the HAL
  drivers (\<^verbatim>\<open>utils/object_id.cpp\<close>, modelled in \<open>Shc_Hal\<close>), and the lemmas show which ids are in use
  after any run of acquisitions and releases of next hops.
\<close>

subsection \<open>The first copy of the agent\<close>

text \<open>
  Gives a reference back. \<open>free_oid\<close> is \<^verbatim>\<open>hal_tunnel_nexthop_free_oid\<close>. The creation of a next hop is
  the one of the current agent, over an environment in which \<open>hal_nhop_alloc_oid\<close> stands for
  \<^verbatim>\<open>hal_tunnel_nexthop_alloc_oid\<close>.
\<close>

definition nhop_obj_delete_bak ::
  "('t, 'b, 'f, 'h) env \<Rightarrow> ('h \<Rightarrow> u32 \<Rightarrow> int \<times> 'h) \<Rightarrow> nat \<Rightarrow> addr \<Rightarrow> ('t, 'b, 'f, 'h) agent
    \<Rightarrow> (int \<times> ('t, 'b, 'f, 'h) agent) outcome" where
  "nhop_obj_delete_bak D free_oid i p s = bindR (load (nhop_heap s) p) (\<lambda>n0.
     let n = n0\<lparr>ref_count := ref_count n0 - 1\<rparr>; s1 = put_nhop p n s in
     if ref_count n > 0 then Inr (0, s1)
     else
       case rte_hash_del_key (hash D) (g_nhop_hash_tbl s1)
              (NhopKey (nh_gateway n) (nh_tunnel_info n)) of (r, t) \<Rightarrow>
         let s2 = s1\<lparr>g_nhop_hash_tbl := t\<rparr> in
         bindR (rte_assert D (0 \<le> r)) (\<lambda>_.
         bindR (nhop_neigh_del D i n r s2) (\<lambda>(_, s3).
         case free_oid (hw_state s3) (nh_oid n) of (ret, h) \<Rightarrow>
           bindR (rte_assert D (0 = ret)) (\<lambda>_. Inr (0, free_nhop p (s3\<lparr>hw_state := h\<rparr>))))))"

text \<open>
  The load of a neighbour into the switch, which the first copy defines and the current agent has
  commented out. The limits of the objects (\<^verbatim>\<open>ntb_spec.h\<close>) are a parameter with a state of its own.
\<close>

record ('h, 'p) neigh_hal =
  hal_inner_neighbor_entry_add :: "'h \<Rightarrow> u32 \<Rightarrow> u8 list \<Rightarrow> int \<times> 'h"
  hal_inner_neighbor_entry_mod :: "'h \<Rightarrow> u32 \<Rightarrow> u8 list \<Rightarrow> int \<times> 'h"
  hal_inner_neighbor_entry_del :: "'h \<Rightarrow> u32 \<Rightarrow> int \<times> 'h"
  ntb_spec_obj_check :: "'p \<Rightarrow> bool"
  ntb_spec_obj_ent_num_inc :: "'p \<Rightarrow> 'p"
  ntb_spec_obj_ent_num_dec :: "'p \<Rightarrow> 'p"

definition NTB_INNER_NEIGH_OBJ_EXCEED_SPEC :: int where
  "NTB_INNER_NEIGH_OBJ_EXCEED_SPEC = ntb_err_code ''NTB_INNER_NEIGH_OBJ_EXCEED_SPEC''"

definition ntb_hal_neigh_update ::
  "('h, 'p) neigh_hal \<Rightarrow> u32 \<Rightarrow> u8 list \<Rightarrow> bool \<Rightarrow> 'h \<times> 'p \<Rightarrow> int \<times> 'h \<times> 'p" where
  "ntb_hal_neigh_update N neigh_oid dmac is_new x = (case x of (h, q) \<Rightarrow>
     if is_new \<and> \<not> ntb_spec_obj_check N q then (NTB_INNER_NEIGH_OBJ_EXCEED_SPEC, h, q)
     else case (if is_new then hal_inner_neighbor_entry_add N h neigh_oid (take 6 dmac)
                else hal_inner_neighbor_entry_mod N h neigh_oid (take 6 dmac)) of (ret, h') \<Rightarrow>
       if ret \<noteq> 0 then (NTB_LOAD_TO_P4_FAIL, h', q)
       else (0, h', if is_new then ntb_spec_obj_ent_num_inc N q else q))"

definition ntb_hal_neigh_del ::
  "('h, 'p) neigh_hal \<Rightarrow> u32 \<Rightarrow> 'h \<times> 'p \<Rightarrow> int \<times> 'h \<times> 'p" where
  "ntb_hal_neigh_del N neigh_oid x = (case x of (h, q) \<Rightarrow>
     case hal_inner_neighbor_entry_del N h neigh_oid of (ret, h') \<Rightarrow>
       if ret \<noteq> 0 then (NTB_LOAD_TO_P4_FAIL, h', q)
       else (0, h', ntb_spec_obj_ent_num_dec N q))"

text \<open>
  The count of the specification is the number of neighbours loaded into the switch and stays within the
  limit, whichever way the calls end, when the switch refuses a second entry for an id and the removal of
  a missing one.
\<close>

lemma neigh_load_counted:
  assumes spec: "\<And>q. num (ntb_spec_obj_ent_num_inc N q) = Suc (num q)"
      "\<And>q. num (ntb_spec_obj_ent_num_dec N q) = num q - 1" "\<And>q. ntb_spec_obj_check N q \<longleftrightarrow> num q < limit"
    and add: "\<And>h x m r h'. hal_inner_neighbor_entry_add N h x m = (r, h') \<Longrightarrow>
      if r = 0 then x \<notin> entries h \<and> entries h' = insert x (entries h) else entries h' = entries h"
    and mod: "\<And>h x m r h'. hal_inner_neighbor_entry_mod N h x m = (r, h') \<Longrightarrow> entries h' = entries h"
    and del: "\<And>h x r h'. hal_inner_neighbor_entry_del N h x = (r, h') \<Longrightarrow>
      if r = 0 then x \<in> entries h \<and> entries h' = entries h - {x} else entries h' = entries h"
    and inv: "finite (entries h)" "num q = card (entries h)" "num q \<le> limit"
  shows "case ntb_hal_neigh_update N x dmac new (h, q) of (r, h', q') \<Rightarrow> num q' = card (entries h') \<and> num q' \<le> limit"
    and "case ntb_hal_neigh_del N x (h, q) of (r, h', q') \<Rightarrow> num q' = card (entries h') \<and> num q' \<le> limit"
proof -
  obtain r1 h1 where a: "hal_inner_neighbor_entry_add N h x (take 6 dmac) = (r1, h1)" by fastforce
  obtain r2 h2 where m: "hal_inner_neighbor_entry_mod N h x (take 6 dmac) = (r2, h2)" by fastforce
  obtain r3 h3 where d: "hal_inner_neighbor_entry_del N h x = (r3, h3)" by fastforce
  show "case ntb_hal_neigh_update N x dmac new (h, q) of (r, h', q') \<Rightarrow> num q' = card (entries h') \<and> num q' \<le> limit"
    using add [OF a] mod [OF m] inv spec by (simp add: ntb_hal_neigh_update_def a m split: if_splits)
  show "case ntb_hal_neigh_del N x (h, q) of (r, h', q') \<Rightarrow> num q' = card (entries h') \<and> num q' \<le> limit"
    using del [OF d] inv spec by (simp add: ntb_hal_neigh_del_def d split: if_splits)
qed

subsection \<open>Effect on the switch state\<close>

text \<open>
  With the assertions compiled out, the deletion of the first copy is the current one followed by the
  release of the id when the last reference goes.
\<close>

lemma nhop_delete_bak_eq:
  assumes "\<not> assert_on D" and "nhop_heap s p = Some n"
  shows "nhop_obj_delete_bak D F i p s = bindR (nhop_obj_delete D i p s) (\<lambda>(r, s').
    Inr (r, if ref_count n - 1 > 0 then s' else s'\<lparr>hw_state := snd (F (hw_state s') (nh_oid n))\<rparr>))"
proof (cases "p = 0")
  case False
  then show ?thesis
    using assms
    by (auto simp: nhop_obj_delete_bak_def nhop_obj_delete_def Let_def free_nhop_def bindR_def
        split: prod.split sum.split)
qed (simp add: nhop_obj_delete_bak_def nhop_obj_delete_def)

text \<open>The switch state is changed by the allocators only.\<close>

lemma neigh_del_hw: "ends_in (\<lambda>(r, s'). hw_state s' = hw_state s) (ntb_neigh_del D i gw s)"
  by (auto simp: ntb_neigh_del_def Let_def put_neigh_def free_neigh_def upd_dp_def intro!: ends_inI split: option.split)

lemma nhop_neigh_del_hw: "ends_in (\<lambda>(r, s'). hw_state s' = hw_state s) (nhop_neigh_del D i n r s)"
  using neigh_del_hw [of s D i "nh_gateway n"] by (auto simp: nhop_neigh_del_def ends_in_def bindR_eq_Inr)

lemma nhop_delete_hw: "ends_in (\<lambda>(r, s'). hw_state s' = hw_state s) (nhop_obj_delete D i p s)"
proof -
  have "hw_state s3 = hw_state s"
    if "nhop_neigh_del D i n r (s\<lparr>nhop_heap := h, g_nhop_hash_tbl := t\<rparr>) = Inr (r', s3)" for n r h t r' s3
    using ends_inD [OF nhop_neigh_del_hw that] by simp
  then show ?thesis
    by (auto simp: nhop_obj_delete_def Let_def put_nhop_def free_nhop_def intro!: ends_inI split: prod.split)
qed

lemma rollback4_hw: "ends_in (\<lambda>(r, p, s'). r = ret \<and> hw_state s' = hw_state s) (nhop_rollback4 D k a ret s)"
  by (simp add: nhop_rollback4_def nhop_rollback5_def free_nhop_def)

lemma rollback3_hw: "ends_in (\<lambda>(r, p, s'). r = ret \<and> hw_state s' = hw_state s) (nhop_rollback3 D i gw k a ret s)"
  using neigh_del_hw [of s D i gw]
  by (auto simp: nhop_rollback3_def nhop_rollback4_def nhop_rollback5_def free_nhop_def ends_in_def bindR_eq_Inr)

subsection \<open>An allocator of object ids\<close>

text \<open>
  What the agent needs of an allocator: the ids handed out and not given back (\<open>used\<close>), and at most
  \<open>room\<close> of them. The code is 0 exactly when an id was stored.
\<close>

locale oid_pool =
  fixes alloc :: "'h \<Rightarrow> u32 \<Rightarrow> int \<times> u32 \<times> 'h" and free_oid :: "'h \<Rightarrow> u32 \<Rightarrow> int \<times> 'h"
    and pool_ok :: "'h \<Rightarrow> bool" and used :: "'h \<Rightarrow> u32 set" and room :: nat
  assumes alloc_ok: "pool_ok h \<Longrightarrow> alloc h old = (0, oid, h') \<Longrightarrow>
      pool_ok h' \<and> oid \<notin> used h \<and> used h' = insert oid (used h)"
    and alloc_refused: "pool_ok h \<Longrightarrow> alloc h old = (r, oid, h') \<Longrightarrow> r \<noteq> 0 \<Longrightarrow>
      pool_ok h' \<and> used h' = used h \<and> oid = old \<and> room \<le> card (used h)"
    and alloc_full: "pool_ok h \<Longrightarrow> room \<le> card (used h) \<Longrightarrow> fst (alloc h old) \<noteq> 0"
    and free_used: "pool_ok h \<Longrightarrow> oid \<in> used h \<Longrightarrow>
      \<exists>h'. free_oid h oid = (0, h') \<and> pool_ok h' \<and> used h' = used h - {oid}"

text \<open>An agent whose next hop ids come from such a pool; the ids of the neighbours do not.\<close>

locale nhop_pool = dpdk_env D fb_used fib_routes fib_default
    + oid_pool "hal_nhop_alloc_oid (hal D)" free_oid pool_ok used room
  for D :: "('t, 'b, 'f, 'h) env" and fb_used fib_routes fib_default free_oid pool_ok used room +
  assumes neigh_alloc_pool: "pool_ok h \<Longrightarrow> hal_neigh_alloc_oid (hal D) h old = (r, oid, h') \<Longrightarrow>
      pool_ok h' \<and> used h' = used h"

text \<open>
  The ids in use are exactly the ids of the next hops that exist, no two of which have the same.
\<close>

definition nhop_ids :: "('t, 'b, 'f, 'h) agent \<Rightarrow> addr \<rightharpoonup> u32" where
  "nhop_ids s p = map_option nh_oid (nhop_heap s p)"

definition ids_exact :: "('h \<Rightarrow> u32 set) \<Rightarrow> ('t, 'b, 'f, 'h) agent \<Rightarrow> bool" where
  "ids_exact used s \<longleftrightarrow> used (hw_state s) = ran (nhop_ids s)
    \<and> (\<forall>p q x. nhop_ids s p = Some x \<longrightarrow> nhop_ids s q = Some x \<longrightarrow> p = q)"

text \<open>The counter of the object at an address, and of the next hop of a gateway and tunnel.\<close>

definition addr_refs :: "('t, 'b, 'f, 'h) agent \<Rightarrow> addr \<Rightarrow> nat" where
  "addr_refs s p = (case nhop_heap s p of None \<Rightarrow> 0 | Some n \<Rightarrow> unat (ref_count n))"

definition nhop_refs ::
  "('t, 'b, 'f, 'h) env \<Rightarrow> ('t, 'b, 'f, 'h) agent \<Rightarrow> fib_nhop_encap_data \<Rightarrow> nat" where
  "nhop_refs D s e = (case nhop_map D s (ntb_nhop_hash_key e) of None \<Rightarrow> 0 | Some p \<Rightarrow> addr_refs s p)"

lemma nhop_wf_refs: "nhop_wf D refs s \<Longrightarrow> refs = addr_refs s"
  by (rule ext) (auto simp: nhop_wf_def addr_refs_def split: option.split)

lemma nhop_wf_dead: "nhop_wf D refs s \<Longrightarrow> refs p = 0 \<longleftrightarrow> nhop_heap s p = None"
  unfolding nhop_wf_def by (metis less_irrefl not_None_eq)

lemma nhop_map_iff:
  "nhop_wf D refs s \<Longrightarrow> nhop_map D s k = Some p \<longleftrightarrow>
    (\<exists>n. nhop_heap s p = Some n \<and> k = NhopKey (nh_gateway n) (nh_tunnel_info n))"
proof (rule iffI, goal_cases)
  case 1
  then obtain n where "nhop_heap s p = Some n" using linked_load by (metis nhop_wf_def)
  then show ?case using 1 by (auto simp: nhop_wf_def)
next
  case 2
  then obtain n where n: "nhop_heap s p = Some n" "k = NhopKey (nh_gateway n) (nh_tunnel_info n)" by blast
  have l: "linked (nhop_map D s) (nhop_heap s) (next_addr s)" using 2 by (simp add: nhop_wf_def)
  show ?case using linked_key [OF l n(1)] 2 n by (auto simp: nhop_wf_def)
qed

lemma nhop_key_inj: "ntb_nhop_hash_key e = ntb_nhop_hash_key e' \<longleftrightarrow> e = e'"
  by (auto simp: ntb_nhop_hash_key_def intro: fib_nhop_encap_data.equality)

context nhop_pool
begin

lemma neigh_add_pool:
  "pool_ok (hw_state s) \<Longrightarrow>
    ends_in (\<lambda>(r, oid, s'). pool_ok (hw_state s') \<and> used (hw_state s') = used (hw_state s)) (ntb_neigh_add D i gw old s)"
  by (auto simp: ntb_neigh_add_def Let_def put_neigh_def free_neigh_def upd_dp_def rte_zmalloc_def
      dest: neigh_alloc_pool intro!: ends_inI split: option.split prod.split)

lemma nhop_neigh_add_pool:
  "pool_ok (hw_state s) \<Longrightarrow>
    ends_in (\<lambda>(r, oid, s'). pool_ok (hw_state s') \<and> used (hw_state s') = used (hw_state s)) (nhop_neigh_add D i n s)"
  using neigh_add_pool [of s i "nh_gateway n" 0] by (simp add: nhop_neigh_add_def)

lemma nhop_new_pool:
  assumes ok: "pool_ok (hw_state s)" and k: "nhop_map D s (ntb_nhop_hash_key e) = None"
    and z: "zmalloc_ok D (next_addr s)"
    and t: "rte_hash_add_key_data (hash D) (g_nhop_hash_tbl s) (ntb_nhop_hash_key e) (next_addr s) = (r0, t)" "\<not> r0 < 0"
    and run: "nhop_obj_create D i e s = Inr (r, p, s')"
  shows "if r < 0 then pool_ok (hw_state s') \<and> used (hw_state s') = used (hw_state s)
    else \<exists>h oid n. pool_ok h \<and> used h = used (hw_state s) \<and> nhop_heap s' p = Some n
      \<and> nh_oid n = oid \<and> hal_nhop_alloc_oid (hal D) h 0 = (r, oid, hw_state s')"
proof -
  let ?a = "next_addr s" and ?k = "ntb_nhop_hash_key e"
  define n s3 where "n = fib_nhop_new e"
    and "s3 = s\<lparr>next_addr := Suc ?a, nhop_heap := (nhop_heap s)(?a \<mapsto> n), g_nhop_hash_tbl := t\<rparr>"
  note step = run [unfolded nhop_obj_create_def Let_def rte_zmalloc_def put_nhop_def n_def [symmetric]]
  obtain r1 noid s4 where N: "nhop_neigh_add D i n s3 = Inr (r1, noid, s4)"
    using step k z t by (auto simp: nhop_map_def s3_def [symmetric] bindR_eq_Inr)
  have s4: "pool_ok (hw_state s4)" "used (hw_state s4) = used (hw_state s)"
    using ends_inD [OF nhop_neigh_add_pool N] ok by (simp_all add: s3_def)
  obtain ret oid h where A: "hal_nhop_alloc_oid (hal D) (hw_state s4) 0 = (ret, oid, h)" by (metis surj_pair)
  consider "r1 < 0" | "\<not> r1 < 0" "ret < 0" | "\<not> r1 < 0" "\<not> ret < 0" by blast
  then show ?thesis
  proof cases
    case 1
    have "nhop_rollback4 D ?k ?a r1 s4 = Inr (r, p, s')"
      using step k z t N 1 by (simp add: nhop_map_def s3_def [symmetric])
    then show ?thesis using ends_inD [OF rollback4_hw] s4 1 by fastforce
  next
    case 2
    then have "nhop_rollback3 D i (nh_gateway n) ?k ?a NTB_ROUTE_NH_ALLOC_OID_FAIL
        (s4\<lparr>nhop_heap := (nhop_heap s4)(?a \<mapsto> n\<lparr>nh_neigh_oid := noid\<rparr>), hw_state := h\<rparr>) = Inr (r, p, s')"
      using step k z t N A by (simp add: nhop_map_def s3_def [symmetric])
    then have "r = NTB_ROUTE_NH_ALLOC_OID_FAIL" "hw_state s' = h" using ends_inD [OF rollback3_hw] by fastforce+
    then show ?thesis using alloc_refused [OF s4(1) A] 2 s4 by (auto simp: ntb_codes)
  next
    case 3
    then have "r = ret \<and> p = ?a \<and> hw_state s' = h \<and> (\<exists>m. nhop_heap s' ?a = Some m \<and> nh_oid m = oid)"
      using step k z t N A
      by (auto simp: nhop_map_def s3_def [symmetric] nhop_obj_ref_def bindR_eq_Inr put_nhop_def load_eq_Inr)
    then show ?thesis using s4 A 3 by auto
  qed
qed

text \<open>What a creation does to the pool: nothing for a next hop that exists, else one allocation at most.\<close>

lemma nhop_create_pool:
  assumes ok: "pool_ok (hw_state s)" and run: "nhop_obj_create D i e s = Inr (r, p, s')"
  shows "if nhop_map D s (ntb_nhop_hash_key e) \<noteq> None then hw_state s' = hw_state s
    else if r < 0 then pool_ok (hw_state s') \<and> used (hw_state s') = used (hw_state s)
    else \<exists>h oid n. pool_ok h \<and> used h = used (hw_state s) \<and> nhop_heap s' p = Some n
      \<and> nh_oid n = oid \<and> hal_nhop_alloc_oid (hal D) h 0 = (r, oid, hw_state s')"
proof (cases "nhop_map D s (ntb_nhop_hash_key e) = None \<and> zmalloc_ok D (next_addr s)")
  case False
  then show ?thesis using run ok
    by (auto simp: nhop_obj_create_def Let_def nhop_map_def rte_zmalloc_def nhop_obj_ref_def put_nhop_def
        bindR_eq_Inr NTB_COMM_NOMEM_val split: option.splits if_splits)
next
  case True
  obtain r0 t where t: "rte_hash_add_key_data (hash D) (g_nhop_hash_tbl s) (ntb_nhop_hash_key e) (next_addr s) = (r0, t)"
    by fastforce
  show ?thesis
  proof (cases "r0 < 0")
    case neg: True
    then show ?thesis using run ok True t
      by (auto simp: nhop_obj_create_def Let_def nhop_map_def rte_zmalloc_def put_nhop_def nhop_rollback5_def
          free_nhop_def EFAULT_def)
  next
    case False
    from nhop_new_pool [OF ok _ _ t this run] True show ?thesis by simp
  qed
qed

end

subsection \<open>Next hops as a reference counted table\<close>

text \<open>
  The next hops that the routes of one VRF use, from a set \<open>K\<close> of gateways and tunnels that the pool
  has room for.
\<close>

definition nhop_counted ::
  "('t, 'b, 'f, 'h) env \<Rightarrow> nat \<Rightarrow> fib_nhop_encap_data set \<Rightarrow> ('h \<Rightarrow> bool) \<Rightarrow> ('h \<Rightarrow> u32 set)
    \<Rightarrow> ('t, 'b, 'f, 'h) agent \<Rightarrow> bool" where
  "nhop_counted D i K pool_ok used s \<longleftrightarrow> i < length (g_ntb_vrfs s) \<and> neigh_wf D s
    \<and> nhop_wf D (addr_refs s) s \<and> pool_ok (hw_state s) \<and> ids_exact used s
    \<and> dom (nhop_map D s) \<subseteq> ntb_nhop_hash_key ` K"

definition nhop_acquire ::
  "('t, 'b, 'f, 'h) env \<Rightarrow> nat \<Rightarrow> fib_nhop_encap_data \<Rightarrow> ('t, 'b, 'f, 'h) agent
    \<Rightarrow> (int \<times> ('t, 'b, 'f, 'h) agent) outcome" where
  "nhop_acquire D i e s = bindR (nhop_obj_create D i e s) (\<lambda>(r, _, s'). Inr (r, s'))"

definition nhop_release ::
  "('t, 'b, 'f, 'h) env \<Rightarrow> ('h \<Rightarrow> u32 \<Rightarrow> int \<times> 'h) \<Rightarrow> nat \<Rightarrow> fib_nhop_encap_data \<Rightarrow> ('t, 'b, 'f, 'h) agent
    \<Rightarrow> (int \<times> ('t, 'b, 'f, 'h) agent) outcome" where
  "nhop_release D free_oid i e s = (case nhop_map D s (ntb_nhop_hash_key e) of
     None \<Rightarrow> Inr (- 1, s) | Some p \<Rightarrow> nhop_obj_delete_bak D free_oid i p s)"

lemma ran_drop:
  assumes "\<And>q. m q = Some x \<longleftrightarrow> q = p"
  shows "ran (m(p := None)) = ran m - {x}"
  by (auto simp: ran_def assms) (metis assms option.inject)

lemma nhop_ids_put:
  "nhop_heap s' = (nhop_heap s)(p \<mapsto> n) \<Longrightarrow> nhop_ids s' = (nhop_ids s)(p \<mapsto> nh_oid n)"
  "nhop_heap s' = (nhop_heap s)(p := None) \<Longrightarrow> nhop_ids s' = (nhop_ids s)(p := None)"
  by (auto simp: nhop_ids_def fun_eq_iff)

lemma ids_exact_upd:
  assumes "ids_exact used s" and "nhop_heap s p = Some n" and "nh_oid m = nh_oid n"
    and "nhop_heap s' = (nhop_heap s)(p \<mapsto> m)" and "used (hw_state s') = used (hw_state s)"
  shows "ids_exact used s'"
proof -
  have "nhop_ids s' = nhop_ids s" using assms(2,3) nhop_ids_put(1) [OF assms(4)] by (auto simp: nhop_ids_def fun_eq_iff)
  then show ?thesis using assms(1,5) by (simp add: ids_exact_def)
qed

lemma ids_exact_new:
  assumes "ids_exact used s" and "nhop_heap s p = None" and "nh_oid n \<notin> used (hw_state s)"
    and "nhop_heap s' = (nhop_heap s)(p \<mapsto> n)" and "used (hw_state s') = insert (nh_oid n) (used (hw_state s))"
  shows "ids_exact used s'"
proof -
  have "nhop_ids s p = None" using assms(2) by (simp add: nhop_ids_def)
  then show ?thesis
    using assms(1,3,5) unfolding ids_exact_def nhop_ids_put(1) [OF assms(4)] by (auto dest: ranI)
qed

lemma ids_exact_drop:
  assumes "ids_exact used s" and "nhop_heap s p = Some n" and "nhop_heap s' = (nhop_heap s)(p := None)"
    and "used (hw_state s') = used (hw_state s) - {nh_oid n}"
  shows "ids_exact used s'"
proof -
  have p: "nhop_ids s p = Some (nh_oid n)" using assms(2) by (simp add: nhop_ids_def)
  have "nhop_ids s q = Some (nh_oid n) \<longleftrightarrow> q = p" for q
    using assms(1) p unfolding ids_exact_def by blast
  then have "ran ((nhop_ids s)(p := None)) = ran (nhop_ids s) - {nh_oid n}" by (rule ran_drop)
  then show ?thesis using assms(1,4) unfolding ids_exact_def nhop_ids_put(2) [OF assms(3)] by auto
qed

text \<open>There are no more ids in use than next hops.\<close>

lemma ids_card:
  assumes "ids_exact used s" and "nhop_wf D refs s" and "finite (dom (nhop_map D s))"
  shows "card (used (hw_state s)) \<le> card (dom (nhop_map D s))"
proof -
  let ?f = "\<lambda>k. the (nhop_ids s (the (nhop_map D s k)))"
  have l: "linked (nhop_map D s) (nhop_heap s) (next_addr s)" using assms(2) by (simp add: nhop_wf_def)
  have "ran (nhop_ids s) \<subseteq> ?f ` dom (nhop_map D s)"
  proof
    fix x assume "x \<in> ran (nhop_ids s)"
    then obtain p n where n: "nhop_heap s p = Some n" "nhop_ids s p = Some x" by (auto simp: ran_def nhop_ids_def)
    obtain k where "nhop_map D s k = Some p" using linked_key [OF l n(1)] by blast
    then show "x \<in> ?f ` dom (nhop_map D s)" using n(2) by (intro image_eqI [of _ _ k]) auto
  qed
  from card_mono [OF _ this] have "card (ran (nhop_ids s)) \<le> card (?f ` dom (nhop_map D s))" using assms(3) by simp
  also have "\<dots> \<le> card (dom (nhop_map D s))" using assms(3) by (rule card_image_le)
  finally show ?thesis using assms(1) by (simp add: ids_exact_def)
qed

lemma nhop_refs_Some:
  assumes "nhop_wf D refs s" and "nhop_heap s p = Some n"
    and "ntb_nhop_hash_key e = NhopKey (nh_gateway n) (nh_tunnel_info n)"
  shows "nhop_refs D s e = refs p"
proof -
  have "nhop_map D s (ntb_nhop_hash_key e) = Some p" using nhop_map_iff [OF assms(1)] assms(2,3) by blast
  then show ?thesis using nhop_wf_refs [OF assms(1)] by (simp add: nhop_refs_def)
qed

lemma nhop_key_unique:
  assumes "nhop_wf D refs s" and "nhop_heap s p = Some n" and "nhop_heap s q = Some m"
    and "nh_gateway n = nh_gateway m" and "nh_tunnel_info n = nh_tunnel_info m"
  shows "p = q"
  using nhop_map_iff [OF assms(1)] assms(2-5) by (metis option.inject)

lemma nhop_refs_None:
  assumes "nhop_wf D refs s"
    and "\<And>p n. nhop_heap s p = Some n \<Longrightarrow> ntb_nhop_hash_key e \<noteq> NhopKey (nh_gateway n) (nh_tunnel_info n)"
  shows "nhop_refs D s e = 0"
  using nhop_map_iff [OF assms(1), of "ntb_nhop_hash_key e"] assms(2) by (auto simp: nhop_refs_def split: option.split)

text \<open>What changes the counter of one object changes the count of its key only.\<close>

lemma nhop_refs_upd:
  assumes wf: "nhop_wf D refs s" and wf': "nhop_wf D (refs(p := c)) s'"
    and p: "\<And>n. nhop_heap s p = Some n \<or> nhop_heap s' p = Some n \<Longrightarrow>
      ntb_nhop_hash_key e = NhopKey (nh_gateway n) (nh_tunnel_info n)"
    and some: "nhop_heap s p \<noteq> None \<or> nhop_heap s' p \<noteq> None"
    and other: "\<And>q. q \<noteq> p \<Longrightarrow> nhop_heap s' q = nhop_heap s q"
  shows "nhop_refs D s' e' = ((nhop_refs D s)(e := c)) e'"
proof (cases "\<exists>q n. nhop_heap s' q = Some n \<and> ntb_nhop_hash_key e' = NhopKey (nh_gateway n) (nh_tunnel_info n)")
  case True
  then obtain q n where q: "nhop_heap s' q = Some n" "ntb_nhop_hash_key e' = NhopKey (nh_gateway n) (nh_tunnel_info n)" by blast
  note r = nhop_refs_Some [OF wf' q]
  show ?thesis
  proof (cases "q = p")
    case True
    then show ?thesis using r q p [of n] nhop_key_inj [of e e'] by simp
  next
    case False
    then have h: "nhop_heap s q = Some n" using other q(1) by simp
    have "e' \<noteq> e"
    proof
      assume e: "e' = e"
      from some obtain m where m: "nhop_heap s p = Some m \<or> nhop_heap s' p = Some m" by auto
      then show False
        using p [OF m] q(2) e nhop_key_unique [OF wf' q(1), of p m] nhop_key_unique [OF wf h, of p m] False by auto
    qed
    then show ?thesis using r nhop_refs_Some [OF wf h q(2)] False by simp
  qed
next
  case False
  then have r: "nhop_refs D s' e' = 0" by (intro nhop_refs_None [OF wf']) blast
  show ?thesis
  proof (cases "e' = e")
    case True
    then have "nhop_heap s' p = None" using False p by (cases "nhop_heap s' p") auto
    then have "c = 0" using nhop_wf_dead [OF wf', of p] by simp
    then show ?thesis using r True by simp
  next
    case ne: False
    have "nhop_refs D s e' = 0"
    proof (rule nhop_refs_None [OF wf])
      fix q n assume "nhop_heap s q = Some n"
      then show "ntb_nhop_hash_key e' \<noteq> NhopKey (nh_gateway n) (nh_tunnel_info n)"
        using False p [of n] ne nhop_key_inj [of e e'] other by (cases "q = p") metis+
    qed
    then show ?thesis using r ne by simp
  qed
qed

context nhop_pool
begin

lemma nhop_map_finite: "finite (dom (nhop_map D s))"
  by (simp add: nhop_map_def finite_keys)

text \<open>A pool with room for all next hops of \<open>K\<close> has room for one that does not exist yet.\<close>

lemma alloc_in_room:
  assumes c: "nhop_counted D i K pool_ok used s" and K: "finite K" "card K \<le> room" and e: "e \<in> K"
    and None: "nhop_map D s (ntb_nhop_hash_key e) = None"
    and h: "pool_ok h" "used h = used (hw_state s)" and a: "hal_nhop_alloc_oid (hal D) h old = (r, oid, h')"
  shows "r = 0"
proof (rule ccontr)
  assume "r \<noteq> 0"
  then have "room \<le> card (used (hw_state s))" using alloc_refused [OF h(1) a] h(2) by simp
  also have "\<dots> \<le> card (dom (nhop_map D s))" using c nhop_map_finite unfolding nhop_counted_def by (blast intro: ids_card)
  also have "\<dots> < card (ntb_nhop_hash_key ` K)"
  proof (rule psubset_card_mono)
    have "ntb_nhop_hash_key e \<in> ntb_nhop_hash_key ` K" "ntb_nhop_hash_key e \<notin> dom (nhop_map D s)" using e None by auto
    then show "dom (nhop_map D s) \<subset> ntb_nhop_hash_key ` K" using c unfolding nhop_counted_def by blast
  qed (simp add: K(1))
  also have "\<dots> \<le> card K" using K(1) by (rule card_image_le)
  finally show False using K(2) by simp
qed

text \<open>A state in which one more reference is held on the next hop of \<open>e\<close>.\<close>

lemma nhop_acquired_counted:
  assumes c: "nhop_counted D i K pool_ok used s" and e: "e \<in> K" and b: "nhop_refs D s e < 2 ^ 32 - 1"
    and k: "ntb_nhop_hash_key e = NhopKey (nh_gateway n) (nh_tunnel_info n)" and refs: "nhop_refs D s e = addr_refs s p"
    and h: "nhop_heap s' = (nhop_heap s)(p \<mapsto> n)" and m: "nhop_map D s' = (nhop_map D s)(ntb_nhop_hash_key e \<mapsto> p)"
    and new: "(nhop_map D s (ntb_nhop_hash_key e) = None \<and> p = next_addr s \<and> next_addr s < next_addr s' \<and> ref_count n = 1)
      \<or> (\<exists>n0. nhop_map D s (ntb_nhop_hash_key e) = Some p \<and> nhop_heap s p = Some n0 \<and> ref_count n = ref_count n0 + 1)"
    and fr: "obj_frame s s'" "neigh_wf D s'" and pool: "pool_ok (hw_state s')" "ids_exact used s'"
  shows "nhop_counted D i K pool_ok used s'
    \<and> nhop_refs D s' e' = ((nhop_refs D s)(e := Suc (nhop_refs D s e))) e'"
proof -
  have wf: "nhop_wf D (addr_refs s) s" using c by (simp add: nhop_counted_def)
  have w: "nhop_wf D ((addr_refs s)(p := Suc (addr_refs s p))) s'"
    using nhop_wf_acquired [OF wf _ m [unfolded k] h, folded k] new b refs fr(1) by (auto simp: obj_frame_def)
  have key: "ntb_nhop_hash_key e = NhopKey (nh_gateway m) (nh_tunnel_info m)" if "nhop_heap s p = Some m" for m
  proof -
    have "p \<noteq> next_addr s" using that wf by (auto simp: nhop_wf_def dest: linked_fresh [OF _ order_refl])
    then show ?thesis using new that nhop_map_iff [OF wf, of "ntb_nhop_hash_key e" p] by auto
  qed
  have "nhop_refs D s' e' = ((nhop_refs D s)(e := Suc (addr_refs s p))) e'"
    using h k key by (intro nhop_refs_upd [OF wf w]) auto
  moreover have "dom (nhop_map D s') \<subseteq> ntb_nhop_hash_key ` K" using c e by (auto simp: m nhop_counted_def)
  ultimately show ?thesis
    using c w nhop_wf_refs [OF w] fr pool refs obj_frame_length [OF fr(1)] by (simp add: nhop_counted_def)
qed

lemma nhop_acquire_effect:
  assumes off: "\<not> assert_on D" and c: "nhop_counted D i K pool_ok used s"
    and K: "finite K" "card K \<le> room" and e: "e \<in> K" and b: "nhop_refs D s e < 2 ^ 32 - 1"
    and run: "nhop_acquire D i e s = Inr (r, s')" "0 \<le> r"
  shows "nhop_counted D i K pool_ok used s'
    \<and> nhop_refs D s' e' = ((nhop_refs D s)(e := Suc (nhop_refs D s e))) e'"
proof -
  have wf: "nhop_wf D (addr_refs s) s" and nw: "neigh_wf D s" and i: "i < length (g_ntb_vrfs s)"
    and ids: "ids_exact used s" and ok: "pool_ok (hw_state s)" using c by (simp_all add: nhop_counted_def)
  obtain p where p: "nhop_obj_create D i e s = Inr (r, p, s')" using run by (auto simp: nhop_acquire_def bindR_eq_Inr)
  note hw = nhop_create_pool [OF ok p]
  from off i nw wf refl show ?thesis
  proof (cases rule: nhop_obj_create_cases [where e = e])
    case (hit q n s1)
    then have eq: "q = p" "s1 = s'" "r = 0" using p by simp_all
    have "ids_exact used s'" using ids_exact_upd [OF ids hit(2) _ hit(8)] hw hit(1) eq by simp
    moreover have "nhop_refs D s e = addr_refs s p" using nhop_refs_Some [OF wf hit(2)] hit(7) eq by simp
    ultimately show ?thesis
      using hit eq hw ok by (intro nhop_acquired_counted [OF c e b, where n = "n\<lparr>ref_count := ref_count n + 1\<rparr>" and p = p])
        (auto simp: fun_upd_idem)
  next
    case (new ret n s1)
    then have eq: "p = next_addr s" "s1 = s'" "r = ret" using p by simp_all
    have fresh: "nhop_heap s p = None" using wf linked_fresh eq by (auto simp: nhop_wf_def)
    obtain h where h: "pool_ok h" "used h = used (hw_state s)" "hal_nhop_alloc_oid (hal D) h 0 = (r, nh_oid n, hw_state s')"
      using hw new eq by auto
    have "r = 0" using alloc_in_room [OF c K e new(1) h] .
    then have a: "pool_ok (hw_state s')" "nh_oid n \<notin> used (hw_state s)" "used (hw_state s') = insert (nh_oid n) (used (hw_state s))"
      using alloc_ok [OF h(1)] h(2,3) by simp_all
    have "ids_exact used s'" using ids_exact_new [OF ids fresh a(2)] new(8) a(3) eq by simp
    moreover have "nhop_refs D s e = addr_refs s p" using new(1) fresh by (simp add: nhop_refs_def addr_refs_def)
    ultimately show ?thesis
      using new eq a by (intro nhop_acquired_counted [OF c e b, where n = n and p = p]) auto
  next
    case (fail ret s1)
    then show ?thesis using p run(2) by simp
  qed
qed

text \<open>A refusal changes nothing that counts, and comes only where the next hop did not exist.\<close>

lemma nhop_acquire_refused:
  assumes off: "\<not> assert_on D" and c: "nhop_counted D i K pool_ok used s"
    and run: "nhop_acquire D i e s = Inr (r, s')" "r < 0"
  shows "nhop_counted D i K pool_ok used s' \<and> nhop_refs D s' e' = nhop_refs D s e' \<and> nhop_refs D s e = 0"
proof -
  have wf: "nhop_wf D (addr_refs s) s" and nw: "neigh_wf D s" and i: "i < length (g_ntb_vrfs s)"
    and ids: "ids_exact used s" and ok: "pool_ok (hw_state s)" using c by (simp_all add: nhop_counted_def)
  obtain p where p: "nhop_obj_create D i e s = Inr (r, p, s')" using run by (auto simp: nhop_acquire_def bindR_eq_Inr)
  note hw = nhop_create_pool [OF ok p]
  from off i nw wf refl show ?thesis
  proof (cases rule: nhop_obj_create_cases [where e = e])
    case (fail ret s1)
    then have eq: "s1 = s'" using p by simp
    have refs: "addr_refs s' = addr_refs s" using fail(7) eq by (simp add: addr_refs_def fun_eq_iff)
    then have "nhop_wf D (addr_refs s') s'"
      using nhop_wf_same [OF wf] fail eq by (simp add: obj_frame_def)
    moreover have "nhop_ids s' = nhop_ids s" using fail(7) eq by (simp add: nhop_ids_def fun_eq_iff)
    then have "ids_exact used s'" using ids hw fail(1) run(2) eq by (simp add: ids_exact_def)
    ultimately show ?thesis
      using c fail eq hw run(2) refs obj_frame_length [OF fail(4)]
      by (simp add: nhop_counted_def nhop_refs_def split: option.split)
  qed (use p run(2) in auto)
qed

lemma nhop_acquire_returns:
  assumes off: "\<not> assert_on D" and c: "nhop_counted D i K pool_ok used s"
  shows "\<exists>r s'. nhop_acquire D i e s = Inr (r, s')"
proof -
  have "i < length (g_ntb_vrfs s)" "neigh_wf D s" "nhop_wf D (addr_refs s) s" using c by (simp_all add: nhop_counted_def)
  from off this refl show ?thesis
    by (cases rule: nhop_obj_create_cases [where e = e]) (simp_all add: nhop_acquire_def)
qed

text \<open>The first copy releases the id with the last reference.\<close>

lemma nhop_delete_bak_effect:
  assumes off: "\<not> assert_on D" and c: "nhop_counted D i K pool_ok used s" and n: "nhop_heap s p = Some n"
  shows "\<exists>s'. nhop_obj_delete_bak D free_oid i p s = Inr (0, s') \<and> obj_frame s s' \<and> neigh_wf D s'
    \<and> nhop_wf D ((addr_refs s)(p := addr_refs s p - 1)) s' \<and> pool_ok (hw_state s') \<and> ids_exact used s'
    \<and> nhop_heap s' = (nhop_heap s)(p := if addr_refs s p = 1 then None else Some (n\<lparr>ref_count := ref_count n - 1\<rparr>))"
proof -
  have wf: "nhop_wf D (addr_refs s) s" and nw: "neigh_wf D s" and i: "i < length (g_ntb_vrfs s)"
    and ids: "ids_exact used s" and ok: "pool_ok (hw_state s)" using c by (simp_all add: nhop_counted_def)
  obtain s1 where s1: "nhop_obj_delete D i p s = Inr (0, s1)" "obj_frame s s1" "neigh_wf D s1"
    "nhop_wf D ((addr_refs s)(p := addr_refs s p - 1)) s1" "\<And>q. q \<noteq> p \<Longrightarrow> nhop_heap s1 q = nhop_heap s q"
    "addr_refs s p \<noteq> 1 \<Longrightarrow> nhop_heap s1 p = Some (n\<lparr>ref_count := ref_count n - 1\<rparr>)"
    using nhop_obj_delete_effect [OF off i nw wf n(1)] by blast
  have hw: "hw_state s1 = hw_state s" using ends_inD [OF nhop_delete_hw s1(1)] by simp
  note run = nhop_delete_bak_eq [OF off n(1), of free_oid i, unfolded s1(1)]
  have c: "addr_refs s p = unat (ref_count n)" "0 < addr_refs s p" using wf n by (auto simp: addr_refs_def nhop_wf_def)
  show ?thesis
  proof (cases "addr_refs s p = 1")
    case True
    then have z: "ref_count n = 1" using c(1) by (simp add: word_unat_eq_iff)
    have "nhop_heap s1 p = None" using nhop_wf_dead [OF s1(4), of p] True by simp
    then have h: "nhop_heap s1 = (nhop_heap s)(p := None)" using s1(5) by auto
    have "nh_oid n \<in> used (hw_state s)" using ids n by (auto simp: ids_exact_def nhop_ids_def ran_def)
    then obtain h' where h': "free_oid (hw_state s) (nh_oid n) = (0, h')" "pool_ok h'" "used h' = used (hw_state s) - {nh_oid n}"
      using free_used [OF ok] by blast
    let ?s = "s1\<lparr>hw_state := h'\<rparr>"
    have "ids_exact used ?s" using ids_exact_drop [OF ids n, of ?s] h h' by simp
    moreover have "nhop_wf D ((addr_refs s)(p := addr_refs s p - 1)) ?s"
      using nhop_wf_same [OF s1(4), of ?s] by (simp add: nhop_map_def)
    moreover have "obj_frame s ?s" "neigh_wf D ?s"
      using s1(2) neigh_wf_cong [OF s1(3), of ?s] by (simp_all add: obj_frame_def part_defs)
    ultimately show ?thesis using run z hw h h' True by simp
  next
    case False
    then have "ref_count n - 1 > 0" using c by (auto simp: word_gt_0)
    moreover have "nhop_heap s1 = (nhop_heap s)(p \<mapsto> n\<lparr>ref_count := ref_count n - 1\<rparr>)" using s1(5,6) False by auto
    moreover from this have "ids_exact used s1" using ids_exact_upd [OF ids n, of "n\<lparr>ref_count := ref_count n - 1\<rparr>" s1] hw by simp
    ultimately show ?thesis using run False s1 hw ok by simp
  qed
qed

lemma nhop_release_effect:
  assumes off: "\<not> assert_on D" and c: "nhop_counted D i K pool_ok used s" and pos: "0 < nhop_refs D s e"
  shows "\<exists>s'. nhop_release D free_oid i e s = Inr (0, s') \<and> nhop_counted D i K pool_ok used s'
    \<and> (\<forall>e'. nhop_refs D s' e' = ((nhop_refs D s)(e := nhop_refs D s e - 1)) e')"
proof -
  have wf: "nhop_wf D (addr_refs s) s" using c by (simp add: nhop_counted_def)
  obtain p where p: "nhop_map D s (ntb_nhop_hash_key e) = Some p"
    using pos by (cases "nhop_map D s (ntb_nhop_hash_key e)") (auto simp: nhop_refs_def)
  then obtain n where n: "nhop_heap s p = Some n" "ntb_nhop_hash_key e = NhopKey (nh_gateway n) (nh_tunnel_info n)"
    using nhop_map_iff [OF wf] by blast
  have refs: "nhop_refs D s e = addr_refs s p" using nhop_refs_Some [OF wf n] .
  obtain s' where s': "nhop_obj_delete_bak D free_oid i p s = Inr (0, s')" "obj_frame s s'" "neigh_wf D s'"
    "nhop_wf D ((addr_refs s)(p := addr_refs s p - 1)) s'" "pool_ok (hw_state s')" "ids_exact used s'"
    "nhop_heap s' = (nhop_heap s)(p := if addr_refs s p = 1 then None else Some (n\<lparr>ref_count := ref_count n - 1\<rparr>))"
    using nhop_delete_bak_effect [OF off c n(1)] by blast
  have "dom (nhop_map D s') \<subseteq> dom (nhop_map D s)"
  proof
    fix k assume "k \<in> dom (nhop_map D s')"
    then obtain q m where "nhop_heap s' q = Some m" "k = NhopKey (nh_gateway m) (nh_tunnel_info m)"
      using nhop_map_iff [OF s'(4)] by auto
    then have "\<exists>m. nhop_heap s q = Some m \<and> k = NhopKey (nh_gateway m) (nh_tunnel_info m)"
      using s'(7) n(1) by (auto split: if_splits)
    then show "k \<in> dom (nhop_map D s)" using nhop_map_iff [OF wf, of k q] by blast
  qed
  then have "nhop_counted D i K pool_ok used s'"
    using c s' nhop_wf_refs [OF s'(4)] obj_frame_length [OF s'(2)] by (auto simp: nhop_counted_def)
  moreover have "nhop_refs D s' e' = ((nhop_refs D s)(e := nhop_refs D s e - 1)) e'" for e'
    unfolding refs using n s'(7) by (intro nhop_refs_upd [OF wf s'(4)]) (auto split: if_splits)
  ultimately show ?thesis using p s'(1) by (auto simp: nhop_release_def)
qed

end

text \<open>
  A next hop that is created and given back at once, in the current agent and in the first copy: both
  free the object, the first copy gives its id back as well.
\<close>

context nhop_pool
begin

lemma nhop_new_effect:
  assumes off: "\<not> assert_on D" and i: "i < length (g_ntb_vrfs s)" and nw: "neigh_wf D s"
    and wf: "nhop_wf D (addr_refs s) s" and None: "nhop_map D s (ntb_nhop_hash_key e) = None"
    and run: "nhop_obj_create D i e s = Inr (r, p, s1)" "0 \<le> r" and n: "nhop_heap s1 p = Some n"
  shows "nhop_heap s p = None" "nhop_heap s1 = (nhop_heap s)(p \<mapsto> n)" "ref_count n = 1" "neigh_wf D s1" "obj_frame s s1"
    "nhop_wf D ((addr_refs s)(p := Suc 0)) s1"
proof -
  have new: "p = next_addr s \<and> obj_frame s s1 \<and> neigh_wf D s1 \<and> nhop_heap s1 = (nhop_heap s)(p \<mapsto> n) \<and> ref_count n = 1
      \<and> nhop_map D s1 = (nhop_map D s)(ntb_nhop_hash_key e \<mapsto> p)
      \<and> ntb_nhop_hash_key e = NhopKey (nh_gateway n) (nh_tunnel_info n) \<and> next_addr s < next_addr s1"
    using off i nw wf refl
  proof (cases rule: nhop_obj_create_cases [where e = e])
    case (new ret m s')
    then have "s' = s1" "p = next_addr s" "m = n" using run(1) n by simp_all
    then show ?thesis using new by blast
  qed (use None run in auto)
  have "linked (nhop_map D s) (nhop_heap s) (next_addr s)" using wf by (simp add: nhop_wf_def)
  from linked_fresh [OF this order_refl] show fresh: "nhop_heap s p = None" using new by simp
  then have "addr_refs s p = 0" by (simp add: addr_refs_def)
  then show "nhop_wf D ((addr_refs s)(p := Suc 0)) s1"
    using nhop_wf_acquired [OF wf, where p = p and n = n and s' = s1] new None by simp
  show "nhop_heap s1 = (nhop_heap s)(p \<mapsto> n)" "ref_count n = 1" "neigh_wf D s1" "obj_frame s s1" using new by blast+
qed

lemma nhop_cycle:
  assumes off: "\<not> assert_on D" and i: "i < length (g_ntb_vrfs s)" and nw: "neigh_wf D s"
    and wf: "nhop_wf D (addr_refs s) s" and ok: "pool_ok (hw_state s)"
    and None: "nhop_map D s (ntb_nhop_hash_key e) = None"
    and run: "nhop_obj_create D i e s = Inr (r, p, s1)" "0 \<le> r"
  obtains n h s2 where "nhop_heap s1 p = Some n" "pool_ok h" "used h = used (hw_state s)"
    "hal_nhop_alloc_oid (hal D) h 0 = (r, nh_oid n, hw_state s1)"
    "nhop_obj_delete D i p s1 = Inr (0, s2)" "nhop_heap s2 = nhop_heap s" "hw_state s2 = hw_state s1"
    "nhop_obj_delete_bak D free_oid i p s1 = Inr (0, s2\<lparr>hw_state := snd (free_oid (hw_state s1) (nh_oid n))\<rparr>)"
proof -
  obtain n h where n: "nhop_heap s1 p = Some n" and h: "pool_ok h" "used h = used (hw_state s)"
    "hal_nhop_alloc_oid (hal D) h 0 = (r, nh_oid n, hw_state s1)"
    using nhop_create_pool [OF ok run(1)] None run(2) by auto
  note s1 = nhop_new_effect [OF off i nw wf None run n]
  have i1: "i < length (g_ntb_vrfs s1)" using i obj_frame_length [OF s1(5)] by simp
  obtain s2 where s2: "nhop_obj_delete D i p s1 = Inr (0, s2)" "\<And>q. q \<noteq> p \<Longrightarrow> nhop_heap s2 q = nhop_heap s1 q"
    "nhop_wf D ((addr_refs s)(p := 0)) s2"
    using nhop_obj_delete_effect [OF off i1 s1(4,6) n] by auto
  have "nhop_heap s2 p = None" using nhop_wf_dead [OF s2(3), of p] by simp
  then have "nhop_heap s2 q = nhop_heap s q" for q using s2(2) [of q] s1(1,2) by (cases "q = p") simp_all
  then have heap: "nhop_heap s2 = nhop_heap s" by (rule ext)
  have hw: "hw_state s2 = hw_state s1" using ends_inD [OF nhop_delete_hw s2(1)] by simp
  show ?thesis
    by (rule that [OF n h s2(1) heap hw]) (use nhop_delete_bak_eq [OF off n, of free_oid i] s2(1) hw s1(3) in simp)
qed

end

text \<open>
  The users of the next hops of one VRF: the assertions are compiled out, and the pool has room for
  the gateways and tunnels that are used.
\<close>

locale nhop_users = nhop_pool +
  fixes i :: nat and K :: "fib_nhop_encap_data set"
  assumes off: "\<not> assert_on D" and K_room: "finite K" "card K \<le> room"

sublocale nhop_users \<subseteq> hops: refcounted "nhop_counted D i K pool_ok used" "\<lambda>e. e \<in> K" "nhop_refs D"
  "nhop_acquire D i" "nhop_release D free_oid i" "2 ^ 32 - 1"
proof unfold_locales
  fix s e r s'
  assume c: "nhop_counted D i K pool_ok used s" and e: "e \<in> K"
  show "\<exists>r s'. nhop_acquire D i e s = Inr (r, s')" by (rule nhop_acquire_returns [OF off c])
  assume r: "nhop_acquire D i e s = Inr (r, s')"
  show "nhop_counted D i K pool_ok used s' \<and> (\<forall>k'. k' \<in> K \<longrightarrow>
      nhop_refs D s' k' = ((nhop_refs D s)(e := Suc (nhop_refs D s e))) k')"
    if "nhop_refs D s e < 2 ^ 32 - 1" "0 \<le> r"
    using nhop_acquire_effect [OF off c K_room e that(1) r that(2)] by blast
  show "nhop_counted D i K pool_ok used s' \<and> (\<forall>k'. k' \<in> K \<longrightarrow> nhop_refs D s' k' = nhop_refs D s k')" if "r < 0"
    using nhop_acquire_refused [OF off c r that] by blast
  show "0 \<le> r" if "0 < nhop_refs D s e"
    using nhop_acquire_refused [OF off c r] that by (cases "r < 0") auto
next
  fix s e
  assume "nhop_counted D i K pool_ok used s" "0 < nhop_refs D s e"
  then show "\<exists>s'. nhop_release D free_oid i e s = Inr (0, s') \<and> nhop_counted D i K pool_ok used s' \<and> (\<forall>k'. k' \<in> K \<longrightarrow>
      nhop_refs D s' k' = ((nhop_refs D s)(e := nhop_refs D s e - 1)) k')"
    using nhop_release_effect [OF off] by blast
qed

context nhop_users
begin

lemma hops_refcounted:
  "refcounted (nhop_counted D i K pool_ok used) (\<lambda>e. e \<in> K) (nhop_refs D) (nhop_acquire D i) (nhop_release D free_oid i) (2 ^ 32 - 1)"
  by (rule hops.refcounted_axioms)

end

end
