(* ===== verification/Ntb_Nhop_Pool.thy ===== *)
theory Ntb_Nhop_Pool
  imports Ntb_Nhop_Ids
begin

text \<open>
  The agent on top of the object ids of the HAL drivers: the class \<^verbatim>\<open>OjectID\<close> over the id generator of
  the vendor provides the pool that \<open>Ntb_Nhop_Ids\<close> asks for. Next hop ids are exact in the first copy
  of the agent; the current agent uses up one id with every next hop it ever creates, and takes the
  refusal of an exhausted pool for a success, since the status codes of the HAL are positive.
\<close>

subsection \<open>The object ids of the drivers\<close>

text \<open>
  What the class relies on: a generator of \<open>room\<close> ids, which hands out a free one and answers \<open>-1\<close> when
  all are taken.
\<close>

locale id_gen =
  fixes api :: "'g id_api" and gen_ok :: "'g \<Rightarrow> bool" and taken :: "'g \<Rightarrow> int set" and room :: nat
  assumes room_small: "room < 2 ^ 31"
    and taken_range: "gen_ok g \<Longrightarrow> taken g \<subseteq> {0..int room}"
    and allocate_fresh: "gen_ok g \<Longrightarrow> id_allocate api g = (i, g') \<Longrightarrow> i \<noteq> - 1 \<Longrightarrow>
      gen_ok g' \<and> i \<notin> taken g \<and> taken g' = insert i (taken g)"
    and allocate_none: "gen_ok g \<Longrightarrow> id_allocate api g = (- 1, g') \<Longrightarrow>
      gen_ok g' \<and> taken g' = taken g \<and> room \<le> card (taken g)"
    and allocate_full: "gen_ok g \<Longrightarrow> room \<le> card (taken g) \<Longrightarrow> fst (id_allocate api g) = - 1"
    and release_taken: "gen_ok g \<Longrightarrow> gen_ok (id_release api g x) \<and> taken (id_release api g x) = taken g - {uint x}"

text \<open>\<^verbatim>\<open>Alloc\<close> stores through its argument on success only: \<open>old\<close> is what was there before.\<close>

definition oid_alloc :: "string list \<Rightarrow> 'g id_api \<Rightarrow> 'g OjectID \<Rightarrow> u32 \<Rightarrow> int \<times> u32 \<times> 'g OjectID" where
  "oid_alloc bf api ob old = (case Alloc bf api ob of (r, oid, ob') \<Rightarrow>
     (r, case oid of None \<Rightarrow> old | Some x \<Rightarrow> x, ob'))"

definition oid_free :: "'g id_api \<Rightarrow> 'g OjectID \<Rightarrow> u32 \<Rightarrow> int \<times> 'g OjectID" where
  "oid_free api ob oid = Free api oid ob"

definition oid_used :: "('g \<Rightarrow> int set) \<Rightarrow> 'g OjectID \<Rightarrow> u32 set" where
  "oid_used taken ob = (\<lambda>i. word_of_int i + offset ob) ` taken (id_generator ob)"

definition oid_ok :: "('g \<Rightarrow> bool) \<Rightarrow> ('g \<Rightarrow> int set) \<Rightarrow> nat \<Rightarrow> 'g OjectID \<Rightarrow> bool" where
  "oid_ok gen_ok taken room ob \<longleftrightarrow> gen_ok (id_generator ob) \<and> oid_size ob = of_nat room
    \<and> count ob = of_nat (card (taken (id_generator ob)))"

context id_gen
begin

lemma id_word: "x \<in> {0..int room} \<Longrightarrow> uint (word_of_int x :: u32) = x"
  using room_small by (simp add: uint_word_of_int)

lemma id_inj: "gen_ok g \<Longrightarrow> inj_on (\<lambda>i. word_of_int i + c :: u32) (taken g)"
  using taken_range id_word by (intro inj_onI) (metis add_right_imp_eq subsetD)

lemma finite_taken: "gen_ok g \<Longrightarrow> finite (taken g)"
  using taken_range by (meson finite_atLeastAtMost_int finite_subset)

lemma oid_card: "oid_ok gen_ok taken room ob \<Longrightarrow> card (oid_used taken ob) = card (taken (id_generator ob))"
  unfolding oid_used_def oid_ok_def by (intro card_image id_inj) simp

lemma size_sint: "sint (of_nat room :: u32) = int room"
  using room_small by (simp add: signed_of_nat signed_take_bit_int_eq_self)

lemma oid_alloc_cases:
  assumes ok: "oid_ok gen_ok taken room ob"
  obtains
    (given) i g where "oid_alloc bf api ob old =
        (0, word_of_int i + offset ob, ob\<lparr>id_generator := g, count := count ob + 1\<rparr>)"
      "i \<notin> taken (id_generator ob)" "taken g = insert i (taken (id_generator ob))" "gen_ok g" "i \<in> {0..int room}"
  | (none) g where "oid_alloc bf api ob old = (HAL_NO_SPACE bf, old, ob\<lparr>id_generator := g\<rparr>)"
      "taken g = taken (id_generator ob)" "gen_ok g" "room \<le> card (taken (id_generator ob))"
proof -
  obtain i g where a: "id_allocate api (id_generator ob) = (i, g)" by fastforce
  have g: "gen_ok (id_generator ob)" "oid_size ob = of_nat room" using ok by (simp_all add: oid_ok_def)
  show ?thesis
  proof (cases "i = - 1")
    case True
    then show ?thesis using allocate_none [OF g(1)] a by (intro none [of g]) (simp_all add: oid_alloc_def Alloc_def)
  next
    case False
    then have n: "gen_ok g" "i \<notin> taken (id_generator ob)" "taken g = insert i (taken (id_generator ob))"
      using allocate_fresh [OF g(1) a] by simp_all
    then have "i \<in> {0..int room}" using taken_range [of g] by simp
    then show ?thesis using n False a g(2) size_sint by (intro given [of i g]) (simp_all add: oid_alloc_def Alloc_def)
  qed
qed

end

text \<open>The class is a pool of ids, and its usage counter is the number of the ids in use.\<close>

sublocale id_gen \<subseteq> pool: oid_pool "oid_alloc bf api" "oid_free api" "oid_ok gen_ok taken room" "oid_used taken" room
  for bf
proof unfold_locales
  fix ob old oid ob' r assume ok: "oid_ok gen_ok taken room ob"
  then have g: "gen_ok (id_generator ob)" by (simp add: oid_ok_def)
  show "oid_ok gen_ok taken room ob' \<and> oid \<notin> oid_used taken ob \<and> oid_used taken ob' = insert oid (oid_used taken ob)"
    if "oid_alloc bf api ob old = (0, oid, ob')"
    using ok
  proof (cases rule: oid_alloc_cases [where bf = bf and old = old])
    case (given i g')
    have "inj_on (\<lambda>i. word_of_int i + offset ob) (insert i (taken (id_generator ob)))" using id_inj [OF given(4)] given(3) by simp
    then have "word_of_int i + offset ob \<notin> oid_used taken ob" using given(2) by (auto simp: oid_used_def inj_on_def)
    then show ?thesis using that given ok finite_taken [OF g] by (auto simp: oid_ok_def oid_used_def)
  next
    case (none g')
    then show ?thesis using that by (simp add: HAL_NO_SPACE_def)
  qed
  show "oid_ok gen_ok taken room ob' \<and> oid_used taken ob' = oid_used taken ob \<and> oid = old \<and> room \<le> card (oid_used taken ob)"
    if "oid_alloc bf api ob old = (r, oid, ob')" "r \<noteq> 0"
    using ok by (cases rule: oid_alloc_cases [where bf = bf and old = old])
      (use that ok oid_card [OF ok] in \<open>auto simp: oid_ok_def oid_used_def\<close>)
  show "fst (oid_alloc bf api ob old) \<noteq> 0" if "room \<le> card (oid_used taken ob)"
    using ok
  proof (cases rule: oid_alloc_cases [where bf = bf and old = old])
    case (given i g')
    have "fst (id_allocate api (id_generator ob)) = - 1" using allocate_full [OF g] that oid_card [OF ok] by simp
    then show ?thesis by (auto simp: oid_alloc_def Alloc_def HAL_NO_SPACE_def split: prod.split)
  qed (simp add: HAL_NO_SPACE_def)
next
  fix ob and oid :: u32
  assume ok: "oid_ok gen_ok taken room ob" and "oid \<in> oid_used taken ob"
  then obtain i where i: "i \<in> taken (id_generator ob)" "oid = word_of_int i + offset ob" by (auto simp: oid_used_def)
  have g: "gen_ok (id_generator ob)" using ok by (simp add: oid_ok_def)
  have u: "uint (oid - offset ob) = i" using i id_word taken_range [OF g] by auto
  let ?g = "id_release api (id_generator ob) (oid - offset ob)"
  have r: "gen_ok ?g" "taken ?g = taken (id_generator ob) - {i}" using release_taken [OF g] u by auto
  have "card (taken (id_generator ob)) = Suc (card (taken ?g))"
    using card_Suc_Diff1 [OF finite_taken [OF g] i(1)] r(2) by simp
  moreover have "(\<lambda>i. word_of_int i + offset ob) ` (taken (id_generator ob) - {i}) = oid_used taken ob - {oid}"
    using id_inj [OF g] i by (auto simp: oid_used_def inj_on_def)
  ultimately show "\<exists>ob'. oid_free api ob oid = (0, ob') \<and> oid_ok gen_ok taken room ob' \<and> oid_used taken ob' = oid_used taken ob - {oid}"
    using ok r by (auto simp: oid_free_def Free_def oid_ok_def oid_used_def)
qed

context id_gen
begin

lemma oid_class_pool:
  "oid_pool (oid_alloc bf api) (oid_free api) (oid_ok gen_ok taken room) (oid_used taken) room"
  by (rule pool.oid_pool_axioms)

end

subsection \<open>The agent on the pool\<close>

text \<open>
  The switch state of the agent holds the object ids of the next hops beside the rest: the id of a next
  hop comes from them, and no neighbour id does.
\<close>

definition on_pool :: "string list \<Rightarrow> 'g id_api \<Rightarrow> ('t, 'b, 'f, 'g OjectID \<times> 'x) env \<Rightarrow> bool" where
  "on_pool bf api D \<longleftrightarrow>
     (\<forall>ob x old. hal_nhop_alloc_oid (hal D) (ob, x) old =
        (case oid_alloc bf api ob old of (r, oid, ob') \<Rightarrow> (r, oid, (ob', x))))
   \<and> (\<forall>h old r oid h'. hal_neigh_alloc_oid (hal D) h old = (r, oid, h') \<longrightarrow> fst h' = fst h)"

definition pool_free :: "'g id_api \<Rightarrow> 'g OjectID \<times> 'x \<Rightarrow> u32 \<Rightarrow> int \<times> 'g OjectID \<times> 'x" where
  "pool_free api h oid = (case oid_free api (fst h) oid of (r, ob) \<Rightarrow> (r, (ob, snd h)))"

abbreviation pool_used :: "('g \<Rightarrow> int set) \<Rightarrow> 'g OjectID \<times> 'x \<Rightarrow> u32 set" where
  "pool_used taken \<equiv> \<lambda>h. oid_used taken (fst h)"

abbreviation pool_ok :: "('g \<Rightarrow> bool) \<Rightarrow> ('g \<Rightarrow> int set) \<Rightarrow> nat \<Rightarrow> 'g OjectID \<times> 'x \<Rightarrow> bool" where
  "pool_ok gen_ok taken room \<equiv> \<lambda>h. oid_ok gen_ok taken room (fst h)"

lemma agent_on_pool:
  assumes env: "dpdk_env D fb_used fib_routes fib_default" and gen: "id_gen api gen_ok taken room"
    and on: "on_pool bf api D"
  shows "nhop_pool D fb_used fib_routes fib_default (pool_free api) (pool_ok gen_ok taken room) (pool_used taken) room"
proof -
  have L: "oid_pool (oid_alloc bf api) (oid_free api) (oid_ok gen_ok taken room) (oid_used taken) room"
    by (rule id_gen.oid_class_pool [OF gen])
  have alloc: "hal_nhop_alloc_oid (hal D) h old = (r, oid, h') \<longleftrightarrow>
      oid_alloc bf api (fst h) old = (r, oid, fst h') \<and> snd h' = snd h" for h old r oid h'
    using on by (cases h; cases h') (auto simp: on_pool_def split: prod.splits)
  have "oid_pool (hal_nhop_alloc_oid (hal D)) (pool_free api) (pool_ok gen_ok taken room) (pool_used taken) room"
  proof (unfold_locales, goal_cases)
    case (1 h old oid h')
    then show ?case using oid_pool.alloc_ok [OF L] alloc by blast
  next
    case (2 h old r oid h')
    then show ?case using oid_pool.alloc_refused [OF L] alloc by blast
  next
    case (3 h old)
    obtain r oid h' where a: "hal_nhop_alloc_oid (hal D) h old = (r, oid, h')" by (metis surj_pair)
    then show ?case using oid_pool.alloc_full [OF L 3, of old] alloc [of h old r oid h'] by simp
  next
    case (4 h oid)
    then show ?case using oid_pool.free_used [OF L 4] by (auto simp: pool_free_def)
  qed
  moreover have "fst h' = fst h" if "hal_neigh_alloc_oid (hal D) h old = (r, oid, h')" for h old r oid h'
    using on that unfolding on_pool_def by blast
  ultimately show ?thesis using env unfolding nhop_pool_def nhop_pool_axioms_def by simp
qed

subsection \<open>A pool that computes\<close>

text \<open>
  A generator of \<open>n\<close> ids as the list of the taken ones, and the agent on two pools of this kind, one for
  the next hops and one for the neighbours.
\<close>

definition ref_id_api :: "nat \<Rightarrow> int list id_api" where
  "ref_id_api n = \<lparr>id_allocate = (\<lambda>xs. case find (\<lambda>i. \<not> List.member xs i) [0..int n - 1] of
       None \<Rightarrow> (- 1, xs) | Some i \<Rightarrow> (i, i # xs)),
     id_release = (\<lambda>xs x. removeAll (uint x) xs)\<rparr>"

lemma ref_id_gen:
  assumes "n < 2 ^ 31"
  shows "id_gen (ref_id_api n) (\<lambda>xs. set xs \<subseteq> {0..<int n}) set n"
proof (unfold_locales, goal_cases)
  case (3 xs i xs')
  then show ?case by (auto simp: ref_id_api_def find_Some_iff subset_iff split: option.splits)
next
  case (4 xs xs')
  have "find (\<lambda>i. \<not> List.member xs i) [0..int n - 1] = None"
  proof (rule ccontr)
    assume "find (\<lambda>i. \<not> List.member xs i) [0..int n - 1] \<noteq> None"
    then obtain i where f: "find (\<lambda>i. \<not> List.member xs i) [0..int n - 1] = Some i" by auto
    then have "i = - 1" using 4(2) by (simp add: ref_id_api_def)
    moreover have "i \<in> set [0..int n - 1]" using f by (metis find_Some_iff nth_mem)
    ultimately show False by simp
  qed
  moreover from this have "card {0..<int n} \<le> card (set xs)" by (intro card_mono) (auto simp: find_None_iff subset_iff)
  then have "n \<le> card (set xs)" by simp
  ultimately show ?case using 4 by (simp add: ref_id_api_def)
next
  case (5 xs)
  then have "set xs = {0..<int n}" using card_seteq [of "{0..<int n}" "set xs"] by simp
  then have "find (\<lambda>i. \<not> List.member xs i) [0..int n - 1] = None" by (auto simp: find_None_iff)
  then show ?case by (simp add: ref_id_api_def)
qed (use assms in \<open>auto simp: ref_id_api_def\<close>)

interpretation ref_ids: id_gen "ref_id_api 2" "\<lambda>xs. set xs \<subseteq> {0..<int 2}" set 2
  by (rule ref_id_gen) simp

type_synonym pool_hw = "int list OjectID \<times> int list OjectID"

definition ref_pool :: "int list OjectID" where
  "ref_pool = \<lparr>id_generator = [], oid_size = 2, offset = 100, count = 0\<rparr>"

definition pool_hal :: "pool_hw hal_api" where
  "pool_hal = \<lparr>
     hal_nhop_alloc_oid = (\<lambda>(a, b) old. case oid_alloc [] (ref_id_api 2) a old of (r, oid, a') \<Rightarrow> (r, oid, (a', b))),
     hal_neigh_alloc_oid = (\<lambda>(a, b) old. case oid_alloc [] (ref_id_api 2) b old of (r, oid, b') \<Rightarrow> (r, oid, (a, b'))),
     hal_route_entry_add = (\<lambda>h k d. (0, h)), hal_route_entry_del = (\<lambda>h k. (0, h)),
     hal_nhop_entry_add = (\<lambda>h k d. (0, h)), hal_nhop_entry_del = (\<lambda>h k. (0, h)),
     hal_neigh_entry_add = (\<lambda>h k d. (0, h)), hal_neigh_entry_del = (\<lambda>h k. (0, h)),
     hal_tunnel_map_vrf_entry_add = (\<lambda>h k d. (0, h)), hal_tunnel_map_vrf_entry_del = (\<lambda>h k. (0, h))\<rparr>"

definition pool_env :: "(ref_hash, ref_fbarray, ref_fib, pool_hw) env" where
  "pool_env = \<lparr>assert_on = False, zmalloc_ok = (\<lambda>_. True), hash = ref_hash_api,
     fbarray = ref_fbarray_api, fib = ref_fib_api, hal = pool_hal\<rparr>"

definition pool_start :: "(ref_hash, ref_fbarray, ref_fib, pool_hw) agent" where
  "pool_start = \<lparr>g_ntb_vrfs = g_ntb_vrfs ref_agent, g_ntb_vrf_n = g_ntb_vrf_n ref_agent,
     g_fib_res_array = g_fib_res_array ref_agent, fib_res_mem = fib_res_mem ref_agent,
     f_res_blackhole = f_res_blackhole ref_agent, ntb_rib_hash_tbl = ntb_rib_hash_tbl ref_agent,
     g_nhop_hash_tbl = g_nhop_hash_tbl ref_agent, ol_neigh_hash_tbl = ol_neigh_hash_tbl ref_agent,
     ol_neigh_count = 0, vrf_hash_tbl = vrf_hash_tbl ref_agent, nhop_heap = Map.empty, neigh_heap = Map.empty,
     tunnel_heap = Map.empty, next_addr = 1, fake_mac = default_mac, def_gw_mac = default_mac,
     hw_state = (ref_pool, ref_pool)\<rparr>"

abbreviation ref_gen_ok :: "int list \<Rightarrow> bool" where
  "ref_gen_ok \<equiv> \<lambda>xs. set xs \<subseteq> {0..<int 2}"

lemma pool_env_dpdk: "dpdk_env pool_env w_used ref_fib_routes ref_fib_default"
  using ref_dpdk_env [of False "\<lambda>_. True"] by (simp add: dpdk_env_def pool_env_def ref_env_def)

lemma pool_env_on_pool: "on_pool [] (ref_id_api 2) pool_env"
  by (auto simp: on_pool_def pool_env_def pool_hal_def split: prod.splits)

interpretation ref_hops: nhop_pool pool_env w_used ref_fib_routes ref_fib_default "pool_free (ref_id_api 2)"
  "pool_ok ref_gen_ok set 2" "pool_used set" 2
  by (rule agent_on_pool [OF pool_env_dpdk ref_ids.id_gen_axioms pool_env_on_pool])

interpretation ref_users: nhop_users pool_env w_used ref_fib_routes ref_fib_default "pool_free (ref_id_api 2)"
  "pool_ok ref_gen_ok set 2" "pool_used set" 2 0 "{w_nhop}"
  by unfold_locales (simp_all add: pool_env_def)

lemma pool_start_counted: "nhop_counted pool_env 0 {w_nhop} (pool_ok ref_gen_ok set 2) (pool_used set) pool_start"
  by (simp add: nhop_counted_def pool_start_def pool_env_def neigh_wf_def nhop_wf_def linked_def neigh_map_def nhop_map_def
      ref_hash_api_def addr_refs_def ids_exact_def nhop_ids_def oid_ok_def oid_used_def ref_pool_def NTB_NR_VRF_def dom_def ran_def)

lemma ref_pool_alloc:
  "oid_alloc bf (ref_id_api 2) ref_pool old = (0, 100, ref_pool\<lparr>id_generator := [0], count := 1\<rparr>)"
proof -
  have "[0..int 2 - 1] = [0, 1]" by (simp add: upto.simps)
  then show ?thesis by (simp add: oid_alloc_def Alloc_def ref_id_api_def ref_pool_def)
qed

lemmas pool_env_simps = pool_env_def pool_hal_def pool_start_def ref_hash_api_def ref_hash_add_def ref_pool_alloc

text \<open>The first next hop gets the first id of the pool.\<close>

lemma pool_first:
  "\<exists>s1 n. nhop_obj_create pool_env 0 w_nhop pool_start = Inr (0, 1, s1) \<and> nhop_heap s1 1 = Some n \<and> nh_oid n = 100
    \<and> nhop_map pool_env s1 (ntb_nhop_hash_key w_nhop) = Some 1 \<and> ref_count n = 1"
  by (simp add: insert_defs size_defs Let_def pool_env_simps ref_vrf_def w_nhop_def nhop_map_def)

lemma pool_start_free:
  "\<not> assert_on pool_env" "nhop_refs pool_env pool_start e = 0" "nhop_map pool_env pool_start k = None"
  by (simp_all add: pool_env_def pool_start_def nhop_refs_def nhop_map_def ref_hash_api_def)

text \<open>A second user of this next hop comes and goes.\<close>

lemma pool_run:
  "refcounted.run (nhop_acquire pool_env 0) (nhop_release pool_env (pool_free (ref_id_api 2)) 0)
    [(True, w_nhop), (True, w_nhop), (False, w_nhop)] pool_start \<noteq> None"
proof -
  obtain s1 n where s1: "nhop_obj_create pool_env 0 w_nhop pool_start = Inr (0, 1, s1)" "nhop_heap s1 1 = Some n"
    "nhop_map pool_env s1 (ntb_nhop_hash_key w_nhop) = Some 1" "ref_count n = 1" using pool_first by blast
  then have "nhop_acquire pool_env 0 w_nhop pool_start = Inr (0, s1)"
    "nhop_acquire pool_env 0 w_nhop s1 = Inr (0, put_nhop 1 (n\<lparr>ref_count := 2\<rparr>) s1)"
    "nhop_release pool_env (pool_free (ref_id_api 2)) 0 w_nhop (put_nhop 1 (n\<lparr>ref_count := 2\<rparr>) s1) =
      Inr (0, put_nhop 1 (n\<lparr>ref_count := 1\<rparr>) s1)"
    by (simp_all add: nhop_acquire_def nhop_release_def nhop_obj_create_def nhop_obj_ref_def nhop_obj_delete_bak_def
        nhop_map_def Let_def put_nhop_def pool_env_def)
  then show ?thesis by (simp add: refcounted.run.simps [OF ref_users.hops_refcounted])
qed

subsection \<open>Properties\<close>

text \<open>The usage counter of the class is the number of the next hops.\<close>

lemma counted_usage:
  assumes gen: "id_gen api gen_ok taken room" and c: "nhop_counted D i K (pool_ok gen_ok taken room) (pool_used taken) s"
  shows "oid_used taken (fst (hw_state s)) = ran (nhop_ids s)
    \<and> (\<forall>p q x. nhop_ids s p = Some x \<longrightarrow> nhop_ids s q = Some x \<longrightarrow> p = q)
    \<and> GetUsage (fst (hw_state s)) = of_nat (card (dom (nhop_heap s)))"
proof -
  have ok: "oid_ok gen_ok taken room (fst (hw_state s))" and ids: "ids_exact (pool_used taken) s"
    using c by (simp_all add: nhop_counted_def)
  have "inj_on (\<lambda>p. the (nhop_ids s p)) (dom (nhop_ids s))" using ids by (auto simp: ids_exact_def inj_on_def)
  moreover have "ran (nhop_ids s) = (\<lambda>p. the (nhop_ids s p)) ` dom (nhop_ids s)" by (force simp: ran_def image_iff)
  ultimately have "card (ran (nhop_ids s)) = card (dom (nhop_ids s))" by (simp add: card_image)
  moreover have "dom (nhop_ids s) = dom (nhop_heap s)" by (auto simp: nhop_ids_def)
  ultimately show ?thesis using id_gen.oid_card [OF gen ok] ok ids by (simp add: GetUsage_def oid_ok_def ids_exact_def)
qed





end
