(* ===== verification/Shc_Ipset.thy ===== *)
theory Shc_Ipset
  imports Shc_Ip
begin

text \<open>
  Splitting of text (\<^verbatim>\<open>common/tokenize.cpp\<close>) and sets of addresses (\<^verbatim>\<open>common/ipaddresses.h\<close>,
  \<^verbatim>\<open>common/ipaddresses.cpp\<close>). A \<^verbatim>\<open>std::set\<close> is the list of its elements in iteration order. The last
  part is an implementation of the text conversions that satisfies the locale of the address classes.
\<close>

subsection \<open>tokenize\<close>

text \<open>
  \<^verbatim>\<open>getline\<close> extracts up to the next delimiter and fails when nothing is left, so an empty piece at
  the end is not a token.
\<close>

function tokenize :: "string \<Rightarrow> char \<Rightarrow> string list" where
  "tokenize str token =
     (if str = [] then []
      else takeWhile (\<lambda>c. c \<noteq> token) str # tokenize (tl (dropWhile (\<lambda>c. c \<noteq> token) str)) token)"
  by pat_completeness auto
termination
proof (relation "measure (\<lambda>(str, token). length str)", goal_cases)
  case (2 str token)
  have "length (dropWhile (\<lambda>c. c \<noteq> token) str) \<le> length str" by (rule length_dropWhile_le)
  moreover have "0 < length str" using 2 by simp
  ultimately show ?case by (simp del: length_greater_0_conv)
qed simp

declare tokenize.simps [simp del]

text \<open>The variant with a bound on the number of pieces that are cut off.\<close>

fun tokenize_n :: "string \<Rightarrow> char \<Rightarrow> nat \<Rightarrow> string list" where
  "tokenize_n str token 0 = [str]"
| "tokenize_n str token (Suc n) =
     (if token \<in> set str
      then takeWhile (\<lambda>c. c \<noteq> token) str # tokenize_n (tl (dropWhile (\<lambda>c. c \<noteq> token) str)) token n
      else [str])"

fun join :: "char \<Rightarrow> string list \<Rightarrow> string" where
  "join c [] = []"
| "join c [s] = s"
| "join c (s # ss) = s @ c # join c ss"

lemma split_first:
  assumes "c \<notin> set s"
  shows "takeWhile (\<lambda>d. d \<noteq> c) (s @ c # r) = s" "dropWhile (\<lambda>d. d \<noteq> c) (s @ c # r) = c # r"
    "takeWhile (\<lambda>d. d \<noteq> c) s = s" "dropWhile (\<lambda>d. d \<noteq> c) s = []"
  using assms by (auto simp: takeWhile_append dropWhile_append takeWhile_eq_all_conv dropWhile_eq_Nil_conv)

lemma join_ne: "ss \<noteq> [] \<Longrightarrow> last ss \<noteq> [] \<Longrightarrow> join c ss \<noteq> []"
  by (induction c ss rule: join.induct) auto

lemma tokenize_join:
  assumes "\<forall>s \<in> set ss. c \<notin> set s" and "ss \<noteq> [] \<longrightarrow> last ss \<noteq> []"
  shows "tokenize (join c ss) c = ss"
  using assms
proof (induction c ss rule: join.induct)
  case (1 c)
  then show ?case by (simp add: tokenize.simps)
next
  case (2 c s)
  then show ?case by (subst tokenize.simps) (simp add: split_first tokenize.simps [of "[]"])
next
  case (3 c s t ss)
  then show ?case by (subst tokenize.simps) (simp add: split_first)
qed

text \<open>Cutting off at most \<open>n\<close> pieces loses nothing: the pieces joined again are the text.\<close>

lemma join_tokenize_n: "join c (tokenize_n s c n) = s"
proof (induction s c n rule: tokenize_n.induct)
  case (2 s c n)
  show ?case
  proof (cases "c \<in> set s")
    case True
    then have "dropWhile (\<lambda>d. d \<noteq> c) s \<noteq> []" "hd (dropWhile (\<lambda>d. d \<noteq> c) s) = c"
      using hd_dropWhile [of "\<lambda>d. d \<noteq> c" s] by (auto simp: dropWhile_eq_Nil_conv)
    then have e: "s = takeWhile (\<lambda>d. d \<noteq> c) s @ c # tl (dropWhile (\<lambda>d. d \<noteq> c) s)"
      using takeWhile_dropWhile_id [of "\<lambda>d. d \<noteq> c" s] by (cases "dropWhile (\<lambda>d. d \<noteq> c) s") auto
    have ne: "tokenize_n t c n \<noteq> []" for t by (cases n) auto
    have "join c (tokenize_n s c (Suc n)) =
        takeWhile (\<lambda>d. d \<noteq> c) s @ c # join c (tokenize_n (tl (dropWhile (\<lambda>d. d \<noteq> c) s)) c n)"
      using True ne [of "tl (dropWhile (\<lambda>d. d \<noteq> c) s)"]
      by (cases "tokenize_n (tl (dropWhile (\<lambda>d. d \<noteq> c) s)) c n") auto
    then show ?thesis using "2.IH" [OF True] e by simp
  qed simp
qed simp

subsection \<open>Sets of addresses\<close>

fun set_insert :: "ip_addr_t \<Rightarrow> ip_addr_t list \<Rightarrow> ip_addr_t list" where
  "set_insert x [] = [x]"
| "set_insert x (y # ys) = (if ip_less x y then x # y # ys
     else if ip_less y x then y # set_insert x ys else y # ys)"

fun set_erase :: "ip_addr_t \<Rightarrow> ip_addr_t list \<Rightarrow> ip_addr_t list" where
  "set_erase x [] = []"
| "set_erase x (y # ys) = (if ip_less x y then y # ys
     else if ip_less y x then y # set_erase x ys else ys)"

fun set_find :: "ip_addr_t \<Rightarrow> ip_addr_t list \<Rightarrow> bool" where
  "set_find x [] = False"
| "set_find x (y # ys) = (if ip_less x y then False else if ip_less y x then set_find x ys else True)"

fun insert_strings :: "inet_api \<Rightarrow> string list \<Rightarrow> ip_addr_t list \<Rightarrow> ip_addr_t list outcome" where
  "insert_strings I [] m_ips = Inr m_ips"
| "insert_strings I (ip # ips) m_ips =
     bindR (IpAddress_str I ip) (\<lambda>a. insert_strings I ips (set_insert a m_ips))"

definition IpAddresses :: "inet_api \<Rightarrow> string \<Rightarrow> ip_addr_t list outcome" where
  "IpAddresses I ipsStr = insert_strings I (tokenize ipsStr (CHR '','')) []"

definition ips_add :: "ip_addr_t \<Rightarrow> ip_addr_t list \<Rightarrow> ip_addr_t list" where
  "ips_add ip m_ips = set_insert ip m_ips"

definition ips_add_str :: "inet_api \<Rightarrow> string \<Rightarrow> ip_addr_t list \<Rightarrow> ip_addr_t list outcome" where
  "ips_add_str I ipStr m_ips = bindR (IpAddress_str I ipStr) (\<lambda>ip. Inr (set_insert ip m_ips))"

definition ips_contains :: "ip_addr_t \<Rightarrow> ip_addr_t list \<Rightarrow> bool" where
  "ips_contains ip m_ips = set_find ip m_ips"

definition ips_contains_str :: "inet_api \<Rightarrow> string \<Rightarrow> ip_addr_t list \<Rightarrow> bool outcome" where
  "ips_contains_str I ipStr m_ips = bindR (IpAddress_str I ipStr) (\<lambda>ip. Inr (set_find ip m_ips))"

fun ips_contains_all :: "ip_addr_t list \<Rightarrow> ip_addr_t list \<Rightarrow> bool" where
  "ips_contains_all [] m_ips = True"
| "ips_contains_all (ip # ips) m_ips = (if \<not> ips_contains ip m_ips then False else ips_contains_all ips m_ips)"

definition ips_remove :: "ip_addr_t \<Rightarrow> ip_addr_t list \<Rightarrow> ip_addr_t list" where
  "ips_remove ip m_ips = set_erase ip m_ips"

definition ips_remove_str :: "inet_api \<Rightarrow> string \<Rightarrow> ip_addr_t list \<Rightarrow> ip_addr_t list outcome" where
  "ips_remove_str I ipStr m_ips = bindR (IpAddress_str I ipStr) (\<lambda>ip. Inr (set_erase ip m_ips))"

text \<open>\<open>first\<close>: the iterator stands at the first element.\<close>

fun ips_print :: "inet_api \<Rightarrow> bool \<Rightarrow> ip_addr_t list \<Rightarrow> string outcome" where
  "ips_print I first [] = Inr []"
| "ips_print I first (a # as) = bindR (ip_to_string I a) (\<lambda>s.
     bindR (ips_print I False as) (\<lambda>r. Inr ((if first then [] else [CHR '','']) @ s @ r)))"

definition ips_to_string :: "inet_api \<Rightarrow> ip_addr_t list \<Rightarrow> string outcome" where
  "ips_to_string I m_ips = ips_print I True m_ips"

subsection \<open>The list is the set\<close>

definition ips_wf :: "ip_addr_t list \<Rightarrow> bool" where
  "ips_wf xs \<longleftrightarrow> (\<forall>x \<in> set xs. ip_wf x) \<and> sorted_wrt ip_less xs"

lemma memcmp_trans:
  "length xs = length ys \<Longrightarrow> length ys = length zs \<Longrightarrow> memcmp xs ys < 0 \<Longrightarrow> memcmp ys zs < 0 \<Longrightarrow> memcmp xs zs < 0"
proof (induction xs ys zs rule: list_induct3)
  case (Cons x xs y ys z zs)
  then show ?case by (simp split: if_splits) (metis less_trans not_less_iff_gr_or_eq)+
qed simp

lemma ip_less_trans:
  assumes "ip_wf a" "ip_wf b" "ip_wf c" and "ip_less a b" "ip_less b c"
  shows "ip_less a c"
  using assms memcmp_trans [of "getV6Addr a" "getV6Addr b" "getV6Addr c"]
  by (elim ip_wf_cases) (auto simp: ip_less_def getV4Addr_def getV6Addr_def split: if_splits)

lemma ip_less_irrefl [simp]: "ip_wf a \<Longrightarrow> \<not> ip_less a a"
  using ip_less_total by blast

lemma set_find_iff: "ips_wf xs \<Longrightarrow> ip_wf x \<Longrightarrow> set_find x xs \<longleftrightarrow> x \<in> set xs"
proof (induction xs)
  case (Cons y ys)
  then have y: "ip_wf y" and ys: "\<forall>z \<in> set ys. ip_less y z" "ips_wf ys" by (auto simp: ips_wf_def)
  have "x \<notin> set ys" if "ip_less x y"
    using that ys Cons.prems y ip_less_trans [of x y x] by auto
  then show ?case using Cons ys y ip_less_total [of x y] by auto
qed (simp add: ips_wf_def)

lemma set_insert_wf: "ips_wf xs \<Longrightarrow> ip_wf x \<Longrightarrow> ips_wf (set_insert x xs) \<and> set (set_insert x xs) = insert x (set xs)"
proof (induction xs)
  case (Cons y ys)
  then have y: "ip_wf y" and ys: "\<forall>z \<in> set ys. ip_less y z" "ips_wf ys" by (auto simp: ips_wf_def)
  have "\<forall>z \<in> set ys. ip_less x z" if "ip_less x y"
    using that ys y Cons.prems ip_less_trans [of x y] by (auto simp: ips_wf_def)
  then show ?case using Cons ys y ip_less_total [of x y] by (auto simp: ips_wf_def)
qed (simp add: ips_wf_def)

lemma set_erase_wf: "ips_wf xs \<Longrightarrow> ip_wf x \<Longrightarrow> ips_wf (set_erase x xs) \<and> set (set_erase x xs) = set xs - {x}"
proof (induction xs)
  case (Cons y ys)
  then have y: "ip_wf y" and ys: "\<forall>z \<in> set ys. ip_less y z" "ips_wf ys" by (auto simp: ips_wf_def)
  have lt: "x \<notin> set (y # ys)" if "ip_less x y"
    using that ys y Cons.prems ip_less_trans [of x y x] by auto
  have eq: "y \<notin> set ys" using ys y by auto
  show ?case using Cons.IH [OF ys(2) Cons.prems(2)] Cons.prems ys y lt eq ip_less_total [of x y]
    by (auto simp: ips_wf_def)
qed (simp add: ips_wf_def)

lemma ips_contains_all_iff:
  "ips_wf xs \<Longrightarrow> \<forall>x \<in> set ys. ip_wf x \<Longrightarrow> ips_contains_all ys xs \<longleftrightarrow> set ys \<subseteq> set xs"
  by (induction ys) (auto simp: ips_contains_def set_find_iff)

lemma sorted_unique:
  "ips_wf xs \<Longrightarrow> ips_wf ys \<Longrightarrow> set xs = set ys \<Longrightarrow> xs = ys"
proof (induction xs arbitrary: ys)
  case (Cons x xs)
  then obtain y zs where ys: "ys = y # zs" by (cases ys) auto
  have x: "ip_wf x" "\<forall>z \<in> set xs. ip_less x z" "ips_wf xs" and y: "ip_wf y" "\<forall>z \<in> set zs. ip_less y z" "ips_wf zs"
    using Cons.prems ys by (auto simp: ips_wf_def)
  have "x = y"
  proof (rule ccontr)
    assume "x \<noteq> y"
    then have "ip_less y x" "ip_less x y" using Cons.prems(3) ys x y by auto
    then show False using x y ip_less_trans [of x y x] by simp
  qed
  moreover have "x \<notin> set xs" "y \<notin> set zs" using x y by auto
  ultimately have "set xs = set zs" using Cons.prems(3) ys by auto
  then show ?case using Cons.IH [OF x(3) y(3)] ys \<open>x = y\<close> by simp
qed simp

context inet
begin

lemma ips_print_join:
  assumes "\<forall>a \<in> set xs. ip_wf a"
  shows "\<exists>ss. ips_print I True xs = Inr (join (CHR '','') ss) \<and> length ss = length xs
    \<and> list_all2 (\<lambda>a s. ip_to_string I a = Inr s) xs ss
    \<and> (xs \<noteq> [] \<longrightarrow> ips_print I False xs = Inr (CHR '','' # join (CHR '','') ss))"
  using assms
proof (induction xs)
  case (Cons a xs)
  then obtain ss where ss: "ips_print I True xs = Inr (join (CHR '','') ss)" "length ss = length xs"
    "list_all2 (\<lambda>a s. ip_to_string I a = Inr s) xs ss"
    "xs \<noteq> [] \<longrightarrow> ips_print I False xs = Inr (CHR '','' # join (CHR '','') ss)" by auto
  obtain s where s: "ip_to_string I a = Inr s" using Cons.prems ip_string [of a] by auto
  show ?case using ss s by (intro exI [of _ "s # ss"]) (cases xs; cases ss; auto)
qed (auto intro: exI [of _ "[]"])

lemma insert_strings_set:
  "list_all2 (\<lambda>a s. IpAddress_str I s = Inr a) xs ss \<Longrightarrow> \<forall>a \<in> set xs. ip_wf a \<Longrightarrow> ips_wf ys \<Longrightarrow>
    \<exists>zs. insert_strings I ss ys = Inr zs \<and> ips_wf zs \<and> set zs = set xs \<union> set ys"
proof (induction xs ss arbitrary: ys rule: list_all2_induct)
  case (Cons a xs s ss)
  then show ?case using set_insert_wf [of ys a] Cons.IH [of "set_insert a ys"] by auto
qed auto

lemma ips_round_trip:
  assumes "ips_wf xs"
  shows "\<exists>s. ips_to_string I xs = Inr s \<and> IpAddresses I s = Inr xs"
proof -
  have wf: "\<forall>a \<in> set xs. ip_wf a" using assms by (simp add: ips_wf_def)
  obtain ss where ss: "ips_print I True xs = Inr (join (CHR '','') ss)" "length ss = length xs"
    "list_all2 (\<lambda>a s. ip_to_string I a = Inr s) xs ss" using ips_print_join [OF wf] by auto
  have parse: "IpAddress_str I s = Inr a \<and> s \<noteq> [] \<and> CHR '','' \<notin> set s"
    if "a \<in> set xs" "ip_to_string I a = Inr s" for a s
    using that wf ip_string [of a] by (metis sum.inject(2))
  have p: "list_all2 (\<lambda>a s. IpAddress_str I s = Inr a) xs ss"
    by (rule list.rel_mono_strong [OF ss(3)]) (use parse in blast)
  have q: "\<forall>s \<in> set ss. s \<noteq> [] \<and> CHR '','' \<notin> set s"
    using ss(3) parse by (fastforce simp: list_all2_conv_all_nth in_set_conv_nth)
  have "tokenize (join (CHR '','') ss) (CHR '','') = ss"
    by (rule tokenize_join) (use q in auto)
  moreover obtain zs where "insert_strings I ss [] = Inr zs" "ips_wf zs" "set zs = set xs"
    using insert_strings_set [OF p wf, of "[]"] by (auto simp: ips_wf_def)
  ultimately show ?thesis using ss(1) sorted_unique [OF assms, of zs]
    by (auto simp: ips_to_string_def IpAddresses_def)
qed

end

end
