(* ===== verification/Shc_Inet.thy ===== *)
theory Shc_Inet
  imports Shc_Ipset
begin

text \<open>
  An implementation of the text conversions: dotted decimal for IPv4, eight groups of four hexadecimal
  digits for IPv6. It satisfies the locale \<open>inet\<close>, whose lemmas the address classes use.
\<close>

definition v4_bytes :: "u32 \<Rightarrow> nat list" where
  "v4_bytes w = map (\<lambda>i. unat (drop_bit (8 * i) w) mod 256) [0, 1, 2, 3]"

definition v4_word :: "nat list \<Rightarrow> u32" where
  "v4_word bs = of_nat (bs ! 0 + 256 * (bs ! 1 + 256 * (bs ! 2 + 256 * (bs ! 3))))"

definition show_v4 :: "u32 \<Rightarrow> string" where
  "show_v4 w = join (CHR ''.'') (map show_nat (v4_bytes w))"

definition read_v4 :: "string \<Rightarrow> ip_union option" where
  "read_v4 s = (let ts = tokenize s (CHR ''.'') in
     if length ts = 4 \<and> (\<forall>t \<in> set ts. t \<noteq> [] \<and> list_all isdigit t \<and> digits_val t < 256)
     then Some (Ipv4_addr (v4_word (map digits_val ts))) else None)"

lemma show_nat_no: "\<not> isdigit c \<Longrightarrow> c \<notin> set (show_nat n)"
  by (auto dest: show_nat_digits)

lemma v4_word_bytes: "v4_word (v4_bytes w) = w"
proof -
  define n where "n = unat w"
  have n: "n < 256 * 256 * 256 * 256" using unsigned_less [of w] by (simp add: n_def)
  have "unat (drop_bit k w) = n div 2 ^ k" for k
    unfolding n_def by (simp only: unsigned_drop_bit_eq) (simp add: drop_bit_eq_div take_bit_nat_eq_self)
  then have "v4_word (v4_bytes w) = of_nat (n mod 256 + 256 * (n div 256 mod 256
      + 256 * (n div 65536 mod 256 + 256 * (n div 16777216 mod 256))))"
    by (simp add: v4_word_def v4_bytes_def)
  also have "n mod 256 + 256 * (n div 256 mod 256 + 256 * (n div 65536 mod 256 + 256 * (n div 16777216 mod 256))) = n"
  proof -
    have d: "n div 65536 = n div 256 div 256" "n div 16777216 = n div 256 div 256 div 256"
      by (simp_all flip: div_mult2_eq)
    have "n div 256 div 256 div 256 < 256" using n by (simp add: flip: d)
    then show ?thesis unfolding d by simp
  qed
  finally show ?thesis by (simp add: n_def)
qed

lemma read_show_v4: "read_v4 (show_v4 w) = Some (Ipv4_addr w)"
proof -
  have "\<not> isdigit (CHR ''.'')" by (simp add: isdigit_def)
  then have t: "tokenize (show_v4 w) (CHR ''.'') = map show_nat (v4_bytes w)"
    unfolding show_v4_def by (intro tokenize_join) (auto simp: show_nat_no v4_bytes_def)
  have m: "map (digits_val \<circ> show_nat) (v4_bytes w) = v4_bytes w"
    by (simp add: comp_def digits_val_show)
  have "length (v4_bytes w) = 4" "\<forall>b \<in> set (v4_bytes w). b < 256" by (simp_all add: v4_bytes_def)
  then show ?thesis
    by (auto simp: read_v4_def t m v4_word_bytes digits_val_show list_all_iff dest: show_nat_digits)
qed

lemma set_join: "set (join c ss) \<subseteq> insert c (\<Union>s \<in> set ss. set s)"
  by (induction c ss rule: join.induct) auto

lemma show_v4_chars: "c \<in> set (show_v4 w) \<Longrightarrow> isdigit c \<or> c = CHR ''.''"
  using set_join [of "CHR ''.''" "map show_nat (v4_bytes w)"] by (auto simp: show_v4_def dest: show_nat_digits)

subsection \<open>IPv6\<close>

definition hex_digit :: "nat \<Rightarrow> char" where
  "hex_digit d = (if d < 10 then char_of (48 + d) else char_of (87 + d))"

definition hex_val :: "char \<Rightarrow> nat" where
  "hex_val c = (let n = of_char c in if n \<le> 57 then n - 48 else n - 87)"

definition show_byte :: "u8 \<Rightarrow> string" where
  "show_byte b = [hex_digit (unat b div 16), hex_digit (unat b mod 16)]"

definition read_byte :: "char \<Rightarrow> char \<Rightarrow> u8" where
  "read_byte c d = of_nat (16 * hex_val c + hex_val d)"

fun show_v6 :: "u8 list \<Rightarrow> string" where
  "show_v6 (a # b # bs) = show_byte a @ show_byte b @ (if bs = [] then [] else CHR '':'' # show_v6 bs)"
| "show_v6 _ = []"

fun read_v6 :: "string \<Rightarrow> u8 list" where
  "read_v6 (c # d # e # f # s) = read_byte c d # read_byte e f # read_v6 (tl s)"
| "read_v6 _ = []"

definition ref_inet :: inet_api where
  "ref_inet = \<lparr>
     inet_pton = (\<lambda>fam s. if fam = AF_INET then read_v4 s
       else if fam = AF_INET6 \<and> length s = 39 \<and> show_v6 (read_v6 s) = s then Some (Ipv6_addr (read_v6 s)) else None),
     inet_ntop = (\<lambda>fam u. case u of Ipv4_addr w \<Rightarrow> if fam = AF_INET then Some (show_v4 w) else None
       | Ipv6_addr bs \<Rightarrow> if fam = AF_INET6 then Some (show_v6 bs) else None)\<rparr>"

lemma hex_val_digit: "d < 16 \<Longrightarrow> hex_val (hex_digit d) = d"
  by (auto simp: hex_val_def hex_digit_def of_char_of)

lemma hex_digit_chars: "d < 16 \<Longrightarrow> hex_digit d \<noteq> CHR ''/'' \<and> hex_digit d \<noteq> CHR '',''"
proof -
  assume d: "d < 16"
  then have "(of_char (hex_digit d) :: nat) \<ge> 48" by (auto simp: hex_digit_def of_char_of)
  then show ?thesis by (auto simp flip: of_char_eq_iff [where 'a = nat])
qed

lemma read_show_byte: "read_byte (hex_digit (unat b div 16)) (hex_digit (unat b mod 16)) = b"
proof -
  have "unat b < 256" using unsigned_less [of b] by simp
  then have "unat b div 16 < 16" by simp
  then show ?thesis by (simp add: read_byte_def hex_val_digit)
qed

lemma byte_chars: "c \<in> set (show_byte b) \<Longrightarrow> c \<noteq> CHR ''/'' \<and> c \<noteq> CHR '',''"
proof -
  have "unat b < 256" using unsigned_less [of b] by simp
  then have "unat b div 16 < 16" by simp
  then show "c \<in> set (show_byte b) \<Longrightarrow> ?thesis" using hex_digit_chars by (auto simp: show_byte_def)
qed

lemma show_v6_chars: "c \<in> set (show_v6 bs) \<Longrightarrow> c \<noteq> CHR ''/'' \<and> c \<noteq> CHR '',''"
  by (induction bs rule: show_v6.induct) (auto dest: byte_chars split: if_splits)

lemma read_show_v6: "even (length bs) \<Longrightarrow> read_v6 (show_v6 bs) = bs"
  by (induction bs rule: show_v6.induct) (auto simp: show_byte_def read_show_byte)

lemma length_show_v6: "even (length bs) \<Longrightarrow> bs \<noteq> [] \<Longrightarrow> Suc (length (show_v6 bs)) = 5 * (length bs div 2)"
  by (induction bs rule: show_v6.induct) (auto simp: show_byte_def)

lemma show_v6_colon: "2 < length bs \<Longrightarrow> CHR '':'' \<in> set (show_v6 bs)"
  by (cases bs rule: show_v6.cases) auto

lemma show_v4_ne: "show_v4 w \<noteq> []"
  unfolding show_v4_def by (rule join_ne) (simp_all add: v4_bytes_def)

lemma not_digits: "\<not> isdigit (CHR '':'')" "\<not> isdigit (CHR ''/'')" "\<not> isdigit (CHR '','')"
  by (simp_all add: isdigit_def)

lemma even_read_v6: "even (length (read_v6 s))"
  by (induction s rule: read_v6.induct) auto

lemma length_read_v6: "length s = 39 \<Longrightarrow> show_v6 (read_v6 s) = s \<Longrightarrow> length (read_v6 s) = 16"
  using length_show_v6 [OF even_read_v6, of s] even_read_v6 [of s] by (cases "read_v6 s = []") auto

interpretation ref_inet: inet ref_inet
proof
  fix w
  have "CHR '':'' \<notin> set (show_v4 w)" "CHR ''/'' \<notin> set (show_v4 w)" "CHR '','' \<notin> set (show_v4 w)"
    using not_digits by (auto dest: show_v4_chars)
  then show "\<exists>s. inet_ntop ref_inet AF_INET (Ipv4_addr w) = Some s \<and> inet_pton ref_inet AF_INET s = Some (Ipv4_addr w)
      \<and> s \<noteq> [] \<and> CHR '':'' \<notin> set s \<and> CHR ''/'' \<notin> set s \<and> CHR '','' \<notin> set s"
    by (simp add: ref_inet_def read_show_v4 show_v4_ne)
next
  fix bs :: "u8 list"
  assume l: "length bs = 16"
  have "Suc (length (show_v6 bs)) = 40" using l length_show_v6 [of bs] by force
  then show "\<exists>s. inet_ntop ref_inet AF_INET6 (Ipv6_addr bs) = Some s
      \<and> inet_pton ref_inet AF_INET6 s = Some (Ipv6_addr bs) \<and> CHR '':'' \<in> set s
      \<and> CHR ''/'' \<notin> set s \<and> CHR '','' \<notin> set s"
    using l read_show_v6 [of bs] show_v6_colon [of bs] by (auto simp: ref_inet_def dest: show_v6_chars)
next
  fix s u
  show "inet_pton ref_inet AF_INET s = Some u \<Longrightarrow> \<exists>w. u = Ipv4_addr w"
    by (auto simp: ref_inet_def read_v4_def Let_def split: if_splits)
  show "inet_pton ref_inet AF_INET6 s = Some u \<Longrightarrow> \<exists>bs. u = Ipv6_addr bs \<and> length bs = 16"
    by (auto simp: ref_inet_def length_read_v6 split: if_splits)
qed

end
