(* ===== verification/Shc_Lpm.thy ===== *)
theory Shc_Lpm
  imports Shc_Inet
begin

text \<open>
  The longest prefix match table of the common library, class \<^verbatim>\<open>Fib_Hash\<close> (\<^verbatim>\<open>common/lpm_trie.h\<close>,
  \<^verbatim>\<open>common/lpm_trie.cpp\<close>): per address family a vector with one map per prefix length. A
  \<^verbatim>\<open>std::map\<close> keyed by prefixes is a partial function, which \<open>prefix_less_total\<close> justifies. The
  results pair the returned flag with the content of the out parameter.
\<close>

subsection \<open>Operations\<close>

type_synonym Fib_Map = "ip_prefix \<rightharpoonup> string"

record Fib_Hash =
  fib_table :: "Fib_Map list"
  fib6_table :: "Fib_Map list"

definition Fib_Hash_new :: Fib_Hash where
  "Fib_Hash_new = \<lparr>fib_table = replicate 33 Map.empty, fib6_table = replicate 129 Map.empty\<rparr>"

definition get_fib_table :: "ip_addr_t \<Rightarrow> Fib_Hash \<Rightarrow> Fib_Map list" where
  "get_fib_table a T = (if isV4 a then fib_table T else fib6_table T)"

definition set_fib_table :: "ip_addr_t \<Rightarrow> Fib_Map list \<Rightarrow> Fib_Hash \<Rightarrow> Fib_Hash" where
  "set_fib_table a t T = (if isV4 a then T\<lparr>fib_table := t\<rparr> else T\<lparr>fib6_table := t\<rparr>)"

text \<open>\<^verbatim>\<open>unsigned int prefixlen = prefix.getMaskLength()\<close>.\<close>

definition prefixlen :: "ip_prefix \<Rightarrow> nat" where
  "prefixlen p = unat (of_int (getMaskLength p) :: u32)"

definition lpm_trie_is_exist :: "inet_api \<Rightarrow> ip_prefix \<Rightarrow> Fib_Hash \<Rightarrow> bool outcome" where
  "lpm_trie_is_exist I p T = (let t = get_fib_table (m_ip p) T in
     if prefixlen p < length t
     then bindR (getSubnet I p) (\<lambda>k. Inr ((t ! prefixlen p) k \<noteq> None)) else Inr False)"

definition lpm_trie_modify :: "inet_api \<Rightarrow> ip_prefix \<Rightarrow> string \<Rightarrow> Fib_Hash \<Rightarrow> (bool \<times> Fib_Hash) outcome" where
  "lpm_trie_modify I p route_info T = (let t = get_fib_table (m_ip p) T in
     if prefixlen p < length t then bindR (getSubnet I p) (\<lambda>k.
       if (t ! prefixlen p) k \<noteq> None
       then Inr (True, set_fib_table (m_ip p) (t[prefixlen p := (t ! prefixlen p)(k \<mapsto> route_info)]) T)
       else Inr (False, T))
     else Inr (False, T))"

definition lpm_trie_get :: "inet_api \<Rightarrow> ip_prefix \<Rightarrow> string \<Rightarrow> Fib_Hash \<Rightarrow> (bool \<times> string) outcome" where
  "lpm_trie_get I p route_info T = (let t = get_fib_table (m_ip p) T in
     if prefixlen p < length t then bindR (getSubnet I p) (\<lambda>k.
       case (t ! prefixlen p) k of Some r \<Rightarrow> Inr (True, r) | None \<Rightarrow> Inr (False, route_info))
     else Inr (False, route_info))"

definition lpm_trie_insert :: "inet_api \<Rightarrow> ip_prefix \<Rightarrow> string \<Rightarrow> Fib_Hash \<Rightarrow> (bool \<times> Fib_Hash) outcome" where
  "lpm_trie_insert I p route_info T = (let t = get_fib_table (m_ip p) T in
     if prefixlen p \<ge> length t then Inr (False, T)
     else bindR (getSubnet I p) (\<lambda>k.
       Inr (True, set_fib_table (m_ip p) (t[prefixlen p := (t ! prefixlen p)(k \<mapsto> route_info)]) T)))"

text \<open>The loop of the lookup, from the end of the vector to its front.\<close>

fun lpm_lookup_loop :: "inet_api \<Rightarrow> string \<Rightarrow> nat \<Rightarrow> Fib_Map list \<Rightarrow> string \<Rightarrow> (bool \<times> string) outcome" where
  "lpm_lookup_loop I ipstr 0 t route_info = Inr (False, route_info)"
| "lpm_lookup_loop I ipstr (Suc n) t route_info =
     bindR (IpPrefix_str I (ipstr @ to_string_int (int n))) (\<lambda>tempprefix.
     bindR (getSubnet I tempprefix) (\<lambda>k. case (t ! n) k of
         Some r \<Rightarrow> Inr (True, r)
       | None \<Rightarrow> lpm_lookup_loop I ipstr n t route_info))"

definition lpm_trie_lookup :: "inet_api \<Rightarrow> ip_addr_t \<Rightarrow> string \<Rightarrow> Fib_Hash \<Rightarrow> (bool \<times> string) outcome" where
  "lpm_trie_lookup I dst_ip route_info T = (let t = get_fib_table dst_ip T in
     bindR (ip_to_string I dst_ip) (\<lambda>s. lpm_lookup_loop I (s @ ''/'') (length t) t route_info))"

definition lpm_trie_delete :: "inet_api \<Rightarrow> ip_prefix \<Rightarrow> Fib_Hash \<Rightarrow> (bool \<times> Fib_Hash) outcome" where
  "lpm_trie_delete I p T = bindR (lpm_trie_is_exist I p T) (\<lambda>ex.
     if \<not> ex then Inr (True, T)
     else let t = get_fib_table (m_ip p) T in
       if prefixlen p \<ge> length t then Inr (False, T)
       else bindR (getSubnet I p) (\<lambda>k.
         Inr (True, set_fib_table (m_ip p) (t[prefixlen p := (t ! prefixlen p)(k := None)]) T)))"

subsection \<open>The table as a map\<close>

definition fib_view :: "Fib_Hash \<Rightarrow> ip_prefix \<rightharpoonup> string" where
  "fib_view T p = (if prefix_wf p then (get_fib_table (m_ip p) T ! prefixlen p) p else None)"

definition fib_wf :: "Fib_Hash \<Rightarrow> bool" where
  "fib_wf T \<longleftrightarrow> length (fib_table T) = 33 \<and> length (fib6_table T) = 129
     \<and> (\<forall>p. fib_view T p \<noteq> None \<longrightarrow> subnet p = p)"

text \<open>Prefix \<open>p\<close> covers the address \<open>a\<close>.\<close>

definition covers :: "ip_prefix \<Rightarrow> ip_addr_t \<Rightarrow> bool" where
  "covers p a \<longleftrightarrow> isAddressInSubnet p a = Inr True"

definition is_longest :: "(ip_prefix \<rightharpoonup> string) \<Rightarrow> ip_addr_t \<Rightarrow> ip_prefix \<Rightarrow> bool" where
  "is_longest V a p \<longleftrightarrow> V p \<noteq> None \<and> covers p a
     \<and> (\<forall>q. V q \<noteq> None \<and> covers q a \<longrightarrow> m_mask q \<le> m_mask p)"

lemma prefixlen_wf: "prefix_wf p \<Longrightarrow> prefixlen p = nat (m_mask p)"
proof -
  assume "prefix_wf p"
  then have "0 \<le> m_mask p" "m_mask p < 2 ^ 32" using prefix_wf_mask [of p] by (auto split: if_splits)
  then show ?thesis by (simp add: prefixlen_def getMaskLength_def unsigned_of_int take_bit_int_eq_self)
qed

lemma prefixlen_table: "prefix_wf p \<Longrightarrow> fib_wf T \<Longrightarrow> prefixlen p < length (get_fib_table (m_ip p) T)"
  using prefix_wf_mask [of p] by (auto simp: prefixlen_wf fib_wf_def get_fib_table_def)

lemma subnet_same [simp]:
  "isV4 (m_ip (subnet p)) = isV4 (m_ip p)"
  "prefix_wf p \<Longrightarrow> prefixlen (subnet p) = prefixlen p"
  "get_fib_table (m_ip (subnet p)) T = get_fib_table (m_ip p) T"
  by (simp_all add: isV4_def prefixlen_def getMaskLength_def get_fib_table_def)

lemma fib_view_subnet:
  "prefix_wf p \<Longrightarrow> fib_view T (subnet p) = (get_fib_table (m_ip p) T ! prefixlen p) (subnet p)"
  by (simp add: fib_view_def subnet_wf)

text \<open>Writing one slot of a map changes one entry of the view.\<close>

lemma fib_view_set:
  assumes p: "prefix_wf p" and T: "fib_wf T"
  shows "fib_view (set_fib_table (m_ip p) ((get_fib_table (m_ip p) T)[prefixlen p :=
      (get_fib_table (m_ip p) T ! prefixlen p)(subnet p := v)]) T) = (fib_view T)(subnet p := v)" (is "fib_view ?T = _")
    and "fib_wf (set_fib_table (m_ip p) ((get_fib_table (m_ip p) T)[prefixlen p :=
      (get_fib_table (m_ip p) T ! prefixlen p)(subnet p := v)]) T)"
proof -
  have l: "prefixlen p < length (get_fib_table (m_ip p) T)" by (rule prefixlen_table [OF p T])
  show e: "fib_view ?T = (fib_view T)(subnet p := v)"
  proof
    fix q
    show "fib_view ?T q = ((fib_view T)(subnet p := v)) q"
      using l p subnet_wf [OF p]
      by (auto simp: fib_view_def set_fib_table_def nth_list_update get_fib_table_def)
  qed
  show "fib_wf ?T"
    using T p by (auto simp: fib_wf_def e) (auto simp: set_fib_table_def get_fib_table_def)
qed

lemma covers_iff:
  assumes "prefix_wf p" and "ip_wf a"
  shows "covers p a \<longleftrightarrow> family (m_ip p) = family a \<and> subnet p = subnet \<lparr>m_ip = a, m_mask = m_mask p\<rparr>"
  using isAddressInSubnet_iff [OF assms] by (cases p) (auto simp: covers_def subnet_def)

subsection \<open>Operations on the view\<close>

context inet
begin

lemma is_exist_view:
  "prefix_wf p \<Longrightarrow> fib_wf T \<Longrightarrow> lpm_trie_is_exist I p T = Inr (fib_view T (subnet p) \<noteq> None)"
  by (simp add: lpm_trie_is_exist_def Let_def prefixlen_table getSubnet_eq fib_view_subnet)

lemma get_view:
  "prefix_wf p \<Longrightarrow> fib_wf T \<Longrightarrow> lpm_trie_get I p r T =
    Inr (case fib_view T (subnet p) of None \<Rightarrow> (False, r) | Some x \<Rightarrow> (True, x))"
  by (simp add: lpm_trie_get_def Let_def prefixlen_table getSubnet_eq fib_view_subnet split: option.split)

lemma insert_view:
  assumes "prefix_wf p" and "fib_wf T"
  shows "\<exists>T'. lpm_trie_insert I p r T = Inr (True, T') \<and> fib_wf T' \<and> fib_view T' = (fib_view T)(subnet p \<mapsto> r)"
  using fib_view_set [OF assms, of "Some r"] prefixlen_table [OF assms] getSubnet_eq [OF assms(1)]
  by (simp add: lpm_trie_insert_def Let_def)

lemma modify_view:
  assumes "prefix_wf p" and "fib_wf T"
  shows "\<exists>T'. lpm_trie_modify I p r T = Inr (fib_view T (subnet p) \<noteq> None, T') \<and> fib_wf T'
    \<and> fib_view T' = (if fib_view T (subnet p) = None then fib_view T else (fib_view T)(subnet p \<mapsto> r))"
  using fib_view_set [OF assms, of "Some r"] prefixlen_table [OF assms] getSubnet_eq [OF assms(1)]
    fib_view_subnet [OF assms(1), of T] assms(2)
  by (auto simp: lpm_trie_modify_def Let_def)

lemma delete_view:
  assumes "prefix_wf p" and "fib_wf T"
  shows "\<exists>T'. lpm_trie_delete I p T = Inr (True, T') \<and> fib_wf T' \<and> fib_view T' = (fib_view T)(subnet p := None)"
proof (cases "fib_view T (subnet p)")
  case None
  then have "(fib_view T)(subnet p := None) = fib_view T" by auto
  then show ?thesis using None assms by (simp add: lpm_trie_delete_def is_exist_view)
next
  case (Some x)
  then show ?thesis
    using fib_view_set [OF assms, of None] prefixlen_table [OF assms] getSubnet_eq [OF assms(1)]
    by (auto simp: lpm_trie_delete_def is_exist_view [OF assms] Let_def)
qed

text \<open>The prefixes of one length that cover an address: there is at most one key.\<close>

lemma host_prefix:
  assumes a: "ip_wf a" and T: "fib_wf T" and n: "n < length (get_fib_table a T)"
  defines "k \<equiv> subnet \<lparr>m_ip = a, m_mask = int n\<rparr>"
  shows "prefix_wf \<lparr>m_ip = a, m_mask = int n\<rparr>" and "fib_view T k = (get_fib_table a T ! n) k"
    and "m_mask k = int n" and "covers k a"
    and "\<And>p. fib_view T p \<noteq> None \<Longrightarrow> covers p a \<Longrightarrow> m_mask p = int n \<Longrightarrow> p = k"
proof -
  let ?h = "\<lparr>m_ip = a, m_mask = int n\<rparr>"
  show h: "prefix_wf ?h"
    using a n T by (cases rule: ip_wf_cases [OF a])
      (auto simp: prefix_wf_def prefix_isValid_def get_fib_table_def fib_wf_def isV4_def)
  show "fib_view T k = (get_fib_table a T ! n) k"
    using fib_view_subnet [OF h, of T] prefixlen_wf [OF h] by (simp add: k_def)
  show "m_mask k = int n" by (simp add: k_def)
  show "covers k a"
    using covers_iff [OF subnet_wf [OF h] a] h by (simp add: k_def)
  show "p = k" if "fib_view T p \<noteq> None" "covers p a" "m_mask p = int n" for p
  proof -
    have "prefix_wf p" "subnet p = p" using that(1) T by (auto simp: fib_view_def fib_wf_def split: if_splits)
    then show ?thesis using that covers_iff [of p a] a by (simp add: k_def)
  qed
qed

lemma lookup_loop:
  assumes a: "ip_wf a" and T: "fib_wf T" and s: "ip_to_string I a = Inr s"
  shows "n \<le> length (get_fib_table a T) \<Longrightarrow>
    (\<exists>p x. fib_view T p = Some x \<and> covers p a \<and> m_mask p < int n
       \<and> (\<forall>q. fib_view T q \<noteq> None \<and> covers q a \<and> m_mask q < int n \<longrightarrow> m_mask q \<le> m_mask p)
       \<and> lpm_lookup_loop I (s @ ''/'') n (get_fib_table a T) r = Inr (True, x))
    \<or> (\<forall>q. fib_view T q \<noteq> None \<and> covers q a \<longrightarrow> \<not> m_mask q < int n)
       \<and> lpm_lookup_loop I (s @ ''/'') n (get_fib_table a T) r = Inr (False, r)"
proof (induction n)
  case 0
  have "0 \<le> m_mask q" if "fib_view T q \<noteq> None" for q
    using that prefix_wf_mask by (auto simp: fib_view_def split: if_splits)
  then show ?case by (auto simp: not_less)
next
  case (Suc n)
  define k where "k = subnet \<lparr>m_ip = a, m_mask = int n\<rparr>"
  note hp = host_prefix [OF a T, of n, folded k_def]
  have n: "n < length (get_fib_table a T)" using Suc.prems by simp
  have "IpPrefix_str I ((s @ ''/'') @ to_string_int (int n)) = Inr \<lparr>m_ip = a, m_mask = int n\<rparr>"
    using prefix_parse [OF hp(1) [OF n]] s by simp
  then have step: "lpm_lookup_loop I (s @ ''/'') (Suc n) (get_fib_table a T) r =
      (case fib_view T k of Some x \<Rightarrow> Inr (True, x) | None \<Rightarrow> lpm_lookup_loop I (s @ ''/'') n (get_fib_table a T) r)"
    using hp(2) [OF n] getSubnet_eq [OF hp(1) [OF n]] by (simp add: k_def)
  show ?case
  proof (cases "fib_view T k")
    case (Some x)
    then show ?thesis using hp(3,4) [OF n] step by (intro disjI1 exI [of _ k] exI [of _ x]) auto
  next
    case None
    have "m_mask q < int (Suc n) \<longleftrightarrow> m_mask q < int n" if "fib_view T q \<noteq> None" "covers q a" for q
      using hp(5) [OF n that] None that by force
    then show ?thesis using Suc.IH n step None by simp (metis option.distinct(1))
  qed
qed

lemma lookup_longest:
  assumes a: "ip_wf a" and T: "fib_wf T"
  shows "(\<exists>p x. is_longest (fib_view T) a p \<and> fib_view T p = Some x \<and> lpm_trie_lookup I a r T = Inr (True, x))
    \<or> (\<nexists>p. fib_view T p \<noteq> None \<and> covers p a) \<and> lpm_trie_lookup I a r T = Inr (False, r)"
proof -
  obtain s where s: "ip_to_string I a = Inr s" using ip_string [OF a] by metis
  have lt: "m_mask p < int (length (get_fib_table a T))" if "fib_view T p \<noteq> None" "covers p a" for p
  proof -
    have "prefix_wf p" using that(1) by (auto simp: fib_view_def split: if_splits)
    then show ?thesis using that(2) prefix_wf_mask [of p] T covers_iff [OF _ a, of p]
      by (auto simp: get_fib_table_def fib_wf_def isV4_def split: if_splits)
  qed
  show ?thesis
    using lookup_loop [OF a T s, of "length (get_fib_table a T)" r] s lt
    by (auto simp: lpm_trie_lookup_def Let_def is_longest_def)
qed

end

end
