(* ===== verification/Shc_Lpm_Props.thy ===== *)
theory Shc_Lpm_Props
  imports Shc_Lpm
begin

text \<open>Properties of the address classes and of the longest prefix match table.\<close>

subsection \<open>Examples\<close>

definition w_addr :: ip_addr_t where
  "w_addr = IpAddress_u32 0x0302010A"

definition w_net8 :: ip_prefix where
  "w_net8 = \<lparr>m_ip = IpAddress_u32 0x0000000A, m_mask = 8\<rparr>"

definition w_net16 :: ip_prefix where
  "w_net16 = \<lparr>m_ip = IpAddress_u32 0x0000010A, m_mask = 16\<rparr>"

definition table_of :: "(bool \<times> Fib_Hash) outcome \<Rightarrow> Fib_Hash" where
  "table_of r = (case r of Inr (_, T) \<Rightarrow> T | Inl _ \<Rightarrow> Fib_Hash_new)"

definition w_fib :: Fib_Hash where
  "w_fib = table_of (lpm_trie_insert ref_inet w_net8 ''a'' Fib_Hash_new)"

lemma w_wf: "ip_wf w_addr" "prefix_wf w_net8" "prefix_wf w_net16"
  by (simp_all add: w_addr_def w_net8_def w_net16_def ip_wf_def prefix_wf_def prefix_isValid_def IpAddress_u32_def)

lemma Fib_Hash_new_view: "fib_view Fib_Hash_new = Map.empty" "fib_wf Fib_Hash_new"
proof -
  show e: "fib_view Fib_Hash_new = Map.empty"
  proof
    fix p
    show "fib_view Fib_Hash_new p = None"
    proof (cases "prefix_wf p")
      case True
      then have "nat (m_mask p) < (if isV4 (m_ip p) then 33 else 129)"
        using prefix_wf_mask [of p] by (auto split: if_splits)
      then show ?thesis using True
        by (auto simp: fib_view_def Fib_Hash_new_def get_fib_table_def prefixlen_wf split: if_splits)
    qed (simp add: fib_view_def)
  qed
  show "fib_wf Fib_Hash_new" by (simp add: fib_wf_def e) (simp add: Fib_Hash_new_def)
qed

lemma w_fib_wf: "fib_wf w_fib" "fib_view w_fib = [subnet w_net8 \<mapsto> ''a'']"
  using ref_inet.insert_view [OF w_wf(2) Fib_Hash_new_view(2), of "''a''"]
  by (auto simp: w_fib_def table_of_def Fib_Hash_new_view(1))

lemma ref_inet_inet: "inet ref_inet"
  by (rule ref_inet.inet_axioms)

subsection \<open>Longest prefix match\<close>

text \<open>
  C15: the lookup answers with the longest prefix of the table that covers the address, by the class's
  own test \<^verbatim>\<open>isAddressInSubnet\<close>, and reports failure exactly when no prefix covers it. This holds
  for both families and for every implementation of the text conversions through which the lookup
  builds its keys.
\<close>

theorem lpm_lookup_longest:
  assumes "inet I" and "ip_wf a" and "fib_wf T"
  shows "(\<exists>p x. is_longest (fib_view T) a p \<and> fib_view T p = Some x \<and> lpm_trie_lookup I a r T = Inr (True, x))
    \<or> (\<nexists>p. fib_view T p \<noteq> None \<and> covers p a) \<and> lpm_trie_lookup I a r T = Inr (False, r)"
  by (rule inet.lookup_longest [OF assms])

theorem lpm_lookup_longest_witness:
  "lpm_trie_lookup ref_inet w_addr [] w_fib = Inr (True, ''a'')"
proof -
  have "covers (subnet w_net8) w_addr"
    by (simp add: covers_iff subnet_wf w_wf)
      (simp add: w_net8_def w_addr_def IpAddress_u32_def subnet_def net_of_def v4_mask_def bswap32_def)
  then show ?thesis
    using lpm_lookup_longest [OF ref_inet_inet w_wf(1) w_fib_wf(1), of "[]"]
    by (auto simp: w_fib_wf(2) is_longest_def split: if_splits)
qed

text \<open>
  C23: the table refines a map keyed by subnets. Every prefix is first reduced to its subnet; insertion,
  modification and deletion then change exactly that key (modification only when it is present,
  deletion of an absent key also reports success), and the two queries read it.
\<close>

theorem fib_hash_refines_map:
  assumes "inet I" and "prefix_wf p" and "fib_wf T"
  shows "\<exists>T1 T2 T3. lpm_trie_insert I p r T = Inr (True, T1) \<and> fib_wf T1 \<and> fib_view T1 = (fib_view T)(subnet p \<mapsto> r)
    \<and> lpm_trie_delete I p T = Inr (True, T2) \<and> fib_wf T2 \<and> fib_view T2 = (fib_view T)(subnet p := None)
    \<and> lpm_trie_modify I p r T = Inr (fib_view T (subnet p) \<noteq> None, T3) \<and> fib_wf T3
    \<and> fib_view T3 = (if fib_view T (subnet p) = None then fib_view T else (fib_view T)(subnet p \<mapsto> r))
    \<and> lpm_trie_is_exist I p T = Inr (fib_view T (subnet p) \<noteq> None)
    \<and> lpm_trie_get I p d T = Inr (case fib_view T (subnet p) of None \<Rightarrow> (False, d) | Some x \<Rightarrow> (True, x))"
  using inet.insert_view [OF assms, of r] inet.delete_view [OF assms] inet.modify_view [OF assms, of r]
    inet.is_exist_view [OF assms] inet.get_view [OF assms, of d] by blast

theorem fib_hash_refines_map_witness:
  "\<exists>T'. lpm_trie_delete ref_inet w_net8 w_fib = Inr (True, T') \<and> fib_view T' = Map.empty"
  using fib_hash_refines_map [OF ref_inet_inet w_wf(2) w_fib_wf(1)] by (auto simp: w_fib_wf(2))

subsection \<open>Text\<close>

text \<open>
  C29: a prefix that was read from text never fails afterwards. Its mask length lies within its family,
  its mask, broadcast address, subnet and text are computed without an exception or a failed assertion
  and are well formed again, membership of any address can be decided, and its broadcast address
  belongs to it.
\<close>

theorem prefix_type_safe:
  assumes "inet I" and "IpPrefix_str I s = Inr p" and "ip_wf a"
  shows "prefix_wf p \<and> (\<exists>m b q t c. getMask p = Inr m \<and> ip_wf m \<and> getBroadcastIp p = Inr b \<and> ip_wf b
    \<and> getSubnet I p = Inr q \<and> prefix_wf q \<and> prefix_to_string I p = Inr t
    \<and> isAddressInSubnet p a = Inr c \<and> isAddressInSubnet p b = Inr True)"
proof -
  have p: "prefix_wf p" using inet.IpPrefix_str_wf [OF assms(1,2)] .
  obtain m b where b: "getMask p = Inr m" "ip_wf m" "getBroadcastIp p = Inr b" "ip_wf b"
    "family b = family (m_ip p)" "net_of b (m_mask p) = net_of (m_ip p) (m_mask p)"
    using getMask_wf [OF p] by blast
  then have "isAddressInSubnet p b = Inr True" by (simp add: isAddressInSubnet_iff [OF p])
  then show ?thesis
    using p b inet.getSubnet_eq [OF assms(1) p] subnet_wf [OF p] inet.prefix_string_round_trip [OF assms(1) p]
      isAddressInSubnet_iff [OF p assms(3)] by blast
qed

theorem prefix_type_safe_witness:
  "\<exists>q. IpPrefix_str ref_inet ''10.1.0.0/16'' = Inr w_net16 \<and> getSubnet ref_inet w_net16 = Inr q \<and> prefix_wf q"
proof -
  have "IpPrefix_str ref_inet ''10.1.0.0/16'' = Inr w_net16" by code_simp
  then show ?thesis using prefix_type_safe [OF ref_inet_inet _ w_wf(1)] by blast
qed

text \<open>
  The text of a valid prefix, of either family and any length, is read back as the same prefix.
\<close>

theorem prefix_text_round_trip:
  assumes "inet I" and "prefix_wf p"
  shows "\<exists>s. prefix_to_string I p = Inr s \<and> IpPrefix_str I s = Inr p"
  by (rule inet.prefix_string_round_trip [OF assms])

theorem prefix_text_round_trip_witness:
  "\<exists>s. prefix_to_string ref_inet w_net16 = Inr s \<and> IpPrefix_str ref_inet s = Inr w_net16"
  by (rule prefix_text_round_trip [OF ref_inet_inet w_wf(3)])

text \<open>
  A set of addresses, printed as a comma-separated list, is read back as the same set, with its
  elements in the same order.
\<close>

theorem address_set_round_trip:
  assumes "inet I" and "ips_wf xs"
  shows "\<exists>s. ips_to_string I xs = Inr s \<and> IpAddresses I s = Inr xs"
  by (rule inet.ips_round_trip [OF assms])

theorem address_set_round_trip_witness:
  "\<exists>s. ips_to_string ref_inet (ips_add w_addr []) = Inr s \<and> IpAddresses ref_inet s = Inr (ips_add w_addr [])"
  by (rule address_set_round_trip [OF ref_inet_inet]) (simp add: ips_add_def ips_wf_def w_wf)

end
