(* ===== verification/Shc_Ipset_Order.thy ===== *)
theory Shc_Ipset_Order
  imports Shc_Inet
begin

text \<open>
  The inline part of the class \<^verbatim>\<open>IpAddresses\<close> (\<^verbatim>\<open>common/ipaddresses.h\<close>): size and comparison of address
  sets, and the class as a whole as an implementation of finite sets of addresses. The interface of
  a set is a locale, its client lemma is about any sequence of insertions and removals, and the
  operations of the class interpret it.
\<close>

subsection \<open>Size and comparison\<close>

definition ips_getIpAddresses :: "ip_addr_t list \<Rightarrow> ip_addr_t list" where
  "ips_getIpAddresses m_ips = m_ips"

definition ips_getSize :: "ip_addr_t list \<Rightarrow> nat" where
  "ips_getSize m_ips = length m_ips"

text \<open>\<^verbatim>\<open>operator<\<close> of \<^verbatim>\<open>std::set\<close>: the lexicographical comparison of the elements in order.\<close>

fun ips_less :: "ip_addr_t list \<Rightarrow> ip_addr_t list \<Rightarrow> bool" where
  "ips_less [] ys = (ys \<noteq> [])"
| "ips_less (x # xs) [] = False"
| "ips_less (x # xs) (y # ys) = (if ip_less x y then True else if ip_less y x then False else ips_less xs ys)"

text \<open>\<^verbatim>\<open>operator==\<close> of \<^verbatim>\<open>std::set\<close>: the sizes, then element by element.\<close>

definition ips_eq :: "ip_addr_t list \<Rightarrow> ip_addr_t list \<Rightarrow> bool" where
  "ips_eq xs ys \<longleftrightarrow> ips_getSize xs = ips_getSize ys \<and> list_all2 ip_eq xs ys"

definition ips_neq :: "ip_addr_t list \<Rightarrow> ip_addr_t list \<Rightarrow> bool" where
  "ips_neq xs ys \<longleftrightarrow> \<not> ips_eq xs ys"

lemma ips_wf_Cons: "ips_wf (x # xs) \<longleftrightarrow> ip_wf x \<and> (\<forall>z \<in> set xs. ip_less x z) \<and> ips_wf xs"
  by (auto simp: ips_wf_def)

lemma ips_wf_distinct: "ips_wf xs \<Longrightarrow> distinct xs"
  by (induction xs) (auto simp: ips_wf_Cons)

lemma ips_getSize_card: "ips_wf xs \<Longrightarrow> ips_getSize xs = card (set xs)"
  by (simp add: ips_getSize_def distinct_card ips_wf_distinct)

lemma ips_eq_iff:
  assumes "ips_wf xs" and "ips_wf ys"
  shows "ips_eq xs ys \<longleftrightarrow> set xs = set ys"
proof -
  have "list_all2 ip_eq xs ys \<longleftrightarrow> xs = ys" if "\<forall>x \<in> set xs. ip_wf x" "\<forall>y \<in> set ys. ip_wf y" for xs ys
    using that by (induction xs arbitrary: ys) (auto simp: list_all2_Cons1 ip_eq_iff)
  then have "ips_eq xs ys \<longleftrightarrow> xs = ys" using assms by (auto simp: ips_eq_def ips_wf_def)
  then show ?thesis using sorted_unique [OF assms] by blast
qed

text \<open>The comparison is a strict total order on the sets.\<close>

lemma ips_less_total:
  "ips_wf xs \<Longrightarrow> ips_wf ys \<Longrightarrow> \<not> ips_less xs ys \<and> \<not> ips_less ys xs \<longleftrightarrow> xs = ys"
proof (induction xs ys rule: ips_less.induct)
  case (3 x xs y ys)
  then show ?case using ip_less_total [of x y] by (auto simp: ips_wf_Cons)
qed auto

lemma ips_less_trans:
  "ips_wf xs \<Longrightarrow> ips_wf ys \<Longrightarrow> ips_wf zs \<Longrightarrow> ips_less xs ys \<Longrightarrow> ips_less ys zs \<Longrightarrow> ips_less xs zs"
proof (induction xs ys arbitrary: zs rule: ips_less.induct)
  case (1 ys)
  then show ?case by (cases ys; cases zs) auto
next
  case (3 x xs y ys)
  then obtain z zs' where zs: "zs = z # zs'" by (cases zs) auto
  have w: "ip_wf x" "ip_wf y" "ip_wf z" using 3 zs by (auto simp: ips_wf_Cons)
  note order = ip_less_total [OF w(1,2)] ip_less_total [OF w(2,3)] ip_less_total [OF w(1,3)]
    ip_less_trans [OF w] ip_less_trans [OF w(1) w(3) w(2)] ip_less_trans [OF w(3) w(1) w(2)]
    ip_less_trans [OF w(3) w(2) w(1)] ip_less_trans [OF w(2) w(1) w(3)]
  have "ips_wf xs" "ips_wf ys" "ips_wf zs'" using 3 zs by (auto simp: ips_wf_Cons)
  with 3 zs order show ?case by (auto split: if_splits)
qed simp

lemma ips_less_irrefl: "ips_wf xs \<Longrightarrow> \<not> ips_less xs xs"
  using ips_less_total by blast

subsection \<open>The interface of a set\<close>

text \<open>
  What a user of a container of elements relies on; \<open>elem\<close> are the values it may put in. A run is a
  sequence of insertions (\<open>True\<close>) and removals (\<open>False\<close>).
\<close>

locale element_set =
  fixes add :: "'e \<Rightarrow> 's \<Rightarrow> 's" and remove :: "'e \<Rightarrow> 's \<Rightarrow> 's" and contains :: "'e \<Rightarrow> 's \<Rightarrow> bool"
    and getSize :: "'s \<Rightarrow> nat" and elems :: "'s \<Rightarrow> 'e set" and invar :: "'s \<Rightarrow> bool" and elem :: "'e \<Rightarrow> bool"
  assumes add_elems: "invar s \<Longrightarrow> elem x \<Longrightarrow> invar (add x s) \<and> elems (add x s) = insert x (elems s)"
    and remove_elems: "invar s \<Longrightarrow> elem x \<Longrightarrow> invar (remove x s) \<and> elems (remove x s) = elems s - {x}"
    and contains_elems: "invar s \<Longrightarrow> elem x \<Longrightarrow> contains x s \<longleftrightarrow> x \<in> elems s"
    and size_elems: "invar s \<Longrightarrow> getSize s = card (elems s)"
begin

definition apply_op :: "bool \<times> 'e \<Rightarrow> 's \<Rightarrow> 's" where
  "apply_op c s = (if fst c then add (snd c) s else remove (snd c) s)"

definition set_op :: "bool \<times> 'e \<Rightarrow> 'e set \<Rightarrow> 'e set" where
  "set_op c A = (if fst c then insert (snd c) A else A - {snd c})"

lemma fold_elems:
  "invar s \<Longrightarrow> \<forall>c \<in> set cs. elem (snd c) \<Longrightarrow>
    invar (fold apply_op cs s) \<and> elems (fold apply_op cs s) = fold set_op cs (elems s)"
proof (induction cs arbitrary: s)
  case (Cons c cs)
  then have "invar (apply_op c s)" "elems (apply_op c s) = set_op c (elems s)"
    using add_elems [of s "snd c"] remove_elems [of s "snd c"] by (auto simp: apply_op_def set_op_def)
  then show ?case using Cons.IH [of "apply_op c s"] Cons.prems(2) by simp
qed simp

text \<open>The last operation on an element decides whether it is in.\<close>

lemma fold_last:
  assumes "invar s" and "\<forall>c \<in> set (cs @ (b, x) # ds). elem (snd c)" and "x \<notin> snd ` set ds"
  shows "contains x (fold apply_op (cs @ (b, x) # ds) s) \<longleftrightarrow> b"
proof -
  have "x \<in> fold set_op ds A \<longleftrightarrow> x \<in> A" for A
    using assms(3) by (induction ds arbitrary: A) (auto simp: set_op_def)
  then have "x \<in> fold set_op (cs @ (b, x) # ds) (elems s) \<longleftrightarrow> b" by (simp add: set_op_def)
  then show ?thesis using fold_elems [OF assms(1,2)] contains_elems assms(2) by simp
qed

end

interpretation addr_set: element_set ips_add ips_remove ips_contains ips_getSize set ips_wf ip_wf
  by unfold_locales
    (simp_all add: ips_add_def ips_remove_def ips_contains_def set_insert_wf set_erase_wf set_find_iff ips_getSize_card)

subsection \<open>The class as a set of addresses\<close>

text \<open>The calls that change an address set: with an address, or with its text, which may be invalid.\<close>

datatype ips_call = Add_ip ip_addr_t | Add_text string | Remove_ip ip_addr_t | Remove_text string

fun ips_call_run :: "inet_api \<Rightarrow> ips_call list \<Rightarrow> ip_addr_t list \<Rightarrow> ip_addr_t list outcome" where
  "ips_call_run I [] m_ips = Inr m_ips"
| "ips_call_run I (Add_ip a # cs) m_ips = ips_call_run I cs (ips_add a m_ips)"
| "ips_call_run I (Add_text s # cs) m_ips = bindR (ips_add_str I s m_ips) (ips_call_run I cs)"
| "ips_call_run I (Remove_ip a # cs) m_ips = ips_call_run I cs (ips_remove a m_ips)"
| "ips_call_run I (Remove_text s # cs) m_ips = bindR (ips_remove_str I s m_ips) (ips_call_run I cs)"

text \<open>The same calls on mathematical sets.\<close>

fun call_meaning :: "inet_api \<Rightarrow> ips_call \<Rightarrow> (bool \<times> ip_addr_t) outcome" where
  "call_meaning I (Add_ip a) = Inr (True, a)"
| "call_meaning I (Add_text s) = bindR (IpAddress_str I s) (\<lambda>a. Inr (True, a))"
| "call_meaning I (Remove_ip a) = Inr (False, a)"
| "call_meaning I (Remove_text s) = bindR (IpAddress_str I s) (\<lambda>a. Inr (False, a))"

fun set_call_run :: "inet_api \<Rightarrow> ips_call list \<Rightarrow> ip_addr_t set \<Rightarrow> ip_addr_t set outcome" where
  "set_call_run I [] A = Inr A"
| "set_call_run I (c # cs) A = bindR (call_meaning I c) (\<lambda>(b, a).
     set_call_run I cs (if b then insert a A else A - {a}))"

definition ips_call_ok :: "ips_call \<Rightarrow> bool" where
  "ips_call_ok c \<longleftrightarrow> (case c of Add_ip a \<Rightarrow> ip_wf a | Remove_ip a \<Rightarrow> ip_wf a | _ \<Rightarrow> True)"

lemma ips_call_run_Cons:
  "ips_call_run I (c # cs) m = bindR (call_meaning I c) (\<lambda>op. ips_call_run I cs (addr_set.apply_op op m))"
  by (cases c) (auto simp: ips_add_str_def ips_remove_str_def ips_add_def ips_remove_def addr_set.apply_op_def bindR_def
      split: sum.split)

lemma set_call_run_Cons:
  "set_call_run I (c # cs) A = bindR (call_meaning I c) (\<lambda>op. set_call_run I cs (addr_set.set_op op A))"
  by (simp add: addr_set.set_op_def case_prod_unfold)

text \<open>One call on the list is the same call on the set.\<close>

lemma apply_op_refines:
  assumes "inet I" and "ips_call_ok c" and "ips_wf m" and "call_meaning I c = Inr op"
  shows "ips_wf (addr_set.apply_op op m) \<and> set (addr_set.apply_op op m) = addr_set.set_op op (set m)"
proof -
  have "ip_wf (snd op)"
    using assms(2,4) inet.IpAddress_str_wf [OF assms(1)] by (cases c) (auto simp: ips_call_ok_def bindR_eq_Inr)
  then show ?thesis using addr_set.fold_elems [OF assms(3), of "[op]"] by simp
qed

lemma ips_call_run_refines:
  assumes I: "inet I"
  shows "ips_wf m \<Longrightarrow> \<forall>c \<in> set cs. ips_call_ok c \<Longrightarrow> (case ips_call_run I cs m of
    Inl f \<Rightarrow> set_call_run I cs (set m) = Inl f | Inr m' \<Rightarrow> ips_wf m' \<and> set_call_run I cs (set m) = Inr (set m'))"
proof (induction cs arbitrary: m)
  case (Cons c cs)
  show ?case
  proof (cases "call_meaning I c")
    case (Inl f)
    then show ?thesis unfolding ips_call_run_Cons set_call_run_Cons by simp
  next
    case (Inr op)
    have "ips_call_ok c" using Cons.prems(2) by simp
    from apply_op_refines [OF I this Cons.prems(1) Inr] Cons.IH [of "addr_set.apply_op op m"] Cons.prems(2)
    show ?thesis unfolding ips_call_run_Cons set_call_run_Cons Inr by (simp split: sum.splits)
  qed
qed simp

text \<open>
  C24: a set of addresses is what its name says. Any sequence of calls that add and remove addresses, given
  as addresses or as text, refines the same sequence on mathematical sets: it stops at the first text
  that is no address, with the same exception, or ends in the list of the elements in order. The
  queries then answer as the set does (size, membership, inclusion, equality), \<^verbatim>\<open>operator<\<close> puts
  exactly one of two different sets first, and the text of the set is read back as the same set.
\<close>

theorem address_set_refines:
  assumes "inet I" and "ips_wf m" and "\<forall>c \<in> set cs. ips_call_ok c"
  shows "case set_call_run I cs (set m) of
      Inl f \<Rightarrow> ips_call_run I cs m = Inl f
    | Inr A \<Rightarrow> \<exists>m'. ips_call_run I cs m = Inr m' \<and> ips_wf m' \<and> set (ips_getIpAddresses m') = A
        \<and> ips_getSize m' = card A \<and> (\<forall>a. ip_wf a \<longrightarrow> (ips_contains a m' \<longleftrightarrow> a \<in> A))
        \<and> (\<forall>k. ips_wf k \<longrightarrow> (ips_contains_all k m' \<longleftrightarrow> set k \<subseteq> A) \<and> (ips_eq m' k \<longleftrightarrow> A = set k)
            \<and> (ips_neq m' k \<longleftrightarrow> ips_less m' k \<noteq> ips_less k m'))
        \<and> (\<exists>s. ips_to_string I m' = Inr s \<and> IpAddresses I s = Inr m')"
proof (cases "ips_call_run I cs m")
  case (Inl f)
  then show ?thesis using ips_call_run_refines [OF assms] by simp
next
  case (Inr m')
  then have wf: "ips_wf m'" and A: "set_call_run I cs (set m) = Inr (set m')"
    using ips_call_run_refines [OF assms] by simp_all
  have "ips_contains_all k m' \<longleftrightarrow> set k \<subseteq> set m'" if "ips_wf k" for k
    using ips_contains_all_iff [OF wf] that by (simp add: ips_wf_def)
  moreover have "ips_neq m' k \<longleftrightarrow> ips_less m' k \<noteq> ips_less k m'" if "ips_wf k" for k
    using ips_eq_iff [OF wf that] sorted_unique [OF wf that] ips_less_total [OF wf that]
      ips_less_trans [OF wf that wf] ips_less_irrefl [OF wf] by (auto simp: ips_neq_def)
  ultimately show ?thesis
    using Inr A wf ips_eq_iff [OF wf] inet.ips_round_trip [OF assms(1) wf]
    by (auto simp: ips_getIpAddresses_def ips_getSize_card ips_contains_def set_find_iff)
qed

definition w_calls :: "ips_call list" where
  "w_calls = [Add_text ''2.0.0.0'', Add_text ''1.0.0.0'', Add_text ''3.0.0.0'', Remove_text ''3.0.0.0'']"

lemma w_parse:
  "IpAddress_str ref_inet ''1.0.0.0'' = Inr (IpAddress_u32 1)"
  "IpAddress_str ref_inet ''2.0.0.0'' = Inr (IpAddress_u32 2)"
  "IpAddress_str ref_inet ''3.0.0.0'' = Inr (IpAddress_u32 3)"
  by code_simp+

theorem address_set_refines_witness:
  "\<exists>m' s. ips_call_run ref_inet w_calls [] = Inr m' \<and> ips_getSize m' = 2
    \<and> set m' = {IpAddress_u32 1, IpAddress_u32 2}
    \<and> ips_to_string ref_inet m' = Inr s \<and> IpAddresses ref_inet s = Inr m'"
proof -
  have "set_call_run ref_inet w_calls (set []) = Inr {IpAddress_u32 1, IpAddress_u32 2}"
    by (auto simp: w_calls_def w_parse IpAddress_u32_def)
  with address_set_refines [OF ref_inet.inet_axioms, of "[]" w_calls] show ?thesis
    by (auto simp: ips_wf_def w_calls_def ips_call_ok_def ips_getIpAddresses_def IpAddress_u32_def)
qed

end
