(* ===== verification/Shc_Hal_Events.thy ===== *)
theory Shc_Hal_Events
  imports Shc_Hal
begin

text \<open>
  Start-up of the HAL and its callbacks: learning flows from digests (\<^verbatim>\<open>shc_digest.cpp\<close>), tagging
  aged entries (\<^verbatim>\<open>shc_aging.cpp\<close>), and \<^verbatim>\<open>hal_init.cpp\<close>. The last part is the step relation of
  the threads that share the route table.
\<close>

subsection \<open>Learning (shc\_digest.cpp)\<close>

definition get_or_zero :: "u64 option \<Rightarrow> u64" where
  "get_or_zero x = (case x of None \<Rightarrow> 0 | Some y \<Rightarrow> y)"

definition learn_one ::
  "('h, 'k, 'd, 'l, 'a) bfrt_api \<Rightarrow> 'l \<Rightarrow> ('h, 'k, 'd, 'a) hal \<Rightarrow> ('h, 'k, 'd, 'a) hal outcome" where
  "learn_one api digest s =
     (let s = s\<lparr>learn_src :=
                  get_or_zero (learn_getValue api (learn_src_ip_digest_field_id s) digest),
                learn_dst :=
                  get_or_zero (learn_getValue api (learn_dst_ip_digest_field_id s) digest),
                ac_count := get_or_zero (learn_getValue api (learn_ac_count_field_id s) digest)\<rparr>;
          key = \<lparr>ip_src_addr = ucast (learn_src s), ip_dst_addr = ucast (learn_dst s)\<rparr>;
          data = \<lparr>nhop_id = 1\<rparr>
      in bindR (hal_route_entry_add api key data s) (\<lambda>(stu_2, s).
         if stu_2 = 0 then
           bindR (hal_route_aging_ttl_balance (s\<lparr>total_insert := total_insert s + 1\<rparr>))
             (\<lambda>(_, s). Inr s)
         else Inr s))"

fun learn_loop ::
  "('h, 'k, 'd, 'l, 'a) bfrt_api \<Rightarrow> 'l list \<Rightarrow> ('h, 'k, 'd, 'a) hal \<Rightarrow>
   ('h, 'k, 'd, 'a) hal outcome" where
  "learn_loop api [] s = Inr s"
| "learn_loop api (digest # data) s = bindR (learn_one api digest s) (learn_loop api data)"

definition learn_callback ::
  "('h, 'k, 'd, 'l, 'a) bfrt_api \<Rightarrow> addr \<Rightarrow> 'l list \<Rightarrow> addr \<Rightarrow> ('h, 'k, 'd, 'a) hal \<Rightarrow>
   (int \<times> ('h, 'k, 'd, 'a) hal) outcome" where
  "learn_callback api session data learn_msg_hdl s =
     bindR (learn_loop api data s) (\<lambda>s.
     bindR (asserted (bfRtLearnNotifyAck api (learn_obj s) session learn_msg_hdl (drv s))) (\<lambda>v.
       Inr (BF_SUCCESS, s\<lparr>drv := v\<rparr>)))"

definition ShcDigest ::
  "('h, 'k, 'd, 'l, 'a) bfrt_api \<Rightarrow> addr \<Rightarrow> bf_rt_target \<Rightarrow> addr \<Rightarrow> ('h, 'k, 'd, 'a) hal \<Rightarrow>
   ('h, 'k, 'd, 'a) hal outcome" where
  "ShcDigest api info d_tgt session s =
     bindR (asserted (bfrtLearnFromNameGet api info ''ShcIngressDeparser.flowkey_digest'')) (\<lambda>lobj.
     bindR (asserted (learnFieldIdGet api lobj ''src_ip_digest'')) (\<lambda>src_id.
     bindR (asserted (learnFieldIdGet api lobj ''dst_ip_digest'')) (\<lambda>dst_id.
     bindR (asserted (learnFieldIdGet api lobj ''ac_count'')) (\<lambda>ac_id.
     bindR (asserted (bfRtLearnCallbackRegister api lobj d_tgt (drv s))) (\<lambda>v.
       Inr (s\<lparr>learn_obj := lobj, learn_src_ip_digest_field_id := src_id,
              learn_dst_ip_digest_field_id := dst_id, learn_ac_count_field_id := ac_id,
              drv := v\<rparr>))))))"

definition shc_digest_init ::
  "('h, 'k, 'd, 'l, 'a) bfrt_api \<Rightarrow> addr \<Rightarrow> bf_rt_target \<Rightarrow> addr \<Rightarrow> ('h, 'k, 'd, 'a) hal \<Rightarrow>
   (int \<times> ('h, 'k, 'd, 'a) hal) outcome" where
  "shc_digest_init api info tgt session s =
     bindR (ShcDigest api info tgt session s) (\<lambda>s. Inr (0, s))"

subsection \<open>Aging (shc\_aging.cpp)\<close>

text \<open>A deletion with the aged flag answers 1 when the driver tagged the entry.\<close>

definition idletime_callback ::
  "('h, 'k, 'd, 'l, 'a) bfrt_api \<Rightarrow> 'k \<Rightarrow> ('h, 'k, 'd, 'a) hal \<Rightarrow>
   (int \<times> ('h, 'k, 'd, 'a) hal) outcome" where
  "idletime_callback api key s =
     (let s = s\<lparr>aging_ip_src := get_or_zero (key_getValue api (aging_ip_src_field_id s) key),
                aging_ip_dst := get_or_zero (key_getValue api (aging_ip_dst_field_id s) key)\<rparr>;
          key2 = \<lparr>ip_src_addr = ucast (aging_ip_src s), ip_dst_addr = ucast (aging_ip_dst s)\<rparr>
      in bindR (hal_route_entry_del api key2 True s) (\<lambda>(stu_2, s).
         if stu_2 = 1 then
           bindR (hal_route_aging_ttl_balance (s\<lparr>total_aged := total_aged s + 1\<rparr>))
             (\<lambda>(_, s). Inr (BF_SUCCESS, s))
         else Inr (BF_SUCCESS, s)))"

text \<open>The status of the first mode setting is overwritten before anyone reads it.\<close>

definition ShcAging ::
  "('h, 'k, 'd, 'l, 'a) bfrt_api \<Rightarrow> addr \<Rightarrow> bf_rt_target \<Rightarrow> addr \<Rightarrow> ('h, 'k, 'd, 'a) hal \<Rightarrow>
   ('h, 'k, 'd, 'a) hal outcome" where
  "ShcAging api info tgt session s =
     (let atgt = (aging_dev_tgt s)\<lparr>dev_id := dev_id tgt, pipe_id := pipe_id tgt\<rparr> in
      bindR (asserted (bfrtTableFromNameGet api info ''pipe.ShcIngress.route_tbl'')) (\<lambda>tbl.
      bindR (asserted (keyFieldIdGet api tbl ''ig_md.src_addr'')) (\<lambda>src_id.
      bindR (asserted (keyFieldIdGet api tbl ''ig_md.dst_addr'')) (\<lambda>dst_id.
      bindR (asserted (attributeAllocate api tbl)) (\<lambda>ta.
      let min_ttl = 0; max_ttl = 50000; ttl_query_interval = 50;
          (bf_status, ta) = idleTableNotifyModeSet api False False ttl_query_interval max_ttl min_ttl ta
      in bindR (asserted (idleTableNotifyModeSet api True True ttl_query_interval max_ttl min_ttl ta))
      (\<lambda>ta.
      bindR (asserted (tableAttributesSet api tbl atgt 0 ta (drv s))) (\<lambda>v.
        Inr (s\<lparr>aging_dev_tgt := atgt, aging_route := tbl, aging_ip_src_field_id := src_id,
               aging_ip_dst_field_id := dst_id, attr := Some ta, drv := v\<rparr>))))))))"

definition shc_aging_init ::
  "('h, 'k, 'd, 'l, 'a) bfrt_api \<Rightarrow> addr \<Rightarrow> bf_rt_target \<Rightarrow> addr \<Rightarrow> ('h, 'k, 'd, 'a) hal \<Rightarrow>
   (int \<times> ('h, 'k, 'd, 'a) hal) outcome" where
  "shc_aging_init api info tgt session s =
     bindR (ShcAging api info tgt session s) (\<lambda>s. Inr (0, s))"

subsection \<open>Start-up (route.cpp, hal\_init.cpp)\<close>

definition route_init ::
  "('h, 'k, 'd, 'l, 'a) bfrt_api \<Rightarrow> bf_rt_target \<Rightarrow> addr \<Rightarrow> bf_rt_target \<Rightarrow> addr \<Rightarrow>
   ('h, 'k, 'd, 'a) hal \<Rightarrow> (int \<times> ('h, 'k, 'd, 'a) hal) outcome" where
  "route_init api junk info tgt session s =
     bindR (Route_new api junk info tgt session (drv s)) (\<lambda>(r, v).
       Inr (0, s\<lparr>route_table := Some r, drv := v\<rparr>))"

text \<open>\<^verbatim>\<open>BF_DEV_DIR_ALL\<close> of the vendor is the parameter \<open>dir_all\<close>.\<close>

definition setUp ::
  "('h, 'k, 'd, 'l, 'a) bfrt_api \<Rightarrow> u32 \<Rightarrow> ('h, 'k, 'd, 'a) hal \<Rightarrow> ('h, 'k, 'd, 'a) hal outcome" where
  "setUp api dir_all s =
     (let s = s\<lparr>g_dev_tgt := \<lparr>dev_id = 0, pipe_id = 0xffff, direction = dir_all, prsr_id = 0xff\<rparr>\<rparr> in
      bindR (asserted (bfRtInfoGet api (dev_id (g_dev_tgt s)) ''shc_real_time_sketch'')) (\<lambda>info.
        Inr (s\<lparr>g_bfrtInfo := info, g_session := sessionCreate api\<rparr>)))"

definition reset_driver :: "'h driver \<Rightarrow> 'h driver outcome" where
  "reset_driver v =
     (let v = v\<lparr>direct_replace := False, yxj_entry_index := 0, entry_in_table_c := 0,
                entry_aged_c := 0, aged_replace := False, aged_replace_flag := False,
                index_repalce_action := False, cuckoo_hash_get_flag := False\<rparr> in
      bindR (write_at (driver_cuckoo_hash_get v) 0 0) (\<lambda>xs.
      bindR (write_at xs 1 0) (\<lambda>xs.
      bindR (write_at xs 2 0) (\<lambda>xs.
      bindR (write_at xs 3 0) (\<lambda>xs.
      bindR (write_at xs 4 0) (\<lambda>xs.
        Inr (v\<lparr>driver_cuckoo_hash_get := xs\<rparr>)))))))"

definition hal_init ::
  "('h, 'k, 'd, 'l, 'a) bfrt_api \<Rightarrow> u32 \<Rightarrow> bf_rt_target \<Rightarrow> ('h, 'k, 'd, 'a) hal \<Rightarrow>
   ('h, 'k, 'd, 'a) hal outcome" where
  "hal_init api dir_all junk s =
     bindR (setUp api dir_all s) (\<lambda>s.
     bindR (route_init api junk (g_bfrtInfo s) (g_dev_tgt s) (g_session s) s) (\<lambda>(_, s).
     bindR (shc_digest_init api (g_bfrtInfo s) (g_dev_tgt s) (g_session s) s) (\<lambda>(_, s).
     bindR (shc_aging_init api (g_bfrtInfo s) (g_dev_tgt s) (g_session s) s) (\<lambda>(_, s).
     bindR (reset_driver (drv s)) (\<lambda>v.
       Inr (s\<lparr>drv := v\<rparr>))))))"

subsection \<open>Threads that share the table\<close>

text \<open>
  The two callbacks run in threads of the driver, and the agent calls the C interface from its own
  threads. The mutex makes each call of the interface one step; between two steps the driver may
  change its own variables in any way. The number counts the calls that balance the time to live.
\<close>

inductive hal_step ::
  "('h, 'k, 'd, 'l, 'a) bfrt_api \<Rightarrow> ('h, 'k, 'd, 'a) hal \<Rightarrow> nat \<Rightarrow> ('h, 'k, 'd, 'a) hal \<Rightarrow> bool"
  for api where
  step_add: "hal_route_entry_add api key data s = Inr (st, s') \<Longrightarrow> hal_step api s 0 s'"
| step_mod: "hal_route_entry_mod api key data s = Inr (st, s') \<Longrightarrow> hal_step api s 0 s'"
| step_del: "hal_route_entry_del api key aged s = Inr (st, s') \<Longrightarrow> hal_step api s 0 s'"
| step_get: "hal_route_entry_get api key data s = Inr (st, s') \<Longrightarrow> hal_step api s 0 s'"
| step_usage: "hal_route_table_usage_get api n s = Inr (st, s') \<Longrightarrow> hal_step api s 0 s'"
| step_size: "hal_route_table_size_get s = Inr (st, s') \<Longrightarrow> hal_step api s 0 s'"
| step_balance: "hal_route_aging_ttl_balance s = Inr (st, s') \<Longrightarrow> hal_step api s 1 s'"
| step_driver: "hal_step api s 0 (s\<lparr>drv := v\<rparr>)"
| step_learn: "hal_step api s 0 (s\<lparr>learn_src := a, learn_dst := b, ac_count := c, total_insert := d\<rparr>)"
| step_aging: "hal_step api s 0 (s\<lparr>aging_ip_src := a, aging_ip_dst := b, total_aged := d\<rparr>)"

inductive hal_run ::
  "('h, 'k, 'd, 'l, 'a) bfrt_api \<Rightarrow> ('h, 'k, 'd, 'a) hal \<Rightarrow> nat \<Rightarrow> ('h, 'k, 'd, 'a) hal \<Rightarrow> bool"
  for api where
  run_nil: "hal_run api s 0 s"
| run_step: "hal_run api s n s' \<Longrightarrow> hal_step api s' m s'' \<Longrightarrow> hal_run api s (n + m) s''"

inductive_cases hal_stepE: "hal_step api s n s'"

subsection \<open>The table methods keep the object\<close>

lemmas table_methods = tableEntryAddModify_def tableEntryGet_def tableEntryDel_def
  tableUsageGet_def tableSizeGet_def KeySetUp_def DataSetUp_def

lemmas interface_defs = hal_route_entry_add_def hal_route_entry_mod_def hal_route_entry_del_def
  hal_route_entry_get_def hal_route_table_usage_get_def hal_route_table_size_get_def
  hal_route_aging_ttl_balance_def

text \<open>What a method other than the balancing may change: the scratch key and data objects.\<close>

definition same_table :: "('k, 'd) Route \<Rightarrow> ('k, 'd) Route \<Rightarrow> bool" where
  "same_table r r' \<longleftrightarrow>
     (\<exists>k d. r' = r\<lparr>bfrtTableKey := k, bfrtTableData := d\<rparr>)"

lemma same_table_key: "same_table r (r\<lparr>bfrtTableKey := k\<rparr>)"
  unfolding same_table_def by (rule exI [of _ k], rule exI [of _ "bfrtTableData r"]) simp

lemma same_table_refl: "same_table r r"
  unfolding same_table_def by (rule exI [of _ "bfrtTableKey r"], rule exI [of _ "bfrtTableData r"]) simp

lemma same_table_simps:
  assumes "same_table r r'"
  shows "table_mutex r' = table_mutex r" and "entry_ttl r' = entry_ttl r"
    and "table_ptr r' = table_ptr r"
  using assms by (auto simp: same_table_def)

lemma tableEntryAddModify_same:
  "tableEntryAddModify api key data b r v = Inr (st, r', v') \<Longrightarrow> same_table r r'"
  by (auto simp: tableEntryAddModify_def Let_def same_table_def bindR_eq_Inr case_prod_unfold)

lemma tableEntryDel_same: "tableEntryDel api key b r v = Inr (st, r', v') \<Longrightarrow> same_table r r'"
  by (auto simp: tableEntryDel_def Let_def bindR_eq_Inr case_prod_unfold intro: same_table_key)

lemma tableEntryGet_same:
  "tableEntryGet api key data r v = Inr (st, d', r', v') \<Longrightarrow> same_table r r'"
  by (auto simp: tableEntryGet_def Let_def same_table_def bindR_eq_Inr case_prod_unfold
      split: if_splits)

lemma locked_call_Inr:
  assumes "locked_call f s = Inr (x, s')"
  obtains r r' v' where "route_table s = Some r" and "\<not> table_mutex r"
    and "f (r\<lparr>table_mutex := True\<rparr>) (drv s) = Inr (x, r', v')" and "table_mutex r'"
    and "s' = s\<lparr>route_table := Some (r'\<lparr>table_mutex := False\<rparr>), drv := v'\<rparr>"
  using assms
  by (auto simp: locked_call_def deref_table_def tableMutexLock_def tableMutexUnlock_def
      bindR_eq_Inr split: option.splits if_splits prod.splits)

lemma locked_call_same:
  assumes call: "locked_call f s = Inr (x, s')"
    and same: "\<And>r v x r' v'. f r v = Inr (x, r', v') \<Longrightarrow> same_table r r'"
  shows "\<exists>r r'. route_table s = Some r \<and> route_table s' = Some r' \<and>
    \<not> table_mutex r \<and> \<not> table_mutex r' \<and> entry_ttl r' = entry_ttl r"
  using call
proof (rule locked_call_Inr)
  fix r r' v'
  assume "f (r\<lparr>table_mutex := True\<rparr>) (drv s) = Inr (x, r', v')"
  from same_table_simps(2) [OF same [OF this]] have "entry_ttl r' = entry_ttl r" by simp
  moreover assume "route_table s = Some r" and "\<not> table_mutex r"
    and "s' = s\<lparr>route_table := Some (r'\<lparr>table_mutex := False\<rparr>), drv := v'\<rparr>"
  ultimately show ?thesis by simp
qed

subsection \<open>The thresholds of the balancing\<close>

lemma float_round_small: "n < 2 ^ 24 \<Longrightarrow> float_round n = n"
  by (simp add: float_round_def float_exp.simps)

lemma float_exp_large:
  "2 ^ 24 \<le> n \<Longrightarrow> 0 < float_exp n \<and> 2 ^ 23 \<le> n div 2 ^ float_exp n"
proof (induction n rule: float_exp.induct)
  case (1 n)
  have e: "float_exp n = Suc (float_exp (n div 2))"
    using "1.prems" by (subst float_exp.simps) simp
  show ?case
  proof (cases "n div 2 < 2 ^ 24")
    case True
    then have "float_exp (n div 2) = 0" by (subst float_exp.simps) simp
    moreover have "(2 ^ 24 :: nat) div 2 \<le> n div 2" using "1.prems" by (rule div_le_mono)
    ultimately show ?thesis by (simp add: e)
  next
    case False
    then have "2 ^ 23 \<le> (n div 2) div 2 ^ float_exp (n div 2)" using "1.IH" "1.prems" by simp
    then show ?thesis by (simp add: e div_mult2_eq)
  qed
qed

lemma float_round_large:
  assumes "2 ^ 24 \<le> n" shows "2 ^ 24 \<le> float_round n"
proof -
  define e q where "e = float_exp n" and "q = n div 2 ^ e"
  have "0 < e" and "2 ^ 23 \<le> q" using float_exp_large [OF assms] by (auto simp: e_def q_def)
  then have "(2 :: nat) ^ 23 * 2 ^ 1 \<le> q * 2 ^ e" by (intro mult_le_mono power_increasing) auto
  also have "\<dots> \<le> float_round n" by (simp add: float_round_def Let_def e_def q_def)
  finally show ?thesis by simp
qed

lemma share_gt_085: "float_share n > double_0_85 \<longleftrightarrow> 55706 \<le> unat n"
proof (cases "unat n < 2 ^ 24")
  case True
  have "float_share n > double_0_85 \<longleftrightarrow> 7656119366529843 < 2 ^ 37 * unat n"
    unfolding float_share_def double_0_85_def float_round_small [OF True]
    by (simp add: field_simps flip: of_nat_less_iff [where ?'a = rat])
  then show ?thesis by auto
next
  case False
  have "2 ^ 24 \<le> float_round (unat n)" using False by (intro float_round_large) simp
  then have "of_nat (2 ^ 24) \<le> (of_nat (float_round (unat n)) :: rat)" by (rule of_nat_mono)
  then have "float_share n > double_0_85"
    by (simp add: float_share_def double_0_85_def field_simps)
  then show ?thesis using False by simp
qed

lemma share_lt_015: "float_share n < double_0_15 \<longleftrightarrow> unat n \<le> 9830"
proof (cases "unat n < 2 ^ 24")
  case True
  have "float_share n < double_0_15 \<longleftrightarrow> 2 ^ 39 * unat n < 5404319552844595"
    unfolding float_share_def double_0_15_def float_round_small [OF True]
    by (simp add: field_simps flip: of_nat_less_iff [where ?'a = rat])
  then show ?thesis by auto
next
  case False
  have "2 ^ 24 \<le> float_round (unat n)" using False by (intro float_round_large) simp
  then have "of_nat (2 ^ 24) \<le> (of_nat (float_round (unat n)) :: rat)" by (rule of_nat_mono)
  then have "\<not> float_share n < double_0_15"
    by (simp add: float_share_def double_0_15_def field_simps)
  then show ?thesis using False by simp
qed

end
