(* ===== verification/Shc_Hal_Ref.thy ===== *)
theory Shc_Hal_Ref
  imports Shc_Hal_Events
begin

text \<open>
  What the HAL relies on from the vendor's runtime, as a locale, the behaviour of the HAL under
  these laws, and a reference runtime that satisfies them.
\<close>

lemma unat_ucast_u64_less: "unat (ucast (x :: u32) :: u64) < 2 ^ 32"
proof -
  have "unat (ucast x :: u64) = take_bit 64 (unat x)" by (simp add: unsigned_ucast_eq)
  also have "\<dots> \<le> unat x" by (rule take_bit_nat_less_eq_self)
  also have "\<dots> < 2 ^ 32" by (rule order_less_le_trans [OF unsigned_less]) simp
  finally show ?thesis .
qed

subsection \<open>The contract of the runtime\<close>

text \<open>
  \<open>tbl\<close> is the handle of the route table, \<open>sid\<close> and \<open>did\<close> are the ids of its key fields, \<open>act\<close> the
  id of the forwarding action and \<open>nid\<close>, \<open>tid\<close> the ids of its data fields. \<open>view\<close> is the content of
  the table. A successful addition stores the entry; what it evicts is not said, because the
  driver may replace aged entries. A read does not change the table.
\<close>

locale bfrt_route =
  fixes api :: "('h, 'k, 'd, 'l, 'a) bfrt_api"
    and view :: "'h driver \<Rightarrow> (u64 \<times> u64 \<rightharpoonup> u64 \<times> u64)"
    and info tbl :: addr
    and sid did act nid tid :: u32
  assumes table_name: "bfrtTableFromNameGet api info ''pipe.ShcIngress.route_tbl'' = (0, tbl)"
    and src_name: "keyFieldIdGet api tbl ''ig_md.src_addr'' = (0, sid)"
    and dst_name: "keyFieldIdGet api tbl ''ig_md.dst_addr'' = (0, did)"
    and act_name: "actionIdGet api tbl ''ShcIngress.route_for_nexthop'' = (0, act)"
    and nhop_name: "dataFieldIdGet api tbl ''nhop_id'' act = (0, nid)"
    and ttl_name: "dataFieldIdGet api tbl ''$ENTRY_TTL'' act = (0, tid)"
    and key_ids: "sid \<noteq> did"
    and data_ids: "nid \<noteq> tid"
    and key_set: "f \<in> {sid, did} \<Longrightarrow> unat x < 2 ^ 32 \<Longrightarrow> fst (key_setValue api f x k) = 0"
    and key_get: "f \<in> {sid, did} \<Longrightarrow> unat x < 2 ^ 32 \<Longrightarrow>
      key_getValue api g (snd (key_setValue api f x k)) = (if g = f then Some x else key_getValue api g k)"
    and data_set: "f \<in> {nid, tid} \<Longrightarrow> fst (data_setValue api f x (dataReset api tbl (Some act) d)) = 0"
    and data_set2: "fst (data_setValue api tid y
      (snd (data_setValue api nid x (dataReset api tbl (Some act) d)))) = 0"
    and entry_add: "bf_tableEntryAdd api tbl tgt 0 k
        (snd (data_setValue api tid y (snd (data_setValue api nid x (dataReset api tbl (Some act) d))))) v
        = (0, v') \<Longrightarrow> key_getValue api sid k = Some a \<Longrightarrow> key_getValue api did k = Some b \<Longrightarrow>
      view v' (a, b) = Some (x, y)"
    and entry_get: "bf_tableEntryGet api tbl tgt fl k d v = (st, d', v') \<Longrightarrow>
      key_getValue api sid k = Some a \<Longrightarrow> key_getValue api did k = Some b \<Longrightarrow>
      view v' = view v \<and> (case view v (a, b) of None \<Rightarrow> st \<noteq> 0
        | Some (x, y) \<Rightarrow> st = 0 \<and> fst (data_actionIdGet api d') = 0 \<and> data_getValue api nid d' = (0, x))"
begin

text \<open>The object of the table after start-up, between two calls.\<close>

definition ready :: "('h, 'k, 'd, 'a) hal \<Rightarrow> bool" where
  "ready s \<longleftrightarrow> (case route_table s of None \<Rightarrow> False | Some r \<Rightarrow>
     \<not> table_mutex r \<and> table_ptr r = tbl \<and> ip_src_field_id r = sid \<and> ip_dst_field_id r = did \<and>
     set_route_for_nexthop_action_id r = act \<and> set_route_for_nexthop_action_nhop_id_id r = nid \<and>
     set_route_for_nexthop_action_ttl_id r = tid)"

lemma readyE:
  assumes "ready s"
  obtains r where "route_table s = Some r" "\<not> table_mutex r" "table_ptr r = tbl"
    "ip_src_field_id r = sid" "ip_dst_field_id r = did" "set_route_for_nexthop_action_id r = act"
    "set_route_for_nexthop_action_nhop_id_id r = nid" "set_route_for_nexthop_action_ttl_id r = tid"
  using assms by (auto simp: ready_def split: option.splits)

lemma Route_new_fields:
  assumes "Route_new api junk info tgt sess v = Inr (r, v')"
  shows "ready (s\<lparr>route_table := Some r\<rparr>)" and "entry_ttl r = 5000"
proof -
  obtain miss sz k d where
    "r = \<lparr>table_mutex = False, entry_ttl = 5000, bfrtTableKey = k, bfrtTableData = d,
       ip_src_field_id = sid, ip_dst_field_id = did, set_route_for_nexthop_action_id = act,
       set_route_for_miss_action_id = miss, set_route_for_nexthop_action_nhop_id_id = nid,
       set_route_for_nexthop_action_ttl_id = tid,
       dev_tgt = junk\<lparr>dev_id := dev_id tgt, pipe_id := pipe_id tgt\<rparr>, rt_session = sess,
       table_ptr = tbl, table_size = ucast (ucast (sz :: u64) :: u32)\<rparr>"
    using assms
    by (auto simp: Route_new_def Let_def table_name src_name dst_name act_name nhop_name ttl_name
        elim!: bindR_InrE)
  then show "ready (s\<lparr>route_table := Some r\<rparr>)" and "entry_ttl r = 5000"
    by (simp_all add: ready_def)
qed

lemma KeySetUp_ok:
  assumes "ip_src_field_id r = sid" and "ip_dst_field_id r = did"
  obtains k' where "KeySetUp api r key k = Inr k'"
    and "key_getValue api sid k' = Some (ucast (ip_src_addr key))"
    and "key_getValue api did k' = Some (ucast (ip_dst_addr key))"
proof -
  note small = unat_ucast_u64_less
  define k1 where "k1 = snd (key_setValue api sid (ucast (ip_src_addr key)) k)"
  define k2 where "k2 = snd (key_setValue api did (ucast (ip_dst_addr key)) k1)"
  have "KeySetUp api r key k = Inr k2"
    using key_set [OF _ small, of sid "ip_src_addr key" k] key_set [OF _ small, of did "ip_dst_addr key" k1]
    by (simp add: KeySetUp_def assms asserted_def bf_sys_assert_def BF_SUCCESS_def k1_def k2_def)
  moreover have "key_getValue api sid k2 = Some (ucast (ip_src_addr key))"
    and "key_getValue api did k2 = Some (ucast (ip_dst_addr key))"
    using key_ids by (simp_all add: k1_def k2_def key_get [OF _ small])
  ultimately show thesis by (rule that)
qed

definition filled :: "('k, 'd) Route \<Rightarrow> hal_route_data \<Rightarrow> 'd" where
  "filled r data = snd (data_setValue api tid (entry_ttl r)
     (snd (data_setValue api nid (ucast (nhop_id data)) (dataReset api tbl (Some act) (bfrtTableData r)))))"

lemma DataSetUp_ok:
  assumes "set_route_for_nexthop_action_nhop_id_id r = nid"
    and "set_route_for_nexthop_action_ttl_id r = tid"
  shows "DataSetUp api r data (dataReset api tbl (Some act) (bfrtTableData r)) = Inr (filled r data)"
  using data_set [of nid] data_set2
  by (simp add: DataSetUp_def assms asserted_def bf_sys_assert_def BF_SUCCESS_def filled_def)

text \<open>An addition comes down to one call of the runtime, with the key and the data filled in.\<close>

lemma add_call:
  assumes "ready s"
  obtains r k st v' where "route_table s = Some r"
    and "bf_tableEntryAdd api tbl (dev_tgt r) 0 k (filled r data) (drv s) = (st, v')"
    and "key_getValue api sid k = Some (ucast (ip_src_addr key))"
    and "key_getValue api did k = Some (ucast (ip_dst_addr key))"
    and "hal_route_entry_add api key data s =
      Inr (st, s\<lparr>route_table := Some (r\<lparr>bfrtTableKey := k, bfrtTableData := filled r data\<rparr>), drv := v'\<rparr>)"
    and "ready (s\<lparr>route_table := Some (r\<lparr>bfrtTableKey := k, bfrtTableData := filled r data\<rparr>), drv := v'\<rparr>)"
proof -
  obtain r where r: "route_table s = Some r" "\<not> table_mutex r" "table_ptr r = tbl"
    "ip_src_field_id r = sid" "ip_dst_field_id r = did" "set_route_for_nexthop_action_id r = act"
    "set_route_for_nexthop_action_nhop_id_id r = nid" "set_route_for_nexthop_action_ttl_id r = tid"
    using assms by (rule readyE)
  let ?r = "r\<lparr>table_mutex := True\<rparr>"
  obtain k where k: "KeySetUp api ?r key (keyReset api tbl (bfrtTableKey r)) = Inr k"
    "key_getValue api sid k = Some (ucast (ip_src_addr key))"
    "key_getValue api did k = Some (ucast (ip_dst_addr key))"
    using KeySetUp_ok [of ?r] r by auto
  have d: "DataSetUp api ?r data (dataReset api tbl (Some act) (bfrtTableData r)) = Inr (filled r data)"
    using DataSetUp_ok [of ?r data] r by (simp add: filled_def)
  obtain st v' where add: "bf_tableEntryAdd api tbl (dev_tgt r) 0 k (filled r data) (drv s) = (st, v')"
    by force
  have "hal_route_entry_add api key data s =
      Inr (st, s\<lparr>route_table := Some (r\<lparr>bfrtTableKey := k, bfrtTableData := filled r data\<rparr>), drv := v'\<rparr>)"
    using r k(1) d add
    by (simp add: hal_route_entry_add_def locked_call_def deref_table_def tableMutexLock_def
        tableMutexUnlock_def tableEntryAddModify_def Let_def)
  moreover have "ready (s\<lparr>route_table := Some (r\<lparr>bfrtTableKey := k, bfrtTableData := filled r data\<rparr>), drv := v'\<rparr>)"
    using r by (simp add: ready_def)
  ultimately show thesis using that [OF r(1) add k(2,3)] by blast
qed

lemma add_returns:
  assumes "ready s"
  shows "\<exists>st s'. hal_route_entry_add api key data s = Inr (st, s') \<and> ready s' \<and>
    (\<exists>r r'. route_table s = Some r \<and> route_table s' = Some r' \<and> entry_ttl r' = entry_ttl r) \<and>
    s' = s\<lparr>route_table := route_table s', drv := drv s'\<rparr> \<and>
    (st = 0 \<longrightarrow> (\<exists>t. view (drv s') (ucast (ip_src_addr key), ucast (ip_dst_addr key))
                  = Some (ucast (nhop_id data), t)))"
proof -
  obtain r k st v' where a: "route_table s = Some r"
    "bf_tableEntryAdd api tbl (dev_tgt r) 0 k (filled r data) (drv s) = (st, v')"
    "key_getValue api sid k = Some (ucast (ip_src_addr key))"
    "key_getValue api did k = Some (ucast (ip_dst_addr key))"
    "hal_route_entry_add api key data s =
      Inr (st, s\<lparr>route_table := Some (r\<lparr>bfrtTableKey := k, bfrtTableData := filled r data\<rparr>), drv := v'\<rparr>)"
    "ready (s\<lparr>route_table := Some (r\<lparr>bfrtTableKey := k, bfrtTableData := filled r data\<rparr>), drv := v'\<rparr>)"
    using add_call [OF assms] .
  have "view v' (ucast (ip_src_addr key), ucast (ip_dst_addr key)) = Some (ucast (nhop_id data), entry_ttl r)"
    if "st = 0"
    using a(2,3,4) unfolding that filled_def by (rule entry_add)
  then show ?thesis using a(1,5,6) by simp
qed

lemma get_returns:
  assumes "ready s"
  shows "\<exists>st n s'. hal_route_entry_get api key data s = Inr ((st, data\<lparr>nhop_id := n\<rparr>), s') \<and> ready s' \<and>
    view (drv s') = view (drv s) \<and>
    (case view (drv s) (ucast (ip_src_addr key), ucast (ip_dst_addr key)) of
       None \<Rightarrow> st \<noteq> 0 \<and> n = - 1 | Some (x, t) \<Rightarrow> st = 0 \<and> n = ucast x)"
proof -
  obtain r where r: "route_table s = Some r" "\<not> table_mutex r" "table_ptr r = tbl"
    "ip_src_field_id r = sid" "ip_dst_field_id r = did" "set_route_for_nexthop_action_id r = act"
    "set_route_for_nexthop_action_nhop_id_id r = nid" "set_route_for_nexthop_action_ttl_id r = tid"
    using assms by (rule readyE)
  let ?r = "r\<lparr>table_mutex := True\<rparr>"
  let ?kk = "(ucast (ip_src_addr key), ucast (ip_dst_addr key)) :: u64 \<times> u64"
  obtain k where k: "KeySetUp api ?r key (keyReset api tbl (bfrtTableKey r)) = Inr k"
    "key_getValue api sid k = Some (fst ?kk)" "key_getValue api did k = Some (snd ?kk)"
    using KeySetUp_ok [of ?r] r by auto
  let ?d = "dataReset api tbl None (bfrtTableData r)"
  obtain st d' v' where get: "bf_tableEntryGet api tbl (dev_tgt r) (flag_from_hw api 0) k ?d (drv s)
      = (st, d', v')"
    by (metis prod_cases3)
  note law = entry_get [OF get k(2,3)]
  define n where "n = (if st = 0 then ucast (snd (data_getValue api nid d')) else - 1 :: u32)"
  define s' where "s' = s\<lparr>route_table := Some (r\<lparr>bfrtTableKey := k, bfrtTableData := d'\<rparr>), drv := v'\<rparr>"
  have ok: "fst (data_actionIdGet api d') = 0" "fst (data_getValue api nid d') = 0" if "st = 0"
    using law that by (auto split: option.splits)
  have call: "hal_route_entry_get api key data s = Inr ((st, data\<lparr>nhop_id := n\<rparr>), s')"
    using r k(1) get ok
    by (simp add: hal_route_entry_get_def locked_call_def deref_table_def tableMutexLock_def
        tableMutexUnlock_def tableEntryGet_def Let_def s'_def n_def BF_SUCCESS_def asserted_def
        bf_sys_assert_def)
  have val: "case view (drv s) ?kk of None \<Rightarrow> st \<noteq> 0 \<and> n = - 1 | Some (x, t) \<Rightarrow> st = 0 \<and> n = ucast x"
    using law by (auto simp: n_def split: option.splits)
  have "view (drv s') = view (drv s)" using law by (simp add: s'_def)
  moreover have "ready s'" using r by (simp add: s'_def ready_def)
  ultimately show ?thesis using call val by blast
qed

lemma balance_returns:
  assumes "ready s"
  shows "\<exists>s'. hal_route_aging_ttl_balance s = Inr ((), s') \<and> ready s' \<and>
    s' = s\<lparr>route_table := route_table s', drv := drv s'\<rparr>"
proof -
  obtain r where r: "route_table s = Some r" "\<not> table_mutex r" "table_ptr r = tbl"
    "ip_src_field_id r = sid" "ip_dst_field_id r = did" "set_route_for_nexthop_action_id r = act"
    "set_route_for_nexthop_action_nhop_id_id r = nid" "set_route_for_nexthop_action_ttl_id r = tid"
    using assms by (rule readyE)
  then show ?thesis
    by (simp add: hal_route_aging_ttl_balance_def locked_call_def deref_table_def tableMutexLock_def
        tableMutexUnlock_def aging_ttl_balance_def Let_def ready_def)
qed

text \<open>One digest: the callback goes on with an unlocked table, and counts the entry if it was added.\<close>

lemma learn_one_returns:
  assumes "ready s"
  shows "\<exists>s' b. learn_one api g s = Inr s' \<and> ready s' \<and> learn_obj s' = learn_obj s \<and>
    total_insert s' = total_insert s + of_bool b"
proof -
  define s1 where "s1 = s\<lparr>learn_src := get_or_zero (learn_getValue api (learn_src_ip_digest_field_id s) g),
      learn_dst := get_or_zero (learn_getValue api (learn_dst_ip_digest_field_id s) g),
      ac_count := get_or_zero (learn_getValue api (learn_ac_count_field_id s) g)\<rparr>"
  define key where "key = \<lparr>ip_src_addr = ucast (learn_src s1), ip_dst_addr = ucast (learn_dst s1)\<rparr>"
  have "ready s1" using assms by (simp add: s1_def ready_def)
  then obtain st s2 where add: "hal_route_entry_add api key \<lparr>nhop_id = 1\<rparr> s1 = Inr (st, s2)" "ready s2"
    "s2 = s1\<lparr>route_table := route_table s2, drv := drv s2\<rparr>"
    using add_returns [of s1 key "\<lparr>nhop_id = 1\<rparr>"] by blast
  have keep: "learn_obj s2 = learn_obj s" "total_insert s2 = total_insert s"
    by (subst add(3), simp add: s1_def)+
  show ?thesis
  proof (cases "st = 0")
    case True
    have "ready (s2\<lparr>total_insert := total_insert s2 + 1\<rparr>)" using add(2) by (simp add: ready_def)
    then obtain s3 where bal: "hal_route_aging_ttl_balance (s2\<lparr>total_insert := total_insert s2 + 1\<rparr>)
        = Inr ((), s3)" "ready s3"
      "s3 = s2\<lparr>total_insert := total_insert s2 + 1, route_table := route_table s3, drv := drv s3\<rparr>"
      using balance_returns [of "s2\<lparr>total_insert := total_insert s2 + 1\<rparr>"] by auto
    have "learn_one api g s = Inr s3"
      using add(1) bal(1) True by (simp add: learn_one_def Let_def s1_def key_def)
    moreover have "learn_obj s3 = learn_obj s" "total_insert s3 = total_insert s + of_bool True"
      by (subst bal(3), simp add: keep)+
    ultimately show ?thesis using bal(2) by blast
  next
    case False
    then have "learn_one api g s = Inr s2"
      using add(1) by (simp add: learn_one_def Let_def s1_def key_def)
    moreover have "total_insert s2 = total_insert s + of_bool False" by (simp add: keep)
    ultimately show ?thesis using add(2) keep by blast
  qed
qed

lemma learn_loop_returns:
  assumes "ready s"
  shows "\<exists>s' n. learn_loop api data s = Inr s' \<and> ready s' \<and> learn_obj s' = learn_obj s \<and>
    n \<le> length data \<and> total_insert s' = total_insert s + of_nat n"
  using assms
proof (induction data arbitrary: s)
  case Nil
  then show ?case by auto
next
  case (Cons g data)
  obtain s1 b where one: "learn_one api g s = Inr s1" "ready s1" "learn_obj s1 = learn_obj s"
    "total_insert s1 = total_insert s + of_bool b"
    using learn_one_returns [OF Cons.prems] by blast
  obtain s2 n where rest: "learn_loop api data s1 = Inr s2" "ready s2" "learn_obj s2 = learn_obj s1"
    "n \<le> length data" "total_insert s2 = total_insert s1 + of_nat n"
    using Cons.IH [OF one(2)] by blast
  have "total_insert s2 = total_insert s + of_nat (of_bool b + n)" using one(4) rest(5) by simp
  moreover have "of_bool b + n \<le> length (g # data)" using rest(4) by simp
  ultimately show ?case using one rest by (metis bindR_Inr learn_loop.simps(2))
qed

text \<open>Start-up leaves the table ready.\<close>

lemma hal_init_ready:
  assumes info: "bfRtInfoGet api 0 ''shc_real_time_sketch'' = (0, info)"
    and run: "hal_init api dir_all junk s0 = Inr s"
  shows "ready s"
proof -
  from run obtain s1 st2 s2 st3 s3 st4 s4 v where
    up: "setUp api dir_all s0 = Inr s1" and
    route: "route_init api junk (g_bfrtInfo s1) (g_dev_tgt s1) (g_session s1) s1 = Inr (st2, s2)" and
    digest: "shc_digest_init api (g_bfrtInfo s2) (g_dev_tgt s2) (g_session s2) s2 = Inr (st3, s3)" and
    aging: "shc_aging_init api (g_bfrtInfo s3) (g_dev_tgt s3) (g_session s3) s3 = Inr (st4, s4)" and
    s: "s = s4\<lparr>drv := v\<rparr>"
    by (auto simp: hal_init_def elim!: bindR_InrE)
  have "g_bfrtInfo s1 = info" using up info by (auto simp: setUp_def Let_def)
  then obtain r where "ready s2"
    using route Route_new_fields(1)
    by (fastforce simp: route_init_def ready_def elim!: bindR_InrE)
  moreover have "route_table s3 = route_table s2"
    using digest by (auto simp: shc_digest_init_def ShcDigest_def elim!: bindR_InrE)
  moreover have "route_table s4 = route_table s3"
    using aging by (auto simp: shc_aging_init_def ShcAging_def Let_def case_prod_unfold
        elim!: bindR_InrE)
  ultimately show ?thesis by (simp add: s ready_def)
qed

text \<open>Every step of every thread keeps the table ready.\<close>

lemma ready_locked_same:
  assumes "locked_call f s = Inr (x, s')" and "ready s"
    and "\<And>r v x r' v'. f r v = Inr (x, r', v') \<Longrightarrow> same_table r r'"
  shows "ready s'"
  using assms(1)
proof (rule locked_call_Inr)
  fix r r' v'
  assume "route_table s = Some r" and "f (r\<lparr>table_mutex := True\<rparr>) (drv s) = Inr (x, r', v')"
    and "s' = s\<lparr>route_table := Some (r'\<lparr>table_mutex := False\<rparr>), drv := v'\<rparr>"
  with assms(2) assms(3) [of "r\<lparr>table_mutex := True\<rparr>" "drv s" x r' v'] show ?thesis
    by (auto simp: ready_def same_table_def)
qed

lemma ready_step: "hal_step api s n s' \<Longrightarrow> ready s \<Longrightarrow> ready s'"
proof (induction rule: hal_step.induct)
  case (step_add key data s st s')
  then show ?case unfolding hal_route_entry_add_def
    by (rule ready_locked_same) (rule tableEntryAddModify_same)
next
  case (step_mod key data s st s')
  then show ?case unfolding hal_route_entry_mod_def
    by (rule ready_locked_same) (rule tableEntryAddModify_same)
next
  case (step_del key aged s st s')
  then show ?case unfolding hal_route_entry_del_def
    by (rule ready_locked_same) (rule tableEntryDel_same)
next
  case (step_get key data s st s')
  then show ?case unfolding hal_route_entry_get_def
    by (rule ready_locked_same) (auto elim!: bindR_InrE intro: tableEntryGet_same)
next
  case (step_usage n s st s')
  then show ?case unfolding hal_route_table_usage_get_def
    by (rule ready_locked_same) (auto simp: Let_def case_prod_unfold same_table_refl)
next
  case (step_size s st s')
  then show ?case unfolding hal_route_table_size_get_def
    by (rule ready_locked_same) (simp add: same_table_refl)
next
  case (step_balance s st s')
  then show ?case using balance_returns by fastforce
qed (auto simp: ready_def)

lemma ready_run: "hal_run api s n s' \<Longrightarrow> ready s \<Longrightarrow> ready s'"
  by (induction rule: hal_run.induct) (auto intro: ready_step)

end

subsection \<open>A reference runtime\<close>

text \<open>
  A table of 65536 entries. Key and data objects are maps from field ids to values, a digest is the
  triple of its three fields, and an attribute object is the triple of its times. The deletion
  flag 100 tags an entry as aged and answers 1.
\<close>

type_synonym ref_obj = "u32 \<Rightarrow> u64 option"
type_synonym ref_hw = "u64 \<times> u64 \<Rightarrow> (u64 \<times> u64) option"

definition obj_val :: "ref_obj \<Rightarrow> u32 \<Rightarrow> u64" where
  "obj_val ob f = (case ob f of None \<Rightarrow> 0 | Some x \<Rightarrow> x)"

definition ref_key :: "ref_obj \<Rightarrow> u64 \<times> u64" where
  "ref_key k = (obj_val k 1, obj_val k 2)"

definition ref_add ::
  "ref_obj \<Rightarrow> ref_obj \<Rightarrow> ref_hw driver \<Rightarrow> int \<times> ref_hw driver" where
  "ref_add k d v =
     (if unat (entry_in_table_c v) < 65536 then
        (0, v\<lparr>hw := (hw v)(ref_key k \<mapsto> (obj_val d 1, obj_val d 2)),
             entry_in_table_c := entry_in_table_c v + 1\<rparr>)
      else (4, v))"

definition ref_mod ::
  "ref_obj \<Rightarrow> ref_obj \<Rightarrow> ref_hw driver \<Rightarrow> int \<times> ref_hw driver" where
  "ref_mod k d v =
     (if hw v (ref_key k) = None then (6, v)
      else (0, v\<lparr>hw := (hw v)(ref_key k \<mapsto> (obj_val d 1, obj_val d 2))\<rparr>))"

definition ref_get ::
  "ref_obj \<Rightarrow> ref_obj \<Rightarrow> ref_hw driver \<Rightarrow> int \<times> ref_obj \<times> ref_hw driver" where
  "ref_get k d v =
     (case hw v (ref_key k) of None \<Rightarrow> (6, d, v)
      | Some (x, y) \<Rightarrow> (0, [1 \<mapsto> x, 2 \<mapsto> y], v))"

definition ref_del :: "u64 \<Rightarrow> ref_obj \<Rightarrow> ref_hw driver \<Rightarrow> int \<times> ref_hw driver" where
  "ref_del flags k v =
     (if hw v (ref_key k) = None then (6, v)
      else if flags = 100 then (1, v\<lparr>entry_aged_c := entry_aged_c v + 1\<rparr>)
      else (0, v\<lparr>hw := (hw v)(ref_key k := None), entry_in_table_c := entry_in_table_c v - 1\<rparr>))"

definition ref_field :: "(string \<times> u32) list \<Rightarrow> string \<Rightarrow> int \<times> u32" where
  "ref_field ids name = (case map_of ids name of None \<Rightarrow> (6, 0) | Some i \<Rightarrow> (0, i))"

definition ref_bfrt ::
  "(ref_hw, ref_obj, ref_obj, u64 \<times> u64 \<times> u64, u32 \<times> u32 \<times> u32) bfrt_api" where
  "ref_bfrt = \<lparr>
     bfRtInfoGet = (\<lambda>dev name. if name = ''shc_real_time_sketch'' then (0, 1) else (6, 0)),
     sessionCreate = 1,
     bfrtTableFromNameGet = (\<lambda>info name. if name = ''pipe.ShcIngress.route_tbl'' then (0, 2) else (6, 0)),
     bfrtLearnFromNameGet =
       (\<lambda>info name. if name = ''ShcIngressDeparser.flowkey_digest'' then (0, 3) else (6, 0)),
     keyFieldIdGet = (\<lambda>tbl. ref_field [(''ig_md.src_addr'', 1), (''ig_md.dst_addr'', 2)]),
     actionIdGet = (\<lambda>tbl. ref_field
       [(''ShcIngress.route_for_nexthop'', 1), (''ShcIngress.route_for_miss'', 2)]),
     dataFieldIdGet = (\<lambda>tbl name act. ref_field [(''nhop_id'', 1), (''$ENTRY_TTL'', 2)] name),
     learnFieldIdGet = (\<lambda>lobj. ref_field [(''src_ip_digest'', 1), (''dst_ip_digest'', 2), (''ac_count'', 3)]),
     flag_from_hw = (\<lambda>fl. fl OR 1),
     bf_tableSizeGet = (\<lambda>tbl tgt fl v. (0, 65536, v)),
     keyAllocate = (\<lambda>tbl. (0, Map.empty)),
     dataAllocate = (\<lambda>tbl. (0, Map.empty)),
     keyReset = (\<lambda>tbl k. Map.empty),
     dataReset = (\<lambda>tbl act d. Map.empty),
     key_setValue = (\<lambda>f x k. (0, k(f \<mapsto> x))),
     key_getValue = (\<lambda>f k. k f),
     data_setValue = (\<lambda>f x d. (0, d(f \<mapsto> x))),
     data_getValue = (\<lambda>f d. (0, obj_val d f)),
     data_actionIdGet = (\<lambda>d. (0, 1)),
     learn_getValue = (\<lambda>f (a, b, c). if f = 1 then Some a else if f = 2 then Some b else Some c),
     bf_tableEntryAdd = (\<lambda>tbl tgt fl. ref_add),
     bf_tableEntryMod = (\<lambda>tbl tgt fl. ref_mod),
     bf_tableEntryGet = (\<lambda>tbl tgt fl. ref_get),
     bf_tableEntryDel = (\<lambda>tbl tgt. ref_del),
     bf_tableUsageGet = (\<lambda>tbl tgt fl n v. (0, entry_in_table_c v, v)),
     bfRtLearnCallbackRegister = (\<lambda>lobj tgt v. (0, v)),
     bfRtLearnNotifyAck = (\<lambda>lobj sess hdl v. (0, v)),
     attributeAllocate = (\<lambda>tbl. (0, (0, 0, 0))),
     idleTableNotifyModeSet = (\<lambda>on cb q mx mn ta. (0, (q, mx, mn))),
     tableAttributesSet = (\<lambda>tbl tgt fl ta v. (0, v)),
     sessionCompleteOperations = (\<lambda>sess v. (0, v)),
     beginTransaction = (\<lambda>sess b v. (0, v)),
     commitTransaction = (\<lambda>sess b v. (0, v)),
     abortTransaction = (\<lambda>sess v. (0, v))\<rparr>"

interpretation ref_bfrt: bfrt_route ref_bfrt hw 1 2 1 2 1 1 2
  by unfold_locales
    (auto simp: ref_bfrt_def ref_field_def ref_add_def ref_get_def ref_key_def obj_val_def
      split: if_splits option.splits)

text \<open>A process before start-up: all globals are zero and the driver has its five hash values.\<close>

definition driver_zero :: "ref_hw driver" where
  "driver_zero = \<lparr>hw = Map.empty, direct_replace = False, yxj_entry_index = 0, entry_in_table_c = 0,
     entry_aged_c = 0, aged_replace = False, aged_replace_flag = False,
     index_repalce_action = False, driver_cuckoo_hash_get = [0, 0, 0, 0, 0],
     cuckoo_hash_get_flag = False\<rparr>"

definition target_zero :: bf_rt_target where
  "target_zero = \<lparr>dev_id = 0, pipe_id = 0, direction = 0, prsr_id = 0\<rparr>"

definition hal_zero :: "(ref_hw, ref_obj, ref_obj, u32 \<times> u32 \<times> u32) hal" where
  "hal_zero = \<lparr>drv = driver_zero, route_table = None, g_bfrtInfo = 0, g_session = 0,
     g_dev_tgt = target_zero, learn_src = 0, learn_dst = 0, ac_count = 0, total_insert = 0,
     learn_src_ip_digest_field_id = 0, learn_dst_ip_digest_field_id = 0,
     learn_ac_count_field_id = 0, learn_obj = 0, total_aged = 0, aging_ip_src = 0,
     aging_ip_dst = 0, aging_ip_src_field_id = 0, aging_ip_dst_field_id = 0, aging_route = 0,
     attr = None, aging_dev_tgt = target_zero\<rparr>"

definition ref_route :: "(ref_obj, ref_obj) Route" where
  "ref_route = \<lparr>table_mutex = False, entry_ttl = 5000, bfrtTableKey = Map.empty,
     bfrtTableData = Map.empty, ip_src_field_id = 1, ip_dst_field_id = 2,
     set_route_for_nexthop_action_id = 1, set_route_for_miss_action_id = 2,
     set_route_for_nexthop_action_nhop_id_id = 1, set_route_for_nexthop_action_ttl_id = 2,
     dev_tgt = \<lparr>dev_id = 0, pipe_id = 0xffff, direction = 0, prsr_id = 0\<rparr>, rt_session = 1,
     table_ptr = 2, table_size = 65536\<rparr>"

definition ref_hal :: "(ref_hw, ref_obj, ref_obj, u32 \<times> u32 \<times> u32) hal" where
  "ref_hal = hal_zero\<lparr>route_table := Some ref_route, g_bfrtInfo := 1, g_session := 1,
     g_dev_tgt := \<lparr>dev_id = 0, pipe_id = 0xffff, direction = 3, prsr_id = 0xff\<rparr>,
     learn_src_ip_digest_field_id := 1, learn_dst_ip_digest_field_id := 2,
     learn_ac_count_field_id := 3, learn_obj := 3, aging_ip_src_field_id := 1,
     aging_ip_dst_field_id := 2, aging_route := 2, attr := Some (50, 50000, 0),
     aging_dev_tgt := \<lparr>dev_id = 0, pipe_id = 0xffff, direction = 0, prsr_id = 0\<rparr>\<rparr>"

lemma ref_hal_init: "hal_init ref_bfrt 3 target_zero hal_zero = Inr ref_hal"
  by (simp add: hal_init_def setUp_def route_init_def Route_new_def shc_digest_init_def ShcDigest_def
      shc_aging_init_def ShcAging_def reset_driver_def ref_bfrt_def ref_field_def ref_hal_def
      hal_zero_def ref_route_def target_zero_def driver_zero_def Let_def)

end
