(* ===== verification/Shc_Hal_Props.thy ===== *)
theory Shc_Hal_Props
  imports Shc_Hal_Ref
begin

text \<open>
  Properties of the switch's route table and of the callbacks that fill and age it. The properties
  of the time to live hold for every runtime library; the others for every runtime that keeps the
  contract \<open>bfrt_route\<close>.
\<close>

subsection \<open>The time to live\<close>

text \<open>
  C26: the balancing of the time to live computes shares in single precision and compares them with
  the doubles 0.85 and 0.15. In integers: replacement of aged entries is switched on, for good,
  once 55706 of the 65536 entries are in use; from then on the time to live of new entries falls by
  5 while at most 9830 entries are free or aged, down to the last value above 60 minus 5, and grows
  by 1 otherwise. The count of free entries is taken modulo \<open>2 ^ 32\<close>.
\<close>

theorem ttl_balance_exact:
  "aging_ttl_balance r v =
     (let full = aged_replace v \<or> 55706 \<le> unat (entry_in_table_c v);
          avail = unat (65536 - entry_in_table_c v + entry_aged_c v)
      in (r\<lparr>entry_ttl := (if \<not> full then entry_ttl r
             else if 9830 < avail then entry_ttl r + 1
             else if 60 < unat (entry_ttl r) then entry_ttl r - 5
             else entry_ttl r)\<rparr>,
          v\<lparr>aged_replace := full\<rparr>))"
proof -
  have keep: "v\<lparr>aged_replace := True\<rparr> = v" if "aged_replace v"
    using that by (cases v) simp
  have keep': "v\<lparr>aged_replace := False\<rparr> = v" if "\<not> aged_replace v"
    using that by (cases v) simp
  show ?thesis
    by (auto simp: aging_ttl_balance_def Let_def share_gt_085 share_lt_015 word_less_nat_alt
        keep keep')
qed

lemma balance_ttl_range:
  assumes "aging_ttl_balance r v = (r', v')"
    and "56 \<le> unat (entry_ttl r)" and "unat (entry_ttl r) < 2 ^ 64 - 1"
  shows "56 \<le> unat (entry_ttl r')" and "unat (entry_ttl r') \<le> unat (entry_ttl r) + 1"
    and "table_mutex r' = table_mutex r"
proof -
  let ?t = "entry_ttl r"
  have inc: "unat (?t + 1) = unat ?t + 1" using assms(3) by (simp add: unat_word_ariths)
  have dec: "unat (?t - 5) = unat ?t - 5" if "60 < unat ?t"
    using that by (subst unat_sub) (simp_all add: word_le_nat_alt)
  have "entry_ttl r' = ?t \<or> entry_ttl r' = ?t + 1 \<or> entry_ttl r' = ?t - 5 \<and> 60 < unat ?t"
    and mutex: "table_mutex r' = table_mutex r"
    using assms(1) by (auto simp: aging_ttl_balance_def Let_def word_less_nat_alt split: if_splits)
  then show "56 \<le> unat (entry_ttl r')" and "unat (entry_ttl r') \<le> unat ?t + 1"
    using inc dec assms(2) by auto
  show "table_mutex r' = table_mutex r" by (rule mutex)
qed

definition ttl_inv :: "nat \<Rightarrow> ('h, 'k, 'd, 'a) hal \<Rightarrow> bool" where
  "ttl_inv n s \<longleftrightarrow> (\<exists>r. route_table s = Some r \<and> \<not> table_mutex r \<and>
     56 \<le> unat (entry_ttl r) \<and> unat (entry_ttl r) \<le> 5000 + n)"

lemma ttl_inv_locked:
  assumes "locked_call f s = Inr (x, s')" and "ttl_inv n s"
    and "\<And>r v x r' v'. f r v = Inr (x, r', v') \<Longrightarrow> same_table r r'"
  shows "ttl_inv n s'"
proof -
  have "\<exists>r r'. route_table s = Some r \<and> route_table s' = Some r' \<and>
      \<not> table_mutex r \<and> \<not> table_mutex r' \<and> entry_ttl r' = entry_ttl r"
    using assms(1) by (rule locked_call_same) (rule assms(3))
  then show ?thesis using assms(2) by (auto simp: ttl_inv_def)
qed

lemma ttl_inv_step:
  "hal_step api s m s' \<Longrightarrow> ttl_inv n s \<Longrightarrow> n < 2 ^ 64 - 5001 \<Longrightarrow> ttl_inv (n + m) s'"
proof (induction rule: hal_step.induct)
  case (step_add key data s st s')
  from step_add.hyps step_add.prems(1) show ?case unfolding hal_route_entry_add_def add_0_right
    by (rule ttl_inv_locked) (rule tableEntryAddModify_same)
next
  case (step_mod key data s st s')
  from step_mod.hyps step_mod.prems(1) show ?case unfolding hal_route_entry_mod_def add_0_right
    by (rule ttl_inv_locked) (rule tableEntryAddModify_same)
next
  case (step_del key aged s st s')
  from step_del.hyps step_del.prems(1) show ?case unfolding hal_route_entry_del_def add_0_right
    by (rule ttl_inv_locked) (rule tableEntryDel_same)
next
  case (step_get key data s st s')
  from step_get.hyps step_get.prems(1) show ?case unfolding hal_route_entry_get_def add_0_right
    by (rule ttl_inv_locked) (auto elim!: bindR_InrE intro: tableEntryGet_same)
next
  case (step_usage k s st s')
  from step_usage.hyps step_usage.prems(1) show ?case unfolding hal_route_table_usage_get_def add_0_right
    by (rule ttl_inv_locked) (auto simp: Let_def case_prod_unfold same_table_refl)
next
  case (step_size s st s')
  from step_size.hyps step_size.prems(1) show ?case unfolding hal_route_table_size_get_def add_0_right
    by (rule ttl_inv_locked) (simp add: same_table_refl)
next
  case (step_balance s st s')
  obtain r r' v' where r: "route_table s = Some r" "\<not> table_mutex r"
    and call: "aging_ttl_balance (r\<lparr>table_mutex := True\<rparr>) (drv s) = (r', v')"
    and s': "s' = s\<lparr>route_table := Some (r'\<lparr>table_mutex := False\<rparr>), drv := v'\<rparr>"
    using step_balance.hyps unfolding hal_route_aging_ttl_balance_def
    by (rule locked_call_Inr) auto
  have range: "56 \<le> unat (entry_ttl r)" "unat (entry_ttl r) \<le> 5000 + n"
    using step_balance.prems(1) r by (auto simp: ttl_inv_def)
  from balance_ttl_range [OF call] range step_balance.prems(2)
  show ?case by (simp add: s' ttl_inv_def)
qed (auto simp: ttl_inv_def)

lemma ttl_inv_run:
  "hal_run api s n s' \<Longrightarrow> ttl_inv 0 s \<Longrightarrow> n < 2 ^ 64 - 5001 \<Longrightarrow> ttl_inv n s'"
proof (induction rule: hal_run.induct)
  case (run_step s n s' m s'')
  then have "ttl_inv n s'" by simp
  with run_step show ?case using ttl_inv_step [of api s' m s'' n] by simp
qed

lemma hal_init_ttl: "hal_init api dir_all junk s0 = Inr s \<Longrightarrow> ttl_inv 0 s"
  by (auto simp: hal_init_def route_init_def Route_new_def shc_digest_init_def ShcDigest_def
      shc_aging_init_def ShcAging_def ttl_inv_def Let_def case_prod_unfold elim!: bindR_InrE)



text \<open>
  C30: when the table stays under pressure (replacement is on, at most 9830 entries are free or
  aged), the time to live reaches the range from 56 to 60 after one fifth as many balancings as it
  lies above 60, and stays there.
\<close>

theorem ttl_reaches_floor:
  assumes "55706 \<le> unat (entry_in_table_c v)"
    and "unat (65536 - entry_in_table_c v + entry_aged_c v) \<le> 9830"
    and "56 \<le> unat (entry_ttl r)" and "unat (entry_ttl r) \<le> 60 + 5 * n"
  shows "(\<lambda>(r', v'). unat (entry_ttl r') \<in> {56..60})
    (((\<lambda>(r, v). aging_ttl_balance r v) ^^ n) (r, v))"
  using assms
proof (induction n arbitrary: r v)
  case (Suc n)
  obtain r' v' where b: "aging_ttl_balance r v = (r', v')" by force
  have v': "entry_in_table_c v' = entry_in_table_c v" "entry_aged_c v' = entry_aged_c v"
    and r': "entry_ttl r' = (if 60 < unat (entry_ttl r) then entry_ttl r - 5 else entry_ttl r)"
    using b Suc.prems(1,2)
    by (auto simp: aging_ttl_balance_def Let_def share_gt_085 share_lt_015 word_less_nat_alt
        split: if_splits)
  have "unat (entry_ttl r - 5) = unat (entry_ttl r) - 5" if "60 < unat (entry_ttl r)"
    using that by (subst unat_sub) (simp_all add: word_le_nat_alt)
  then have "56 \<le> unat (entry_ttl r')" "unat (entry_ttl r') \<le> 60 + 5 * n"
    using Suc.prems(3,4) by (auto simp: r')
  from Suc.IH [OF _ _ this, of v'] Suc.prems(1,2) v' show ?case
    by (simp add: b funpow_swap1)
qed simp

theorem ttl_reaches_floor_witness:
  "(\<lambda>(r', v'). unat (entry_ttl r') \<in> {56..60})
    (((\<lambda>(r, v). aging_ttl_balance r v) ^^ 988) (ref_route, driver_zero\<lparr>entry_in_table_c := 60000\<rparr>))"
  by (rule ttl_reaches_floor) (simp_all add: ref_route_def driver_zero_def)

subsection \<open>Learning and reading back\<close>

lemma ucast_u64_u32: "ucast (ucast (x :: u32) :: u64) = x"
  by transfer simp



text \<open>
  C31: an entry that was added is read back with its next hop, at any point of any interleaving;
  reading an entry that is not in the table returns an error and the next hop
  \<^verbatim>\<open>0xffffffff\<close>.
\<close>

theorem route_add_get:
  assumes "bfrt_route api view info tbl sid did act nid tid"
    and "bfRtInfoGet api 0 ''shc_real_time_sketch'' = (0, info)"
    and "hal_init api dir_all junk s0 = Inr s" and "hal_run api s m s1"
  shows "\<exists>st s2 gst out s3. hal_route_entry_add api key data s1 = Inr (st, s2) \<and>
    hal_route_entry_get api key d0 s2 = Inr ((gst, out), s3) \<and>
    (st = 0 \<longrightarrow> gst = 0 \<and> nhop_id out = nhop_id data) \<and>
    (view (drv s2) (ucast (ip_src_addr key), ucast (ip_dst_addr key)) = None \<longrightarrow>
       gst \<noteq> 0 \<and> nhop_id out = 0xffffffff)"
proof -
  note ready1 = bfrt_route.ready_run [OF assms(1,4) bfrt_route.hal_init_ready [OF assms(1,2,3)]]
  let ?kk = "(ucast (ip_src_addr key), ucast (ip_dst_addr key)) :: u64 \<times> u64"
  obtain st s2 where add: "hal_route_entry_add api key data s1 = Inr (st, s2)"
    "bfrt_route.ready tbl sid did act nid tid s2"
    and stored: "st = 0 \<Longrightarrow> \<exists>t. view (drv s2) ?kk = Some (ucast (nhop_id data), t)"
    using bfrt_route.add_returns [OF assms(1) ready1, of key data] by blast
  obtain gst n s3 where get: "hal_route_entry_get api key d0 s2 = Inr ((gst, d0\<lparr>nhop_id := n\<rparr>), s3)"
    "case view (drv s2) ?kk of None \<Rightarrow> gst \<noteq> 0 \<and> n = - 1 | Some (x, t) \<Rightarrow> gst = 0 \<and> n = ucast x"
    using bfrt_route.get_returns [OF assms(1) add(2), of key d0] by blast
  have "gst = 0 \<and> n = nhop_id data" if "st = 0"
    using stored [OF that] get(2) by (auto simp: ucast_u64_u32)
  moreover have "gst \<noteq> 0 \<and> n = 0xffffffff" if "view (drv s2) ?kk = None"
    using that get(2) by simp
  ultimately show ?thesis using add(1) get(1) by fastforce
qed

theorem route_add_get_witness:
  "\<exists>st s2 gst out s3. hal_route_entry_add ref_bfrt \<lparr>ip_src_addr = 1, ip_dst_addr = 2\<rparr> \<lparr>nhop_id = 9\<rparr> ref_hal
      = Inr (st, s2) \<and>
    hal_route_entry_get ref_bfrt \<lparr>ip_src_addr = 1, ip_dst_addr = 2\<rparr> \<lparr>nhop_id = 0\<rparr> s2
      = Inr ((gst, out), s3) \<and>
    (st = 0 \<longrightarrow> gst = 0 \<and> nhop_id out = nhop_id \<lparr>nhop_id = 9\<rparr>) \<and>
    (hw (drv s2) (ucast (ip_src_addr \<lparr>ip_src_addr = 1, ip_dst_addr = 2\<rparr>),
        ucast (ip_dst_addr \<lparr>ip_src_addr = 1, ip_dst_addr = 2\<rparr>)) = None \<longrightarrow>
       gst \<noteq> 0 \<and> nhop_id out = 0xffffffff)"
  by (rule route_add_get [OF ref_bfrt.bfrt_route_axioms _ ref_hal_init run_nil])
    (simp add: ref_bfrt_def)

end
