(* ===== verification/Shc_Log.thy ===== *)
theory Shc_Log
  imports Shc_Hal
begin

text \<open>
  Logging of the HAL (\<^verbatim>\<open>platform/drivers/utils/log.cpp\<close>, \<^verbatim>\<open>utils/log.h\<close>) and the common interface
  (\<^verbatim>\<open>hal_common_api.cpp\<close>): the levels, the table of object levels, the switches per operation, and which
  messages reach the log of the vendor's library. The calls of that library are recorded in order; the
  platform calls of the common interface are the parameter \<open>platform_api\<close>.
\<close>

subsection \<open>Levels and operations\<close>

datatype hal_verbosity = HAL_API_LEVEL_ERROR | HAL_API_LEVEL_WARN | HAL_API_LEVEL_NOTICE | HAL_API_LEVEL_INFO
  | HAL_API_LEVEL_DEBUG | HAL_API_LEVEL_DETAIL | HAL_API_LEVEL_MAX

datatype hal_operation = HAL_GET_OPERATION | HAL_GET_ALL_OPERATION | HAL_SET_OPERATION | HAL_ADD_OPERATION
  | HAL_MOD_OPERATION | HAL_DEL_OPERATION | HAL_CLEAR_OPERATION

datatype bf_log_level = BF_LOG_ERR | BF_LOG_WARN | BF_LOG_INFO | BF_LOG_DBG

datatype bf_log_dest = BF_LOG_DEST_STDOUT | BF_LOG_DEST_FILE

text \<open>The integers behind the enumerations.\<close>

primrec verbosity_num :: "hal_verbosity \<Rightarrow> nat" where
  "verbosity_num HAL_API_LEVEL_ERROR = 0"
| "verbosity_num HAL_API_LEVEL_WARN = 1"
| "verbosity_num HAL_API_LEVEL_NOTICE = 2"
| "verbosity_num HAL_API_LEVEL_INFO = 3"
| "verbosity_num HAL_API_LEVEL_DEBUG = 4"
| "verbosity_num HAL_API_LEVEL_DETAIL = 5"
| "verbosity_num HAL_API_LEVEL_MAX = 6"

primrec operation_num :: "hal_operation \<Rightarrow> nat" where
  "operation_num HAL_GET_OPERATION = 0"
| "operation_num HAL_GET_ALL_OPERATION = 1"
| "operation_num HAL_SET_OPERATION = 2"
| "operation_num HAL_ADD_OPERATION = 3"
| "operation_num HAL_MOD_OPERATION = 4"
| "operation_num HAL_DEL_OPERATION = 5"
| "operation_num HAL_CLEAR_OPERATION = 6"

instantiation hal_verbosity :: linorder
begin

definition less_eq_hal_verbosity_def: "v \<le> w \<longleftrightarrow> verbosity_num v \<le> verbosity_num w"
definition less_hal_verbosity_def: "v < w \<longleftrightarrow> verbosity_num v < verbosity_num w"

instance
proof
  have inj: "verbosity_num v = verbosity_num w \<Longrightarrow> v = w" for v w :: hal_verbosity
    by (cases v; cases w) simp_all
  fix x y z :: hal_verbosity
  show "x < y \<longleftrightarrow> x \<le> y \<and> \<not> y \<le> x" "x \<le> x" "x \<le> y \<or> y \<le> x"
    "x \<le> y \<Longrightarrow> y \<le> z \<Longrightarrow> x \<le> z" "x \<le> y \<Longrightarrow> y \<le> x \<Longrightarrow> x = y"
    by (auto simp: less_eq_hal_verbosity_def less_hal_verbosity_def intro: inj)
qed

end

type_synonym hal_object_type = "16 word"

definition LOG_USER1 :: hal_object_type where "LOG_USER1 = 0"

definition HalObjectSet :: "hal_object_type list" where "HalObjectSet = [LOG_USER1]"

subsection \<open>State\<close>

datatype sys_call = bf_sys_trace_level_set int bf_log_level | bf_sys_log_level_set int bf_log_dest bf_log_level
  | bf_sys_log_and_trace bf_log_level string

text \<open>\<^verbatim>\<open>BF_MOD_SWITCHAPI\<close> of the vendor's header is the field \<open>switchapi_mod\<close>.\<close>

record log_state =
  operationSettings :: "bool list"
  default_verbosity :: hal_verbosity
  mapInitialized :: bool
  ObjectVerbosityMap :: "hal_object_type \<rightharpoonup> hal_verbosity"
  switchapi_mod :: int
  sys_calls :: "sys_call list"

definition log_boot :: "int \<Rightarrow> log_state" where
  "log_boot m = \<lparr>operationSettings = [True, True, True, True], default_verbosity = HAL_API_LEVEL_ERROR,
     mapInitialized = False, ObjectVerbosityMap = Map.empty, switchapi_mod = m, sys_calls = []\<rparr>"

definition sys :: "sys_call list \<Rightarrow> log_state \<Rightarrow> log_state" where
  "sys cs l = l\<lparr>sys_calls := sys_calls l @ cs\<rparr>"

subsection \<open>Configuration\<close>

definition toggle_operation :: "hal_operation \<Rightarrow> bool \<Rightarrow> log_state \<Rightarrow> log_state outcome" where
  "toggle_operation operation isEnabled l =
     bindR (write_at (operationSettings l) (operation_num operation) isEnabled) (\<lambda>os. Inr (l\<lparr>operationSettings := os\<rparr>))"

definition toggle_all_operations :: "bool \<Rightarrow> log_state \<Rightarrow> log_state" where
  "toggle_all_operations isEnabled l = l\<lparr>operationSettings := replicate (length (operationSettings l)) isEnabled\<rparr>"

definition hal_to_bf_sys_level :: "hal_verbosity \<Rightarrow> bf_log_level" where
  "hal_to_bf_sys_level verbosity = (case verbosity of
     HAL_API_LEVEL_ERROR \<Rightarrow> BF_LOG_ERR
   | HAL_API_LEVEL_WARN \<Rightarrow> BF_LOG_WARN
   | HAL_API_LEVEL_NOTICE \<Rightarrow> BF_LOG_WARN
   | HAL_API_LEVEL_INFO \<Rightarrow> BF_LOG_INFO
   | HAL_API_LEVEL_DEBUG \<Rightarrow> BF_LOG_DBG
   | HAL_API_LEVEL_DETAIL \<Rightarrow> BF_LOG_INFO
   | _ \<Rightarrow> BF_LOG_ERR)"

definition set_log_level :: "hal_verbosity \<Rightarrow> log_state \<Rightarrow> log_state" where
  "set_log_level new_verbosity l = sys
     [bf_sys_trace_level_set (switchapi_mod l) (hal_to_bf_sys_level new_verbosity),
      bf_sys_log_level_set (switchapi_mod l) BF_LOG_DEST_STDOUT (hal_to_bf_sys_level new_verbosity)]
     (l\<lparr>default_verbosity := new_verbosity\<rparr>)"

definition get_log_level :: "log_state \<Rightarrow> hal_verbosity" where
  "get_log_level l = default_verbosity l"

definition set_log_level_object :: "hal_object_type \<Rightarrow> hal_verbosity \<Rightarrow> log_state \<Rightarrow> log_state" where
  "set_log_level_object object_type new_verbosity l =
     (if object_type = 0 then l
      else if ObjectVerbosityMap l object_type \<noteq> None
      then l\<lparr>ObjectVerbosityMap := (ObjectVerbosityMap l)(object_type \<mapsto> new_verbosity)\<rparr>
      else l)"

definition set_log_level_all_objects :: "hal_verbosity \<Rightarrow> log_state \<Rightarrow> log_state" where
  "set_log_level_all_objects verbosity l = sys
     [bf_sys_trace_level_set (switchapi_mod l) (hal_to_bf_sys_level verbosity),
      bf_sys_log_level_set (switchapi_mod l) BF_LOG_DEST_FILE (hal_to_bf_sys_level verbosity)]
     (l\<lparr>ObjectVerbosityMap := foldl (\<lambda>m ob. m(ob \<mapsto> verbosity)) (ObjectVerbosityMap l) HalObjectSet,
        mapInitialized := True\<rparr>)"

definition logging_init :: "hal_verbosity \<Rightarrow> log_state \<Rightarrow> hal_status_t \<times> log_state" where
  "logging_init verbosity l = (0, (set_log_level_all_objects verbosity l)\<lparr>default_verbosity := verbosity\<rparr>)"

definition get_log_level_all_objects :: "log_state \<Rightarrow> hal_object_type \<rightharpoonup> hal_verbosity" where
  "get_log_level_all_objects l = ObjectVerbosityMap l"

definition hal_verbosity_to_string :: "hal_verbosity \<Rightarrow> string" where
  "hal_verbosity_to_string verbosity = (case verbosity of
     HAL_API_LEVEL_ERROR \<Rightarrow> ''error'' | HAL_API_LEVEL_WARN \<Rightarrow> ''warn'' | HAL_API_LEVEL_INFO \<Rightarrow> ''info''
   | HAL_API_LEVEL_DEBUG \<Rightarrow> ''debug'' | HAL_API_LEVEL_DETAIL \<Rightarrow> ''detail'' | _ \<Rightarrow> ''error'')"

definition hal_operation_to_string :: "hal_operation \<Rightarrow> string" where
  "hal_operation_to_string operation = (case operation of
     HAL_GET_OPERATION \<Rightarrow> ''get'' | HAL_GET_ALL_OPERATION \<Rightarrow> ''get_all'' | HAL_DEL_OPERATION \<Rightarrow> ''delete''
   | HAL_SET_OPERATION \<Rightarrow> ''set'' | HAL_ADD_OPERATION \<Rightarrow> ''add'' | HAL_MOD_OPERATION \<Rightarrow> ''mod''
   | HAL_CLEAR_OPERATION \<Rightarrow> ''clear'')"

subsection \<open>Messages\<close>

definition hal_log_internal :: "hal_verbosity \<Rightarrow> string \<Rightarrow> log_state \<Rightarrow> log_state" where
  "hal_log_internal verbosity message l = sys [bf_sys_log_and_trace (hal_to_bf_sys_level verbosity) message] l"

definition hal_log :: "hal_verbosity \<Rightarrow> string \<Rightarrow> log_state \<Rightarrow> bool \<times> log_state" where
  "hal_log verbosity message l =
     (if verbosity \<le> default_verbosity l then (True, hal_log_internal verbosity message l) else (False, l))"

definition hal_log_object :: "hal_verbosity \<Rightarrow> hal_object_type \<Rightarrow> string \<Rightarrow> log_state \<Rightarrow> bool \<times> log_state" where
  "hal_log_object verbosity object_type message l =
     (if object_type = 0 then hal_log verbosity message l
      else case ObjectVerbosityMap l object_type of
        Some v \<Rightarrow> if verbosity \<le> v then hal_log verbosity message l else (False, l)
      | None \<Rightarrow> hal_log verbosity message l)"

definition hal_log_operation ::
  "hal_verbosity \<Rightarrow> hal_object_type \<Rightarrow> hal_operation \<Rightarrow> string \<Rightarrow> log_state \<Rightarrow> (bool \<times> log_state) outcome" where
  "hal_log_operation verbosity object_type operation message l =
     bindR (read_at (operationSettings l) (operation_num operation)) (\<lambda>enabled.
       Inr (if enabled then hal_log_object verbosity object_type message l else (False, l)))"

text \<open>The two templates: \<open>message\<close> is what \<^verbatim>\<open>createMessage\<close> makes of the format and its arguments.\<close>

definition hal_log_object_fmt :: "hal_verbosity \<Rightarrow> hal_object_type \<Rightarrow> string \<Rightarrow> log_state \<Rightarrow> bool \<times> log_state" where
  "hal_log_object_fmt verbosity object_type message l =
     (if verbosity > get_log_level l then (True, l) else hal_log_object verbosity object_type message l)"

definition hal_log_operation_fmt ::
  "hal_verbosity \<Rightarrow> hal_object_type \<Rightarrow> hal_operation \<Rightarrow> string \<Rightarrow> log_state \<Rightarrow> (bool \<times> log_state) outcome" where
  "hal_log_operation_fmt verbosity object_type operation message l =
     (if verbosity > get_log_level l then Inr (True, l)
      else hal_log_operation verbosity object_type operation message l)"

subsection \<open>The common interface\<close>

record platform_api =
  bf_tm_pipe_get_first :: "u32 \<Rightarrow> int \<times> u32"
  bf_tm_pipe_get_next :: "u32 \<Rightarrow> u32 \<Rightarrow> int \<times> u32"
  hal_pltfm_sys_mac_addr_get :: "u8 list \<Rightarrow> u8 list"

definition hal_bf_sys_log_set :: "int \<Rightarrow> bf_log_level \<Rightarrow> log_state \<Rightarrow> hal_status_t \<times> log_state" where
  "hal_bf_sys_log_set bf_module level l =
     (0, sys [bf_sys_trace_level_set bf_module level, bf_sys_log_level_set bf_module BF_LOG_DEST_STDOUT level] l)"

definition hal_sys_log_set :: "hal_verbosity \<Rightarrow> log_state \<Rightarrow> log_state" where
  "hal_sys_log_set level l = set_log_level level l"

definition hal_sys_mac_addr_get :: "platform_api \<Rightarrow> u8 list \<Rightarrow> u8 list" where
  "hal_sys_mac_addr_get P mac_addr = hal_pltfm_sys_mac_addr_get P mac_addr"

definition hal_get_first_pipe :: "platform_api \<Rightarrow> bf_rt_target \<Rightarrow> hal_status_t \<times> u32" where
  "hal_get_first_pipe P tgt = bf_tm_pipe_get_first P (dev_id tgt)"

definition hal_get_next_pipe :: "platform_api \<Rightarrow> bf_rt_target \<Rightarrow> u32 \<Rightarrow> hal_status_t \<times> u32" where
  "hal_get_next_pipe P tgt current_l_pipe = bf_tm_pipe_get_next P (dev_id tgt) current_l_pipe"

subsection \<open>Runs of the configuration calls\<close>

datatype log_op = ToggleOperation hal_operation bool | ToggleAll bool | SetLevel hal_verbosity
  | SetLevelObject hal_object_type hal_verbosity | SetLevelAllObjects hal_verbosity | LoggingInit hal_verbosity
  | SysLogSet hal_verbosity | LogMessage hal_verbosity hal_object_type string

fun log_step :: "log_op \<Rightarrow> log_state \<Rightarrow> log_state outcome" where
  "log_step (ToggleOperation o' b) l = toggle_operation o' b l"
| "log_step (ToggleAll b) l = Inr (toggle_all_operations b l)"
| "log_step (SetLevel v) l = Inr (set_log_level v l)"
| "log_step (SetLevelObject ob v) l = Inr (set_log_level_object ob v l)"
| "log_step (SetLevelAllObjects v) l = Inr (set_log_level_all_objects v l)"
| "log_step (LoggingInit v) l = Inr (snd (logging_init v l))"
| "log_step (SysLogSet v) l = Inr (hal_sys_log_set v l)"
| "log_step (LogMessage v ob m) l = Inr (snd (hal_log_object v ob m l))"

fun log_run :: "log_op list \<Rightarrow> log_state \<Rightarrow> log_state outcome" where
  "log_run [] l = Inr l"
| "log_run (x # xs) l = bindR (log_step x l) (log_run xs)"

text \<open>The last level that a call gave to the whole log, and the last setting of an operation's switch.\<close>

fun level_set :: "log_op \<Rightarrow> hal_verbosity option" where
  "level_set (SetLevel v) = Some v"
| "level_set (LoggingInit v) = Some v"
| "level_set (SysLogSet v) = Some v"
| "level_set _ = None"

fun switch_set :: "hal_operation \<Rightarrow> log_op \<Rightarrow> bool option" where
  "switch_set o' (ToggleOperation q b) = (if q = o' then Some b else None)"
| "switch_set o' (ToggleAll b) = Some b"
| "switch_set o' _ = None"

definition last_set :: "('a \<Rightarrow> 'b option) \<Rightarrow> 'b \<Rightarrow> 'a list \<Rightarrow> 'b" where
  "last_set f d xs = foldl (\<lambda>d x. case f x of Some v \<Rightarrow> v | None \<Rightarrow> d) d xs"

lemma last_set_simps [simp]:
  "last_set f d [] = d" "last_set f d (x # xs) = last_set f (case f x of Some v \<Rightarrow> v | None \<Rightarrow> d) xs"
  by (simp_all add: last_set_def)

definition log_inv :: "log_state \<Rightarrow> bool" where
  "log_inv l \<longleftrightarrow> length (operationSettings l) = 4 \<and> (\<forall>ob. ob \<noteq> 0 \<longrightarrow> ObjectVerbosityMap l ob = None)"

lemmas log_defs = toggle_operation_def toggle_all_operations_def set_log_level_def set_log_level_object_def
  set_log_level_all_objects_def logging_init_def hal_sys_log_set_def sys_def HalObjectSet_def LOG_USER1_def

lemma hal_log_object_keeps:
  "operationSettings (snd (hal_log_object v ob m l)) = operationSettings l"
  "default_verbosity (snd (hal_log_object v ob m l)) = default_verbosity l"
  "ObjectVerbosityMap (snd (hal_log_object v ob m l)) = ObjectVerbosityMap l"
  by (simp_all add: hal_log_object_def hal_log_def hal_log_internal_def sys_def split: option.split)

lemma operation_num_inj: "operation_num p = operation_num q \<longleftrightarrow> p = q"
  by (cases p; cases q) simp_all

lemma log_step_effect:
  assumes "log_inv l" and "log_step x l = Inr l'"
  shows "log_inv l' \<and> default_verbosity l' = last_set level_set (default_verbosity l) [x] \<and>
    (operation_num q < 4 \<longrightarrow>
      operationSettings l' ! operation_num q = last_set (switch_set q) (operationSettings l ! operation_num q) [x])"
  using assms
  by (cases x) (auto simp: log_inv_def log_defs write_at_def hal_log_object_keeps nth_list_update operation_num_inj
      bindR_eq_Inr split: if_splits)

lemma log_run_effect:
  assumes "log_inv l" and "log_run xs l = Inr l'"
  shows "log_inv l' \<and> default_verbosity l' = last_set level_set (default_verbosity l) xs \<and>
    (operation_num q < 4 \<longrightarrow>
      operationSettings l' ! operation_num q = last_set (switch_set q) (operationSettings l ! operation_num q) xs)"
  using assms
proof (induction xs arbitrary: l)
  case (Cons x xs)
  from Cons.prems(2) obtain l1 where l1: "log_step x l = Inr l1" "log_run xs l1 = Inr l'" by (auto simp: bindR_eq_Inr)
  show ?case using log_step_effect [OF Cons.prems(1) l1(1)] Cons.IH [OF _ l1(2)] by simp
qed simp



end
