(* ===== verification/Shc_Test.thy ===== *)
theory Shc_Test
  imports Shc_Hal_Ref
begin

text \<open>
  The programs that exercise the HAL on a switch (\<^verbatim>\<open>platform/drivers/test_hal\<close>): the route test and the
  two rate tests of \<^verbatim>\<open>route_test.cpp\<close>, and the tool of \<^verbatim>\<open>driver_cuckoo_hash_get.cpp\<close> that rewrites a
  capture so that every packet carries the hash values of its flow. Random numbers, clock readings,
  \<^verbatim>\<open>std::hash\<close> and the packets of the capture are parameters; what is printed is part of the result. At the end, the
  locale \<open>bfrt_route_del\<close> extends the contract of the runtime with what the tests rely on: deletions, and
  that additions invent no entries.
\<close>

subsection \<open>The route test (route\_test.cpp)\<close>

definition test_entries :: "(hal_route_key \<times> hal_route_data) list" where
  "test_entries =
     [(\<lparr>ip_src_addr = 0xA000001, ip_dst_addr = 0xA0000A\<rparr>, \<lparr>nhop_id = 255\<rparr>),
      (\<lparr>ip_src_addr = 0xA000002, ip_dst_addr = 0xA0000A\<rparr>, \<lparr>nhop_id = 256\<rparr>),
      (\<lparr>ip_src_addr = 0xA000003, ip_dst_addr = 0xA0000A\<rparr>, \<lparr>nhop_id = 65536\<rparr>),
      (\<lparr>ip_src_addr = 0xA000004, ip_dst_addr = 0xA0000A\<rparr>, \<lparr>nhop_id = 4\<rparr>)]"

fun add_all ::
  "('h, 'k, 'd, 'l, 'a) bfrt_api \<Rightarrow> (hal_route_key \<times> hal_route_data) list \<Rightarrow> ('h, 'k, 'd, 'a) hal \<Rightarrow>
   ('h, 'k, 'd, 'a) hal outcome" where
  "add_all api [] s = Inr s"
| "add_all api ((k, d) # es) s = bindR (hal_route_entry_add api k d s) (\<lambda>(_, s). add_all api es s)"

fun get_all ::
  "('h, 'k, 'd, 'l, 'a) bfrt_api \<Rightarrow> (hal_route_key \<times> hal_route_data) list \<Rightarrow> ('h, 'k, 'd, 'a) hal \<Rightarrow>
   (u32 list \<times> ('h, 'k, 'd, 'a) hal) outcome" where
  "get_all api [] s = Inr ([], s)"
| "get_all api ((k, d) # es) s = bindR (hal_route_entry_get api k d s) (\<lambda>((_, d'), s).
     bindR (get_all api es s) (\<lambda>(ns, s). Inr (nhop_id d' # ns, s)))"

fun del_all ::
  "('h, 'k, 'd, 'l, 'a) bfrt_api \<Rightarrow> hal_route_key list \<Rightarrow> ('h, 'k, 'd, 'a) hal \<Rightarrow>
   ('h, 'k, 'd, 'a) hal outcome" where
  "del_all api [] s = Inr s"
| "del_all api (k # ks) s = bindR (hal_route_entry_del api k False s) (\<lambda>(_, s). del_all api ks s)"

text \<open>
  The result: the next hops printed after the reads and the number of entries printed at the end.
  \<open>junk\<close> is the value of the uninitialised variable that is passed for the number.
\<close>

definition test_route ::
  "('h, 'k, 'd, 'l, 'a) bfrt_api \<Rightarrow> addr \<Rightarrow> u32 \<Rightarrow> ('h, 'k, 'd, 'a) hal \<Rightarrow>
   ((u32 list \<times> u32) \<times> ('h, 'k, 'd, 'a) hal) outcome" where
  "test_route api sess junk s =
     bindR (add_all api test_entries s) (\<lambda>s.
     let s = s\<lparr>drv := snd (sessionCompleteOperations api sess (drv s))\<rparr> in
     bindR (get_all api test_entries s) (\<lambda>(ns, s).
     bindR (del_all api (map fst test_entries) s) (\<lambda>s.
     let s = s\<lparr>drv := snd (sessionCompleteOperations api sess (drv s))\<rparr> in
     bindR (hal_route_table_usage_get api junk s) (\<lambda>((_, entry_count), s).
       Inr ((ns, entry_count), s)))))"

subsection \<open>The rate tests (route\_test.cpp)\<close>

datatype rate_out = Inserted u32 int | Total_insert u32 | Error_occur u32

text \<open>
  One call of \<open>rate_loop\<close> is a round of the loop: \<open>i\<close> is the number of rounds before, so the round
  draws the random numbers \<open>2 * i\<close> and \<open>2 * i + 1\<close> and reads the clock twice; \<open>out\<close> is what has been
  printed so far.
\<close>

partial_function (option) rate_loop ::
  "('h, 'k, 'd, 'l, 'a) bfrt_api \<Rightarrow> (nat \<Rightarrow> u32) \<Rightarrow> (nat \<Rightarrow> int) \<Rightarrow> nat \<Rightarrow> u32 \<Rightarrow> int \<Rightarrow> rate_out list \<Rightarrow>
   ('h, 'k, 'd, 'a) hal \<Rightarrow> (rate_out list \<times> ('h, 'k, 'd, 'a) hal) outcome option" where
  "rate_loop api rnd clk i su time_record out s =
     (case hal_route_entry_add api \<lparr>ip_src_addr = rnd (2 * i), ip_dst_addr = rnd (2 * i + 1)\<rparr> \<lparr>nhop_id = 0\<rparr> s of
        Inl f \<Rightarrow> Some (Inl f)
      | Inr (status, s) \<Rightarrow>
          if status = BF_SUCCESS then
            let su = su + 1;
                time_record = time_record + (clk (2 * i + 2) - clk (2 * i + 1));
                out = (if su mod 655 = 0 then out @ [Inserted su time_record] else out);
                time_record = (if su mod 655 = 0 then 0 else time_record)
            in if su = 80000 then Some (Inr (out @ [Total_insert su], s))
               else rate_loop api rnd clk (Suc i) su time_record out s
          else Some (Inr (out @ [Error_occur su, Inserted su time_record], s)))"

definition flow_table_rate_test ::
  "('h, 'k, 'd, 'l, 'a) bfrt_api \<Rightarrow> (nat \<Rightarrow> u32) \<Rightarrow> (nat \<Rightarrow> int) \<Rightarrow> ('h, 'k, 'd, 'a) hal \<Rightarrow>
   (rate_out list \<times> ('h, 'k, 'd, 'a) hal) outcome option" where
  "flow_table_rate_test api rnd clk s = rate_loop api rnd clk 0 0 0 [] s"

text \<open>The keys that the deletion test derives from its 64-bit counter.\<close>

definition del_key :: "u64 \<Rightarrow> hal_route_key" where
  "del_key ipx = \<lparr>ip_src_addr = ucast (drop_bit 32 (ipx AND 0xffff0000)), ip_dst_addr = ucast (ipx AND 0xffff)\<rparr>"

partial_function (option) del_loop ::
  "('h, 'k, 'd, 'l, 'a) bfrt_api \<Rightarrow> u64 \<Rightarrow> ('h, 'k, 'd, 'a) hal \<Rightarrow> ('h, 'k, 'd, 'a) hal outcome option" where
  "del_loop api ipx s =
     (let ipx = ipx + 1 in
      case hal_route_entry_del api (del_key ipx) False s of
        Inl f \<Rightarrow> Some (Inl f)
      | Inr (status, s) \<Rightarrow> if status \<noteq> BF_SUCCESS then Some (Inr s) else del_loop api ipx s)"

definition flow_table_del_test ::
  "('h, 'k, 'd, 'l, 'a) bfrt_api \<Rightarrow> ('h, 'k, 'd, 'a) hal \<Rightarrow> ('h, 'k, 'd, 'a) hal outcome option" where
  "flow_table_del_test api s = del_loop api 43434 s"

subsection \<open>Hash values of a capture (driver\_cuckoo\_hash\_get.cpp)\<close>

text \<open>The four bytes of a 32-bit number in network order, and back.\<close>

definition be_bytes :: "u32 \<Rightarrow> u8 list" where
  "be_bytes x = [ucast (drop_bit 24 x), ucast (drop_bit 16 x), ucast (drop_bit 8 x), ucast x]"

definition be_word :: "u8 list \<Rightarrow> u32" where
  "be_word bs = foldl (\<lambda>v b. push_bit 8 v OR ucast b) 0 bs"

text \<open>
  \<^verbatim>\<open>hasher\<close> is \<^verbatim>\<open>std::hash<uint32_t>\<close>. The driver has left the hash values of the last addition in its
  array; each gets one bit of the offset and is stored in network order, so the bytes of the result
  array are \<open>be_bytes\<close> of the sums. \<^verbatim>\<open>std::abort\<close> is \<open>ProcessExit\<close>.
\<close>

fun cuckoo_bytes :: "u32 list \<Rightarrow> u32 \<Rightarrow> nat list \<Rightarrow> u8 list outcome" where
  "cuckoo_bytes hs offs [] = Inr []"
| "cuckoo_bytes hs offs (i # is) = bindR (read_at hs i) (\<lambda>h.
     if h > 0xffff then Inl ProcessExit
     else bindR (cuckoo_bytes hs offs is) (\<lambda>bs. Inr (be_bytes (h + (drop_bit i offs AND 1)) @ bs)))"

definition drv_cuckoo_get ::
  "('h, 'k, 'd, 'l, 'a) bfrt_api \<Rightarrow> (u32 \<Rightarrow> u64) \<Rightarrow> hal_route_key \<Rightarrow> ('h, 'k, 'd, 'a) hal \<Rightarrow>
   (u8 list \<times> ('h, 'k, 'd, 'a) hal) outcome" where
  "drv_cuckoo_get api hasher key1 s =
     (let h1 = hasher (ip_src_addr key1);
          h2 = hasher (ip_dst_addr key1);
          offs = ucast (h1 XOR h2)
      in bindR (hal_route_entry_add api key1 \<lparr>nhop_id = 0\<rparr> s) (\<lambda>(_, s).
         bindR (cuckoo_bytes (driver_cuckoo_hash_get (drv s)) offs [0..<4]) (\<lambda>drv_cuckoo.
         bindR (hal_route_entry_del api key1 False s) (\<lambda>(_, s).
           Inr (drv_cuckoo, s)))))"

text \<open>The bytes at \<open>p, \<dots>, p + n - 1\<close> of a captured packet; the buffer holds no more than was captured.\<close>

definition pkt_bytes :: "u8 list \<Rightarrow> nat \<Rightarrow> nat \<Rightarrow> u8 list outcome" where
  "pkt_bytes packet p n = (if p + n \<le> length packet then Inr (take n (drop p packet)) else Inl OutOfBounds)"

text \<open>The packets written so far, the counter \<^verbatim>\<open>ip_n\<close>, and the HAL.\<close>

record ('h, 'k, 'd, 'a) capture =
  dumped :: "u8 list list"
  ip_n :: u32
  cap_hal :: "('h, 'k, 'd, 'a) hal"

definition processPacket ::
  "('h, 'k, 'd, 'l, 'a) bfrt_api \<Rightarrow> (u32 \<Rightarrow> u64) \<Rightarrow> u8 list \<Rightarrow> ('h, 'k, 'd, 'a) capture \<Rightarrow>
   ('h, 'k, 'd, 'a) capture outcome" where
  "processPacket api hasher packet c =
     bindR (pkt_bytes packet 12 2) (\<lambda>ether_type.
     if ether_type \<noteq> [0x08, 0x00] then Inr c
     else
       let c = c\<lparr>ip_n := ip_n c + 1\<rparr> in
       bindR (pkt_bytes packet 0 34) (\<lambda>newPacket.
       let newPacket = newPacket[23 := 100] in
       bindR (pkt_bytes packet 26 4) (\<lambda>src.
       bindR (pkt_bytes packet 30 4) (\<lambda>dst.
       bindR (drv_cuckoo_get api hasher \<lparr>ip_src_addr = be_word src, ip_dst_addr = be_word dst\<rparr> (cap_hal c))
         (\<lambda>(cuckoo_hashes, s).
           Inr (c\<lparr>dumped := dumped c @ [newPacket @ cuckoo_hashes], cap_hal := s\<rparr>))))))"

text \<open>\<open>file\<close> is what the two open calls return: the packets of the capture, or \<open>None\<close> when one fails.\<close>

fun process_packets ::
  "('h, 'k, 'd, 'l, 'a) bfrt_api \<Rightarrow> (u32 \<Rightarrow> u64) \<Rightarrow> u8 list list \<Rightarrow> ('h, 'k, 'd, 'a) capture \<Rightarrow>
   ('h, 'k, 'd, 'a) capture outcome" where
  "process_packets api hasher [] c = Inr c"
| "process_packets api hasher (p # ps) c = bindR (processPacket api hasher p c) (process_packets api hasher ps)"

definition processPcapFile ::
  "('h, 'k, 'd, 'l, 'a) bfrt_api \<Rightarrow> (u32 \<Rightarrow> u64) \<Rightarrow> u8 list list option \<Rightarrow> ('h, 'k, 'd, 'a) capture \<Rightarrow>
   ('h, 'k, 'd, 'a) capture outcome" where
  "processPcapFile api hasher file c = (case file of None \<Rightarrow> Inr c | Some ps \<Rightarrow> process_packets api hasher ps c)"

definition pkt_add_cuckoo ::
  "('h, 'k, 'd, 'l, 'a) bfrt_api \<Rightarrow> (u32 \<Rightarrow> u64) \<Rightarrow> u8 list list option \<Rightarrow> ('h, 'k, 'd, 'a) capture \<Rightarrow>
   ('h, 'k, 'd, 'a) capture outcome" where
  "pkt_add_cuckoo api hasher file c =
     (let set_flag = (\<lambda>b c. c\<lparr>cap_hal := (cap_hal c)\<lparr>drv := (drv (cap_hal c))\<lparr>cuckoo_hash_get_flag := b\<rparr>\<rparr>\<rparr>)
      in bindR (processPcapFile api hasher file (set_flag True c)) (\<lambda>c. Inr (set_flag False c)))"

text \<open>The status strings printed by \<^verbatim>\<open>test_hal_status\<close>.\<close>

fun status_lines :: "string list \<Rightarrow> nat list \<Rightarrow> string list outcome" where
  "status_lines bf [] = Inr []"
| "status_lines bf (i # is) = bindR (hal_status_to_string bf (int i)) (\<lambda>l.
     bindR (status_lines bf is) (\<lambda>ls. Inr (l # ls)))"

definition test_hal_status :: "string list \<Rightarrow> string list outcome" where
  "test_hal_status bf = status_lines bf [0..<nat (HAL_STS_MAX bf)]"

subsection \<open>What the tests rely on from the runtime\<close>

text \<open>The key of an entry as the runtime sees it.\<close>

definition entry_key :: "hal_route_key \<Rightarrow> u64 \<times> u64" where
  "entry_key key = (ucast (ip_src_addr key), ucast (ip_dst_addr key))"

text \<open>
  An addition may evict other entries, but it neither changes them nor invents any; when it fails it
  stores nothing. A deletion removes the entry with the key and fails exactly when there is none.
\<close>

locale bfrt_route_del = bfrt_route +
  assumes add_frame: "bf_tableEntryAdd api tbl tgt fl k d v = (st, v') \<Longrightarrow>
      key_getValue api sid k = Some a \<Longrightarrow> key_getValue api did k = Some b \<Longrightarrow> st \<noteq> 0 \<or> q \<noteq> (a, b) \<Longrightarrow>
      view v' q = None \<or> view v' q = view v q"
    and entry_del: "bf_tableEntryDel api tbl tgt 0 k v = (st, v') \<Longrightarrow>
      key_getValue api sid k = Some a \<Longrightarrow> key_getValue api did k = Some b \<Longrightarrow>
      (st = 0 \<longleftrightarrow> view v (a, b) \<noteq> None) \<and> view v' = (view v)((a, b) := None)"
    and complete_view: "view (snd (sessionCompleteOperations api sess v)) = view v"
    and usage_view: "bf_tableUsageGet api tbl tgt fl n v = (st, c, v') \<Longrightarrow> view v' = view v"
begin

lemma add_bounded:
  assumes "ready s"
  obtains st s' where "hal_route_entry_add api key data s = Inr (st, s')" and "ready s'"
    and "st = 0 \<Longrightarrow> \<exists>t. view (drv s') (entry_key key) = Some (ucast (nhop_id data), t)"
    and "\<And>q. st \<noteq> 0 \<or> q \<noteq> entry_key key \<Longrightarrow> view (drv s') q = None \<or> view (drv s') q = view (drv s) q"
proof -
  obtain r k st v' where a: "route_table s = Some r"
    "bf_tableEntryAdd api tbl (dev_tgt r) 0 k (filled r data) (drv s) = (st, v')"
    "key_getValue api sid k = Some (ucast (ip_src_addr key))"
    "key_getValue api did k = Some (ucast (ip_dst_addr key))"
    "hal_route_entry_add api key data s =
      Inr (st, s\<lparr>route_table := Some (r\<lparr>bfrtTableKey := k, bfrtTableData := filled r data\<rparr>), drv := v'\<rparr>)"
    "ready (s\<lparr>route_table := Some (r\<lparr>bfrtTableKey := k, bfrtTableData := filled r data\<rparr>), drv := v'\<rparr>)"
    using add_call [OF assms] .
  have "view v' (entry_key key) = Some (ucast (nhop_id data), entry_ttl r)" if "st = 0"
    using a(2,3,4) unfolding that filled_def entry_key_def by (rule entry_add)
  moreover have "view v' q = None \<or> view v' q = view (drv s) q" if "st \<noteq> 0 \<or> q \<noteq> entry_key key" for q
    using add_frame [OF a(2,3,4)] that unfolding entry_key_def by blast
  ultimately show thesis using that [OF a(5,6)] by simp
qed

lemma del_returns:
  assumes "ready s"
  obtains st s' where "hal_route_entry_del api key False s = Inr (st, s')" and "ready s'"
    and "st = 0 \<longleftrightarrow> view (drv s) (entry_key key) \<noteq> None"
    and "view (drv s') = (view (drv s))(entry_key key := None)"
proof -
  obtain r where r: "route_table s = Some r" "\<not> table_mutex r" "table_ptr r = tbl"
    "ip_src_field_id r = sid" "ip_dst_field_id r = did" "set_route_for_nexthop_action_id r = act"
    "set_route_for_nexthop_action_nhop_id_id r = nid" "set_route_for_nexthop_action_ttl_id r = tid"
    using assms by (rule readyE)
  let ?r = "r\<lparr>table_mutex := True\<rparr>"
  obtain k where k: "KeySetUp api ?r key (keyReset api tbl (bfrtTableKey r)) = Inr k"
    "key_getValue api sid k = Some (ucast (ip_src_addr key))"
    "key_getValue api did k = Some (ucast (ip_dst_addr key))"
    using KeySetUp_ok [of ?r] r by auto
  obtain st v' where del: "bf_tableEntryDel api tbl (dev_tgt r) 0 k (drv s) = (st, v')" by force
  have "hal_route_entry_del api key False s =
      Inr (st, s\<lparr>route_table := Some (r\<lparr>bfrtTableKey := k\<rparr>), drv := v'\<rparr>)"
    using r k(1) del
    by (simp add: hal_route_entry_del_def locked_call_def deref_table_def tableMutexLock_def
        tableMutexUnlock_def tableEntryDel_def Let_def)
  moreover have "ready (s\<lparr>route_table := Some (r\<lparr>bfrtTableKey := k\<rparr>), drv := v'\<rparr>)"
    using r by (simp add: ready_def)
  ultimately show thesis
    using that entry_del [OF del k(2,3)] by (simp add: entry_key_def)
qed

lemma usage_returns:
  assumes "ready s"
  obtains st c s' where "hal_route_table_usage_get api n s = Inr ((st, c), s')" and "ready s'"
    and "view (drv s') = view (drv s)"
proof -
  obtain r where r: "route_table s = Some r" "\<not> table_mutex r" "table_ptr r = tbl"
    "ip_src_field_id r = sid" "ip_dst_field_id r = did" "set_route_for_nexthop_action_id r = act"
    "set_route_for_nexthop_action_nhop_id_id r = nid" "set_route_for_nexthop_action_ttl_id r = tid"
    using assms by (rule readyE)
  obtain st c v' where use: "bf_tableUsageGet api tbl (dev_tgt r) (flag_from_hw api 0) n (drv s) = (st, c, v')"
    by (metis prod_cases3)
  have "hal_route_table_usage_get api n s =
      Inr ((st, c), s\<lparr>route_table := Some r, drv := v'\<rparr>)"
    using r use
    by (simp add: hal_route_table_usage_get_def locked_call_def deref_table_def tableMutexLock_def
        tableMutexUnlock_def tableUsageGet_def)
  moreover have "ready (s\<lparr>route_table := Some r, drv := v'\<rparr>)" using r by (simp add: ready_def)
  ultimately show thesis using that usage_view [OF use] by simp
qed

end

interpretation ref_del: bfrt_route_del ref_bfrt hw 1 2 1 2 1 1 2
  by unfold_locales
    (auto simp: ref_bfrt_def ref_add_def ref_del_def ref_key_def obj_val_def fun_eq_iff split: if_splits)

end
