(* ===== verification/Shc_Test_Props.thy ===== *)
theory Shc_Test_Props
  imports Shc_Test Shc_Hal_Props
begin

text \<open>
  Properties of the test programs of the HAL, for every runtime that keeps the contract
  \<open>bfrt_route_del\<close>: what the route test prints and leaves behind, and that the two rate tests end.
\<close>

subsection \<open>The steps of the route test\<close>

context bfrt_route_del
begin

lemma add_all_returns:
  assumes "ready s"
  shows "\<exists>s'. add_all api es s = Inr s' \<and> ready s' \<and> (\<forall>q. view (drv s') q = None \<or>
    view (drv s') q = view (drv s) q \<or>
    (\<exists>k d t. (k, d) \<in> set es \<and> q = entry_key k \<and> view (drv s') q = Some (ucast (nhop_id d), t)))"
  using assms
proof (induction es arbitrary: s)
  case Nil
  then show ?case by simp
next
  case (Cons e es)
  obtain k d where e: "e = (k, d)" by force
  obtain st s1 where add: "hal_route_entry_add api k d s = Inr (st, s1)" "ready s1"
    "st = 0 \<Longrightarrow> \<exists>t. view (drv s1) (entry_key k) = Some (ucast (nhop_id d), t)"
    "\<And>q. st \<noteq> 0 \<or> q \<noteq> entry_key k \<Longrightarrow> view (drv s1) q = None \<or> view (drv s1) q = view (drv s) q"
    using add_bounded [OF Cons.prems] by metis
  from Cons.IH [OF add(2)] add show ?case
    unfolding e by (simp add: e) (metis option.distinct(1))
qed

lemma get_all_returns:
  assumes "ready s"
  shows "\<exists>ns s'. get_all api es s = Inr (ns, s') \<and> ready s' \<and> view (drv s') = view (drv s) \<and>
    list_all2 (\<lambda>(k, d) n. case view (drv s) (entry_key k) of None \<Rightarrow> n = - 1 | Some (x, t) \<Rightarrow> n = ucast x) es ns"
  using assms
proof (induction es arbitrary: s)
  case Nil
  then show ?case by simp
next
  case (Cons e es)
  obtain k d where e: "e = (k, d)" by force
  obtain st n s1 where get: "hal_route_entry_get api k d s = Inr ((st, d\<lparr>nhop_id := n\<rparr>), s1)" "ready s1"
    "view (drv s1) = view (drv s)"
    "case view (drv s) (entry_key k) of None \<Rightarrow> n = - 1 | Some (x, t) \<Rightarrow> n = ucast x"
    using get_returns [OF Cons.prems, of k d] unfolding entry_key_def by (auto split: option.splits)
  from Cons.IH [OF get(2)] obtain ns s2 where "get_all api es s1 = Inr (ns, s2)" "ready s2"
    "view (drv s2) = view (drv s1)"
    "list_all2 (\<lambda>(k, d) n. case view (drv s1) (entry_key k) of None \<Rightarrow> n = - 1 | Some (x, t) \<Rightarrow> n = ucast x) es ns"
    by blast
  with get show ?case unfolding e by simp
qed

lemma del_all_returns:
  assumes "ready s"
  shows "\<exists>s'. del_all api ks s = Inr s' \<and> ready s' \<and> view (drv s') = view (drv s) |` (- (entry_key ` set ks))"
  using assms
proof (induction ks arbitrary: s)
  case Nil
  then show ?case by simp
next
  case (Cons k ks)
  obtain st s1 where del: "hal_route_entry_del api k False s = Inr (st, s1)" "ready s1"
    "view (drv s1) = (view (drv s))(entry_key k := None)"
    using del_returns [OF Cons.prems] by metis
  have "(view (drv s))(entry_key k := None) |` (- (entry_key ` set ks))
    = view (drv s) |` (- (entry_key ` set (k # ks)))"
    by (rule ext) (simp add: restrict_map_def)
  then have eq: "view (drv s1) |` (- (entry_key ` set ks)) = view (drv s) |` (- (entry_key ` set (k # ks)))"
    by (simp only: del(3))
  have "del_all api (k # ks) s = del_all api ks s1" using del(1) by simp
  then show ?case using Cons.IH [OF del(2)] unfolding eq by simp
qed

lemma ready_drv: "ready (s\<lparr>drv := v\<rparr>) = ready s"
  by (simp add: ready_def)

lemma test_route_steps:
  assumes "ready s"
  shows "\<exists>w ns c s'. test_route api sess junk s = Inr ((ns, c), s') \<and> ready s' \<and>
    list_all2 (\<lambda>(k, d) n. case w (entry_key k) of None \<Rightarrow> n = - 1 | Some (x, t) \<Rightarrow> n = ucast x)
      test_entries ns \<and>
    view (drv s') = w |` (- (entry_key ` fst ` set test_entries)) \<and>
    (\<forall>q. w q = None \<or> w q = view (drv s) q \<or>
      (\<exists>k d t. (k, d) \<in> set test_entries \<and> q = entry_key k \<and> w q = Some (ucast (nhop_id d), t)))"
proof -
  define sync where "sync s = s\<lparr>drv := snd (sessionCompleteOperations api sess (drv s))\<rparr>"
    for s :: "('a, 'b, 'c, 'e) hal"
  have sync: "ready (sync s) = ready s" "view (drv (sync s)) = view (drv s)" for s
    by (simp_all add: sync_def ready_drv complete_view)
  obtain s1 where add: "add_all api test_entries s = Inr s1" "ready s1"
    and bnd: "\<And>q. view (drv s1) q = None \<or> view (drv s1) q = view (drv s) q \<or>
    (\<exists>k d t. (k, d) \<in> set test_entries \<and> q = entry_key k \<and> view (drv s1) q = Some (ucast (nhop_id d), t))"
    using add_all_returns [OF assms, of test_entries] by blast
  obtain ns s2 where get: "get_all api test_entries (sync s1) = Inr (ns, s2)" "ready s2"
    "view (drv s2) = view (drv s1)"
    "list_all2 (\<lambda>(k, d) n. case view (drv s1) (entry_key k) of None \<Rightarrow> n = - 1 | Some (x, t) \<Rightarrow> n = ucast x)
      test_entries ns"
    using get_all_returns [of "sync s1" test_entries] add(2) by (auto simp: sync)
  obtain s3 where del: "del_all api (map fst test_entries) s2 = Inr s3" "ready s3"
    "view (drv s3) = view (drv s1) |` (- (entry_key ` fst ` set test_entries))"
    using del_all_returns [OF get(2), of "map fst test_entries"] by (auto simp: get(3))
  have "ready (sync s3)" by (simp add: sync del)
  then obtain st c s' where use: "hal_route_table_usage_get api junk (sync s3) = Inr ((st, c), s')"
    "ready s'" "view (drv s') = view (drv (sync s3))"
    by (rule usage_returns)
  have "test_route api sess junk s = Inr ((ns, c), s')"
    using add(1) get(1) del(1) use(1) by (simp add: test_route_def sync_def Let_def)
  moreover have "view (drv s') = view (drv s1) |` (- (entry_key ` fst ` set test_entries))"
    using use(3) del(3) by (simp add: sync)
  ultimately show ?thesis using use(2) get(4) bnd by blast
qed

end

subsection \<open>The rate tests end\<close>

text \<open>The key that the deletion test tries \<open>i\<close> rounds after the counter was \<open>j\<close>.\<close>

definition del_slot :: "nat \<Rightarrow> nat \<Rightarrow> u64 \<times> u64" where
  "del_slot j i = (0, of_nat ((Suc j + i) mod 65536))"

lemma entry_key_del_key: "entry_key (del_key (of_nat j)) = (0, of_nat (j mod 65536))"
proof -
  have "drop_bit 32 ((of_nat j :: u64) AND 0xffff0000) = drop_bit 32 (take_bit 32 (of_nat j AND 0xffff0000))"
    by (simp add: take_bit_and)
  then have "drop_bit 32 ((of_nat j :: u64) AND 0xffff0000) = 0"
    by (simp add: drop_bit_take_bit)
  moreover have "(of_nat j :: u64) AND 0xffff = take_bit 16 (of_nat j)"
    by (simp add: take_bit_eq_mask mask_eq_exp_minus_1)
  then have "(of_nat j :: u64) AND 0xffff = of_nat (j mod 65536)"
    by (simp only: take_bit_of_nat) (simp add: take_bit_eq_mod)
  moreover have "ucast (ucast (of_nat (j mod 65536) :: u64) :: u32) = (of_nat (j mod 65536) :: u64)"
    by (rule word_unat_eq_iff [THEN iffD2])
      (simp add: unsigned_ucast_eq unsigned_of_nat take_bit_nat_eq_self)
  ultimately show ?thesis by (simp add: entry_key_def del_key_def)
qed

lemma del_slot_0: "entry_key (del_key (of_nat j + 1)) = del_slot j 0"
  using entry_key_del_key [of "Suc j"] by (simp add: del_slot_def add.commute)

lemma del_slots_Suc: "del_slot j ` {..<Suc n} = insert (del_slot j 0) (del_slot (Suc j) ` {..<n})"
  by (auto simp: lessThan_Suc_eq_insert_0 image_image del_slot_def)

context bfrt_route_del
begin

text \<open>
  With every round of the deletion test the number of entries left among the 65536 keys with source
  0 falls, until a deletion fails.
\<close>

definition low_entries where
  "low_entries s = {q \<in> del_slot 0 ` {..<65536}. view (drv s) q \<noteq> None}"

lemma del_slot_low: "del_slot j i \<in> del_slot 0 ` {..<65536}"
proof -
  have "(Suc j + i) mod 65536 = Suc ((j + i) mod 65536) mod 65536" by (simp add: mod_Suc_eq)
  then show ?thesis by (auto simp: del_slot_def intro!: image_eqI [of _ _ "(j + i) mod 65536"])
qed

lemma finite_low: "finite (low_entries s)"
  by (simp add: low_entries_def)

lemma card_low: "card (low_entries s) \<le> 65536"
proof -
  have "card (low_entries s) \<le> card (del_slot 0 ` {..<65536})"
    by (rule card_mono) (auto simp: low_entries_def)
  also have "\<dots> \<le> 65536" using card_image_le [of "{..<65536 :: nat}" "del_slot 0"] by simp
  finally show ?thesis .
qed

lemma del_loop_ends:
  assumes "ready s"
  shows "\<exists>n s'. del_loop api (of_nat j) s = Some (Inr s') \<and> ready s' \<and> n \<le> card (low_entries s) \<and>
    (\<forall>q \<in> del_slot j ` {..<n}. view (drv s) q \<noteq> None) \<and>
    view (drv s') = view (drv s) |` (- (del_slot j ` {..<n})) \<and> view (drv s') (del_slot j n) = None"
  using assms
proof (induction "card (low_entries s)" arbitrary: j s rule: less_induct)
  case less
  obtain st s1 where del: "hal_route_entry_del api (del_key (of_nat j + 1)) False s = Inr (st, s1)" "ready s1"
    "st = 0 \<longleftrightarrow> view (drv s) (del_slot j 0) \<noteq> None"
    "view (drv s1) = (view (drv s))(del_slot j 0 := None)"
    using del_returns [OF less.prems, of "del_key (of_nat j + 1)"] unfolding del_slot_0 by blast
  note step = del_loop.simps [of api "of_nat j" s]
  show ?case
  proof (cases "st = 0")
    case False
    then have "del_loop api (of_nat j) s = Some (Inr s1)" by (simp add: step del BF_SUCCESS_def)
    moreover from False del(3) have none: "view (drv s) (del_slot j 0) = None" by blast
    then have "view (drv s1) = view (drv s)" using del(4) by (simp only: fun_upd_idem)
    moreover have "view (drv s) |` UNIV = view (drv s)" by (rule ext) (simp add: restrict_map_def)
    ultimately show ?thesis using del(2) none by (intro exI [of _ 0] exI [of _ s1]) simp
  next
    case True
    then have next_round: "del_loop api (of_nat j) s = del_loop api (of_nat (Suc j)) s1"
      unfolding step Let_def del(1) by (simp add: BF_SUCCESS_def add.commute)
    have "low_entries s1 = low_entries s - {del_slot j 0}" by (auto simp: low_entries_def del(4))
    moreover have "del_slot j 0 \<in> low_entries s"
      using True del(3) del_slot_low by (auto simp: low_entries_def)
    ultimately have fewer: "Suc (card (low_entries s1)) = card (low_entries s)"
      using finite_low by (metis card_Suc_Diff1)
    then obtain n s' where rest: "del_loop api (of_nat (Suc j)) s1 = Some (Inr s')" "ready s'"
      "n \<le> card (low_entries s1)" "\<forall>q \<in> del_slot (Suc j) ` {..<n}. view (drv s1) q \<noteq> None"
      "view (drv s') = view (drv s1) |` (- (del_slot (Suc j) ` {..<n}))"
      "view (drv s') (del_slot (Suc j) n) = None"
      using less.hyps [OF _ del(2), of "Suc j"] by auto
    have "view (drv s') = view (drv s) |` (- (del_slot j ` {..<Suc n}))"
      unfolding rest(5) del_slots_Suc del(4) by (rule ext) (simp add: restrict_map_def)
    moreover have "\<forall>q \<in> del_slot j ` {..<Suc n}. view (drv s) q \<noteq> None"
      using rest(4) True del(3) unfolding del_slots_Suc del(4) by (auto split: if_splits)
    moreover have "del_slot j (Suc n) = del_slot (Suc j) n" by (simp add: del_slot_def)
    ultimately show ?thesis
      using next_round rest(1,2,3,6) fewer by (intro exI [of _ "Suc n"] exI [of _ s']) simp
  qed
qed

end

subsection \<open>The hash values of a packet\<close>

lemma restrict_map_le:
  assumes "\<And>q. q \<notin> K \<Longrightarrow> w q = None \<or> w q = v q"
  shows "w |` (- K) \<subseteq>\<^sub>m v |` (- K)"
  using assms by (fastforce simp: map_le_def restrict_map_def split: if_splits)

lemma cuckoo_sum_bound: "(h :: u32) \<le> 0xffff \<Longrightarrow> h + (x AND 1) \<le> 0x10000"
proof -
  assume "h \<le> 0xffff"
  then have "unat h \<le> 65535" by (simp add: word_le_nat_alt)
  moreover have "unat (x AND 1) \<le> 1" by (simp add: and_one_eq mod2_eq_if)
  ultimately show ?thesis by (simp add: word_le_nat_alt unat_plus_if')
qed

lemma cuckoo_bytes_cases:
  assumes "\<And>i. i \<in> set is \<Longrightarrow> i < length hs"
  shows "cuckoo_bytes hs offs is = Inl ProcessExit \<or> (\<exists>ws. cuckoo_bytes hs offs is = Inr (concat (map be_bytes ws)) \<and>
    length ws = length is \<and> (\<forall>w \<in> set ws. w \<le> 0x10000))"
  using assms
proof (induction "is")
  case Nil
  then show ?case by simp
next
  case (Cons i "is")
  then have read: "read_at hs i = Inr (hs ! i)" by (simp add: read_at_def)
  show ?case
  proof (cases "hs ! i > 0xffff")
    case True
    then show ?thesis by (simp add: read)
  next
    case False
    from Cons.IH Cons.prems consider (exit) "cuckoo_bytes hs offs is = Inl ProcessExit"
      | (ok) ws where "cuckoo_bytes hs offs is = Inr (concat (map be_bytes ws))" "length ws = length is"
        "\<forall>w \<in> set ws. w \<le> 0x10000"
      by auto
    then show ?thesis
    proof cases
      case exit
      then show ?thesis using False by (simp add: read)
    next
      case ok
      let ?w = "hs ! i + (drop_bit i offs AND 1)"
      have "?w \<le> 0x10000" using False by (intro cuckoo_sum_bound) simp
      then show ?thesis
        using ok False by (intro disjI2 exI [of _ "?w # ws"]) (simp add: read)
    qed
  qed
qed

context bfrt_route_del
begin

lemma drv_cuckoo_get_cases:
  assumes "ready s"
    and len: "\<And>tgt k d v. length (driver_cuckoo_hash_get (snd (bf_tableEntryAdd api tbl tgt 0 k d v)))
      = length (driver_cuckoo_hash_get v)"
    and five: "length (driver_cuckoo_hash_get (drv s)) = 5"
  shows "drv_cuckoo_get api hasher key s = Inl ProcessExit \<or> (\<exists>ws s'.
    drv_cuckoo_get api hasher key s = Inr (concat (map be_bytes ws), s') \<and> ready s' \<and> length ws = 4 \<and>
    (\<forall>w \<in> set ws. w \<le> 0x10000) \<and> view (drv s') \<subseteq>\<^sub>m view (drv s) |` (- {entry_key key}))"
proof -
  obtain r k st v' where add: "route_table s = Some r"
    "bf_tableEntryAdd api tbl (dev_tgt r) 0 k (filled r \<lparr>nhop_id = 0\<rparr>) (drv s) = (st, v')"
    "key_getValue api sid k = Some (ucast (ip_src_addr key))"
    "key_getValue api did k = Some (ucast (ip_dst_addr key))"
    "hal_route_entry_add api key \<lparr>nhop_id = 0\<rparr> s =
      Inr (st, s\<lparr>route_table := Some (r\<lparr>bfrtTableKey := k, bfrtTableData := filled r \<lparr>nhop_id = 0\<rparr>\<rparr>), drv := v'\<rparr>)"
    "ready (s\<lparr>route_table := Some (r\<lparr>bfrtTableKey := k, bfrtTableData := filled r \<lparr>nhop_id = 0\<rparr>\<rparr>), drv := v'\<rparr>)"
    using add_call [OF assms(1)] .
  let ?s = "s\<lparr>route_table := Some (r\<lparr>bfrtTableKey := k, bfrtTableData := filled r \<lparr>nhop_id = 0\<rparr>\<rparr>), drv := v'\<rparr>"
  have frame: "q \<notin> {entry_key key} \<Longrightarrow> view v' q = None \<or> view v' q = view (drv s) q" for q
    using add_frame [OF add(2,3,4)] unfolding entry_key_def by blast
  obtain st' s' where del: "hal_route_entry_del api key False ?s = Inr (st', s')" "ready s'"
    "view (drv s') = (view (drv ?s))(entry_key key := None)"
    using del_returns [OF add(6)] by metis
  have "view (drv s') = view v' |` (- {entry_key key})"
    unfolding del(3) by (rule ext) (simp add: restrict_map_def)
  then have view: "view (drv s') \<subseteq>\<^sub>m view (drv s) |` (- {entry_key key})"
    using restrict_map_le [of "{entry_key key}" "view v'" "view (drv s)", OF frame] by simp
  let ?offs = "ucast (hasher (ip_src_addr key) XOR hasher (ip_dst_addr key))"
  have "length (driver_cuckoo_hash_get v') = 5"
    using len [of "dev_tgt r" k "filled r \<lparr>nhop_id = 0\<rparr>" "drv s"] by (simp add: add(2) five)
  then have "cuckoo_bytes (driver_cuckoo_hash_get v') ?offs [0..<4] = Inl ProcessExit \<or> (\<exists>ws.
      cuckoo_bytes (driver_cuckoo_hash_get v') ?offs [0..<4] = Inr (concat (map be_bytes ws)) \<and>
      length ws = length [0..<4] \<and> (\<forall>w \<in> set ws. w \<le> 0x10000))"
    by (intro cuckoo_bytes_cases) auto
  moreover have "drv_cuckoo_get api hasher key s = bindR (cuckoo_bytes (driver_cuckoo_hash_get v') ?offs [0..<4])
      (\<lambda>drv_cuckoo. Inr (drv_cuckoo, s'))"
    unfolding drv_cuckoo_get_def Let_def add(5) by (simp add: del(1))
  ultimately show ?thesis using del(2) view by auto
qed

end

text \<open>
  The lines of the insertion test: one after every 655 insertions, with the time they took, and the
  closing lines.
\<close>

definition rate_marks :: "(nat \<Rightarrow> int) \<Rightarrow> nat \<Rightarrow> nat \<Rightarrow> rate_out list" where
  "rate_marks ts a b = map (\<lambda>i. Inserted (of_nat (655 * Suc i)) (ts i)) [a..<b]"

definition rate_end :: "nat \<Rightarrow> int \<Rightarrow> rate_out list" where
  "rate_end n t = (if n = 80000 then [Total_insert 80000] else [Error_occur (of_nat n), Inserted (of_nat n) t])"

lemma rate_marks_empty: "rate_marks ts a a = []"
  by (simp add: rate_marks_def)

lemma rate_marks_step:
  assumes "655 * Suc a = m" and "a < b"
  shows "rate_marks (ts(a := t)) a b = Inserted (of_nat m) t # rate_marks ts (Suc a) b"
  using assms by (auto simp: rate_marks_def upt_conv_Cons)

lemma rate_marks_next:
  assumes "Suc m \<le> n"
  shows "\<exists>ts'. (if Suc m mod 655 = 0 then [Inserted (of_nat (Suc m)) t] else []) @ rate_marks ts (Suc m div 655) (n div 655)
    = rate_marks ts' (m div 655) (n div 655)"
proof (cases "Suc m mod 655 = 0")
  case True
  then have *: "Suc m div 655 = Suc (m div 655)" by (simp add: div_Suc)
  with True have "655 * Suc (m div 655) = Suc m" by (metis add.right_neutral mult_div_mod_eq)
  moreover have "m div 655 < n div 655" using div_le_mono [OF assms, of 655] unfolding * by simp
  ultimately have "rate_marks (ts(m div 655 := t)) (m div 655) (n div 655)
      = Inserted (of_nat (Suc m)) t # rate_marks ts (Suc (m div 655)) (n div 655)"
    by (rule rate_marks_step)
  then show ?thesis using True * by (intro exI [of _ "ts(m div 655 := t)"]) simp
next
  case False
  then show ?thesis by (auto simp: div_Suc)
qed

lemma su_mod_655:
  assumes "m \<le> 80000"
  shows "(of_nat m :: u32) mod 655 = 0 \<longleftrightarrow> m mod 655 = 0" and "(of_nat m :: u32) = 80000 \<longleftrightarrow> m = 80000"
proof -
  have m: "unat (of_nat m :: u32) = m" using assms by (simp add: unsigned_of_nat take_bit_nat_eq_self)
  then have "unat ((of_nat m :: u32) mod 655) = m mod 655" by (simp add: unat_mod)
  then show "(of_nat m :: u32) mod 655 = 0 \<longleftrightarrow> m mod 655 = 0" by (simp add: unat_eq_0 [symmetric])
  show "(of_nat m :: u32) = 80000 \<longleftrightarrow> m = 80000" using m by (simp add: word_unat_eq_iff)
qed

context bfrt_route_del
begin

text \<open>A round whose insertion succeeds.\<close>

lemma rate_loop_round:
  assumes "hal_route_entry_add api \<lparr>ip_src_addr = rnd (2 * i), ip_dst_addr = rnd (2 * i + 1)\<rparr> \<lparr>nhop_id = 0\<rparr> s
      = Inr (0, s1)" and "m < 80000"
  shows "rate_loop api rnd clk i (of_nat m) tr out s =
    (let t = tr + (clk (2 * i + 2) - clk (2 * i + 1));
         out' = (if Suc m mod 655 = 0 then out @ [Inserted (of_nat (Suc m)) t] else out)
     in if Suc m = 80000 then Some (Inr (out' @ [Total_insert 80000], s1))
        else rate_loop api rnd clk (Suc i) (of_nat (Suc m)) (if Suc m mod 655 = 0 then 0 else t) out' s1)"
proof -
  obtain M :: u32 where M: "of_nat m + 1 = M" "of_nat (Suc m) = M" by (simp add: add.commute)
  have su: "M mod 655 = 0 \<longleftrightarrow> Suc m mod 655 = 0" "M = 80000 \<longleftrightarrow> Suc m = 80000"
    using su_mod_655 [of "Suc m"] assms(2) unfolding M(2) by simp_all
  show ?thesis
    unfolding rate_loop.simps [of api rnd clk i "of_nat m" tr out s] assms(1) Let_def M su(1)
    by (cases "Suc m = 80000") (simp_all add: BF_SUCCESS_def su(2))
qed

lemma rate_loop_ends:
  assumes "ready s" and "m < 80000"
  shows "\<exists>n ts t s'. rate_loop api rnd clk i (of_nat m) tr out s =
      Some (Inr (out @ rate_marks ts (m div 655) (n div 655) @ rate_end n t, s')) \<and> ready s' \<and> m \<le> n \<and> n \<le> 80000"
  using assms
proof (induction "80000 - m" arbitrary: m i tr out s)
  case 0
  then show ?case by simp
next
  case (Suc x)
  note step = rate_loop.simps [of api rnd clk i "of_nat m" tr out s]
  obtain st s1 where add: "hal_route_entry_add api \<lparr>ip_src_addr = rnd (2 * i), ip_dst_addr = rnd (2 * i + 1)\<rparr>
      \<lparr>nhop_id = 0\<rparr> s = Inr (st, s1)" "ready s1"
    using add_bounded [OF Suc.prems(1)] by metis
  show ?case
  proof (cases "st = 0")
    case False
    then have "rate_loop api rnd clk i (of_nat m) tr out s =
        Some (Inr (out @ rate_marks (\<lambda>_. 0) (m div 655) (m div 655) @ rate_end m tr, s1))"
      unfolding step add(1) using Suc.prems(2) by (simp add: BF_SUCCESS_def rate_marks_empty rate_end_def)
    then show ?thesis using add(2) Suc.prems(2) by (metis le_refl less_imp_le)
  next
    case True
    let ?t = "tr + (clk (2 * i + 2) - clk (2 * i + 1))"
    let ?mark = "Suc m mod 655 = 0"
    let ?out = "if ?mark then out @ [Inserted (of_nat (Suc m)) ?t] else out"
    note round = rate_loop_round [OF add(1) [unfolded True] Suc.prems(2), of clk tr out, unfolded Let_def]
    show ?thesis
    proof (cases "Suc m = 80000")
      case m: True
      then have "m = 79999" by simp
      then have "rate_loop api rnd clk i (of_nat m) tr out s =
          Some (Inr (out @ rate_marks (\<lambda>_. 0) (m div 655) (80000 div 655) @ rate_end 80000 0, s1))"
        using round by (simp add: rate_marks_empty rate_end_def)
      then show ?thesis using add(2) Suc.prems(2) by (metis le_refl less_imp_le)
    next
      case m: False
      then obtain n ts t s' where rest: "rate_loop api rnd clk (Suc i) (of_nat (Suc m)) (if ?mark then 0 else ?t) ?out s1 =
          Some (Inr (?out @ rate_marks ts (Suc m div 655) (n div 655) @ rate_end n t, s'))" "ready s'"
        "Suc m \<le> n" "n \<le> 80000"
        using Suc.hyps(1) [of "Suc m" s1] Suc.hyps(2) Suc.prems(2) add(2) by fastforce
      have "\<exists>ts'. ?out @ rate_marks ts (Suc m div 655) (n div 655) = out @ rate_marks ts' (m div 655) (n div 655)"
        using rate_marks_next [OF rest(3)] by auto
      then show ?thesis using round rest m by (metis Suc_leD append_assoc)
    qed
  qed
qed

end

subsection \<open>The status strings\<close>

lemma status_lines_map:
  "\<forall>i \<in> set is. int i < HAL_STS_MAX bf \<Longrightarrow> status_lines bf is = Inr (map (\<lambda>i. hal_err_strings bf ! i) is)"
  by (induction "is") (simp_all add: hal_status_to_string_def hal_err_str_total)

text \<open>The test of the status strings prints those of the vendor and then those of the HAL.\<close>

lemma test_hal_status_prints: "test_hal_status bf = Inr (bf @ hal_status_values)"
proof -
  have n: "nat (HAL_STS_MAX bf) = length (bf @ hal_status_values)"
    by (simp add: HAL_STS_MAX_def hal_status_values_def)
  have "test_hal_status bf = Inr (map (\<lambda>i. hal_err_strings bf ! i) [0..<length (bf @ hal_status_values)])"
    unfolding test_hal_status_def n
    by (rule status_lines_map) (auto simp: HAL_STS_MAX_def hal_status_values_def)
  also have "map (\<lambda>i. hal_err_strings bf ! i) [0..<length (bf @ hal_status_values)] = bf @ hal_status_values"
    by (intro nth_equalityI) (auto simp: hal_err_strings_def nth_append hal_status_values_def)
  finally show ?thesis .
qed

subsection \<open>Properties\<close>

lemma entry_key_inject: "entry_key k = entry_key k' \<longleftrightarrow> k = k'"
proof
  assume "entry_key k = entry_key k'"
  then have "ip_src_addr k = ip_src_addr k'" "ip_dst_addr k = ip_dst_addr k'"
    unfolding entry_key_def by (metis fst_conv ucast_u64_u32, metis snd_conv ucast_u64_u32)
  then show "k = k'" by simp
qed simp

lemma test_entries_fun: "(k, d) \<in> set test_entries \<Longrightarrow> (k, d') \<in> set test_entries \<Longrightarrow> d = d'"
  by (auto simp: test_entries_def)

text \<open>
  The route test returns from every reachable state of the HAL. For each of its four entries it
  prints the next hop it wrote, the value of a missing entry, or the next hop that the table already
  held; afterwards the four entries are gone, and no other entry has appeared or changed.
\<close>

theorem test_route_cleans_up:
  assumes "bfrt_route_del api view info tbl sid did act nid tid"
    and "bfRtInfoGet api 0 ''shc_real_time_sketch'' = (0, info)"
    and "hal_init api dir_all tgt0 s0 = Inr s" and "hal_run api s m s1"
  shows "\<exists>ns c s2. test_route api sess junk s1 = Inr ((ns, c), s2) \<and>
    list_all2 (\<lambda>(k, d) n. n = nhop_id d \<or> n = 0xffffffff \<or>
      (\<exists>x t. view (drv s1) (entry_key k) = Some (x, t) \<and> n = ucast x)) test_entries ns \<and>
    view (drv s2) \<subseteq>\<^sub>m view (drv s1) |` (- (entry_key ` fst ` set test_entries))"
proof -
  note base = bfrt_route_del.axioms(1) [OF assms(1)]
  note ready1 = bfrt_route.ready_run [OF base assms(4) bfrt_route.hal_init_ready [OF base assms(2,3)]]
  obtain w ns c s2 where run: "test_route api sess junk s1 = Inr ((ns, c), s2)"
    and ns: "list_all2 (\<lambda>(k, d) n. case w (entry_key k) of None \<Rightarrow> n = - 1 | Some (x, t) \<Rightarrow> n = ucast x)
      test_entries ns"
    and view: "view (drv s2) = w |` (- (entry_key ` fst ` set test_entries))"
    and bnd: "\<And>q. w q = None \<or> w q = view (drv s1) q \<or>
      (\<exists>k d t. (k, d) \<in> set test_entries \<and> q = entry_key k \<and> w q = Some (ucast (nhop_id d), t))"
    using bfrt_route_del.test_route_steps [OF assms(1) ready1, of sess junk] by blast
  have "n = nhop_id d \<or> n = 0xffffffff \<or> (\<exists>x t. view (drv s1) (entry_key k) = Some (x, t) \<and> n = ucast x)"
    if "(k, d) \<in> set test_entries"
      and "case w (entry_key k) of None \<Rightarrow> n = - 1 | Some (x, t) \<Rightarrow> n = ucast x" for k d n
    using bnd [of "entry_key k"] that
    by (cases "w (entry_key k)") (auto simp: entry_key_inject ucast_u64_u32 dest: test_entries_fun sym)
  then have "list_all2 (\<lambda>(k, d) n. n = nhop_id d \<or> n = 0xffffffff \<or>
      (\<exists>x t. view (drv s1) (entry_key k) = Some (x, t) \<and> n = ucast x)) test_entries ns"
    by (intro list.rel_mono_strong [OF ns]) auto
  moreover have "view (drv s2) \<subseteq>\<^sub>m view (drv s1) |` (- (entry_key ` fst ` set test_entries))"
    unfolding view by (rule restrict_map_le) (use bnd in \<open>force simp: image_iff\<close>)
  ultimately show ?thesis using run by blast
qed

theorem test_route_cleans_up_witness:
  "\<exists>ns c s2. test_route ref_bfrt 1 0 ref_hal = Inr ((ns, c), s2) \<and>
    list_all2 (\<lambda>(k, d) n. n = nhop_id d \<or> n = 0xffffffff \<or>
      (\<exists>x t. hw (drv ref_hal) (entry_key k) = Some (x, t) \<and> n = ucast x)) test_entries ns \<and>
    hw (drv s2) \<subseteq>\<^sub>m hw (drv ref_hal) |` (- (entry_key ` fst ` set test_entries))"
  by (rule test_route_cleans_up [OF ref_del.bfrt_route_del_axioms _ ref_hal_init run_nil])
    (simp add: ref_bfrt_def)

text \<open>
  C32: the deletion test ends. Its keys all have the source address 0, since the counter is masked to
  the bits 16 to 31 before it is shifted right by 32; it deletes the entries with source 0 and
  destinations from 43435 on, modulo 65536, up to the first that is missing, and nothing else.
\<close>

theorem flow_table_del_test_ends:
  assumes "bfrt_route_del api view info tbl sid did act nid tid"
    and "bfRtInfoGet api 0 ''shc_real_time_sketch'' = (0, info)"
    and "hal_init api dir_all tgt0 s0 = Inr s" and "hal_run api s m s1"
  shows "\<exists>n s2. flow_table_del_test api s1 = Some (Inr s2) \<and> n \<le> 65536 \<and>
    (\<forall>i<n. view (drv s1) (0, of_nat ((43435 + i) mod 65536)) \<noteq> None) \<and>
    view (drv s2) (0, of_nat ((43435 + n) mod 65536)) = None \<and>
    view (drv s2) = view (drv s1) |` (- {(0, of_nat ((43435 + i) mod 65536)) |i. i < n})"
proof -
  note base = bfrt_route_del.axioms(1) [OF assms(1)]
  note ready1 = bfrt_route.ready_run [OF base assms(4) bfrt_route.hal_init_ready [OF base assms(2,3)]]
  obtain n s2 where "del_loop api (of_nat 43434) s1 = Some (Inr s2)"
    and "n \<le> card (bfrt_route_del.low_entries view s1)"
    and "\<forall>q \<in> del_slot 43434 ` {..<n}. view (drv s1) q \<noteq> None"
    and "view (drv s2) = view (drv s1) |` (- (del_slot 43434 ` {..<n}))"
    and "view (drv s2) (del_slot 43434 n) = None"
    using bfrt_route_del.del_loop_ends [OF assms(1) ready1, of 43434] by metis
  moreover have "del_slot 43434 ` {..<n} = {(0, of_nat ((43435 + i) mod 65536)) |i. i < n}"
    by (auto simp: del_slot_def image_def)
  moreover have "card (bfrt_route_del.low_entries view s1) \<le> 65536"
    by (rule bfrt_route_del.card_low [OF assms(1)])
  ultimately show ?thesis
    by (intro exI [of _ n] exI [of _ s2]) (auto simp: flow_table_del_test_def del_slot_def)
qed

theorem flow_table_del_test_ends_witness:
  "\<exists>n s2. flow_table_del_test ref_bfrt ref_hal = Some (Inr s2) \<and> n \<le> 65536 \<and>
    (\<forall>i<n. hw (drv ref_hal) (0, of_nat ((43435 + i) mod 65536)) \<noteq> None) \<and>
    hw (drv s2) (0, of_nat ((43435 + n) mod 65536)) = None \<and>
    hw (drv s2) = hw (drv ref_hal) |` (- {(0, of_nat ((43435 + i) mod 65536)) |i. i < n})"
  by (rule flow_table_del_test_ends [OF ref_del.bfrt_route_del_axioms _ ref_hal_init run_nil])
    (simp add: ref_bfrt_def)

text \<open>
  The insertion test ends, whatever the random numbers are: it prints a line after every 655
  insertions and stops after 80000 insertions or at the first that fails, with the number of
  insertions in its last lines.
\<close>

theorem flow_table_rate_test_ends:
  assumes "bfrt_route_del api view info tbl sid did act nid tid"
    and "bfRtInfoGet api 0 ''shc_real_time_sketch'' = (0, info)"
    and "hal_init api dir_all tgt0 s0 = Inr s" and "hal_run api s m s1"
  shows "\<exists>n ts t s2. flow_table_rate_test api rnd clk s1 =
    Some (Inr (rate_marks ts 0 (n div 655) @ rate_end n t, s2)) \<and> n \<le> 80000"
proof -
  note base = bfrt_route_del.axioms(1) [OF assms(1)]
  note ready1 = bfrt_route.ready_run [OF base assms(4) bfrt_route.hal_init_ready [OF base assms(2,3)]]
  show ?thesis
    using bfrt_route_del.rate_loop_ends [OF assms(1) ready1, of 0 rnd clk 0 0 "[]"]
    by (auto simp: flow_table_rate_test_def)
qed

theorem flow_table_rate_test_ends_witness:
  "\<exists>n ts t s2. flow_table_rate_test ref_bfrt of_nat int ref_hal =
    Some (Inr (rate_marks ts 0 (n div 655) @ rate_end n t, s2)) \<and> n \<le> 80000"
  by (rule flow_table_rate_test_ends [OF ref_del.bfrt_route_del_axioms _ ref_hal_init run_nil])
    (simp add: ref_bfrt_def)



end
