(* ===== verification/Shc_Test_Main.thy ===== *)
theory Shc_Test_Main
  imports Shc_Test_Props Ntb_Main
begin

text \<open>
  The main program of the HAL tests (\<^verbatim>\<open>test_hal/main.cpp\<close>) and its start of the switch daemon library
  (\<^verbatim>\<open>test_hal/common.h\<close>). The context of the library and the modes of the command line are those of the
  agent's start (\<open>Ntb_Main\<close>); the names of this copy carry the suffix \<open>_test\<close>.
\<close>

subsection \<open>Start of the library (common.h)\<close>

record test_ctx = switchd_ctx +
  skip_port_add :: bool

record test_state =
  ctx_test :: test_ctx
  cli_mode_test :: cli_modes

text \<open>
  The results of \<^verbatim>\<open>getopt_long\<close>. The table of options has no entry of zeros at its end, so a long option
  that is not in it is compared with what follows the table in memory: \<open>OPT_OTHER_test\<close> is a value found
  there.
\<close>

datatype getopt_test = OPT_INSTALLDIR string | OPT_CONFFILE string | OPT_BFSHELL_test | OPT_UCLI
  | OPT_h | OPT_question | OPT_OTHER_test

datatype test_call = Test_lib_init test_ctx | Test_drv_shell | Test_bfshell | Test_join nat | Test_free

text \<open>The user id, whether the context could be allocated, and the library.\<close>

record host_test =
  geteuid_test :: nat
  calloc_ok :: bool
  lib_init_test :: "test_ctx \<Rightarrow> int \<times> test_ctx"

fun parse_loop_test :: "getopt_test list \<Rightarrow> test_state \<Rightarrow> int + test_state" where
  "parse_loop_test [] m = Inr m"
| "parse_loop_test (OPT_INSTALLDIR optarg # os) m =
     parse_loop_test os (m\<lparr>ctx_test := (ctx_test m)\<lparr>install_dir := Some optarg\<rparr>\<rparr>)"
| "parse_loop_test (OPT_CONFFILE optarg # os) m =
     parse_loop_test os (m\<lparr>ctx_test := (ctx_test m)\<lparr>conf_file := Some optarg\<rparr>\<rparr>)"
| "parse_loop_test (OPT_BFSHELL_test # os) m = parse_loop_test os (m\<lparr>cli_mode_test := interactive_bfshell\<rparr>)"
| "parse_loop_test (OPT_UCLI # os) m = parse_loop_test os (m\<lparr>cli_mode_test := interactive_ucli\<rparr>)"
| "parse_loop_test (OPT_h # os) m = Inl 0"
| "parse_loop_test (OPT_question # os) m = Inl 1"
| "parse_loop_test (OPT_OTHER_test # os) m = Inl 0"

definition parse_options_test :: "getopt_test list \<Rightarrow> test_state \<Rightarrow> int + test_state" where
  "parse_options_test os m =
     (case parse_loop_test os m of Inl code \<Rightarrow> Inl code
      | Inr m \<Rightarrow>
          if install_dir (ctx_test m) = None then Inl 0
          else if conf_file (ctx_test m) = None then Inl 0
          else Inr m)"

definition ctx_zero_test :: test_ctx where
  "ctx_zero_test = \<lparr>install_dir = None, conf_file = None, kernel_pkt = False, running_in_background = False,
     dev_sts_thread = False, dev_sts_port = 0, tmr_t_id = 0, dma_t_id = 0, int_t_id = 0, pkt_t_id = 0,
     port_fsm_t_id = 0, drusim_t_id = 0, agent_t_id = [], skip_port_add = False\<rparr>"

text \<open>\<open>Inl\<close> is the status of \<^verbatim>\<open>exit\<close>, with the calls made before.\<close>

definition parse_opts_and_switchd_init ::
  "host_test \<Rightarrow> getopt_test list \<Rightarrow> cli_modes \<Rightarrow> (int \<times> test_call list) + (test_state \<times> test_call list)" where
  "parse_opts_and_switchd_init H os mode =
     (if geteuid_test H \<noteq> 0 then Inl (1, [])
      else if \<not> calloc_ok H then Inl (1, [])
      else
        let c = ctx_zero_test\<lparr>running_in_background := False, skip_port_add := False\<rparr> in
        case parse_options_test os \<lparr>ctx_test = c, cli_mode_test = mode\<rparr> of
          Inl code \<Rightarrow> Inl (code, [])
        | Inr m \<Rightarrow>
            (case lib_init_test H (ctx_test m) of (status, c') \<Rightarrow>
               if status \<noteq> BF_SUCCESS then Inl (1, [Test_lib_init (ctx_test m), Test_free])
               else Inr (m\<lparr>ctx_test := c'\<rparr>, [Test_lib_init (ctx_test m)])))"

definition run_cli_or_cleanup_test :: "test_state \<Rightarrow> test_call list" where
  "run_cli_or_cleanup_test m =
     (if cli_mode_test m = interactive_ucli then [Test_drv_shell]
      else if cli_mode_test m = interactive_bfshell then [Test_bfshell] else [])
     @ (if cli_mode_test m \<noteq> no_interactive_cli then
          (let c = ctx_test m in
           map Test_join [tmr_t_id c, dma_t_id c, int_t_id c, pkt_t_id c, port_fsm_t_id c, drusim_t_id c]
           @ map Test_join (filter (\<lambda>t. t \<noteq> 0) (agent_t_id c)))
        else [])
     @ [Test_free]"

subsection \<open>The program (main.cpp)\<close>

text \<open>
  The handler of \<^verbatim>\<open>SIGTSTP\<close>: it prints the number of learned entries and the use of the table, and
  exits. Its result is the two numbers and the status of the process.
\<close>

definition signalHandler ::
  "('h, 'k, 'd, 'l, 'a) bfrt_api \<Rightarrow> u32 \<Rightarrow> int \<Rightarrow> ('h, 'k, 'd, 'a) hal \<Rightarrow> (u32 \<times> u32 \<times> int) outcome" where
  "signalHandler api junk signum s =
     bindR (hal_route_table_usage_get api junk s) (\<lambda>((_, entry_count), s).
       Inr (total_insert s, entry_count, signum))"

text \<open>
  The result of the program: its status, the calls of the library in their order, what the route test
  printed (unless the process ended before), and the state of the HAL.
\<close>

definition test_main ::
  "host_test \<Rightarrow> ('h, 'k, 'd, 'l, 'a) bfrt_api \<Rightarrow> u32 \<Rightarrow> bf_rt_target \<Rightarrow> u32 \<Rightarrow> getopt_test list \<Rightarrow>
   ('h, 'k, 'd, 'a) hal \<Rightarrow>
   (int \<times> test_call list \<times> (u32 list \<times> u32) option \<times> ('h, 'k, 'd, 'a) hal) outcome" where
  "test_main H api dir_all tgt0 junk os s =
     (case parse_opts_and_switchd_init H os no_interactive_cli of
        Inl (code, calls) \<Rightarrow> Inr (code, calls, None, s)
      | Inr (m, calls) \<Rightarrow>
          bindR (hal_init api dir_all tgt0 s) (\<lambda>s.
          let s = s\<lparr>drv := (drv s)\<lparr>index_repalce_action := True, aged_replace_flag := True\<rparr>\<rparr> in
          bindR (test_route api (g_session s) junk s) (\<lambda>(printed, s).
            Inr (0, calls @ run_cli_or_cleanup_test m, Some printed, s))))"

subsection \<open>What the program does\<close>

text \<open>The library starts only for root and with both paths, which are those given last.\<close>

lemma parse_loop_test_keeps:
  "parse_loop_test os m = Inr m' \<Longrightarrow>
     running_in_background (ctx_test m') = running_in_background (ctx_test m) \<and>
     skip_port_add (ctx_test m') = skip_port_add (ctx_test m) \<and>
     OPT_h \<notin> set os \<and> OPT_question \<notin> set os \<and> OPT_OTHER_test \<notin> set os"
  by (induction os m rule: parse_loop_test.induct) auto

lemma switchd_init_guards:
  assumes "parse_opts_and_switchd_init H os mode = Inr (m, calls)"
  obtains c where "calls = [Test_lib_init c]" and "geteuid_test H = 0" and "install_dir c \<noteq> None"
    and "conf_file c \<noteq> None" and "\<not> skip_port_add c" and "\<not> running_in_background c"
    and "lib_init_test H c = (0, ctx_test m)"
proof -
  let ?c = "ctx_zero_test\<lparr>running_in_background := False, skip_port_add := False\<rparr>"
  from assms obtain m0 where m0: "geteuid_test H = 0"
    "parse_options_test os \<lparr>ctx_test = ?c, cli_mode_test = mode\<rparr> = Inr m0"
    "lib_init_test H (ctx_test m0) = (0, ctx_test m)" "calls = [Test_lib_init (ctx_test m0)]"
    by (auto simp: parse_opts_and_switchd_init_def BF_SUCCESS_def Let_def split: if_splits sum.splits prod.splits)
  from m0(2) have loop: "parse_loop_test os \<lparr>ctx_test = ?c, cli_mode_test = mode\<rparr> = Inr m0"
    and "install_dir (ctx_test m0) \<noteq> None" "conf_file (ctx_test m0) \<noteq> None"
    by (auto simp: parse_options_test_def split: sum.splits if_splits)
  then show thesis using that m0 parse_loop_test_keeps [OF loop] by simp
qed

text \<open>
  Once the library and the HAL are up, the program runs the route test with the session of the HAL and
  ends with status 0.
\<close>

lemma test_main_returns:
  assumes "bfrt_route_del api view info tbl sid did act nid tid"
    and "bfRtInfoGet api 0 ''shc_real_time_sketch'' = (0, info)"
    and "hal_init api dir_all tgt0 s0 = Inr s"
    and "parse_opts_and_switchd_init H os no_interactive_cli = Inr (m, calls)"
  shows "\<exists>printed s'. test_main H api dir_all tgt0 junk os s0 =
    Inr (0, calls @ run_cli_or_cleanup_test m, Some printed, s')"
proof -
  let ?s = "s\<lparr>drv := (drv s)\<lparr>index_repalce_action := True, aged_replace_flag := True\<rparr>\<rparr>"
  note base = bfrt_route_del.axioms(1) [OF assms(1)]
  have "bfrt_route.ready tbl sid did act nid tid ?s"
    using bfrt_route.hal_init_ready [OF base assms(2,3)] bfrt_route_del.ready_drv [OF assms(1)] by blast
  then obtain printed s' where "test_route api (g_session ?s) junk ?s = Inr (printed, s')"
    using bfrt_route_del.test_route_steps [OF assms(1)] by blast
  then show ?thesis by (simp add: test_main_def assms(3,4) Let_def)
qed

text \<open>
  The handler takes the mutex of the table. When the signal interrupts the thread inside a call of the
  interface, the mutex is held and the handler blocks.
\<close>

lemma signalHandler_in_call:
  assumes "route_table s = Some r" and "table_mutex r"
  shows "signalHandler api junk signum s = Inl Deadlock"
  using assms
  by (simp add: signalHandler_def hal_route_table_usage_get_def locked_call_def deref_table_def tableMutexLock_def)

end
