(* ===== verification/Shc_Pkt.thy ===== *)
theory Shc_Pkt
  imports Ntb_Netio
begin

text \<open>
  The packet thread of the C++ agent (\<^verbatim>\<open>agent/agent-bak/shc_pkt.cpp\<close> and \<^verbatim>\<open>main.cpp\<close>), its log level
  (\<^verbatim>\<open>common/log.cpp\<close>), and the listener of \<^verbatim>\<open>test_for_learn/raw_socket.c\<close>. As in \<open>Ntb_Netio\<close> the calls
  into the system and the event library are recorded and answered by an oracle; the packet filter
  is run by the interpreter of \<open>Ntb_Bpf\<close>.
\<close>

subsection \<open>Log level (common/log.cpp)\<close>

datatype level_enum = lvl_trace | lvl_debug | lvl_info | lvl_warn | lvl_err | lvl_critical

definition log_map :: "(string \<times> level_enum) list" where
  "log_map = [(''trace'', lvl_trace), (''debug'', lvl_debug), (''info'', lvl_info), (''warn'', lvl_warn),
     (''err'', lvl_err), (''crit'', lvl_critical)]"

definition sfc_string_2_loglevel :: "string \<Rightarrow> level_enum" where
  "sfc_string_2_loglevel loglevel = (case map_of log_map loglevel of Some l \<Rightarrow> l | None \<Rightarrow> lvl_info)"

text \<open>Every level has a name, and every other string stands for \<open>lvl_info\<close>.\<close>

lemma loglevel_onto: "l \<in> sfc_string_2_loglevel ` fst ` set log_map"
  by (cases l) (simp_all add: sfc_string_2_loglevel_def log_map_def)

lemma loglevel_other: "n \<notin> fst ` set log_map \<Longrightarrow> sfc_string_2_loglevel n = lvl_info"
  by (simp add: sfc_string_2_loglevel_def map_of_eq_None_iff [THEN iffD2])

subsection \<open>Calls\<close>

datatype pkt_call =
    Prctl_name string
  | Set_level level_enum
  | Set_pattern string
  | Syslog_logger string
  | Log_info string
  | Base_new
  | Socket_raw u32
  | Hdrincl int
  | Filter_attach int "sock_filter list"
  | Event_new int int
  | Event_arm int
  | Base_loop int

type_synonym pkt_log = "pkt_call list"
type_synonym pkt_os = "pkt_log \<Rightarrow> pkt_call \<Rightarrow> int"

definition pkt_sys :: "pkt_os \<Rightarrow> pkt_call \<Rightarrow> pkt_log \<Rightarrow> int \<times> pkt_log" where
  "pkt_sys os c log = (os log c, log @ [c])"

text \<open>\<^verbatim>\<open>assert\<close> aborts the process in a build without \<^verbatim>\<open>NDEBUG\<close>; \<open>A\<close> says which build it is.\<close>

definition c_assert :: "bool \<Rightarrow> bool \<Rightarrow> unit outcome" where
  "c_assert A b = (if A \<and> \<not> b then Inl AssertFailed else Inr ())"

definition log_init :: "pkt_os \<Rightarrow> string \<Rightarrow> pkt_log \<Rightarrow> int \<times> pkt_log" where
  "log_init os FLAGS_loglevel log =
     (let (_, log) = pkt_sys os (Set_level (sfc_string_2_loglevel FLAGS_loglevel)) log;
          (_, log) = pkt_sys os (Set_pattern ''[%H:%M:%S %z] [%^%L%$] [thread %t] %v'') log;
          (_, log) = pkt_sys os (Syslog_logger ''sfc'') log;
          (_, log) = pkt_sys os (Log_info (''Init loglevel: '' @ FLAGS_loglevel @ ''.'')) log
      in (0, log))"

subsection \<open>Sockets and events (shc\_pkt.cpp)\<close>

definition IPPROTO_GRE :: u32 where "IPPROTO_GRE = 47"

text \<open>The handler of received packets is empty.\<close>

definition shc_process_pkt :: "int \<Rightarrow> 's \<Rightarrow> 's" where
  "shc_process_pkt sock s = s"

definition vxlan_insns :: "sock_filter list" where
  "vxlan_insns =
     [LD_B_ABS 9,
      JEQ_K IPPROTO_UDP 0 6,
      LD_H_ABS 6,
      JSET_K 0x1fff 4 0,
      LDX_B_MSH 0,
      LD_H_IND 2,
      JEQ_K 4789 0 1,
      RET_K 0x7fffffff,
      RET_K 0]"

definition shc_pkt_vxlan_init :: "bool \<Rightarrow> pkt_os \<Rightarrow> int \<Rightarrow> pkt_log \<Rightarrow> (int \<times> pkt_log) outcome" where
  "shc_pkt_vxlan_init A os pev_base log =
     bindR (c_assert A (pev_base \<noteq> 0)) (\<lambda>_.
     case pkt_sys os (Socket_raw IPPROTO_UDP) log of (raw_sock, log) \<Rightarrow>
     bindR (c_assert A (raw_sock \<ge> 0)) (\<lambda>_.
     case pkt_sys os (Hdrincl raw_sock) log of (ret, log) \<Rightarrow>
     bindR (c_assert A (ret = 0)) (\<lambda>_.
     case pkt_sys os (Filter_attach raw_sock vxlan_insns) log of (ret, log) \<Rightarrow>
     bindR (c_assert A (ret = 0)) (\<lambda>_.
     case pkt_sys os (Event_new pev_base raw_sock) log of (event, log) \<Rightarrow>
     bindR (c_assert A (event \<noteq> 0)) (\<lambda>_.
     case pkt_sys os (Event_arm event) log of (ret, log) \<Rightarrow>
     bindR (c_assert A (ret = 0)) (\<lambda>_. Inr (ret, log)))))))"

definition shc_pkt_gre_init :: "bool \<Rightarrow> pkt_os \<Rightarrow> int \<Rightarrow> pkt_log \<Rightarrow> (int \<times> pkt_log) outcome" where
  "shc_pkt_gre_init A os pev_base log =
     bindR (c_assert A (pev_base \<noteq> 0)) (\<lambda>_.
     case pkt_sys os (Socket_raw IPPROTO_GRE) log of (raw_sock, log) \<Rightarrow>
     bindR (c_assert A (raw_sock \<ge> 0)) (\<lambda>_.
     case pkt_sys os (Hdrincl raw_sock) log of (ret, log) \<Rightarrow>
     bindR (c_assert A (ret = 0)) (\<lambda>_.
     case pkt_sys os (Event_new pev_base raw_sock) log of (event, log) \<Rightarrow>
     bindR (c_assert A (event \<noteq> 0)) (\<lambda>_.
     case pkt_sys os (Event_arm event) log of (ret, log) \<Rightarrow>
     bindR (c_assert A (ret = 0)) (\<lambda>_. Inr (ret, log))))))"

text \<open>The result carries the global \<^verbatim>\<open>g_pev_base\<close>.\<close>

definition shc_pkt_init :: "bool \<Rightarrow> pkt_os \<Rightarrow> pkt_log \<Rightarrow> (int \<times> int \<times> pkt_log) outcome" where
  "shc_pkt_init A os log =
     (case pkt_sys os Base_new log of (g_pev_base, log) \<Rightarrow>
      bindR (c_assert A (g_pev_base \<noteq> 0)) (\<lambda>_.
      bindR (shc_pkt_vxlan_init A os g_pev_base log) (\<lambda>(_, log).
      bindR (shc_pkt_gre_init A os g_pev_base log) (\<lambda>(_, log). Inr (0, g_pev_base, log)))))"

definition sfc_pkt_thread :: "bool \<Rightarrow> pkt_os \<Rightarrow> pkt_log \<Rightarrow> pkt_log outcome" where
  "sfc_pkt_thread A os log =
     (let (_, log) = pkt_sys os (Prctl_name ''sfc_pkt_thread'') log in
      bindR (shc_pkt_init A os log) (\<lambda>(_, g_pev_base, log).
      let (_, log) = pkt_sys os (Base_loop g_pev_base) log;
          (_, log) = pkt_sys os (Log_info ''sfc_pkt_thread exit'') log
      in Inr log))"

text \<open>The main thread starts the packet thread and waits for it. The flags are parsed before.\<close>

definition sfc_main :: "bool \<Rightarrow> pkt_os \<Rightarrow> string \<Rightarrow> pkt_log \<Rightarrow> (int \<times> pkt_log) outcome" where
  "sfc_main A os FLAGS_loglevel log =
     (let (_, log) = pkt_sys os (Prctl_name ''sfc'') log;
          (_, log) = log_init os FLAGS_loglevel log
      in bindR (sfc_pkt_thread A os log) (\<lambda>log.
         let (_, log) = pkt_sys os (Log_info ''sfc exit'') log in Inr (0, log)))"

text \<open>The filter is the one of the C agent, whose verdicts are known exactly.\<close>

lemma vxlan_insns_udp: "vxlan_insns = udp_insns"
  by (simp add: vxlan_insns_def udp_insns_def)

text \<open>Which results of a call its assertion accepts, and the calls that the initialisation makes.\<close>

fun pkt_call_ok :: "pkt_call \<Rightarrow> int \<Rightarrow> bool" where
  "pkt_call_ok Base_new r = (r \<noteq> 0)"
| "pkt_call_ok (Socket_raw p) r = (r \<ge> 0)"
| "pkt_call_ok (Hdrincl fd) r = (r = 0)"
| "pkt_call_ok (Filter_attach fd prog) r = (r = 0)"
| "pkt_call_ok (Event_new b fd) r = (r \<noteq> 0)"
| "pkt_call_ok (Event_arm e) r = (r = 0)"
| "pkt_call_ok _ r = True"

fun pkt_calls_ok :: "pkt_os \<Rightarrow> pkt_log \<Rightarrow> pkt_call list \<Rightarrow> bool" where
  "pkt_calls_ok os log [] = True"
| "pkt_calls_ok os log (c # cs) = (pkt_call_ok c (os log c) \<and> pkt_calls_ok os (log @ [c]) cs)"

definition pkt_init_calls :: "pkt_os \<Rightarrow> pkt_log \<Rightarrow> pkt_call list" where
  "pkt_init_calls os log =
     (let b = os log Base_new;
          l1 = log @ [Base_new];
          u = os l1 (Socket_raw IPPROTO_UDP);
          l4 = l1 @ [Socket_raw IPPROTO_UDP, Hdrincl u, Filter_attach u vxlan_insns];
          e = os l4 (Event_new b u);
          l6 = l4 @ [Event_new b u, Event_arm e];
          g = os l6 (Socket_raw IPPROTO_GRE);
          l8 = l6 @ [Socket_raw IPPROTO_GRE, Hdrincl g];
          f = os l8 (Event_new b g)
      in [Base_new, Socket_raw IPPROTO_UDP, Hdrincl u, Filter_attach u vxlan_insns, Event_new b u, Event_arm e,
          Socket_raw IPPROTO_GRE, Hdrincl g, Event_new b g, Event_arm f])"

text \<open>
  With assertions the thread gets to its event loop exactly if all ten calls succeed; without them it
  always does. The filter is on the UDP socket before its event is armed; the GRE socket has none.
\<close>

lemma shc_pkt_init_calls:
  "shc_pkt_init A os log =
     (if A \<and> \<not> pkt_calls_ok os log (pkt_init_calls os log) then Inl AssertFailed
      else Inr (0, os log Base_new, log @ pkt_init_calls os log))"
  by (simp add: shc_pkt_init_def shc_pkt_vxlan_init_def shc_pkt_gre_init_def pkt_sys_def c_assert_def
      pkt_init_calls_def Let_def)

definition sfc_start_calls :: "string \<Rightarrow> pkt_call list" where
  "sfc_start_calls lvl =
     [Prctl_name ''sfc'', Set_level (sfc_string_2_loglevel lvl),
      Set_pattern ''[%H:%M:%S %z] [%^%L%$] [thread %t] %v'', Syslog_logger ''sfc'',
      Log_info (''Init loglevel: '' @ lvl @ ''.''), Prctl_name ''sfc_pkt_thread'']"

lemma sfc_main_calls:
  "sfc_main A os lvl [] =
     (let pre = sfc_start_calls lvl in
      if A \<and> \<not> pkt_calls_ok os pre (pkt_init_calls os pre) then Inl AssertFailed
      else Inr (0, pre @ pkt_init_calls os pre
        @ [Base_loop (os pre Base_new), Log_info ''sfc_pkt_thread exit'', Log_info ''sfc exit'']))"
  by (simp add: sfc_main_def sfc_pkt_thread_def shc_pkt_init_calls pkt_sys_def log_init_def sfc_start_calls_def Let_def)

subsection \<open>The listener (raw\_socket.c)\<close>

definition hex_digit :: "nat \<Rightarrow> char" where
  "hex_digit n = ''0123456789abcdef'' ! n"

text \<open>\<^verbatim>\<open>%02x\<close> of a byte.\<close>

definition hex2 :: "u8 \<Rightarrow> string" where
  "hex2 b = [hex_digit (unat b div 16), hex_digit (unat b mod 16)]"

fun mac_text :: "u8 list \<Rightarrow> string" where
  "mac_text [] = []"
| "mac_text [b] = hex2 b"
| "mac_text (b # bs) = hex2 b @ '':'' @ mac_text bs"

datatype raw_line =
    Banner string
  | Proto string
  | Ports u16 u16
  | Ips "u8 list" "u8 list"
  | Macs "u8 list" "u8 list"

definition buf_be16 :: "u8 list \<Rightarrow> nat \<Rightarrow> u16" where
  "buf_be16 buffer i = push_bit 8 (ucast (buffer ! i)) OR ucast (buffer ! Suc i)"

definition showip :: "u8 list \<Rightarrow> raw_line" where
  "showip buffer = Ips (take 4 (drop 26 buffer)) (take 4 (drop 30 buffer))"

text \<open>
  One round of the loop: the frame is received into a zeroed buffer of 1024 bytes, and a longer one is
  cut.
\<close>

definition raw_round :: "u8 list \<Rightarrow> raw_line list" where
  "raw_round frame =
     (let buffer = take 1024 (frame @ replicate 1024 0);
          et = mac_text (take 6 buffer)
      in if et = ''22:d0:2e:3d:42:c2'' then
           let type = hex2 (buffer ! 12) @ hex2 (buffer ! 13) in
           (if type = ''0800'' then
              [Banner ''IP'']
              @ (if buffer ! 23 = 0x06 then [Proto ''TCP''] else if buffer ! 23 = 0x11 then [Proto ''UDP''] else [])
              @ [Ports (buf_be16 buffer 34) (buf_be16 buffer 36), showip buffer]
            else if type = ''0806'' then [Banner ''ARP'', showip buffer]
            else if type = ''8035'' then [Banner ''RARP'']
            else [Banner type])
           @ [Macs (take 6 (drop 6 buffer)) (take 6 buffer)]
         else [])"

text \<open>
  The program: \<open>sock\<close> is what \<^verbatim>\<open>socket\<close> returned. It ends, with status 1, only when that is an error;
  otherwise it prints the lines of the frames it has received so far.
\<close>

definition raw_socket_main :: "int \<Rightarrow> u8 list list \<Rightarrow> int option \<times> raw_line list" where
  "raw_socket_main sock frames =
     (if 0 > sock then (Some 1, []) else (None, concat (map raw_round frames)))"

lemma hex_digit_inject: "m < 16 \<Longrightarrow> n < 16 \<Longrightarrow> hex_digit m = hex_digit n \<longleftrightarrow> m = n"
  unfolding hex_digit_def by (rule nth_eq_iff_index_eq) simp_all

lemma hex2_inject [simp]: "hex2 a = hex2 b \<longleftrightarrow> a = b"
proof
  assume "hex2 a = hex2 b"
  moreover have "unat x div 16 < 16" for x :: u8
    using unsigned_less [of x, where ?'a = nat] by (simp add: less_mult_imp_div_less)
  ultimately have "unat a div 16 = unat b div 16" and "unat a mod 16 = unat b mod 16"
    by (simp_all add: hex2_def hex_digit_inject)
  then have "unat a = unat b" by (metis div_mult_mod_eq)
  then show "a = b" by (simp add: word_unat_eq_iff)
qed simp

lemma hex2_length [simp]: "length (hex2 b) = 2"
  by (simp add: hex2_def)

lemma mac_text_inject: "length as = length bs \<Longrightarrow> mac_text as = mac_text bs \<longleftrightarrow> as = bs"
proof (induction as arbitrary: bs rule: mac_text.induct)
  case (2 a)
  then obtain b where "bs = [b]" by (auto simp: length_Suc_conv eq_commute [of "Suc 0"])
  then show ?case by simp
next
  case (3 a a' as)
  then have "length bs = Suc (Suc (length as))" by simp
  then obtain b b' bs' where bs: "bs = b # b' # bs'" "length as = length bs'" by (auto simp: length_Suc_conv)
  then show ?case using "3.IH" [of "b' # bs'"] by (simp add: append_eq_append_conv)
qed simp

text \<open>The listener prints something exactly for the frames to its one station address.\<close>

lemma raw_round_filter:
  "raw_round frame \<noteq> [] \<longleftrightarrow> take 6 (frame @ replicate 1024 0) = [0x22, 0xd0, 0x2e, 0x3d, 0x42, 0xc2]"
proof -
  have "mac_text [0x22, 0xd0, 0x2e, 0x3d, 0x42, 0xc2 :: u8] = ''22:d0:2e:3d:42:c2''"
    by (simp add: hex2_def hex_digit_def)
  then have "mac_text (take 6 (frame @ replicate 1024 0)) = ''22:d0:2e:3d:42:c2'' \<longleftrightarrow>
      take 6 (frame @ replicate 1024 0) = [0x22, 0xd0, 0x2e, 0x3d, 0x42, 0xc2]"
    using mac_text_inject [of "take 6 (frame @ replicate 1024 0)" "[0x22, 0xd0, 0x2e, 0x3d, 0x42, 0xc2]"] by simp
  then show ?thesis by (simp add: raw_round_def Let_def del: take_append)
qed

end
