(* ===== verification/Shc_Flows.thy ===== *)
theory Shc_Flows
  imports Shc_Ipset "HOL-Library.Char_ord" "HOL-Library.List_Lexorder"
begin

text \<open>
  Aggregation of the learned flows (\<^verbatim>\<open>flow_processing/cs_rules_aggregation.cpp\<close>): the program reads
  the flow log line by line, cuts each line at its last comma, and writes every flow id once, in
  the order of \<^verbatim>\<open>std::map\<close>, which is the lexicographic order of bytes.
\<close>

subsection \<open>The program\<close>

record pt_t =
  pkt :: u32
  stime :: u32

definition pt_zero :: pt_t where "pt_zero = \<lparr>pkt = 0, stime = 0\<rparr>"

type_synonym rules_t = "(string \<times> pt_t) list"

text \<open>
  \<^verbatim>\<open>std::map\<close>: an association list in increasing order of its keys; \<^verbatim>\<open>rules[key]\<close> creates a zero
  entry when there is none, and \<open>map_at\<close> applies the assignment to it.
\<close>

fun map_at :: "string \<Rightarrow> (pt_t \<Rightarrow> pt_t) \<Rightarrow> rules_t \<Rightarrow> rules_t" where
  "map_at k f [] = [(k, f pt_zero)]"
| "map_at k f ((k', p) # m) =
     (if k < k' then (k, f pt_zero) # (k', p) # m
      else if k' < k then (k', p) # map_at k f m
      else (k', f p) # m)"

text \<open>
  \<^verbatim>\<open>find_last_of\<close> gives a position or \<^verbatim>\<open>npos\<close>; the result goes through an \<^verbatim>\<open>int\<close>, and a negative
  value means the whole string when it comes back as a length.
\<close>

fun last_pos :: "char \<Rightarrow> string \<Rightarrow> nat option" where
  "last_pos c [] = None"
| "last_pos c (x # xs) =
     (case last_pos c xs of Some i \<Rightarrow> Some (Suc i) | None \<Rightarrow> if x = c then Some 0 else None)"

definition find_last_of :: "char \<Rightarrow> string \<Rightarrow> u64" where
  "find_last_of c a = (case last_pos c a of None \<Rightarrow> - 1 | Some i \<Rightarrow> of_nat i)"

definition substr0 :: "string \<Rightarrow> u64 \<Rightarrow> string" where
  "substr0 a n = take (unat n) a"

definition flowid_of :: "string \<Rightarrow> string" where
  "flowid_of a =
     (let pos = (ucast (find_last_of (CHR '','') a) :: u32)
      in substr0 a (scast pos))"

record agg_state =
  rules :: rules_t
  len :: u32
  num_of_rules :: int

definition agg_line :: "string \<Rightarrow> agg_state \<Rightarrow> agg_state" where
  "agg_line a s =
     (let pkts = 0; st = 0; flowid = flowid_of a; m = rules s;
          m = (case map_of m flowid of
                 Some _ \<Rightarrow>
                   (let m = map_at flowid (\<lambda>p. p\<lparr>pkt := pkt p + pkts\<rparr>) m
                    in case map_of m flowid of
                         Some p \<Rightarrow> if stime p > st then map_at flowid (\<lambda>p. p\<lparr>stime := st\<rparr>) m else m
                       | None \<Rightarrow> m)
               | None \<Rightarrow>
                   (let m = map_at flowid (\<lambda>p. p\<lparr>pkt := pkts\<rparr>) m
                    in map_at flowid (\<lambda>p. p\<lparr>stime := st\<rparr>) m))
      in s\<lparr>rules := m, len := len s + pkts, num_of_rules := num_of_rules s + 1\<rparr>)"

text \<open>
  The program on the content of the flow log (\<open>None\<close> when it cannot be opened, which is reported and
  then treated as an empty file): the aggregated file and the line of counts.
\<close>

definition agg_main :: "string option \<Rightarrow> bool \<times> string \<times> (int \<times> int)" where
  "agg_main file =
     (let lines = (case file of None \<Rightarrow> [] | Some content \<Rightarrow> tokenize content (CHR 0x0A));
          s = fold agg_line lines \<lparr>rules = [], len = 0, num_of_rules = 0\<rparr>;
          out = concat (map (\<lambda>(k, p). k @ [CHR 0x0A]) (rules s))
      in (file = None, out, (num_of_rules s, int (length (rules s)))))"

subsection \<open>The map stays sorted\<close>

definition rules_inv :: "rules_t \<Rightarrow> bool" where
  "rules_inv m \<longleftrightarrow> sorted (map fst m) \<and> distinct (map fst m)"

lemma map_at_keys: "set (map fst (map_at k f m)) = insert k (set (map fst m))"
  by (induction m rule: map_at.induct) auto

lemma map_at_inv: "rules_inv m \<Longrightarrow> rules_inv (map_at k f m)"
proof (induction m)
  case (Cons kp m)
  obtain k' p where kp: "kp = (k', p)" by (cases kp)
  consider "k < k'" | "k' < k" | "k = k'" by fastforce
  then show ?case
  proof cases
    case 2
    have "set (map fst (map_at k f m)) = insert k (set (map fst m))" by (rule map_at_keys)
    with 2 Cons show ?thesis by (auto simp: kp rules_inv_def)
  qed (use Cons.prems in \<open>auto simp: kp rules_inv_def\<close>)
qed (simp add: rules_inv_def)

lemma agg_line_rules:
  assumes "rules_inv (rules s)"
  shows "rules_inv (rules (agg_line a s)) \<and>
    set (map fst (rules (agg_line a s))) = insert (flowid_of a) (set (map fst (rules s))) \<and>
    num_of_rules (agg_line a s) = num_of_rules s + 1"
  using assms map_at_inv map_at_keys
  by (auto simp: agg_line_def Let_def split: option.splits)

lemma agg_fold:
  assumes "rules_inv (rules s)"
  shows "rules_inv (rules (fold agg_line as s)) \<and>
    set (map fst (rules (fold agg_line as s))) = set (map fst (rules s)) \<union> flowid_of ` set as \<and>
    num_of_rules (fold agg_line as s) = num_of_rules s + int (length as)"
  using assms
proof (induction as arbitrary: s)
  case (Cons a as)
  with agg_line_rules [OF Cons.prems, of a] Cons.IH [of "agg_line a s"] show ?case by simp
qed simp

lemma last_pos_None: "c \<notin> set a \<Longrightarrow> last_pos c a = None"
  by (induction a) auto

lemma last_pos_Some: "c \<notin> set b \<Longrightarrow> last_pos c (a @ c # b) = Some (length a)"
  by (induction a) (auto simp: last_pos_None)

lemma int_round_trip:
  assumes "n < 2 ^ 31"
  shows "unat (scast (ucast (of_nat n :: u64) :: u32) :: u64) = n"
proof -
  have "sint (ucast (of_nat n :: u64) :: u32) = int n"
    using assms by transfer (simp add: signed_take_bit_int_eq_self take_bit_int_eq_self)
  then have "scast (ucast (of_nat n :: u64) :: u32) = (of_nat n :: u64)"
    by (metis of_int_of_nat_eq of_int_sint scast_eq)
  then show ?thesis using assms by (simp add: unsigned_of_nat take_bit_nat_eq_self)
qed

text \<open>The flow id of a line is what stands before its last comma, or the line if it has none.\<close>

lemma flowid_of_comma:
  assumes "CHR '','' \<notin> set b" and "length a < 2 ^ 31"
  shows "flowid_of (a @ CHR '','' # b) = a"
  using assms
  by (simp add: flowid_of_def substr0_def find_last_of_def last_pos_Some int_round_trip)

lemma flowid_of_no_comma:
  assumes "CHR '','' \<notin> set a" and "length a < 2 ^ 64"
  shows "flowid_of a = a"
proof -
  have "scast (ucast (- 1 :: u64) :: u32) = (- 1 :: u64)" by code_simp
  moreover have "unat (- 1 :: u64) = 2 ^ 64 - 1" by (simp add: unsigned_minus_1_eq_mask mask_eq_exp_minus_1)
  ultimately show ?thesis using assms
    by (simp add: flowid_of_def substr0_def find_last_of_def last_pos_None)
qed


end
