(* ===== verification/Spec2Isabelle.thy ===== *)
theory Spec2Isabelle
  imports Ntb_Tunnel_Props Ntb_Route_Props Ntb_Vrf_Props Ntb_Neigh_Props Ntb_Gateway Ntb_Entry_Api
    Ntb_Main Ntb_Nhop_Pool Shc_Lpm_Props Shc_Ipset_Order Shc_Hal_Props Shc_Log Shc_Test_Main Shc_Pkt Shc_Flows
begin

text \<open>
  \<^bold>\<open>A verification of the TAO gateway.\<close> The repository holds the software of a network gateway that
  forwards the traffic of tenants over VXLAN tunnels and offloads flows to a Tofino switch.

  \<^bold>\<open>The program and its parts.\<close>
  The agent (\<^verbatim>\<open>src/agent\<close>, C over DPDK) keeps four tables that the control plane fills: virtual routers
  (VRFs), routes with their next hops, neighbours (the MAC addresses of next hops) and the map from
  tunnels to VRFs. A packet thread receives tunnelled frames through a raw socket with a packet filter,
  finds the VRF by the tunnel, the route by the inner destination and the MAC address by the gateway,
  and produces the values for the switch. The older agent (\<^verbatim>\<open>src/agent/zdw_agent\<close>) has the same control
  plane without the calls into the switch, and its packet thread forwards in software. The hardware layer (\<^verbatim>\<open>src/platform/drivers\<close>, C++ over the run-time
  library of the switch) keeps one table of learned flows, filled by the learning callback and thinned
  by the aging callback; \<^verbatim>\<open>test_hal\<close> holds the programs that exercise it on a switch. The common library (\<^verbatim>\<open>src/common\<close>, C++) has address and prefix classes and a
  prefix table; \<^verbatim>\<open>src/flow_processing\<close> is a tool on flow logs.

  \<^bold>\<open>Modelling.\<close>
  A C function is a function on the whole state of its component, with the name it has in the source;
  structs are records, enumerations datatypes, fixed-width integers words, and heap objects live in
  partial maps from addresses. Everything the source can do wrong is a value of \<open>fault\<close>: reads and
  writes out of bounds, null and freed pointers, failed assertions (only when the build has them,
  \<open>assert_on\<close>), process exit, exceptions, and locks that never become free. Libraries outside the
  repository are parameters: \<open>env\<close> (hash tables, arrays, the forwarding table, the allocator, the
  hardware interface), \<open>mbuf_api\<close>, \<open>rwlock_api\<close>, \<open>os\<close>, \<open>inet_api\<close>, \<open>bfrt_api\<close>, \<open>platform_api\<close>, \<open>host\<close>, \<open>host_test\<close>, \<open>pkt_os\<close>. What the code relies on
  in them is the \<open>assumes\<close> of a locale, and each locale is interpreted on a concrete implementation, at
  which the properties are applied by their witnesses.

  \<^bold>\<open>Theories and the code they model.\<close>
  \<^item> \<open>Ntb_Prelude\<close>: faults, the error monad, byte order, generic lemmas. \<open>Ntb_Errno\<close>: \<^verbatim>\<open>ntb_errno.h\<close>, the
    numbering of error codes, and \<^verbatim>\<open>stat.h\<close>. \<open>Ntb_Types\<close>: \<^verbatim>\<open>ntb_dp.h\<close>, \<^verbatim>\<open>route.h\<close>, \<^verbatim>\<open>neigh.h\<close>, \<^verbatim>\<open>vrf.h\<close>, \<^verbatim>\<open>tunnel_map.h\<close>.
  \<^item> \<open>Ntb_Env\<close>, \<open>Ntb_Ref_Env\<close>: the DPDK libraries as the locale \<open>dpdk_env\<close> and its interpretation.
    \<open>Ntb_Refcount\<close>: reference-counted objects behind a hash table, as a locale that next hops and
    neighbours interpret. \<open>Ntb_State\<close>: the state of the agent and its parts.
  \<^item> \<open>Ntb_Neigh\<close> (\<^verbatim>\<open>neigh.c\<close>), \<open>Ntb_Route_Obj\<close> and \<open>Ntb_Route\<close> (\<^verbatim>\<open>route.c\<close>), \<open>Ntb_Vrf\<close> and \<open>Ntb_Vrf_Life\<close> (\<^verbatim>\<open>vrf.c\<close>),
    \<open>Ntb_Tunnel\<close> (\<^verbatim>\<open>tunnel_map.c\<close> and its two older versions).
  \<^item> \<open>Ntb_Route_Inv\<close>, \<open>Ntb_Route_Ops\<close>: the invariant of the routing tables and what the operations do to
    it. \<open>Ntb_Control\<close>: the invariant of the whole agent, the requests of the control plane, the states
    they reach. \<open>Ntb_Lookup\<close>: the forwarding table as longest prefix match, and the lookup.
  \<^item> \<open>Ntb_Bpf\<close>, \<open>Ntb_Netio\<close> (\<^verbatim>\<open>netio.c\<close>): the packet filter with an interpreter of its instructions, the
    locks, the socket setup as a list of system calls. \<open>Ntb_Pmd\<close>, \<open>Ntb_Pmd_Path\<close> (\<^verbatim>\<open>zdw_agent/pmd.c\<close>): the
    packet path, over packet buffers that keep the locale \<open>rte_mbuf\<close>, and the threads. \<open>Ntb_Zdw\<close>
    (\<^verbatim>\<open>zdw_agent/route.c\<close>, \<^verbatim>\<open>zdw_agent/neigh.c\<close>): the operations of the older agent that differ, with the suffix
    \<open>_zdw\<close>, and its equivalence with the current agent over a HAL that refuses; \<open>Ntb_Zdw_Neigh\<close>: what its
    neighbour table can hold. \<open>Ntb_Gateway\<close>: the older agent as a whole, requests and packets interleaved under the dataplane lock (locale \<open>rwlock\<close>), as
    the inductive predicate \<open>gateway\<close>. \<open>Ntb_Entry_Api\<close> (\<^verbatim>\<open>entry_api.c\<close>): the download of a rule. \<open>Ntb_Main\<close> (\<^verbatim>\<open>main.c\<close> of both
    agents): the start of the process.
  \<^item> \<open>Ntb_Nhop_Ids\<close> (\<^verbatim>\<open>agent-bak/route.c\<close>, \<^verbatim>\<open>agent-bak/neigh.c\<close>): the deletion of next hops in the first copy of the agent, which
    gives object ids back, over an allocator given by the locale \<open>oid_pool\<close>; next hops interpret \<open>refcounted\<close> (locale \<open>nhop_users\<close>).
    \<open>Ntb_Nhop_Pool\<close>: the object id class of the drivers provides that allocator (locale \<open>id_gen\<close> for the generator of
    the vendor), and the agent runs on it.
  \<^item> \<open>Shc_Ip\<close>, \<open>Shc_Inet\<close>, \<open>Shc_Ipset\<close>, \<open>Shc_Ipset_Order\<close>, \<open>Shc_Lpm\<close> (\<^verbatim>\<open>src/common\<close>): addresses, prefixes, their text under the
    locale \<open>inet\<close>, address sets as an interpretation of the set interface \<open>element_set\<close>, the prefix table.
  \<^item> \<open>Shc_Hal\<close> (\<^verbatim>\<open>route.cpp\<close>, \<^verbatim>\<open>hal_table_api.cpp\<close>, \<^verbatim>\<open>hal_utils.hpp\<close>, \<^verbatim>\<open>hal_types.h\<close>, \<^verbatim>\<open>utils/object_id.cpp\<close>),
    \<open>Shc_Hal_Events\<close> (\<^verbatim>\<open>shc_digest.cpp\<close>, \<^verbatim>\<open>shc_aging.cpp\<close>, \<^verbatim>\<open>hal_init.cpp\<close>) with the interleavings of the
    callbacks as the step relation \<open>hal_step\<close>, and \<open>Shc_Hal_Ref\<close>: the contract of the run-time library
    as the locale \<open>bfrt_route\<close>, and its interpretation. \<open>Shc_Log\<close> (\<^verbatim>\<open>utils/log.cpp\<close>, \<^verbatim>\<open>utils/log.h\<close>,
    \<^verbatim>\<open>hal_common_api.cpp\<close>): the log with its levels and switches.
  \<^item> \<open>Shc_Test\<close> (\<^verbatim>\<open>test_hal/route_test.cpp\<close>, \<^verbatim>\<open>test_hal/driver_cuckoo_hash_get.cpp\<close>): the tests, and the
    extended contract \<open>bfrt_route_del\<close>; \<open>Shc_Test_Main\<close> (\<^verbatim>\<open>test_hal/main.cpp\<close>, \<^verbatim>\<open>test_hal/common.h\<close>): the program
    around them.
  \<^item> \<open>Shc_Pkt\<close> (\<^verbatim>\<open>agent-bak/shc_pkt.cpp\<close>, \<^verbatim>\<open>agent-bak/main.cpp\<close>, \<^verbatim>\<open>common/log.cpp\<close>,
    \<^verbatim>\<open>test_for_learn/raw_socket.c\<close>): the packet thread of the C++ agent and the listener.
  \<^item> \<open>Shc_Flows\<close> (\<^verbatim>\<open>cs_rules_aggregation.cpp\<close>).
  \<^item> The theories ending in \<open>_Props\<close> hold the properties with their witnesses, \<open>Ntb_Witness\<close> the concrete
    states at which they are applied.

  \<^bold>\<open>What is shown.\<close>
  \<^item> Control plane: every admissible request on a reachable state returns without a fault and keeps the
    invariant of all tables. Insertion and removal of routes, VRFs and tunnels refine updates of maps
    on every branch, with rollback on errors; the forwarding tables stay equal to the longest prefix
    match over the route map; reference counts are exact. Deleting a VRF ends, although the cleanup
    deletes from the table it iterates over.
  \<^item> Packet path: the filter accepts exactly the VXLAN packets; in any interleaving with control
    requests a complete frame of any content is handled without a fault and the lock is given back,
    and a routed frame yields the values of its next hop.
  \<^item> Older agent: its control plane equals the current one over a HAL that hands out id 0 for next hops
    and refuses ids for neighbours, so all results carry over; and it can never hold a route with a
    gateway.
  \<^item> Object ids: on the pool of the drivers, the ids in use after any run of the first copy of the agent are exactly
    those of the existing next hops; the current agent never gives an id back and takes the refusal of an
    exhausted pool for a success.
  \<^item> Hardware layer: in every interleaving of callbacks and calls the table is left unlocked and the time
    to live of new flows keeps its floor; the floating-point control law equals an integer one; batches
    of digests are handled to their end; entries are read back as written. Which messages the log
    keeps, after any sequence of configuration calls.
  \<^item> Test programs: the route test prints what it wrote and leaves nothing behind, both rate tests end,
    and the packets that the capture tool writes.
  \<^item> Common library: longest prefix match, refinement of a map, round trips of the text forms, that
    parsed prefixes never raise an exception, and that address sets are sets, for every sequence of calls.
  \<^item> Faults of the code are stated as properties too: second next hop of a multicast route, unterminated
    VRF names, ids outside the VRF array, freed tunnels that stay in the table, the lookup without a
    route, the assertion on a hash position, short datagrams, the rule download.

  \<^bold>\<open>Bounds and fuel.\<close>
  Table sizes are the constants of the source. The cleanup of a VRF is a \<open>partial_function\<close> over \<open>option\<close>,
  so not returning would be the value \<open>None\<close>; it is proved to return. So are the two loops of the HAL's
  rate tests, which end after at most 80000 insertions and 65537 deletions. No other definition needs fuel: the
  remaining loops recurse over lists or downwards over numbers, and the filter only jumps forward.
  Counters keep their width, with the wrap-around of unsigned arithmetic; the bound on the time to live
  holds for fewer than \<open>2 ^ 64 - 5001\<close> balancings.

  \<^bold>\<open>Not modelled.\<close>
  The P4 program and the SDK (not C of this repository), the text of log messages, the unit test drafts
  of the agent, which do not compile or end after their first call, and CMake's compiler probes. Of the first
  copy of the agent (\<^verbatim>\<open>agent-bak\<close>), the functions that differ from the later agents are modelled where they are
  complete; the rest is the text of the later agents, or cannot be built: a label of \<^verbatim>\<open>route.c\<close> and two
  functions of \<^verbatim>\<open>netio.c\<close> are commented out but used, \<^verbatim>\<open>pmd.c\<close> calls a function that nothing defines, and \<^verbatim>\<open>main.c\<close>
  is an empty frame. Threads are modelled as interleavings of whole callbacks, which the
  table mutex and the reader lock of the packet path enforce; memory effects below that are not.
\<close>

end
